(* ===== verification/Prelude.thy ===== *)
theory Prelude
  imports
    Main
    "HOL-Library.State_Monad"
    "HOL-Library.AList"
    "HOL-Library.Char_ord"
    "HOL-Library.List_Lexorder"
    "HOL-Library.Multiset"
    "HOL-Library.Word"
begin

text \<open>
  The shared base of the development: the functions of Go's \<open>strings\<close> package that
  the repository calls, on byte strings; association lists for Go's maps; the abbreviations
  of the state monad in which every operation with effects is written; and the generic
  lemmas on splitting, joining and prefixes that the component theories use.

  A Go string and a Go byte slice are both sequences of bytes, so both are
  \<^typ>\<open>string\<close>, whose characters are exactly the 256 bytes. Unicode-aware library
  functions (upper-casing, trimming) are written for ASCII, the only input the call sites
  can give them.
\<close>

named_theorems go_defs \<open>definitions of the model that automation may unfold\<close>
named_theorems go_string \<open>facts on the string functions\<close>

subsection \<open>Types shared by every component\<close>

type_synonym bytes = string
type_synonym 'v strmap = "(string \<times> 'v) list"

text \<open>
  A point in time is a number of nanoseconds since the Unix epoch, as is a duration:
  \<open>time.Time\<close> and \<open>time.Duration\<close>. \<open>UnixMilli\<close> rounds down.
\<close>

type_synonym time = int
type_synonym duration = int

abbreviation second :: duration where "second \<equiv> 1000000000"
abbreviation minute :: duration where "minute \<equiv> 60 * second"
abbreviation hour :: duration where "hour \<equiv> 60 * minute"

definition unixMilli :: "time \<Rightarrow> int" where
  "unixMilli t = t div 1000000"

lemma unixMilli_mono: "s \<le> t \<Longrightarrow> unixMilli s \<le> unixMilli t"
  by (simp add: unixMilli_def zdiv_mono1)

subsection \<open>Association lists: Go maps\<close>

abbreviation lookup :: "('k \<times> 'v) list \<Rightarrow> 'k \<Rightarrow> 'v option" where
  "lookup m k \<equiv> map_of m k"

definition getOr :: "'v \<Rightarrow> ('k \<times> 'v) list \<Rightarrow> 'k \<Rightarrow> 'v" where
  "getOr d m k = (case lookup m k of None \<Rightarrow> d | Some v \<Rightarrow> v)"

lemma getOr_update [simp]:
  "getOr d (AList.update k v m) k' = (if k' = k then v else getOr d m k')"
  by (simp add: getOr_def update_conv)

lemma getOr_delete [simp]:
  "getOr d (AList.delete k m) k' = (if k' = k then d else getOr d m k')"
  by (simp add: getOr_def delete_conv)

lemma lookup_update [simp]:
  "lookup (AList.update k v m) k' = (if k' = k then Some v else lookup m k')"
  by (simp add: update_conv)

lemma lookup_delete [simp]:
  "lookup (AList.delete k m) k' = (if k' = k then None else lookup m k')"
  by (simp add: delete_conv)

subsection \<open>The state monad\<close>

text \<open>
  An operation with effects is a value of type \<open>('s, 'a) state\<close>; a fallible one returns
  a sum whose left part is the error, as Go returns a pair of a result and an error.
\<close>

abbreviation ret :: "'a \<Rightarrow> ('s, 'a) state" where
  "ret \<equiv> State_Monad.return"

abbreviation gets :: "('s \<Rightarrow> 'a) \<Rightarrow> ('s, 'a) state" where
  "gets f \<equiv> State (\<lambda>s. (f s, s))"

abbreviation modify :: "('s \<Rightarrow> 's) \<Rightarrow> ('s, unit) state" where
  "modify f \<equiv> State (\<lambda>s. ((), f s))"

abbreviation run :: "('s, 'a) state \<Rightarrow> 's \<Rightarrow> 'a \<times> 's" where
  "run \<equiv> run_state"

abbreviation result_of :: "('s, 'a) state \<Rightarrow> 's \<Rightarrow> 'a" where
  "result_of m s \<equiv> fst (run_state m s)"

abbreviation final_of :: "('s, 'a) state \<Rightarrow> 's \<Rightarrow> 's" where
  "final_of m s \<equiv> snd (run_state m s)"

lemma run_if [simp]: "run_state (if b then m else n) s = (if b then run_state m s else run_state n s)"
  by simp

lemma run_case_sum [simp]:
  "run_state (case x of Inl e \<Rightarrow> f e | Inr a \<Rightarrow> g a) s =
     (case x of Inl e \<Rightarrow> run_state (f e) s | Inr a \<Rightarrow> run_state (g a) s)"
  by (cases x) simp_all

lemma run_case_option [simp]:
  "run_state (case x of None \<Rightarrow> f | Some a \<Rightarrow> g a) s =
     (case x of None \<Rightarrow> run_state f s | Some a \<Rightarrow> run_state (g a) s)"
  by (cases x) simp_all

lemma run_case_prod [simp]:
  "run_state (case x of (a, b) \<Rightarrow> f a b) s = (case x of (a, b) \<Rightarrow> run_state (f a b) s)"
  by (cases x) simp_all

lemma run_let [simp]: "run_state (Let x f) s = Let x (\<lambda>y. run_state (f y) s)"
  by (simp add: Let_def)

subsection \<open>Characters\<close>

definition isDigit :: "char \<Rightarrow> bool" where
  "isDigit c \<longleftrightarrow> CHR ''0'' \<le> c \<and> c \<le> CHR ''9''"

definition isUpper :: "char \<Rightarrow> bool" where
  "isUpper c \<longleftrightarrow> CHR ''A'' \<le> c \<and> c \<le> CHR ''Z''"

definition isLower :: "char \<Rightarrow> bool" where
  "isLower c \<longleftrightarrow> CHR ''a'' \<le> c \<and> c \<le> CHR ''z''"

abbreviation isAlnum :: "char \<Rightarrow> bool" where
  "isAlnum c \<equiv> isUpper c \<or> isLower c \<or> isDigit c"

abbreviation isLowerAlnum :: "char \<Rightarrow> bool" where
  "isLowerAlnum c \<equiv> isLower c \<or> isDigit c"

definition upperChar :: "char \<Rightarrow> char" where
  "upperChar c = (if isLower c then char_of ((of_char c :: nat) - 32) else c)"

definition toUpper :: "string \<Rightarrow> string" where
  "toUpper s = map upperChar s"

definition isSpace :: "char \<Rightarrow> bool" where
  "isSpace c \<longleftrightarrow> c = CHR '' '' \<or> (CHR 0x09 \<le> c \<and> c \<le> CHR 0x0D)"

text \<open>\<open>strings.TrimSpace\<close> on ASCII; the code's also trims the spaces of Unicode.\<close>

definition trimSpace :: "string \<Rightarrow> string" where
  "trimSpace s = rev (dropWhile isSpace (rev (dropWhile isSpace s)))"

lemmas char_class_defs = isDigit_def isUpper_def isLower_def isSpace_def

lemma isDigit_not_sep [simp]:
  "isDigit c \<Longrightarrow> c \<noteq> CHR '':''" "isDigit c \<Longrightarrow> c \<noteq> CHR ''/''"
  "isDigit c \<Longrightarrow> c \<noteq> CHR ''-''" "isDigit c \<Longrightarrow> c \<noteq> CHR ''.''"
  "isDigit c \<Longrightarrow> c \<noteq> CHR '',''" "isDigit c \<Longrightarrow> c \<noteq> CHR ''=''"
  by (auto simp: isDigit_def)

lemma isLower_not_sep [simp]:
  "isLower c \<Longrightarrow> c \<noteq> CHR '':''" "isLower c \<Longrightarrow> c \<noteq> CHR ''/''"
  "isLower c \<Longrightarrow> c \<noteq> CHR ''-''" "isLower c \<Longrightarrow> c \<noteq> CHR ''.''"
  "isLower c \<Longrightarrow> c \<noteq> CHR '',''" "isLower c \<Longrightarrow> c \<noteq> CHR ''=''"
  by (auto simp: isLower_def)

text \<open>The decimal rendering of a number, Go's \<open>%d\<close>.\<close>

fun decimal :: "nat \<Rightarrow> string" where
  "decimal n = (if n < 10 then [''0123456789'' ! n] else decimal (n div 10) @ [''0123456789'' ! (n mod 10)])"

declare decimal.simps [simp del]

subsection \<open>Prefixes and suffixes\<close>

fun hasPrefix :: "string \<Rightarrow> string \<Rightarrow> bool" where
  "hasPrefix s [] = True"
| "hasPrefix [] (p # ps) = False"
| "hasPrefix (c # s) (p # ps) = (c = p \<and> hasPrefix s ps)"

definition hasSuffix :: "string \<Rightarrow> string \<Rightarrow> bool" where
  "hasSuffix s p = hasPrefix (rev s) (rev p)"

definition trimPrefix :: "string \<Rightarrow> string \<Rightarrow> string" where
  "trimPrefix s p = (if hasPrefix s p then drop (length p) s else s)"

definition trimSuffix :: "string \<Rightarrow> string \<Rightarrow> string" where
  "trimSuffix s p = (if hasSuffix s p then take (length s - length p) s else s)"

text \<open>\<open>strings.CutPrefix\<close> and \<open>strings.CutSuffix\<close>: \<^const>\<open>None\<close> where Go's second result is false.\<close>

definition cutPrefix :: "string \<Rightarrow> string \<Rightarrow> string option" where
  "cutPrefix s p = (if hasPrefix s p then Some (drop (length p) s) else None)"

definition cutSuffix :: "string \<Rightarrow> string \<Rightarrow> string option" where
  "cutSuffix s p = (if hasSuffix s p then Some (take (length s - length p) s) else None)"

lemma hasPrefix_iff: "hasPrefix s p \<longleftrightarrow> (\<exists>t. s = p @ t)"
  by (induction s p rule: hasPrefix.induct) auto

lemma hasPrefix_append [simp]: "hasPrefix (p @ t) p"
  by (auto simp: hasPrefix_iff)

lemma hasPrefix_refl [simp]: "hasPrefix p p"
  by (auto simp: hasPrefix_iff)

lemma hasPrefix_trans: "hasPrefix s p \<Longrightarrow> hasPrefix p q \<Longrightarrow> hasPrefix s q"
  by (auto simp: hasPrefix_iff)

lemma hasPrefix_linear:
  "hasPrefix s p \<Longrightarrow> hasPrefix s q \<Longrightarrow> length p \<le> length q \<Longrightarrow> hasPrefix q p"
proof (induction s p arbitrary: q rule: hasPrefix.induct)
  case (3 c s p ps)
  then show ?case by (cases q) auto
qed simp_all

lemma hasPrefix_same_length: "hasPrefix s p \<Longrightarrow> length s = length p \<Longrightarrow> s = p"
  by (auto simp: hasPrefix_iff)

lemma hasSuffix_iff: "hasSuffix s p \<longleftrightarrow> (\<exists>t. s = t @ p)"
proof
  assume "hasSuffix s p"
  then obtain t where "rev s = rev p @ t" by (auto simp: hasSuffix_def hasPrefix_iff)
  then have "s = rev t @ p" by (metis rev_append rev_rev_ident)
  then show "\<exists>t. s = t @ p" ..
qed (auto simp: hasSuffix_def)

lemma cutPrefix_Some: "cutPrefix s p = Some t \<longleftrightarrow> s = p @ t"
  by (auto simp: cutPrefix_def hasPrefix_iff)

lemma cutPrefix_append [simp]: "cutPrefix (p @ t) p = Some t"
  by (simp add: cutPrefix_Some)

lemma cutSuffix_Some: "cutSuffix s p = Some t \<longleftrightarrow> s = t @ p"
  by (auto simp: cutSuffix_def hasSuffix_iff)

lemma cutSuffix_append [simp]: "cutSuffix (t @ p) p = Some t"
  by (simp add: cutSuffix_Some)

lemma trimPrefix_append [simp]: "trimPrefix (p @ t) p = t"
  by (simp add: trimPrefix_def)

lemma trimSuffix_append [simp]: "trimSuffix (t @ p) p = t"
  by (auto simp: trimSuffix_def hasSuffix_iff)

subsection \<open>Cutting, splitting and joining at a separator\<close>

text \<open>\<open>strings.Cut\<close> at a one-byte separator.\<close>

fun cut :: "char \<Rightarrow> string \<Rightarrow> (string \<times> string) option" where
  "cut c [] = None"
| "cut c (x # xs) =
     (if x = c then Some ([], xs)
      else (case cut c xs of None \<Rightarrow> None | Some (a, b) \<Rightarrow> Some (x # a, b)))"

fun splitOn :: "char \<Rightarrow> string \<Rightarrow> string list" where
  "splitOn c [] = [[]]"
| "splitOn c (x # xs) =
     (if x = c then [] # splitOn c xs
      else (case splitOn c xs of [] \<Rightarrow> [[x]] | y # ys \<Rightarrow> (x # y) # ys))"

text \<open>\<open>strings.SplitN\<close>: at most the given number of pieces, the last one unsplit.\<close>

fun splitN :: "char \<Rightarrow> nat \<Rightarrow> string \<Rightarrow> string list" where
  "splitN c 0 s = []"
| "splitN c (Suc 0) s = [s]"
| "splitN c (Suc (Suc n)) s =
     (case cut c s of None \<Rightarrow> [s] | Some (a, b) \<Rightarrow> a # splitN c (Suc n) b)"

fun joinWith :: "string \<Rightarrow> string list \<Rightarrow> string" where
  "joinWith sep [] = []"
| "joinWith sep [x] = x"
| "joinWith sep (x # y # ys) = x @ sep @ joinWith sep (y # ys)"

lemma cut_None: "cut c s = None \<longleftrightarrow> c \<notin> set s"
  by (induction s) (auto split: option.splits)

lemma cut_append [simp]: "c \<notin> set a \<Longrightarrow> cut c (a @ c # b) = Some (a, b)"
  by (induction a) auto

lemma cut_SomeD: "cut c s = Some (a, b) \<Longrightarrow> s = a @ c # b \<and> c \<notin> set a"
  by (induction s arbitrary: a) (auto split: if_splits option.splits)

lemma cut_Some: "cut c s = Some (a, b) \<longleftrightarrow> s = a @ c # b \<and> c \<notin> set a"
  using cut_SomeD by auto

lemma splitOn_ne [simp]: "splitOn c s \<noteq> []"
  by (cases s) (auto split: list.splits)

lemma splitOn_append [simp]:
  "c \<notin> set x \<Longrightarrow> splitOn c (x @ c # s) = x # splitOn c s"
  by (induction x) auto

lemma splitOn_none [simp]: "c \<notin> set x \<Longrightarrow> splitOn c x = [x]"
  by (induction x) auto

lemma splitOn_joinWith:
  "xs \<noteq> [] \<Longrightarrow> \<forall>x \<in> set xs. c \<notin> set x \<Longrightarrow> splitOn c (joinWith [c] xs) = xs"
  by (induction "[c]" xs rule: joinWith.induct) auto

lemma joinWith_splitOn: "joinWith [c] (splitOn c s) = s"
proof (induction s)
  case (Cons x xs)
  obtain y ys where ys: "splitOn c xs = y # ys"
    using splitOn_ne by (metis list.exhaust)
  with Cons show ?case by (cases ys) auto
qed simp

lemma splitOn_no_sep: "x \<in> set (splitOn c s) \<Longrightarrow> c \<notin> set x"
proof (induction s arbitrary: x)
  case (Cons a s)
  then show ?case by (auto split: if_splits list.splits)
qed simp

lemma joinWith_inj:
  assumes "joinWith [c] xs = joinWith [c] ys" "xs \<noteq> []" "ys \<noteq> []"
    "\<forall>x \<in> set xs. c \<notin> set x" "\<forall>y \<in> set ys. c \<notin> set y"
  shows "xs = ys"
  using assms splitOn_joinWith by metis

lemma joinWith_eq_Nil_iff:
  "joinWith sep xs = [] \<Longrightarrow> sep \<noteq> [] \<Longrightarrow> xs = [] \<or> xs = [[]]"
  by (induction sep xs rule: joinWith.induct) auto

lemma set_joinWith: "set (joinWith sep xs) \<subseteq> (\<Union>x \<in> set xs. set x) \<union> set sep"
  by (induction sep xs rule: joinWith.induct) auto

lemma split_prefix_unique:
  fixes a b a' b' :: string
  assumes "a @ c # b = a' @ c # b'" "c \<notin> set a" "c \<notin> set a'"
  shows "a = a' \<and> b = b'"
proof -
  have "Some (a, b) = cut c (a' @ c # b')"
    unfolding assms(1) [symmetric] using cut_append [OF assms(2), of b] by (rule sym)
  then show ?thesis unfolding cut_append [OF assms(3)] by simp
qed

text \<open>A Go slice expression \<open>s[:n]\<close> panics past the end: \<^const>\<open>None\<close> is that panic.\<close>

definition sliceTo :: "string \<Rightarrow> nat \<Rightarrow> string option" where
  "sliceTo s n = (if n \<le> length s then Some (take n s) else None)"

definition containsAny :: "string \<Rightarrow> string \<Rightarrow> bool" where
  "containsAny s cs \<longleftrightarrow> (\<exists>c \<in> set s. c \<in> set cs)"

subsection \<open>Sums\<close>

text \<open>The result of a call that continues only on success: Go's \<open>if err != nil { return err }\<close>.\<close>

definition andThen :: "'e + 'a \<Rightarrow> ('a \<Rightarrow> 'e + 'b) \<Rightarrow> 'e + 'b" where
  "andThen r f = (case r of Inl e \<Rightarrow> Inl e | Inr a \<Rightarrow> f a)"

lemma andThen_simps [simp]:
  "andThen (Inl e) f = Inl e" "andThen (Inr a) f = f a"
  by (simp_all add: andThen_def)

lemma andThen_Inr: "andThen r f = Inr b \<longleftrightarrow> (\<exists>a. r = Inr a \<and> f a = Inr b)"
  by (cases r) simp_all

definition guardE :: "bool \<Rightarrow> 'e \<Rightarrow> 'e + unit" where
  "guardE b e = (if b then Inr () else Inl e)"

subsection \<open>Codecs\<close>

text \<open>
  The contract of an encoder and its decoder: on well-formed values, decoding what was
  encoded gives the value back. Everything the components need of a format follows:
  encodings of different values differ, and a decoder that answers at all on an encoded
  value answers with that value.
\<close>

locale codec =
  fixes enc :: "'a \<Rightarrow> 'b" and dec :: "'b \<Rightarrow> 'a option" and wf :: "'a \<Rightarrow> bool"
  assumes dec_enc: "wf x \<Longrightarrow> dec (enc x) = Some x"
begin

lemma enc_inj: "wf x \<Longrightarrow> wf y \<Longrightarrow> enc x = enc y \<Longrightarrow> x = y"
  using dec_enc by (metis option.inject)

lemma enc_eq_iff: "wf x \<Longrightarrow> wf y \<Longrightarrow> enc x = enc y \<longleftrightarrow> x = y"
  using enc_inj by blast

lemma dec_unique: "wf x \<Longrightarrow> dec (enc x) = Some y \<Longrightarrow> y = x"
  using dec_enc by simp

end

end
