(* ===== verification/Apierr.thy ===== *)
theory Apierr
  imports Prelude
begin

text \<open>
  Errors (\<open>internal/apierr/apierr.go\<close>) and the error values of the other packages.

  A Go \<open>error\<close> is a value of \<open>err\<close>: the contract error of package \<open>apierr\<close>, a sentinel
  made with \<open>errors.New\<close>, an error made with \<open>fmt.Errorf\<close> (with the error it wraps, for a
  \<open>%w\<close>), and the typed errors of packages \<open>signing\<close>, \<open>docker\<close> and \<open>nache\<close> and of the
  Postgres driver. A formatted message is kept as its format and its arguments; rendering
  them to text is left to \<open>fmt\<close>. \<open>errorsIs\<close> and \<open>asApi\<close> are \<open>errors.Is\<close> and
  \<open>errors.As\<close> with an \<open>*apierr.Error\<close> target, walking the same chain of causes.
\<close>

subsection \<open>Error values\<close>

datatype err =
    ApiErr (eCode: string) (eMessage: "string \<times> arg list") (eRequestID: string)
      (eDetails: "string strmap") (eCause: "err option")
  | Sentinel string
  | Errorf string "arg list" "err option"
  | SignErr string string "arg list"
  | PgErr string
  | DockerErr nat string "err option"
  | ChalaErr nat string string string
and arg = AStr string | ANum int | AErr err

type_synonym message = "string \<times> arg list"

fun unwrap :: "err \<Rightarrow> err option" where
  "unwrap (ApiErr c m r d k) = k"
| "unwrap (Errorf f a k) = k"
| "unwrap (DockerErr st m k) = k"
| "unwrap e = None"

fun errorsIs :: "err \<Rightarrow> err \<Rightarrow> bool" where
  "errorsIs (ApiErr c m r d k) t =
     (ApiErr c m r d k = t \<or> (case k of None \<Rightarrow> False | Some e \<Rightarrow> errorsIs e t))"
| "errorsIs (Errorf f a k) t =
     (Errorf f a k = t \<or> (case k of None \<Rightarrow> False | Some e \<Rightarrow> errorsIs e t))"
| "errorsIs (DockerErr st m k) t =
     (DockerErr st m k = t \<or> (case k of None \<Rightarrow> False | Some e \<Rightarrow> errorsIs e t))"
| "errorsIs e t = (e = t)"

fun asApi :: "err \<Rightarrow> err option" where
  "asApi (ApiErr c m r d k) = Some (ApiErr c m r d k)"
| "asApi (Errorf f a k) = (case k of None \<Rightarrow> None | Some e \<Rightarrow> asApi e)"
| "asApi (DockerErr st m k) = (case k of None \<Rightarrow> None | Some e \<Rightarrow> asApi e)"
| "asApi e = None"

text \<open>\<open>errors.As\<close> with a \<open>*pgconn.PgError\<close> target: the SQLSTATE found.\<close>

fun asPg :: "err \<Rightarrow> string option" where
  "asPg (PgErr c) = Some c"
| "asPg (ApiErr c m r d k) = (case k of None \<Rightarrow> None | Some e \<Rightarrow> asPg e)"
| "asPg (Errorf f a k) = (case k of None \<Rightarrow> None | Some e \<Rightarrow> asPg e)"
| "asPg (DockerErr st m k) = (case k of None \<Rightarrow> None | Some e \<Rightarrow> asPg e)"
| "asPg e = None"

lemma errorsIs_refl [simp]: "errorsIs e e"
  by (cases e) auto

lemma asApi_is: "asApi e = Some a \<Longrightarrow> is_ApiErr a"
  by (induction e rule: asApi.induct) (auto split: option.splits)

subsection \<open>Codes\<close>

definition CodeValidation :: string where "CodeValidation = ''ValidationException''"
definition CodeNotFound :: string where "CodeNotFound = ''ResourceNotFound''"
definition CodeAlreadyExists :: string where "CodeAlreadyExists = ''ResourceAlreadyExists''"
definition CodeAccessDenied :: string where "CodeAccessDenied = ''AccessDenied''"
definition CodeThrottling :: string where "CodeThrottling = ''ThrottlingException''"
definition CodeInternal :: string where "CodeInternal = ''InternalFailure''"
definition CodeInvalidSig :: string where "CodeInvalidSig = ''InvalidSignature''"
definition CodeSigExpired :: string where "CodeSigExpired = ''SignatureExpired''"
definition CodeIdempotencyMis :: string where "CodeIdempotencyMis = ''IdempotentParameterMismatch''"
definition CodeLimitExceeded :: string where "CodeLimitExceeded = ''LimitExceeded''"

lemmas code_defs = CodeValidation_def CodeNotFound_def CodeAlreadyExists_def CodeAccessDenied_def
  CodeThrottling_def CodeInternal_def CodeInvalidSig_def CodeSigExpired_def
  CodeIdempotencyMis_def CodeLimitExceeded_def

subsection \<open>The text of an error, and its wire form\<close>

definition errorString :: "err \<Rightarrow> message" where
  "errorString e =
     (case eCause e of
        Some k \<Rightarrow> (''%s: %s: %v'', AStr (eCode e) # AStr (fst (eMessage e)) # snd (eMessage e) @ [AErr k])
      | None \<Rightarrow> (''%s: %s'', AStr (eCode e) # AStr (fst (eMessage e)) # snd (eMessage e)))"

text \<open>The message \<open>dariya.common.v1.Error\<close>, with the fields the code fills in.\<close>

record wire_error =
  we_code :: string
  we_message :: message
  we_request_id :: string
  we_details :: "string strmap"

definition errProto :: "bool \<Rightarrow> err \<Rightarrow> wire_error" where
  "errProto dev e =
     \<lparr>we_code = eCode e, we_message = eMessage e, we_request_id = eRequestID e,
      we_details = (if dev then eDetails e else [])\<rparr>"

datatype grpc_code =
  GrpcInvalidArgument | GrpcNotFound | GrpcAlreadyExists | GrpcPermissionDenied
  | GrpcResourceExhausted | GrpcUnauthenticated | GrpcInternal

definition grpcCode :: "err \<Rightarrow> grpc_code" where
  "grpcCode e =
     (let c = eCode e in
      if c = CodeValidation \<or> c = CodeIdempotencyMis then GrpcInvalidArgument
      else if c = CodeNotFound then GrpcNotFound
      else if c = CodeAlreadyExists then GrpcAlreadyExists
      else if c = CodeAccessDenied then GrpcPermissionDenied
      else if c = CodeThrottling \<or> c = CodeLimitExceeded then GrpcResourceExhausted
      else if c = CodeInvalidSig \<or> c = CodeSigExpired then GrpcUnauthenticated
      else GrpcInternal)"

text \<open>
  \<open>withDetails\<close> is gRPC's \<open>Status.WithDetails\<close>, which is not part of the repository; it may
  fail, and then the status travels without the details.
\<close>

definition GRPCStatus ::
  "(grpc_code \<times> message \<Rightarrow> wire_error \<Rightarrow> 'st option) \<Rightarrow> (grpc_code \<times> message \<Rightarrow> 'st) \<Rightarrow> err \<Rightarrow> 'st" where
  "GRPCStatus withDetails plain e =
     (let st = (grpcCode e, eMessage e) in
      case withDetails st (errProto False e) of Some d \<Rightarrow> d | None \<Rightarrow> plain st)"

definition HTTPStatus :: "err \<Rightarrow> nat" where
  "HTTPStatus e =
     (let c = eCode e in
      if c = CodeValidation \<or> c = CodeIdempotencyMis \<or> c = CodeLimitExceeded then 400
      else if c = CodeNotFound then 404
      else if c = CodeAlreadyExists then 409
      else if c = CodeAccessDenied then 403
      else if c = CodeThrottling then 429
      else if c = CodeInvalidSig \<or> c = CodeSigExpired then 401
      else 500)"

subsection \<open>Constructors\<close>

definition Validation :: "string \<Rightarrow> arg list \<Rightarrow> err" where
  "Validation f as = ApiErr CodeValidation (f, as) [] [] None"

definition NotFound :: "string \<Rightarrow> arg list \<Rightarrow> err" where
  "NotFound f as = ApiErr CodeNotFound (f, as) [] [] None"

definition AlreadyExists :: "string \<Rightarrow> arg list \<Rightarrow> err" where
  "AlreadyExists f as = ApiErr CodeAlreadyExists (f, as) [] [] None"

definition Internal :: "err option \<Rightarrow> string \<Rightarrow> arg list \<Rightarrow> err" where
  "Internal cause f as = ApiErr CodeInternal (f, as) [] [] cause"

definition From :: "err \<Rightarrow> err" where
  "From e = (case asApi e of Some a \<Rightarrow> a | None \<Rightarrow> Internal (Some e) ''internal failure'' [])"

lemmas api_ctor_defs = Validation_def NotFound_def AlreadyExists_def Internal_def

lemma eCode_ctors [simp]:
  "eCode (Validation f as) = CodeValidation" "eCode (NotFound f as) = CodeNotFound"
  "eCode (AlreadyExists f as) = CodeAlreadyExists" "eCode (Internal k f as) = CodeInternal"
  by (simp_all add: api_ctor_defs)

lemma asApi_ctors [simp]:
  "asApi (Validation f as) = Some (Validation f as)" "asApi (NotFound f as) = Some (NotFound f as)"
  "asApi (AlreadyExists f as) = Some (AlreadyExists f as)"
  "asApi (Internal k f as) = Some (Internal k f as)"
  by (simp_all add: api_ctor_defs)

lemma From_ApiErr [simp]: "From (ApiErr c m r d k) = ApiErr c m r d k"
  by (simp add: From_def)

lemma From_ctors [simp]:
  "From (Validation f as) = Validation f as" "From (NotFound f as) = NotFound f as"
  "From (AlreadyExists f as) = AlreadyExists f as" "From (Internal k f as) = Internal k f as"
  by (simp_all add: api_ctor_defs)

lemma From_is_ApiErr: "is_ApiErr (From e)"
  by (auto simp: From_def Internal_def dest: asApi_is split: option.splits)

lemma HTTPStatus_simps [simp]:
  "eCode e = CodeValidation \<Longrightarrow> HTTPStatus e = 400"
  "eCode e = CodeIdempotencyMis \<Longrightarrow> HTTPStatus e = 400"
  "eCode e = CodeLimitExceeded \<Longrightarrow> HTTPStatus e = 400"
  "eCode e = CodeNotFound \<Longrightarrow> HTTPStatus e = 404"
  "eCode e = CodeAlreadyExists \<Longrightarrow> HTTPStatus e = 409"
  "eCode e = CodeAccessDenied \<Longrightarrow> HTTPStatus e = 403"
  "eCode e = CodeInvalidSig \<Longrightarrow> HTTPStatus e = 401"
  "eCode e = CodeInternal \<Longrightarrow> HTTPStatus e = 500"
  by (simp_all add: HTTPStatus_def Let_def code_defs)

lemma HTTPStatus_error: "400 \<le> HTTPStatus e"
  by (simp add: HTTPStatus_def Let_def)

lemma grpc_http_agree:
  "HTTPStatus e = 401 \<longleftrightarrow> grpcCode e = GrpcUnauthenticated"
  "HTTPStatus e = 403 \<longleftrightarrow> grpcCode e = GrpcPermissionDenied"
  "HTTPStatus e = 404 \<longleftrightarrow> grpcCode e = GrpcNotFound"
  "HTTPStatus e = 409 \<longleftrightarrow> grpcCode e = GrpcAlreadyExists"
  "HTTPStatus e = 500 \<longleftrightarrow> grpcCode e = GrpcInternal"
  by (simp_all add: HTTPStatus_def grpcCode_def Let_def code_defs)

end
