(* ===== verification/Ttlcache.thy ===== *)
theory Ttlcache
  imports Apierr
begin

text \<open>
  The cache in front of the control-plane store (\<open>internal/ttlcache/ttlcache.go\<close>), which both the
  credential lookup and the policy lookup use.

  The first part models every method on the cache record, with \<open>Get\<close> as a sequential
  operation over any loader. The second part is the concurrent cache: a step relation
  whose steps are the atomic actions of the code (a read under the lock, the start and the
  joining of a shared load, the read of the backend, the insertion under the lock), so that
  its invariants hold for every interleaving. A lookup there reads the entry and the clock in one step; the code reads the clock
  right after it has released the lock. The locale \<open>cached_source\<close> is what the cache
  asks of a loader; the credential resolver and the policy source interpret it.
\<close>

subsection \<open>The cache and its options\<close>

type_synonym uint64 = "64 word"

definition DefaultTTL :: duration where "DefaultTTL = 30 * second"
definition DefaultNegativeTTL :: duration where "DefaultNegativeTTL = 5 * second"
definition DefaultMaxEntries :: int where "DefaultMaxEntries = 10000"

record cacheOptions =
  o_TTL :: duration
  o_NegativeTTL :: duration
  o_MaxEntries :: int
  o_IsNegative :: "(err \<Rightarrow> bool) option"

text \<open>An entry holds a value or an error; the sum says which of Go's two fields is set.\<close>

record 'v entry =
  en_result :: "err + 'v"
  en_expiresAt :: time

record 'v cache =
  c_ttl :: duration
  c_negativeTTL :: duration
  c_maxEntries :: int
  c_isNegative :: "err \<Rightarrow> bool"
  c_entries :: "'v entry strmap"
  c_hits :: uint64
  c_misses :: uint64
  c_negatives :: uint64
  c_expired :: uint64
  c_refusals :: uint64

definition cache_New :: "cacheOptions \<Rightarrow> 'v cache" where
  "cache_New opts =
     \<lparr>c_ttl = (if o_TTL opts \<le> 0 then DefaultTTL else o_TTL opts),
      c_negativeTTL = (if o_NegativeTTL opts \<le> 0 then DefaultNegativeTTL else o_NegativeTTL opts),
      c_maxEntries = (if o_MaxEntries opts \<le> 0 then DefaultMaxEntries else o_MaxEntries opts),
      c_isNegative = (case o_IsNegative opts of None \<Rightarrow> (\<lambda>_. False) | Some f \<Rightarrow> f),
      c_entries = [], c_hits = 0, c_misses = 0, c_negatives = 0, c_expired = 0, c_refusals = 0\<rparr>"

definition lookupEntry :: "'v cache \<Rightarrow> time \<Rightarrow> string \<Rightarrow> 'v entry option" where
  "lookupEntry c t key =
     (case lookup (c_entries c) key of
        None \<Rightarrow> None
      | Some e \<Rightarrow> if \<not> t < en_expiresAt e then None else Some e)"

definition sweepExpiredLocked :: "time \<Rightarrow> 'v cache \<Rightarrow> 'v cache" where
  "sweepExpiredLocked t c =
     (let kept = filter (\<lambda>(k, e). t < en_expiresAt e) (c_entries c) in
      c\<lparr>c_entries := kept,
        c_expired := c_expired c + of_nat (length (c_entries c) - length kept)\<rparr>)"

definition cache_store :: "time \<Rightarrow> string \<Rightarrow> 'v entry \<Rightarrow> 'v cache \<Rightarrow> 'v cache" where
  "cache_store t key e c =
     (let c1 = (if int (length (c_entries c)) \<ge> c_maxEntries c then sweepExpiredLocked t c else c) in
      if int (length (c_entries c1)) \<ge> c_maxEntries c1 then c1\<lparr>c_refusals := c_refusals c1 + 1\<rparr>
      else c1\<lparr>c_entries := AList.update key e (c_entries c1)\<rparr>)"

text \<open>The switch that follows a load: what, if anything, is stored for it.\<close>

definition entryFor :: "'v cache \<Rightarrow> time \<Rightarrow> err + 'v \<Rightarrow> 'v entry option" where
  "entryFor c t r =
     (case r of
        Inr v \<Rightarrow> Some \<lparr>en_result = Inr v, en_expiresAt = t + c_ttl c\<rparr>
      | Inl e \<Rightarrow> if c_isNegative c e then Some \<lparr>en_result = Inl e, en_expiresAt = t + c_negativeTTL c\<rparr> else None)"

definition settle :: "time \<Rightarrow> string \<Rightarrow> err + 'v \<Rightarrow> 'v cache \<Rightarrow> 'v cache" where
  "settle t key r c =
     (case entryFor c t r of
        None \<Rightarrow> c
      | Some e \<Rightarrow> cache_store t key e (if isl r then c\<lparr>c_negatives := c_negatives c + 1\<rparr> else c))"

definition cache_Invalidate :: "string \<Rightarrow> 'v cache \<Rightarrow> 'v cache" where
  "cache_Invalidate key c = c\<lparr>c_entries := AList.delete key (c_entries c)\<rparr>"

record cacheStats =
  st_Hits :: uint64
  st_Misses :: uint64
  st_Negatives :: uint64
  st_Expired :: uint64
  st_Refusals :: uint64
  st_Entries :: int

definition cache_Stats :: "'v cache \<Rightarrow> cacheStats" where
  "cache_Stats c =
     \<lparr>st_Hits = c_hits c, st_Misses = c_misses c, st_Negatives = c_negatives c,
      st_Expired = c_expired c, st_Refusals = c_refusals c, st_Entries = int (length (c_entries c))\<rparr>"

text \<open>
  \<open>Get\<close> over a loader that runs in the rest of the program's state. \<open>clock\<close> reads the
  current time there; a load may take time.
\<close>

definition onSnd :: "('s, 'a) state \<Rightarrow> ('c \<times> 's, 'a) state" where
  "onSnd m = State (\<lambda>(c, s). let (a, s') = run m s in (a, (c, s')))"

definition cache_Get ::
  "('s \<Rightarrow> time) \<Rightarrow> (string \<Rightarrow> ('s, err + 'v) state) \<Rightarrow> string \<Rightarrow> ('v cache \<times> 's, err + 'v) state" where
  "cache_Get clock load key = do {
     (c, s) \<leftarrow> State_Monad.get;
     case lookupEntry c (clock s) key of
       Some e \<Rightarrow> do {
         modify (\<lambda>(c, s). (c\<lparr>c_hits := c_hits c + 1\<rparr>, s));
         ret (en_result e)
       }
     | None \<Rightarrow> do {
         modify (\<lambda>(c, s). (c\<lparr>c_misses := c_misses c + 1\<rparr>, s));
         r \<leftarrow> onSnd (load key);
         modify (\<lambda>(c, s). (settle (clock s) key r c, s));
         ret r
       }
   }"

subsection \<open>Well-formed caches\<close>

definition wf_cache :: "'v cache \<Rightarrow> bool" where
  "wf_cache c \<longleftrightarrow>
     0 < c_maxEntries c \<and> 0 < c_ttl c \<and> 0 < c_negativeTTL c \<and>
     distinct (map fst (c_entries c)) \<and> int (length (c_entries c)) \<le> c_maxEntries c"

lemma wf_New [simp]: "wf_cache (cache_New opts)"
  by (simp add: wf_cache_def cache_New_def DefaultTTL_def DefaultNegativeTTL_def DefaultMaxEntries_def)

lemma wf_sweep: "wf_cache c \<Longrightarrow> wf_cache (sweepExpiredLocked t c)"
  unfolding wf_cache_def sweepExpiredLocked_def Let_def
  using length_filter_le [of "\<lambda>(k, e). t < en_expiresAt e" "c_entries c"]
  by (simp add: distinct_map_filter del: length_filter_le)

lemma length_update: "length (AList.update k v xs) \<le> Suc (length xs)"
  by (induction xs) auto

lemma wf_store: "wf_cache c \<Longrightarrow> wf_cache (cache_store t key e c)"
proof -
  assume wf: "wf_cache c"
  define c1 where "c1 = (if int (length (c_entries c)) \<ge> c_maxEntries c then sweepExpiredLocked t c else c)"
  have wf1: "wf_cache c1" using wf wf_sweep [OF wf, of t] by (simp add: c1_def)
  have st: "cache_store t key e c =
      (if int (length (c_entries c1)) \<ge> c_maxEntries c1 then c1\<lparr>c_refusals := c_refusals c1 + 1\<rparr>
       else c1\<lparr>c_entries := AList.update key e (c_entries c1)\<rparr>)"
    by (simp add: cache_store_def c1_def Let_def)
  show ?thesis
    using wf1 length_update [of key e "c_entries c1"] unfolding st
    by (auto simp: wf_cache_def distinct_update)
qed

lemma wf_settle: "wf_cache c \<Longrightarrow> wf_cache (settle t key r c)"
proof -
  assume wf: "wf_cache c"
  then have "wf_cache (c\<lparr>c_negatives := n\<rparr>)" for n by (simp add: wf_cache_def)
  with wf show ?thesis by (auto simp: settle_def wf_store split: option.split)
qed

lemma length_delete: "length (AList.delete k xs) \<le> length xs"
  by (simp add: AList.delete_eq)

lemma wf_Invalidate: "wf_cache c \<Longrightarrow> wf_cache (cache_Invalidate key c)"
  using length_delete [of key "c_entries c"]
  by (auto simp: wf_cache_def cache_Invalidate_def distinct_delete)

text \<open>What is in the cache after an insertion: the new entry, or what was there before.\<close>

lemma lookup_filter:
  "distinct (map fst m) \<Longrightarrow>
   lookup (filter (\<lambda>(k, e). P e) m) k = (case lookup m k of None \<Rightarrow> None | Some e \<Rightarrow> if P e then Some e else None)"
proof (induction m)
  case (Cons p m)
  have "lookup m (fst p) = None" using Cons.prems by (simp add: map_of_eq_None_iff)
  then show ?case using Cons by (cases p) (auto split: option.splits)
qed simp

lemma entries_sweep:
  "distinct (map fst (c_entries c)) \<Longrightarrow>
   lookup (c_entries (sweepExpiredLocked t c)) k =
     (case lookup (c_entries c) k of None \<Rightarrow> None | Some e \<Rightarrow> if t < en_expiresAt e then Some e else None)"
  by (simp add: sweepExpiredLocked_def Let_def lookup_filter)

lemma entries_store:
  "wf_cache c \<Longrightarrow> lookup (c_entries (cache_store t key e c)) k = Some x \<Longrightarrow>
   x = e \<and> k = key \<or> lookup (c_entries c) k = Some x"
  using entries_sweep [of c t k]
  by (auto simp: cache_store_def Let_def wf_cache_def split: if_splits option.splits)

lemma entries_settle:
  assumes "wf_cache c" "lookup (c_entries (settle t key r c)) k = Some x"
  shows "entryFor c t r = Some x \<and> k = key \<or> lookup (c_entries c) k = Some x"
proof (cases "entryFor c t r")
  case (Some e)
  define c1 where "c1 = (if isl r then c\<lparr>c_negatives := c_negatives c + 1\<rparr> else c)"
  have "wf_cache c1" "c_entries c1 = c_entries c" using assms(1) by (simp_all add: c1_def wf_cache_def)
  moreover have "lookup (c_entries (cache_store t key e c1)) k = Some x"
    using assms(2) Some by (simp add: settle_def c1_def)
  ultimately show ?thesis using Some entries_store [of c1 t key e k x] by auto
qed (use assms in \<open>simp add: settle_def\<close>)

lemma entryFor_result: "entryFor c t r = Some e \<Longrightarrow> en_result e = r"
  by (auto simp: entryFor_def split: sum.splits if_splits)

lemma entryFor_negative: "entryFor c t (Inl e) = Some x \<Longrightarrow> c_isNegative c e"
  by (simp add: entryFor_def split: if_splits)

lemma settle_config [simp]:
  "c_ttl (settle t k r c) = c_ttl c" "c_negativeTTL (settle t k r c) = c_negativeTTL c"
  "c_isNegative (settle t k r c) = c_isNegative c" "c_maxEntries (settle t k r c) = c_maxEntries c"
  by (simp_all add: settle_def cache_store_def sweepExpiredLocked_def Let_def split: option.split)

lemma Invalidate_config [simp]:
  "c_ttl (cache_Invalidate k c) = c_ttl c" "c_negativeTTL (cache_Invalidate k c) = c_negativeTTL c"
  "c_isNegative (cache_Invalidate k c) = c_isNegative c" "c_maxEntries (cache_Invalidate k c) = c_maxEntries c"
  by (simp_all add: cache_Invalidate_def)

lemma run_Get:
  "run (cache_Get clock load key) (c, s) =
     (case lookupEntry c (clock s) key of
        Some e \<Rightarrow> (en_result e, (c\<lparr>c_hits := c_hits c + 1\<rparr>, s))
      | None \<Rightarrow> (let (r, s') = run (load key) s in
                (r, (settle (clock s') key r (c\<lparr>c_misses := c_misses c + 1\<rparr>), s'))))"
  by (simp add: cache_Get_def onSnd_def State_Monad.get_def split: option.split prod.split)

lemma lookupEntry_Some: "lookupEntry c t k = Some e \<longleftrightarrow> lookup (c_entries c) k = Some e \<and> t < en_expiresAt e"
  by (auto simp: lookupEntry_def split: option.splits)

subsection \<open>What the cache asks of a loader\<close>

text \<open>
  \<open>truth s k\<close> is the answer an undisturbed load of \<open>k\<close> gives in state \<open>s\<close>. A loader answers with
  it, or fails with an error that is not a definitive answer, and leaves the truth as it was.
\<close>

locale cached_source =
  fixes load :: "string \<Rightarrow> ('s, err + 'v) state"
    and truth :: "'s \<Rightarrow> string \<Rightarrow> err + 'v"
    and clock :: "'s \<Rightarrow> time"
    and neg :: "err \<Rightarrow> bool"
  assumes load_ok: "result_of (load k) s = truth s k \<or> (\<exists>e. result_of (load k) s = Inl e \<and> \<not> neg e)"
    and load_keeps: "truth (final_of (load k) s) = truth s"
begin

definition coherent :: "'v cache \<Rightarrow> 's \<Rightarrow> bool" where
  "coherent c s \<longleftrightarrow> wf_cache c \<and> c_isNegative c = neg \<and>
     (\<forall>k e. lookup (c_entries c) k = Some e \<longrightarrow> en_result e = truth s k)"

lemma coherent_New: "o_IsNegative opts = Some neg \<Longrightarrow> coherent (cache_New opts) s"
  by (simp add: coherent_def) (simp add: cache_New_def)

lemma coherent_settle:
  assumes "coherent c s" "r = truth s key \<or> (\<exists>e. r = Inl e \<and> \<not> neg e)"
  shows "coherent (settle t key r c) s"
proof -
  have "en_result x = truth s k" if "lookup (c_entries (settle t key r c)) k = Some x" for k x
  proof -
    from entries_settle [OF _ that] assms(1)
    consider "entryFor c t r = Some x" "k = key" | "lookup (c_entries c) k = Some x"
      by (auto simp: coherent_def)
    then show ?thesis
    proof cases
      case 1
      moreover have "\<not> (\<exists>e. r = Inl e \<and> \<not> neg e)"
        using 1(1) assms(1) entryFor_negative by (auto simp: coherent_def)
      ultimately show ?thesis using assms(2) entryFor_result by metis
    qed (use assms(1) in \<open>simp add: coherent_def\<close>)
  qed
  with assms(1) show ?thesis by (simp add: coherent_def wf_settle)
qed

lemma Get_coherent:
  assumes "coherent c s" "run (cache_Get clock load key) (c, s) = (r, (c', s'))"
  shows "coherent c' s'" "truth s' = truth s" "r = truth s key \<or> (\<exists>e. r = Inl e \<and> \<not> neg e)"
proof -
  have "coherent c' s' \<and> truth s' = truth s \<and> (r = truth s key \<or> (\<exists>e. r = Inl e \<and> \<not> neg e))"
  proof (cases "lookupEntry c (clock s) key")
    case None
    obtain r0 s0 where load: "run (load key) s = (r0, s0)" by fastforce
    then have ok: "r0 = truth s key \<or> (\<exists>e. r0 = Inl e \<and> \<not> neg e)" "truth s0 = truth s"
      using load_ok [of key s] load_keeps [of key s] by simp_all
    have "coherent (c\<lparr>c_misses := c_misses c + 1\<rparr>) s0"
      using assms(1) ok(2) by (simp add: coherent_def wf_cache_def)
    from coherent_settle [OF this, of r0 key] ok have "coherent (settle (clock s0) key r0 (c\<lparr>c_misses := c_misses c + 1\<rparr>)) s0"
      by simp
    then show ?thesis using None load assms(2) ok by (auto simp: run_Get)
  next
    case (Some e)
    then have "r = en_result e" "c' = c\<lparr>c_hits := c_hits c + 1\<rparr>" "s' = s"
      using assms(2) by (simp_all add: run_Get)
    moreover have "en_result e = truth s key"
      using Some assms(1) by (simp add: lookupEntry_Some coherent_def)
    ultimately show ?thesis using assms(1) by (simp add: coherent_def wf_cache_def)
  qed
  then show "coherent c' s'" "truth s' = truth s" "r = truth s key \<or> (\<exists>e. r = Inl e \<and> \<not> neg e)" by simp_all
qed

text \<open>A change of the truth at one key only, followed by \<open>Invalidate\<close>, keeps the cache coherent.\<close>

lemma Invalidate_coherent:
  assumes "coherent c s" "\<And>k'. k' \<noteq> key \<Longrightarrow> truth s' k' = truth s k'"
  shows "coherent (cache_Invalidate key c) s'"
proof -
  have "en_result e = truth s' k" if "lookup (c_entries (cache_Invalidate key c)) k = Some e" for k e
    using that assms by (simp add: cache_Invalidate_def coherent_def split: if_splits)
  then show ?thesis using assms(1) wf_Invalidate [of c key] by (simp add: coherent_def)
qed

end
subsection \<open>The concurrent cache\<close>

text \<open>
  Any number of goroutines use the cache while time passes and the backend changes. A miss
  and the call of \<open>group.Do\<close> that follows it are separate steps, so a goroutine that missed
  (\<open>cc_pending\<close>) may start or join a load at any later point. The shared load of a key goes through
  three phases: the loader runs, it has read the backend, its entry (with its expiry)
  is ready for the insertion. \<open>cc_log\<close> is a history variable: when each load read the backend,
  and what it read.
\<close>

datatype 'v phase = Loading | Answered "err + 'v" | Ready "'v entry"

record 'v cc =
  cc_clock :: time
  cc_cache :: "'v cache"
  cc_truth :: "string \<Rightarrow> err + 'v"
  cc_pending :: "string multiset"
  cc_flight :: "string \<Rightarrow> 'v phase option"
  cc_log :: "(time \<times> string \<times> (err + 'v)) set"

inductive cstep :: "'v cc \<Rightarrow> 'v cc \<Rightarrow> bool" where
  tick: "cc_clock s \<le> t \<Longrightarrow> cstep s (s\<lparr>cc_clock := t\<rparr>)"
| change: "cstep s (s\<lparr>cc_truth := f\<rparr>)"
| hit: "lookupEntry (cc_cache s) (cc_clock s) k = Some e \<Longrightarrow>
    cstep s (s\<lparr>cc_cache := (cc_cache s)\<lparr>c_hits := c_hits (cc_cache s) + 1\<rparr>\<rparr>)"
| miss: "lookupEntry (cc_cache s) (cc_clock s) k = None \<Longrightarrow>
    cstep s (s\<lparr>cc_cache := (cc_cache s)\<lparr>c_misses := c_misses (cc_cache s) + 1\<rparr>,
               cc_pending := add_mset k (cc_pending s)\<rparr>)"
| join: "k \<in># cc_pending s \<Longrightarrow> cc_flight s k \<noteq> None \<Longrightarrow>
    cstep s (s\<lparr>cc_pending := cc_pending s - {#k#}\<rparr>)"
| start: "k \<in># cc_pending s \<Longrightarrow> cc_flight s k = None \<Longrightarrow>
    cstep s (s\<lparr>cc_pending := cc_pending s - {#k#}, cc_flight := (cc_flight s)(k \<mapsto> Loading)\<rparr>)"
| answer: "cc_flight s k = Some Loading \<Longrightarrow>
    cstep s (s\<lparr>cc_flight := (cc_flight s)(k \<mapsto> Answered (cc_truth s k)),
               cc_log := insert (cc_clock s, k, cc_truth s k) (cc_log s)\<rparr>)"
| give_up: "cc_flight s k = Some (Answered r) \<Longrightarrow> entryFor (cc_cache s) (cc_clock s) r = None \<Longrightarrow>
    cstep s (s\<lparr>cc_flight := (cc_flight s)(k := None)\<rparr>)"
| ready: "cc_flight s k = Some (Answered r) \<Longrightarrow> entryFor (cc_cache s) (cc_clock s) r = Some e \<Longrightarrow>
    cstep s (s\<lparr>cc_flight := (cc_flight s)(k \<mapsto> Ready e),
               cc_cache := (if isl r then (cc_cache s)\<lparr>c_negatives := c_negatives (cc_cache s) + 1\<rparr>
                            else cc_cache s)\<rparr>)"
| store: "cc_flight s k = Some (Ready e) \<Longrightarrow>
    cstep s (s\<lparr>cc_flight := (cc_flight s)(k := None),
               cc_cache := cache_store (cc_clock s) k e (cc_cache s)\<rparr>)"
| invalidate: "cstep s (s\<lparr>cc_cache := cache_Invalidate k (cc_cache s)\<rparr>)"

inductive creach :: "cacheOptions \<Rightarrow> 'v cc \<Rightarrow> bool" for opts where
  init: "creach opts
    \<lparr>cc_clock = t, cc_cache = cache_New opts, cc_truth = f, cc_pending = {#}, cc_flight = (\<lambda>_. None), cc_log = {}\<rparr>"
| step: "creach opts s \<Longrightarrow> cstep s s' \<Longrightarrow> creach opts s'"

inductive_cases cstepE: "cstep s s'"

text \<open>What justifies an entry: a read of the backend, and the moment its expiry was computed.\<close>

definition lifetime :: "'v cache \<Rightarrow> err + 'v \<Rightarrow> duration" where
  "lifetime c r = (case r of Inl _ \<Rightarrow> c_negativeTTL c | Inr _ \<Rightarrow> c_ttl c)"

definition justified :: "'v cache \<Rightarrow> time \<Rightarrow> (time \<times> string \<times> (err + 'v)) set \<Rightarrow> string \<Rightarrow> 'v entry \<Rightarrow> bool" where
  "justified c now log k e \<longleftrightarrow>
     (\<exists>t0 t. (t0, k, en_result e) \<in> log \<and> t0 \<le> t \<and> t \<le> now \<and> en_expiresAt e = t + lifetime c (en_result e)) \<and>
     (\<forall>x. en_result e = Inl x \<longrightarrow> c_isNegative c x)"

lemma entryFor_justified:
  assumes "entryFor c t r = Some e" "(t0, k, r) \<in> log" "t0 \<le> t"
  shows "justified c t log k e"
  using assms by (auto simp: entryFor_def justified_def lifetime_def split: sum.splits if_splits)

lemma justified_mono:
  "justified c now log k e \<Longrightarrow> now \<le> now' \<Longrightarrow> log \<subseteq> log' \<Longrightarrow> justified c now' log' k e"
  unfolding justified_def by (meson order_trans subsetD)

lemma justified_insert: "justified c now log k e \<Longrightarrow> justified c now (insert x log) k e"
  by (rule justified_mono) auto

definition sameConfig :: "'v cache \<Rightarrow> 'v cache \<Rightarrow> bool" where
  "sameConfig c d \<longleftrightarrow> c_ttl c = c_ttl d \<and> c_negativeTTL c = c_negativeTTL d \<and>
     c_isNegative c = c_isNegative d \<and> c_maxEntries c = c_maxEntries d"

lemma justified_config: "sameConfig c d \<Longrightarrow> justified c now log k e = justified d now log k e"
  by (auto simp: justified_def lifetime_def sameConfig_def split: sum.splits)

lemma sameConfig_ops [simp]:
  "sameConfig (cache_store t k e c) d = sameConfig c d" "sameConfig (cache_Invalidate k c) d = sameConfig c d"
  "sameConfig (c\<lparr>c_hits := n\<rparr>) d = sameConfig c d" "sameConfig (c\<lparr>c_misses := n\<rparr>) d = sameConfig c d"
  "sameConfig (c\<lparr>c_negatives := n\<rparr>) d = sameConfig c d"
  by (auto simp: sameConfig_def cache_store_def sweepExpiredLocked_def cache_Invalidate_def Let_def)

lemma wf_counters [simp]:
  "wf_cache (c\<lparr>c_hits := n\<rparr>) = wf_cache c" "wf_cache (c\<lparr>c_misses := n\<rparr>) = wf_cache c"
  "wf_cache (c\<lparr>c_negatives := n\<rparr>) = wf_cache c"
  by (simp_all add: wf_cache_def)

definition cinv :: "cacheOptions \<Rightarrow> 'v cc \<Rightarrow> bool" where
  "cinv opts s \<longleftrightarrow>
     wf_cache (cc_cache s) \<and> sameConfig (cc_cache s) (cache_New opts) \<and>
     (\<forall>k e. lookup (c_entries (cc_cache s)) k = Some e \<longrightarrow>
        justified (cache_New opts) (cc_clock s) (cc_log s) k e) \<and>
     (\<forall>k e. cc_flight s k = Some (Ready e) \<longrightarrow> justified (cache_New opts) (cc_clock s) (cc_log s) k e) \<and>
     (\<forall>k r. cc_flight s k = Some (Answered r) \<longrightarrow> (\<exists>t0 \<le> cc_clock s. (t0, k, r) \<in> cc_log s))"

lemma cinv_step:
  assumes "cinv opts s" "cstep s s'"
  shows "cinv opts s'"
  using assms(2)
proof cases
  case (tick t)
  have "justified c (cc_clock s) log k e \<Longrightarrow> justified c t log k e" for c log k e
    using justified_mono [OF _ tick(2) subset_refl] .
  moreover have "t0 \<le> cc_clock s \<Longrightarrow> t0 \<le> t" for t0 using tick(2) by simp
  ultimately show ?thesis using assms(1) unfolding cinv_def tick(1) by simp blast
next
  case (answer k)
  then show ?thesis using assms(1) by (auto simp: cinv_def intro: justified_insert)
next
  case (ready k r e)
  from ready(2) assms(1) obtain t0 where "t0 \<le> cc_clock s" "(t0, k, r) \<in> cc_log s"
    unfolding cinv_def by blast
  with entryFor_justified [OF ready(3)] have "justified (cc_cache s) (cc_clock s) (cc_log s) k e" by blast
  then have "justified (cache_New opts) (cc_clock s) (cc_log s) k e"
    using justified_config [THEN iffD1] assms(1) unfolding cinv_def by blast
  then show ?thesis using assms(1) ready by (auto simp: cinv_def)
next
  case (store k e)
  then have "x = e \<and> k' = k \<or> lookup (c_entries (cc_cache s)) k' = Some x"
    if "lookup (c_entries (cache_store (cc_clock s) k e (cc_cache s))) k' = Some x" for k' x
    using that assms(1) entries_store by (fastforce simp: cinv_def)
  then show ?thesis using assms(1) store by (auto simp: cinv_def wf_store; blast)
next
  case (invalidate k)
  then show ?thesis using assms(1) wf_Invalidate [of "cc_cache s" k]
    by (auto simp: cinv_def) (auto simp: cache_Invalidate_def split: if_splits)
qed (use assms(1) in \<open>auto simp: cinv_def\<close>)

lemma cinv_reach: "creach opts s \<Longrightarrow> cinv opts s"
proof (induction rule: creach.induct)
  case (init t f)
  have "sameConfig (cache_New opts) (cache_New opts)" by (simp add: sameConfig_def)
  then show ?case by (simp add: cinv_def) (simp add: cache_New_def)
next
  case (step s s')
  then show ?case using cinv_step by blast
qed

subsection \<open>Properties\<close>

text \<open>C35: the cache never holds more entries than its limit, whatever the interleaving: a full cache sweeps
  what has expired and then refuses to insert, so keys chosen by a caller cannot push
  entries out or make it grow.\<close>
theorem cache_bounded:
  assumes "creach opts s"
  shows "int (length (c_entries (cc_cache (s :: 'v cc)))) \<le> c_maxEntries (cache_New opts :: 'v cache) \<and>
         distinct (map fst (c_entries (cc_cache s)))"
  using cinv_reach [OF assms] by (auto simp: cinv_def wf_cache_def sameConfig_def)

text \<open>C34: an answer served from the cache was read from the backend by a load of that very key, and the
  entry was made less than one lifetime ago (the TTL for a value, the negative TTL for an
  error), under any interleaving of goroutines, invalidations, backend changes and time.\<close>
theorem cache_fresh:
  assumes "creach opts s" "lookupEntry (cc_cache s) (cc_clock s) k = Some e"
  shows "\<exists>t0 t. (t0, k, en_result e) \<in> cc_log s \<and> t0 \<le> t \<and> t \<le> cc_clock s \<and>
           cc_clock s < t + lifetime (cache_New opts) (en_result e)"
  using cinv_reach [OF assms(1)] assms(2)
  by (fastforce simp: cinv_def justified_def lookupEntry_Some)

text \<open>A failure is never remembered: the only errors in the cache are those the caller's predicate
  calls definitive, and with no predicate there are none.\<close>
theorem failures_not_cached:
  assumes "creach opts s" "lookup (c_entries (cc_cache s)) k = Some e" "en_result e = Inl x"
  shows "\<exists>f. o_IsNegative opts = Some f \<and> f x"
  using cinv_reach [OF assms(1)] assms(2,3)
  by (fastforce simp: cinv_def justified_def cache_New_def split: option.splits)

text \<open>A run that the following witnesses share: one miss whose load is answered and stored.\<close>

definition oneLoad :: "cacheOptions \<Rightarrow> string \<Rightarrow> err + 'v \<Rightarrow> 'v cc" where
  "oneLoad opts k r =
     \<lparr>cc_clock = 0, cc_cache = settle 0 k r ((cache_New opts)\<lparr>c_misses := 1\<rparr>), cc_truth = (\<lambda>_. r),
      cc_pending = {#}, cc_flight = (\<lambda>_. None), cc_log = {(0, k, r)}\<rparr>"

lemma reach_answered:
  "creach opts \<lparr>cc_clock = 0, cc_cache = (cache_New opts)\<lparr>c_misses := 1\<rparr>, cc_truth = (\<lambda>_. r),
     cc_pending = {#}, cc_flight = [k \<mapsto> Answered r], cc_log = {(0, k, r)}\<rparr>" (is "creach opts ?s")
proof -
  define s0 where "s0 = \<lparr>cc_clock = 0, cc_cache = cache_New opts, cc_truth = (\<lambda>_. r), cc_pending = {#},
    cc_flight = (\<lambda>_. None), cc_log = {}\<rparr>"
  define s1 where "s1 = s0\<lparr>cc_cache := (cc_cache s0)\<lparr>c_misses := c_misses (cc_cache s0) + 1\<rparr>,
    cc_pending := add_mset k (cc_pending s0)\<rparr>"
  define s2 where "s2 = s1\<lparr>cc_pending := cc_pending s1 - {#k#}, cc_flight := (cc_flight s1)(k \<mapsto> Loading)\<rparr>"
  have "creach opts s0" unfolding s0_def by (rule creach.init)
  moreover have "cstep s0 s1" unfolding s1_def
    by (rule cstep.miss) (simp add: s0_def cache_New_def lookupEntry_def)
  moreover have "cstep s1 s2" unfolding s2_def by (rule cstep.start) (simp_all add: s1_def s0_def)
  ultimately have "creach opts s2" by (meson creach.step)
  moreover have "cc_flight s2 k = Some Loading" by (simp add: s2_def)
  ultimately have "creach opts (s2\<lparr>cc_flight := (cc_flight s2)(k \<mapsto> Answered (cc_truth s2 k)),
      cc_log := insert (cc_clock s2, k, cc_truth s2 k) (cc_log s2)\<rparr>)"
    by (rule creach.step [OF _ cstep.answer])
  moreover have "s2\<lparr>cc_flight := (cc_flight s2)(k \<mapsto> Answered (cc_truth s2 k)),
      cc_log := insert (cc_clock s2, k, cc_truth s2 k) (cc_log s2)\<rparr> = ?s"
    by (simp add: s2_def s1_def s0_def) (simp add: cache_New_def)
  ultimately show ?thesis by simp
qed

lemma reach_oneLoad:
  assumes "entryFor (cache_New opts :: 'v cache) 0 r = Some e"
  shows "creach opts (oneLoad opts k (r :: err + 'v))"
proof -
  let ?c = "(cache_New opts :: 'v cache)\<lparr>c_misses := 1\<rparr>"
  let ?s = "\<lparr>cc_clock = 0, cc_cache = ?c, cc_truth = (\<lambda>_. r),
     cc_pending = {#}, cc_flight = [k \<mapsto> Answered r], cc_log = {(0, k, r)}\<rparr>"
  let ?t = "?s\<lparr>cc_flight := [k \<mapsto> Ready e],
     cc_cache := (if isl r then ?c\<lparr>c_negatives := c_negatives ?c + 1\<rparr> else ?c)\<rparr>"
  have ef: "entryFor ?c 0 r = Some e" using assms by (cases r) (simp_all add: entryFor_def split: if_splits)
  have "cstep ?s ?t" using cstep.ready [of ?s k r e] ef by (cases r) simp_all
  then have "creach opts ?t" by (rule creach.step [OF reach_answered])
  moreover have "cstep ?t (oneLoad opts k r)"
    using cstep.store [of ?t k e] ef by (simp add: oneLoad_def settle_def)
  ultimately show ?thesis by (rule creach.step)
qed

text \<open>C33: \<open>Invalidate\<close> does not make a change immediate when a load of the key is in flight: the load that
  read the old answer before the change stores it after the invalidation, and the process that
  made the change then serves the old answer from its cache.\<close>
theorem invalidate_loses_to_load_in_flight:
  "\<exists>s s' e. creach opts s \<and> s' = s\<lparr>cc_cache := cache_Invalidate k (cc_cache s)\<rparr> \<and> cc_truth s' k = Inr new \<and>
     (\<exists>s1 s2. cstep s' s1 \<and> cstep s1 s2 \<and> cc_truth s2 = cc_truth s' \<and>
       lookupEntry (cc_cache s2) (cc_clock s2) k = Some e \<and> en_result e = Inr (old :: 'v))"
proof -
  define c where "c = (cache_New opts :: 'v cache)\<lparr>c_misses := 1\<rparr>"
  define s0 where "s0 = \<lparr>cc_clock = 0, cc_cache = c, cc_truth = (\<lambda>_. Inr old :: err + 'v), cc_pending = {#},
    cc_flight = [k \<mapsto> Answered (Inr old)], cc_log = {(0, k, Inr old)}\<rparr>"
  define s where "s = s0\<lparr>cc_truth := \<lambda>_. Inr new\<rparr>"
  define s' where "s' = s\<lparr>cc_cache := cache_Invalidate k (cc_cache s)\<rparr>"
  define e where "e = \<lparr>en_result = Inr old :: err + 'v, en_expiresAt = c_ttl c\<rparr>"
  define s1 where "s1 = s'\<lparr>cc_flight := (cc_flight s')(k \<mapsto> Ready e)\<rparr>"
  define s2 where "s2 = s1\<lparr>cc_flight := (cc_flight s1)(k := None),
    cc_cache := cache_store (cc_clock s1) k e (cc_cache s1)\<rparr>"
  have c: "0 < c_ttl c" "0 < c_maxEntries c" "c_entries c = []"
    using wf_New [of opts, where 'a = 'v] by (simp_all add: c_def wf_cache_def) (simp add: cache_New_def)
  have "creach opts s" unfolding s_def s0_def c_def by (rule creach.step [OF reach_answered cstep.change])
  moreover have "cc_truth s' k = Inr new" by (simp add: s'_def s_def)
  moreover have "cstep s' s1"
    using cstep.ready [of s' k "Inr old" e]
    by (simp add: s1_def s'_def s_def s0_def e_def entryFor_def)
  moreover have "cstep s1 s2" unfolding s2_def by (rule cstep.store) (simp add: s1_def)
  moreover have "cc_truth s2 = cc_truth s'" by (simp add: s2_def s1_def)
  moreover have "lookupEntry (cc_cache s2) (cc_clock s2) k = Some e"
    using c by (simp add: s2_def s1_def s'_def s_def s0_def e_def lookupEntry_Some cache_store_def
        cache_Invalidate_def Let_def)
  moreover have "en_result e = Inr old" by (simp add: e_def)
  ultimately show ?thesis using s'_def by blast
qed

definition plainOptions :: cacheOptions where
  "plainOptions = \<lparr>o_TTL = 0, o_NegativeTTL = 0, o_MaxEntries = 0, o_IsNegative = None\<rparr>"

lemma cache_bounded_witness:
  "int (length (c_entries (cc_cache (oneLoad plainOptions ''k'' (Inr True))))) \<le> 10000 \<and>
   distinct (map fst (c_entries (cc_cache (oneLoad plainOptions ''k'' (Inr True)))))"
  using cache_bounded [OF reach_oneLoad [of plainOptions "Inr True" _ "''k''"]]
  by (simp add: entryFor_def) (simp add: cache_New_def plainOptions_def DefaultMaxEntries_def)

lemma cache_fresh_witness:
  "\<exists>t. t \<le> 0 \<and> 0 < t + lifetime (cache_New plainOptions) (Inr True)"
proof -
  let ?e = "\<lparr>en_result = Inr True, en_expiresAt = c_ttl (cache_New plainOptions :: bool cache)\<rparr>"
  have "creach plainOptions (oneLoad plainOptions ''k'' (Inr True))"
    by (rule reach_oneLoad [of _ _ ?e]) (simp add: entryFor_def)
  moreover have "lookupEntry (cc_cache (oneLoad plainOptions ''k'' (Inr True)))
      (cc_clock (oneLoad plainOptions ''k'' (Inr True))) ''k'' = Some ?e"
    by (simp add: oneLoad_def settle_def entryFor_def lookupEntry_Some cache_store_def cache_New_def
        Let_def DefaultMaxEntries_def plainOptions_def DefaultTTL_def)
  ultimately show ?thesis using cache_fresh by (fastforce simp: oneLoad_def)
qed

lemma failures_not_cached_witness:
  "\<exists>f. o_IsNegative (plainOptions\<lparr>o_IsNegative := Some (\<lambda>e. e = PgErr ''gone'')\<rparr>) = Some f \<and> f (PgErr ''gone'')"
proof -
  let ?o = "plainOptions\<lparr>o_IsNegative := Some (\<lambda>e. e = PgErr ''gone'')\<rparr>"
  let ?s = "oneLoad ?o ''k'' (Inl (PgErr ''gone'') :: err + bool)"
  let ?e = "\<lparr>en_result = Inl (PgErr ''gone''), en_expiresAt = c_negativeTTL (cache_New ?o :: bool cache)\<rparr>"
  have "creach ?o ?s"
    by (rule reach_oneLoad [of _ _ ?e]) (simp add: entryFor_def cache_New_def)
  moreover have "lookup (c_entries (cc_cache ?s)) ''k'' = Some ?e"
    by (simp add: oneLoad_def settle_def entryFor_def cache_store_def cache_New_def
        Let_def DefaultMaxEntries_def plainOptions_def DefaultNegativeTTL_def)
  ultimately show ?thesis by (rule failures_not_cached) simp
qed

end
