(* ===== verification/Encoding.thy ===== *)
theory Encoding
  imports Prelude
begin

text \<open>
  The byte encodings of Go's library that the contract depends on: \<open>encoding/base64\<close> with
  the standard padded and the unpadded URL alphabet, and \<open>encoding/hex\<close>. The decoders follow
  the library's leniencies: carriage returns and newlines are skipped, and the unused low
  bits of the last base64 digit are not checked. Each encoding is a \<^term>\<open>codec\<close>.
\<close>

subsection \<open>Alphabets\<close>

definition stdAlphabet :: string where
  "stdAlphabet = ''ABCDEFGHIJKLMNOPQRSTUVWXYZabcdefghijklmnopqrstuvwxyz0123456789+/''"

definition urlAlphabet :: string where
  "urlAlphabet = ''ABCDEFGHIJKLMNOPQRSTUVWXYZabcdefghijklmnopqrstuvwxyz0123456789-_''"

definition hexDigits :: string where "hexDigits = ''0123456789abcdef''"

fun pos :: "char \<Rightarrow> string \<Rightarrow> nat option" where
  "pos c [] = None"
| "pos c (x # xs) = (if c = x then Some 0 else map_option Suc (pos c xs))"

lemma pos_nth: "distinct al \<Longrightarrow> k < length al \<Longrightarrow> pos (al ! k) al = Some k"
proof (induction al arbitrary: k)
  case (Cons x xs)
  then show ?case by (cases k) (auto simp: nth_mem)
qed simp

lemma stdAlphabet_props: "distinct stdAlphabet" "length stdAlphabet = 64"
  by (simp_all add: stdAlphabet_def)

lemma urlAlphabet_props: "distinct urlAlphabet" "length urlAlphabet = 64"
  by (simp_all add: urlAlphabet_def)

lemma hexDigits_props: "distinct hexDigits" "length hexDigits = 16"
  by (simp_all add: hexDigits_def)

lemma pos_std [simp]: "k < 64 \<Longrightarrow> pos (stdAlphabet ! k) stdAlphabet = Some k"
  by (simp add: pos_nth stdAlphabet_props)

lemma pos_url [simp]: "k < 64 \<Longrightarrow> pos (urlAlphabet ! k) urlAlphabet = Some k"
  by (simp add: pos_nth urlAlphabet_props)

lemma pos_hex [simp]: "k < 16 \<Longrightarrow> pos (hexDigits ! k) hexDigits = Some k"
  by (simp add: pos_nth hexDigits_props)

subsection \<open>Bytes as numbers\<close>

abbreviation byte :: "char \<Rightarrow> nat" where "byte c \<equiv> of_char c"

lemma byte_less [simp]: "byte c < 256"
proof -
  have "byte c mod 256 < 256" by simp
  then show ?thesis by simp
qed

lemma char_byte [simp]: "char_of (byte c) = c"
  by simp

lemma byte_div_less [simp]: "byte c div 4 < 64" "byte c div 16 < 16" "byte c mod 64 < 64"
  using byte_less [of c] by linarith+

subsection \<open>Base64\<close>

definition sext1 :: "char \<Rightarrow> nat" where "sext1 a = byte a div 4"
definition sext2 :: "char \<Rightarrow> nat \<Rightarrow> nat" where "sext2 a b = (byte a mod 4) * 16 + b div 16"
definition sext3 :: "char \<Rightarrow> nat \<Rightarrow> nat" where "sext3 b c = (byte b mod 16) * 4 + c div 64"
definition sext4 :: "char \<Rightarrow> nat" where "sext4 c = byte c mod 64"

definition join1 :: "nat \<Rightarrow> nat \<Rightarrow> char" where "join1 x y = char_of (x * 4 + y div 16)"
definition join2 :: "nat \<Rightarrow> nat \<Rightarrow> char" where "join2 y z = char_of ((y mod 16) * 16 + z div 4)"
definition join3 :: "nat \<Rightarrow> nat \<Rightarrow> char" where "join3 z w = char_of ((z mod 4) * 64 + w)"

lemma sext_bounds [simp]:
  "sext1 a < 64" "b < 256 \<Longrightarrow> sext2 a b < 64" "c < 256 \<Longrightarrow> sext3 b' c < 64" "sext4 a < 64"
  unfolding sext1_def sext2_def sext3_def sext4_def
  using byte_less [of a] by linarith+

lemma sext2_parts [simp]:
  "b < 256 \<Longrightarrow> sext2 a b div 16 = byte a mod 4" "b < 256 \<Longrightarrow> sext2 a b mod 16 = b div 16"
  by (simp_all add: sext2_def)

lemma sext3_parts [simp]:
  "c < 256 \<Longrightarrow> sext3 b c div 4 = byte b mod 16" "c < 256 \<Longrightarrow> sext3 b c mod 4 = c div 64"
  by (simp_all add: sext3_def)

lemma join1_sext [simp]: "b < 256 \<Longrightarrow> join1 (sext1 a) (sext2 a b) = a"
  by (simp add: join1_def sext1_def)

lemma join2_sext [simp]: "c < 256 \<Longrightarrow> join2 (sext2 a (byte b)) (sext3 b c) = b"
  by (simp add: join2_def)

lemma join3_sext [simp]: "join3 (sext3 b (byte c)) (sext4 c) = c"
  by (simp add: join3_def sext4_def)

fun rawURLEncode :: "bytes \<Rightarrow> string" where
  "rawURLEncode [] = []"
| "rawURLEncode [a] = [urlAlphabet ! sext1 a, urlAlphabet ! sext2 a 0]"
| "rawURLEncode [a, b] =
     [urlAlphabet ! sext1 a, urlAlphabet ! sext2 a (byte b), urlAlphabet ! sext3 b 0]"
| "rawURLEncode (a # b # c # s) =
     urlAlphabet ! sext1 a # urlAlphabet ! sext2 a (byte b) # urlAlphabet ! sext3 b (byte c)
       # urlAlphabet ! sext4 c # rawURLEncode s"

fun stdEncode :: "bytes \<Rightarrow> string" where
  "stdEncode [] = []"
| "stdEncode [a] = [stdAlphabet ! sext1 a, stdAlphabet ! sext2 a 0, CHR ''='', CHR ''='']"
| "stdEncode [a, b] =
     [stdAlphabet ! sext1 a, stdAlphabet ! sext2 a (byte b), stdAlphabet ! sext3 b 0, CHR ''='']"
| "stdEncode (a # b # c # s) =
     stdAlphabet ! sext1 a # stdAlphabet ! sext2 a (byte b) # stdAlphabet ! sext3 b (byte c)
       # stdAlphabet ! sext4 c # stdEncode s"

definition notNewline :: "char \<Rightarrow> bool" where
  "notNewline c \<longleftrightarrow> c \<noteq> CHR 0x0A \<and> c \<noteq> CHR 0x0D"

fun rawURLDigits :: "nat list \<Rightarrow> bytes option" where
  "rawURLDigits [] = Some []"
| "rawURLDigits [x] = None"
| "rawURLDigits [x, y] = Some [join1 x y]"
| "rawURLDigits [x, y, z] = Some [join1 x y, join2 y z]"
| "rawURLDigits (x # y # z # w # ds) =
     map_option (\<lambda>r. join1 x y # join2 y z # join3 z w # r) (rawURLDigits ds)"

fun digits :: "string \<Rightarrow> string \<Rightarrow> nat list option" where
  "digits al [] = Some []"
| "digits al (c # cs) =
     (case pos c al of
        None \<Rightarrow> None
      | Some d \<Rightarrow> map_option (Cons d) (digits al cs))"

definition rawURLDecode :: "string \<Rightarrow> bytes option" where
  "rawURLDecode s = (case digits urlAlphabet (filter notNewline s) of
     None \<Rightarrow> None | Some ds \<Rightarrow> rawURLDigits ds)"

text \<open>The padded form: one or two \<open>=\<close> end the text, and nothing may follow them.\<close>

definition stripPadding :: "string \<Rightarrow> string option" where
  "stripPadding s =
     (if length s mod 4 \<noteq> 0 then None
      else if hasSuffix s ''=='' then Some (take (length s - 2) s)
      else if hasSuffix s ''='' then Some (take (length s - 1) s)
      else Some s)"

definition stdDecode :: "string \<Rightarrow> bytes option" where
  "stdDecode s = (case stripPadding (filter notNewline s) of
     None \<Rightarrow> None
   | Some t \<Rightarrow> (case digits stdAlphabet t of None \<Rightarrow> None | Some ds \<Rightarrow> rawURLDigits ds))"

lemma urlAlphabet_notNewline [simp]: "k < 64 \<Longrightarrow> notNewline (urlAlphabet ! k)"
proof -
  have "list_all notNewline urlAlphabet" by (simp add: urlAlphabet_def notNewline_def)
  then show "k < 64 \<Longrightarrow> ?thesis" by (simp add: list_all_length urlAlphabet_props)
qed

lemma stdAlphabet_notNewline [simp]: "k < 64 \<Longrightarrow> notNewline (stdAlphabet ! k)"
proof -
  have "list_all notNewline stdAlphabet" by (simp add: stdAlphabet_def notNewline_def)
  then show "k < 64 \<Longrightarrow> ?thesis" by (simp add: list_all_length stdAlphabet_props)
qed

lemma stdAlphabet_notPad [simp]: "k < 64 \<Longrightarrow> stdAlphabet ! k \<noteq> CHR ''=''"
proof -
  have "list_all (\<lambda>c. c \<noteq> CHR ''='') stdAlphabet" by (simp add: stdAlphabet_def)
  then show "k < 64 \<Longrightarrow> ?thesis" by (simp add: list_all_length stdAlphabet_props)
qed

lemma urlAlphabet_chars: "k < 64 \<Longrightarrow> isAlnum (urlAlphabet ! k) \<or> urlAlphabet ! k \<in> set ''-_''"
proof -
  have "list_all (\<lambda>c. isAlnum c \<or> c \<in> set ''-_'') urlAlphabet"
    by (simp add: urlAlphabet_def char_class_defs)
  then show "k < 64 \<Longrightarrow> ?thesis" by (simp add: list_all_length urlAlphabet_props)
qed

lemma rawURL_notNewline: "filter notNewline (rawURLEncode s) = rawURLEncode s"
  by (induction s rule: rawURLEncode.induct) simp_all

lemma rawURL_roundtrip: "rawURLDecode (rawURLEncode s) = Some s"
  unfolding rawURLDecode_def rawURL_notNewline
  by (induction s rule: rawURLEncode.induct) (auto split: option.splits)

lemma std_notNewline: "filter notNewline (stdEncode s) = stdEncode s"
  by (induction s rule: stdEncode.induct) (simp_all add: notNewline_def [of "CHR ''=''"])

lemma length_stdEncode: "length (stdEncode s) mod 4 = 0"
  by (induction s rule: stdEncode.induct) (simp_all add: mod_Suc)

text \<open>The padded text is the unpadded digits of the standard alphabet, then the padding.\<close>

fun stdDigits :: "bytes \<Rightarrow> nat list" where
  "stdDigits [] = []"
| "stdDigits [a] = [sext1 a, sext2 a 0]"
| "stdDigits [a, b] = [sext1 a, sext2 a (byte b), sext3 b 0]"
| "stdDigits (a # b # c # s) = sext1 a # sext2 a (byte b) # sext3 b (byte c) # sext4 c # stdDigits s"

definition padding :: "bytes \<Rightarrow> string" where
  "padding s = (if length s mod 3 = 1 then ''=='' else if length s mod 3 = 2 then ''='' else [])"

lemma stdEncode_digits: "stdEncode s = map (\<lambda>k. stdAlphabet ! k) (stdDigits s) @ padding s"
  by (induction s rule: stdEncode.induct) (simp_all add: padding_def mod_Suc split: if_splits)

lemma stdDigits_less: "k \<in> set (stdDigits s) \<Longrightarrow> k < 64"
  by (induction s rule: stdDigits.induct) auto

lemma digits_map: "(\<And>k. k \<in> set ds \<Longrightarrow> k < 64) \<Longrightarrow> digits stdAlphabet (map (\<lambda>k. stdAlphabet ! k) ds) = Some ds"
  by (induction ds) simp_all

lemma rawURLDigits_stdDigits: "rawURLDigits (stdDigits s) = Some s"
  by (induction s rule: stdDigits.induct) simp_all

lemma no_pad_suffix:
  assumes "CHR ''='' \<notin> set t"
  shows "\<not> hasSuffix (t @ ''='') ''==''" "\<not> hasSuffix t ''=''" "\<not> hasSuffix t ''==''"
proof -
  show "\<not> hasSuffix t ''=''" "\<not> hasSuffix t ''==''"
    using assms by (auto simp: hasSuffix_iff)
  show "\<not> hasSuffix (t @ ''='') ''==''"
  proof
    assume "hasSuffix (t @ ''='') ''==''"
    then have "hasPrefix (rev t) ''=''" by (simp add: hasSuffix_def)
    then have "CHR ''='' \<in> set (rev t)" by (auto simp: hasPrefix_iff)
    with assms show False by simp
  qed
qed

lemma stripPadding_stdEncode:
  "stripPadding (stdEncode s) = Some (map (\<lambda>k. stdAlphabet ! k) (stdDigits s))"
proof -
  let ?t = "map (\<lambda>k. stdAlphabet ! k) (stdDigits s)"
  have t: "CHR ''='' \<notin> set ?t"
  proof
    assume "CHR ''='' \<in> set ?t"
    then obtain k where "k \<in> set (stdDigits s)" "stdAlphabet ! k = CHR ''=''"
      unfolding set_map image_iff by metis
    with stdAlphabet_notPad [OF stdDigits_less] show False by blast
  qed
  have len: "length (?t @ padding s) mod 4 = 0"
    using length_stdEncode [of s] by (simp only: stdEncode_digits)
  have "hasSuffix (?t @ ''=='') ''==''" "hasSuffix (?t @ ''='') ''=''"
    by (auto simp: hasSuffix_iff)
  then show ?thesis
    unfolding stdEncode_digits stripPadding_def
    using len no_pad_suffix [OF t] by (auto simp: padding_def)
qed

lemma std_roundtrip: "stdDecode (stdEncode s) = Some s"
  unfolding stdDecode_def std_notNewline stripPadding_stdEncode
  by (simp add: digits_map stdDigits_less rawURLDigits_stdDigits)

interpretation rawURL: codec rawURLEncode rawURLDecode "\<lambda>_. True"
  by unfold_locales (simp add: rawURL_roundtrip)

interpretation std64: codec stdEncode stdDecode "\<lambda>_. True"
  by unfold_locales (simp add: std_roundtrip)

lemma rawURLEncode_Nil_iff [simp]: "rawURLEncode s = [] \<longleftrightarrow> s = []"
  by (cases s rule: rawURLEncode.cases) simp_all

subsection \<open>Hex\<close>

fun hexEncode :: "bytes \<Rightarrow> string" where
  "hexEncode [] = []"
| "hexEncode (c # cs) = hexDigits ! (byte c div 16) # hexDigits ! (byte c mod 16) # hexEncode cs"

definition hexVal :: "char \<Rightarrow> nat option" where
  "hexVal c =
     (if isDigit c then Some (byte c - 48)
      else if CHR ''a'' \<le> c \<and> c \<le> CHR ''f'' then Some (byte c - 87)
      else if CHR ''A'' \<le> c \<and> c \<le> CHR ''F'' then Some (byte c - 55)
      else None)"

fun hexDecode :: "string \<Rightarrow> bytes option" where
  "hexDecode [] = Some []"
| "hexDecode [x] = None"
| "hexDecode (x # y # s) =
     (case hexVal x of None \<Rightarrow> None
      | Some h \<Rightarrow> (case hexVal y of None \<Rightarrow> None
          | Some l \<Rightarrow> map_option (Cons (char_of (h * 16 + l))) (hexDecode s)))"

lemma hexVal_digit [simp]: "k < 16 \<Longrightarrow> hexVal (hexDigits ! k) = Some k"
proof -
  have "\<forall>k < 16. hexVal (hexDigits ! k) = Some k"
    by (simp add: hexDigits_def hexVal_def isDigit_def numeral_eq_Suc All_less_Suc)
  then show "k < 16 \<Longrightarrow> ?thesis" by blast
qed

lemma hex_roundtrip: "hexDecode (hexEncode s) = Some s"
proof (induction s)
  case (Cons c cs)
  have "char_of (byte c div 16 * 16 + byte c mod 16) = c"
    by (simp only: div_mult_mod_eq) simp
  with Cons show ?case by simp
qed simp

lemma length_hexEncode [simp]: "length (hexEncode s) = 2 * length s"
  by (induction s) simp_all

lemma set_hexEncode: "set (hexEncode s) \<subseteq> set hexDigits"
proof (induction s)
  case (Cons c cs)
  have "byte c div 16 < 16" "byte c mod 16 < 16" by simp_all
  then have "hexDigits ! (byte c div 16) \<in> set hexDigits" "hexDigits ! (byte c mod 16) \<in> set hexDigits"
    by (auto intro!: nth_mem simp: hexDigits_props)
  with Cons show ?case by simp
qed simp

interpretation hex: codec hexEncode hexDecode "\<lambda>_. True"
  by unfold_locales (simp add: hex_roundtrip)

end
