(* ===== verification/Page.thy ===== *)
theory Page
  imports Apierr Encoding
begin

text \<open>
  Pagination (\<open>internal/page/page.go\<close>): opaque cursors and the page-size clamp, and the keyset
  page that \<open>ListAccounts\<close>, \<open>ListAccessKeys\<close> and \<open>ListPolicies\<close> all compute: one row more
  than asked for is fetched, and its presence is what makes a next token.

  The locale \<open>pager\<close> is the contract of such a listing towards a client that follows the
  tokens: its lemma is that the client collects every row once, in order, and stops. The
  services that list interpret it on their own operations.
\<close>

subsection \<open>Cursors and limits\<close>

definition DefaultLimit :: int where "DefaultLimit = 50"
definition MaxLimit :: int where "MaxLimit = 500"
definition cursorPrefix :: string where "cursorPrefix = ''v1:''"

definition page_Encode :: "string \<Rightarrow> string" where
  "page_Encode lastKey = (if lastKey = [] then [] else rawURLEncode (cursorPrefix @ lastKey))"

definition badToken :: err where
  "badToken = Validation ''next_token is not a valid pagination token'' []"

definition page_Decode :: "string \<Rightarrow> err + string" where
  "page_Decode token =
     (if token = [] then Inr []
      else case rawURLDecode token of
             None \<Rightarrow> Inl badToken
           | Some s \<Rightarrow> if \<not> hasPrefix s cursorPrefix then Inl badToken else Inr (trimPrefix s cursorPrefix))"

definition page_Limit :: "int \<Rightarrow> err + nat" where
  "page_Limit requested =
     (if requested < 0 then Inl (Validation ''max_results must not be negative, got %d'' [ANum requested])
      else if requested = 0 then Inr (nat DefaultLimit)
      else if requested > MaxLimit then
        Inl (Validation ''max_results must be at most %d, got %d'' [ANum MaxLimit, ANum requested])
      else Inr (nat requested))"

lemma Decode_Encode [simp]: "page_Decode (page_Encode k) = Inr k"
proof (cases "k = []")
  case False
  have "page_Encode k \<noteq> []" using False by (simp add: page_Encode_def cursorPrefix_def)
  then show ?thesis using False by (simp add: page_Decode_def page_Encode_def rawURL_roundtrip)
qed (simp add: page_Decode_def page_Encode_def)

lemma Encode_Nil_iff [simp]: "page_Encode k = [] \<longleftrightarrow> k = []"
  by (simp add: page_Encode_def cursorPrefix_def)

lemma Limit_bounds: "page_Limit n = Inr l \<Longrightarrow> 0 < l \<and> l \<le> 500"
  by (auto simp: page_Limit_def DefaultLimit_def MaxLimit_def split: if_splits)

interpretation cursor: codec page_Encode
  "\<lambda>t. case page_Decode t of Inl _ \<Rightarrow> None | Inr k \<Rightarrow> Some k" "\<lambda>_. True"
  by unfold_locales simp

subsection \<open>Keyset pages\<close>

text \<open>
  The three listings order by a text key. The order is the database's collation: \<open>ck\<close> maps a
  key to its collation key, and \<open>WHERE key > after ORDER BY key LIMIT limit+1\<close> compares those.
\<close>

definition keysetQuery ::
  "(string \<Rightarrow> 'c::linorder) \<Rightarrow> ('r \<Rightarrow> string) \<Rightarrow> 'r list \<Rightarrow> string \<Rightarrow> nat \<Rightarrow> 'r list" where
  "keysetQuery ck key rows after n =
     take n (filter (\<lambda>r. ck after < ck (key r)) (sort_key (\<lambda>r. ck (key r)) rows))"

definition keysetPage ::
  "(string \<Rightarrow> 'c::linorder) \<Rightarrow> ('r \<Rightarrow> string) \<Rightarrow> 'r list \<Rightarrow> string \<Rightarrow> nat \<Rightarrow> 'r list \<times> string" where
  "keysetPage ck key rows after limit =
     (let found = keysetQuery ck key rows after (limit + 1) in
      if length found > limit then (take limit found, page_Encode (key (found ! (limit - 1))))
      else (found, []))"

text \<open>What the database guarantees of the key column: unique, and no key sorts before the empty one.\<close>

definition keyed :: "(string \<Rightarrow> 'c::linorder) \<Rightarrow> ('r \<Rightarrow> string) \<Rightarrow> 'r list \<Rightarrow> bool" where
  "keyed ck key rows \<longleftrightarrow>
     distinct (map (\<lambda>r. ck (key r)) rows) \<and> (\<forall>r \<in> set rows. ck [] < ck (key r))"

definition inKeyOrder :: "(string \<Rightarrow> 'c::linorder) \<Rightarrow> ('r \<Rightarrow> string) \<Rightarrow> 'r list \<Rightarrow> 'r list" where
  "inKeyOrder ck key rows = sort_key (\<lambda>r. ck (key r)) rows"

lemma length_inKeyOrder [simp]: "length (inKeyOrder ck key rows) = length rows"
  by (simp add: inKeyOrder_def)

text \<open>The token that continues after the first \<open>n\<close> rows.\<close>

definition tokenAfter :: "('r \<Rightarrow> string) \<Rightarrow> 'r list \<Rightarrow> nat \<Rightarrow> string" where
  "tokenAfter key items n = (if n = 0 then [] else page_Encode (key (items ! (n - 1))))"

definition keyAfter :: "('r \<Rightarrow> string) \<Rightarrow> 'r list \<Rightarrow> nat \<Rightarrow> string" where
  "keyAfter key items n = (if n = 0 then [] else key (items ! (n - 1)))"

lemma tokenAfter_Decode [simp]: "page_Decode (tokenAfter key items n) = Inr (keyAfter key items n)"
  by (simp add: tokenAfter_def keyAfter_def page_Decode_def [of "[]"])

lemma filter_sorted_after:
  assumes "sorted (map f xs)" "distinct (map f xs)" "0 < n" "n \<le> length xs"
  shows "filter (\<lambda>x. f (xs ! (n - 1)) < f x) xs = drop n xs"
proof -
  let ?p = "f (xs ! (n - 1))"
  have lt: "i < j \<Longrightarrow> j < length xs \<Longrightarrow> f (xs ! i) < f (xs ! j)" for i j
    using sorted_wrt_nth_less [of "(<)" "map f xs" i j] assms(1,2) by (simp add: strict_sorted_iff)
  have "filter (\<lambda>x. ?p < f x) (take n xs) = []"
  proof (rule filter_False, rule ballI)
    fix x assume "x \<in> set (take n xs)"
    then obtain i where "i < n" "x = xs ! i" "i < length xs"
      by (auto simp: in_set_conv_nth)
    moreover have "n - 1 < length xs" using assms(3,4) by linarith
    moreover from calculation(1) have "i = n - 1 \<or> i < n - 1" by linarith
    ultimately show "\<not> ?p < f x"
      using lt [of i "n - 1"] by (metis order_less_asym order_less_irrefl)
  qed
  moreover have "filter (\<lambda>x. ?p < f x) (drop n xs) = drop n xs"
  proof (rule filter_True, rule ballI)
    fix x assume "x \<in> set (drop n xs)"
    then obtain i where "i < length xs - n" "x = xs ! (n + i)"
      by (auto simp: in_set_conv_nth)
    then show "?p < f x" using lt [of "n - 1" "n + i"] assms(3) by auto
  qed
  ultimately have "filter (\<lambda>x. ?p < f x) (take n xs @ drop n xs) = drop n xs"
    by (simp only: filter_append) simp
  then show ?thesis by simp
qed

lemma keysetQuery_at:
  assumes "keyed ck key rows" "n \<le> length rows"
  shows "keysetQuery ck key rows (keyAfter key (inKeyOrder ck key rows) n) m =
           take m (drop n (inKeyOrder ck key rows))"
proof (cases "n = 0")
  case True
  have "filter (\<lambda>r. ck [] < ck (key r)) (sort_key (\<lambda>r. ck (key r)) rows) = sort_key (\<lambda>r. ck (key r)) rows"
    using assms(1) by (auto simp: keyed_def intro: filter_True)
  then show ?thesis using True by (simp add: keysetQuery_def keyAfter_def inKeyOrder_def)
next
  case False
  let ?xs = "inKeyOrder ck key rows"
  have "sorted (map (\<lambda>r. ck (key r)) ?xs)" by (simp add: inKeyOrder_def)
  moreover have "distinct (map (\<lambda>r. ck (key r)) ?xs)"
  proof -
    have "mset (map (\<lambda>r. ck (key r)) ?xs) = mset (map (\<lambda>r. ck (key r)) rows)"
      by (simp add: inKeyOrder_def)
    then show ?thesis using assms(1) by (metis keyed_def mset_eq_imp_distinct_iff)
  qed
  moreover have "n \<le> length ?xs" using assms(2) by (simp add: inKeyOrder_def)
  ultimately have "filter (\<lambda>r. ck (key (?xs ! (n - 1))) < ck (key r)) ?xs = drop n ?xs"
    using filter_sorted_after [of "\<lambda>r. ck (key r)" ?xs n] False by simp
  then show ?thesis using False by (simp add: keysetQuery_def keyAfter_def inKeyOrder_def)
qed

lemma keysetPage_at:
  assumes "keyed ck key rows" "n \<le> length rows" "0 < limit"
  shows "keysetPage ck key rows (keyAfter key (inKeyOrder ck key rows) n) limit =
     (take limit (drop n (inKeyOrder ck key rows)),
      if n + limit < length rows then tokenAfter key (inKeyOrder ck key rows) (n + limit) else [])"
proof -
  let ?xs = "inKeyOrder ck key rows"
  have len: "length ?xs = length rows" by (simp add: inKeyOrder_def)
  have "take (limit + 1) (drop n ?xs) ! (limit - 1) = ?xs ! (n + limit - 1)"
    if "n + limit < length rows" using that assms(3) len by (simp add: add.commute)
  then show ?thesis
    unfolding keysetPage_def keysetQuery_at [OF assms(1,2)]
    using assms(3) len by (auto simp: Let_def tokenAfter_def min_def)
qed

subsection \<open>Following the tokens\<close>

text \<open>
  A client that asks for a page, then for the page after the returned token, until the token
  is empty: the loop of \<open>dariyactl account list\<close> and \<open>key list\<close>. It may loop for as long as the
  server hands out tokens, so it runs on fuel; \<^const>\<open>None\<close> is a run that did not end.
\<close>

fun collectPages :: "nat \<Rightarrow> (string \<Rightarrow> err + 'r list \<times> string) \<Rightarrow> string \<Rightarrow> (err + 'r list) option" where
  "collectPages 0 page token = None"
| "collectPages (Suc fuel) page token =
     (case page token of
        Inl e \<Rightarrow> Some (Inl e)
      | Inr (rows, next) \<Rightarrow>
          if next = [] then Some (Inr rows)
          else (case collectPages fuel page next of
                  None \<Rightarrow> None
                | Some (Inl e) \<Rightarrow> Some (Inl e)
                | Some (Inr rest) \<Rightarrow> Some (Inr (rows @ rest))))"

locale pager =
  fixes page :: "'s \<Rightarrow> string \<Rightarrow> err + 'r list \<times> string"
    and items :: "'s \<Rightarrow> 'r list"
    and token :: "'s \<Rightarrow> nat \<Rightarrow> string"
    and limit :: "'s \<Rightarrow> nat"
    and wf :: "'s \<Rightarrow> bool"
  assumes limit_pos: "wf s \<Longrightarrow> 0 < limit s"
    and token_0: "token s 0 = []"
    and token_ne: "wf s \<Longrightarrow> 0 < n \<Longrightarrow> n < length (items s) \<Longrightarrow> token s n \<noteq> []"
    and page_at: "wf s \<Longrightarrow> n \<le> length (items s) \<Longrightarrow>
      page s (token s n) = Inr (take (limit s) (drop n (items s)),
        if n + limit s < length (items s) then token s (n + limit s) else [])"
begin

lemma collect_from:
  "wf s \<Longrightarrow> n \<le> length (items s) \<Longrightarrow> length (items s) - n < fuel \<Longrightarrow>
   collectPages fuel (page s) (token s n) = Some (Inr (drop n (items s)))"
proof (induction fuel arbitrary: n)
  case (Suc fuel)
  show ?case
  proof (cases "n + limit s < length (items s)")
    case True
    have "length (items s) - (n + limit s) < fuel"
      using Suc.prems limit_pos [OF Suc.prems(1)] True by linarith
    then have "collectPages fuel (page s) (token s (n + limit s)) = Some (Inr (drop (n + limit s) (items s)))"
      using Suc.IH [of "n + limit s"] Suc.prems(1) True by simp
    moreover have "token s (n + limit s) \<noteq> []"
      using token_ne Suc.prems(1) limit_pos True by simp
    moreover have "take (limit s) (drop n (items s)) @ drop (n + limit s) (items s) = drop n (items s)"
      by (metis add.commute append_take_drop_id drop_drop)
    ultimately show ?thesis using page_at [OF Suc.prems(1,2)] True by simp
  next
    case False
    then show ?thesis using page_at [OF Suc.prems(1,2)] by simp
  qed
qed simp

lemma collect_all:
  "wf s \<Longrightarrow> length (items s) < fuel \<Longrightarrow> collectPages fuel (page s) [] = Some (Inr (items s))"
  using collect_from [of s 0 fuel] token_0 by simp

end

text \<open>
  A listing that answers with the keyset page of its rows is a pager: this is all the services
  have to show of theirs.
\<close>

lemma keyAfter_ne:
  assumes "keyed ck key rows" "0 < n" "n \<le> length rows"
  shows "keyAfter key (inKeyOrder ck key rows) n \<noteq> []"
proof -
  let ?r = "inKeyOrder ck key rows ! (n - 1)"
  have "?r \<in> set (inKeyOrder ck key rows)" using assms by (intro nth_mem) simp
  then have "ck [] < ck (key ?r)" using assms(1) by (simp add: keyed_def inKeyOrder_def)
  then show ?thesis using assms(2) by (auto simp: keyAfter_def)
qed

locale keyset_listing =
  fixes page :: "'s \<Rightarrow> string \<Rightarrow> err + 'a list \<times> string"
    and view :: "'r \<Rightarrow> 'a"
    and ck :: "string \<Rightarrow> 'c::linorder"
    and key :: "'r \<Rightarrow> string"
    and rows :: "'s \<Rightarrow> 'r list"
    and limit :: "'s \<Rightarrow> nat"
    and wf :: "'s \<Rightarrow> bool"
  assumes listing_keyed: "wf s \<Longrightarrow> keyed ck key (rows s)"
    and listing_limit: "wf s \<Longrightarrow> 0 < limit s"
    and listing: "wf s \<Longrightarrow> page_Decode token = Inr after \<Longrightarrow>
      page s token = Inr (map_prod (map view) id (keysetPage ck key (rows s) after (limit s)))"
begin

lemma listing_at:
  assumes "wf s" "n \<le> length (rows s)"
  shows "page s (tokenAfter key (inKeyOrder ck key (rows s)) n) =
    Inr (take (limit s) (drop n (map view (inKeyOrder ck key (rows s)))),
      if n + limit s < length (rows s) then tokenAfter key (inKeyOrder ck key (rows s)) (n + limit s) else [])"
  using listing [OF assms(1) tokenAfter_Decode [of key "inKeyOrder ck key (rows s)" n]]
    keysetPage_at [OF listing_keyed [OF assms(1)] assms(2) listing_limit [OF assms(1)]]
  by (simp add: take_map drop_map)

end

sublocale keyset_listing \<subseteq> follow: pager page "\<lambda>s. map view (inKeyOrder ck key (rows s))"
  "\<lambda>s n. tokenAfter key (inKeyOrder ck key (rows s)) n" limit wf
proof unfold_locales
  fix s n assume "wf s" "0 < n" "n < length (map view (inKeyOrder ck key (rows s)))"
  then show "tokenAfter key (inKeyOrder ck key (rows s)) n \<noteq> []"
    using keyAfter_ne [OF listing_keyed, of s n] by (simp add: tokenAfter_def keyAfter_def)
qed (simp_all add: listing_limit listing_at, simp add: tokenAfter_def)

end
