(* ===== verification/Arn.thy ===== *)
theory Arn
  imports Apierr
begin

text \<open>
  Resource names (\<open>internal/arn/arn.go\<close>): the parsed structure, its rendering, the strict
  parser with each of its five refusals, and the account check. The lemmas show that parsing
  and rendering are inverse on every name the parser accepts, and that what it accepts has a
  twelve-digit account and no empty field.
\<close>

subsection \<open>Types and constants\<close>

definition Partition :: string where "Partition = ''dariya''"
definition AccountIDLen :: nat where "AccountIDLen = 12"

definition ErrMalformed :: err where "ErrMalformed = Sentinel ''arn: malformed''"
definition ErrPartition :: err where "ErrPartition = Sentinel ''arn: wrong partition''"
definition ErrAccountID :: err where "ErrAccountID = Sentinel ''arn: account id must be 12 digits''"
definition ErrEmptyField :: err where "ErrEmptyField = Sentinel ''arn: empty required field''"
definition ErrNoResource :: err where "ErrNoResource = Sentinel ''arn: resource must be <type>/<id>''"

lemmas arn_err_defs = ErrMalformed_def ErrPartition_def ErrAccountID_def ErrEmptyField_def
  ErrNoResource_def

record ARN =
  a_Service :: string
  a_Region :: string
  a_Account :: string
  a_Type :: string
  a_ID :: string

subsection \<open>Rendering and parsing\<close>

definition arn_String :: "ARN \<Rightarrow> string" where
  "arn_String a =
     joinWith '':''
       [''arn'', Partition, a_Service a, a_Region a, a_Account a, a_Type a @ ''/'' @ a_ID a]"

text \<open>The index of the first byte that is not a digit, which the error reports.\<close>

fun firstNonDigit :: "string \<Rightarrow> nat \<Rightarrow> nat option" where
  "firstNonDigit [] i = None"
| "firstNonDigit (c # cs) i =
     (if c < CHR ''0'' \<or> c > CHR ''9'' then Some i else firstNonDigit cs (Suc i))"

definition ValidateAccountID :: "string \<Rightarrow> err option" where
  "ValidateAccountID ident =
     (if length ident \<noteq> AccountIDLen
      then Some (Errorf ''%w: got %d chars in %q'' [ANum (int (length ident)), AStr ident] (Some ErrAccountID))
      else case firstNonDigit ident 0 of
             Some i \<Rightarrow> Some (Errorf ''%w: non-digit at %d in %q'' [ANum (int i), AStr ident] (Some ErrAccountID))
           | None \<Rightarrow> None)"

definition arn_Parse :: "string \<Rightarrow> err + ARN" where
  "arn_Parse s =
     (case splitN CHR '':'' 6 s of
        [p0, p1, p2, p3, p4, p5] \<Rightarrow>
          if p0 \<noteq> ''arn'' then
            Inl (Errorf ''%w: must begin with \"arn\", got %q'' [AStr p0] (Some ErrMalformed))
          else if p1 \<noteq> Partition then
            Inl (Errorf ''%w: got %q, want %q'' [AStr p1, AStr Partition] (Some ErrPartition))
          else if p2 = [] \<or> p3 = [] then
            Inl (Errorf ''%w: service and region are required in %q'' [AStr s] (Some ErrEmptyField))
          else
            (case ValidateAccountID p4 of
               Some e \<Rightarrow> Inl e
             | None \<Rightarrow>
                 (case cut CHR ''/'' p5 of
                    None \<Rightarrow> Inl (Errorf ''%w: got %q'' [AStr p5] (Some ErrNoResource))
                  | Some (typ, ident) \<Rightarrow>
                      if typ = [] \<or> ident = [] then
                        Inl (Errorf ''%w: got %q'' [AStr p5] (Some ErrNoResource))
                      else
                        Inr \<lparr>a_Service = p2, a_Region = p3, a_Account = p4, a_Type = typ, a_ID = ident\<rparr>))
      | parts \<Rightarrow>
          Inl (Errorf ''%w: expected 6 colon-separated segments, got %d in %q''
                 [ANum (int (length parts)), AStr s] (Some ErrMalformed)))"

text \<open>\<open>MustParse\<close> panics where \<open>Parse\<close> fails: \<^const>\<open>None\<close> is that panic.\<close>

definition MustParse :: "string \<Rightarrow> ARN option" where
  "MustParse s = (case arn_Parse s of Inl _ \<Rightarrow> None | Inr a \<Rightarrow> Some a)"

definition SameAccount :: "ARN \<Rightarrow> ARN \<Rightarrow> bool" where
  "SameAccount a other \<longleftrightarrow> a_Account a = a_Account other"

subsection \<open>Account ids\<close>

definition is_account_id :: "string \<Rightarrow> bool" where
  "is_account_id ident \<longleftrightarrow> length ident = 12 \<and> (\<forall>c \<in> set ident. isDigit c)"

lemma firstNonDigit_None: "firstNonDigit s i = None \<longleftrightarrow> (\<forall>c \<in> set s. isDigit c)"
  by (induction s arbitrary: i) (auto simp: isDigit_def)

lemma ValidateAccountID_None: "ValidateAccountID ident = None \<longleftrightarrow> is_account_id ident"
  using firstNonDigit_None [of ident 0]
  by (cases "firstNonDigit ident 0") (auto simp: ValidateAccountID_def is_account_id_def AccountIDLen_def)

lemma account_id_valid [simp]: "is_account_id ident \<Longrightarrow> ValidateAccountID ident = None"
  by (simp add: ValidateAccountID_None)

lemma ValidateAccountID_Some:
  "ValidateAccountID ident = Some e \<Longrightarrow> \<not> is_account_id ident \<and> errorsIs e ErrAccountID"
  using ValidateAccountID_None [of ident]
  by (auto simp: ValidateAccountID_def split: if_splits option.splits)

lemma account_id_no_sep [simp]:
  "is_account_id ident \<Longrightarrow> CHR '':'' \<notin> set ident" "is_account_id ident \<Longrightarrow> CHR ''/'' \<notin> set ident"
  "is_account_id ident \<Longrightarrow> CHR ''-'' \<notin> set ident" "is_account_id ident \<Longrightarrow> CHR ''.'' \<notin> set ident"
  by (auto simp: is_account_id_def isDigit_def)

lemma account_id_length [simp]: "is_account_id ident \<Longrightarrow> length ident = 12"
  by (simp add: is_account_id_def)

lemma account_id_ne [simp]: "is_account_id ident \<Longrightarrow> ident \<noteq> []"
  by (auto simp: is_account_id_def)

subsection \<open>Well-formed names\<close>

text \<open>What a parsed name satisfies, and exactly what makes a structure render to a parsable one.\<close>

definition wf_arn :: "ARN \<Rightarrow> bool" where
  "wf_arn a \<longleftrightarrow>
     a_Service a \<noteq> [] \<and> CHR '':'' \<notin> set (a_Service a) \<and>
     a_Region a \<noteq> [] \<and> CHR '':'' \<notin> set (a_Region a) \<and>
     is_account_id (a_Account a) \<and>
     a_Type a \<noteq> [] \<and> CHR ''/'' \<notin> set (a_Type a) \<and> a_ID a \<noteq> []"

lemma splitN_six:
  assumes "c \<notin> set p0" "c \<notin> set p1" "c \<notin> set p2" "c \<notin> set p3" "c \<notin> set p4"
  shows "splitN c 6 (p0 @ c # p1 @ c # p2 @ c # p3 @ c # p4 @ c # p5) = [p0, p1, p2, p3, p4, p5]"
  using assms by (simp add: numeral_eq_Suc)

lemma arn_String_append:
  "arn_String a = ''arn'' @ CHR '':'' # Partition @ CHR '':'' # a_Service a @ CHR '':'' # a_Region a
     @ CHR '':'' # a_Account a @ CHR '':'' # (a_Type a @ CHR ''/'' # a_ID a)"
  by (simp add: arn_String_def)

lemma Parse_parts:
  assumes "CHR '':'' \<notin> set svc" "CHR '':'' \<notin> set reg" "CHR '':'' \<notin> set acct"
  shows "arn_Parse (''arn'' @ CHR '':'' # Partition @ CHR '':'' # svc @ CHR '':'' # reg @ CHR '':'' # acct
           @ CHR '':'' # res) =
     (if svc = [] \<or> reg = [] then
        Inl (Errorf ''%w: service and region are required in %q''
          [AStr (''arn'' @ CHR '':'' # Partition @ CHR '':'' # svc @ CHR '':'' # reg @ CHR '':'' # acct
           @ CHR '':'' # res)] (Some ErrEmptyField))
      else (case ValidateAccountID acct of
          Some e \<Rightarrow> Inl e
        | None \<Rightarrow> (case cut CHR ''/'' res of
            None \<Rightarrow> Inl (Errorf ''%w: got %q'' [AStr res] (Some ErrNoResource))
          | Some (typ, ident) \<Rightarrow>
             if typ = [] \<or> ident = [] then Inl (Errorf ''%w: got %q'' [AStr res] (Some ErrNoResource))
             else Inr \<lparr>a_Service = svc, a_Region = reg, a_Account = acct, a_Type = typ, a_ID = ident\<rparr>)))"
proof -
  have a: "CHR '':'' \<notin> set ''arn''" and p: "CHR '':'' \<notin> set Partition"
    by (simp_all add: Partition_def)
  show ?thesis
    unfolding arn_Parse_def splitN_six [OF a p assms] by simp
qed

lemma Parse_String: "wf_arn a \<Longrightarrow> arn_Parse (arn_String a) = Inr a"
  unfolding arn_String_append
  by (subst Parse_parts) (auto simp: wf_arn_def)

lemma splitN_shape:
  "splitN c 6 s = [p0, p1, p2, p3, p4, p5] \<Longrightarrow>
   s = p0 @ c # p1 @ c # p2 @ c # p3 @ c # p4 @ c # p5 \<and>
   c \<notin> set p0 \<and> c \<notin> set p1 \<and> c \<notin> set p2 \<and> c \<notin> set p3 \<and> c \<notin> set p4"
  by (auto simp: numeral_eq_Suc split: option.splits prod.splits dest!: cut_SomeD)

lemma Parse_InrD:
  assumes "arn_Parse s = Inr a"
  shows "wf_arn a \<and> s = arn_String a"
proof -
  from assms obtain p0 p1 p2 p3 p4 p5 where
    parts: "splitN CHR '':'' 6 s = [p0, p1, p2, p3, p4, p5]"
    by (auto simp: arn_Parse_def split: list.splits)
  note shape = splitN_shape [OF parts]
  from assms shape show ?thesis
    unfolding arn_Parse_def parts
    by (auto simp: wf_arn_def arn_String_append ValidateAccountID_None split: if_splits option.splits
        dest!: cut_SomeD)
qed

lemma Parse_Inr_iff: "arn_Parse s = Inr a \<longleftrightarrow> wf_arn a \<and> s = arn_String a"
  using Parse_InrD Parse_String by blast

interpretation arn_codec: codec arn_String "\<lambda>s. case arn_Parse s of Inl _ \<Rightarrow> None | Inr a \<Rightarrow> Some a" wf_arn
  by unfold_locales (simp add: Parse_String)

subsection \<open>Properties\<close>

text \<open>Parsing and rendering a resource name are inverse. \<open>Parse\<close> accepts exactly the texts that
  \<open>String\<close> produces from a well-formed structure (no empty field, a twelve-digit account, no colon
  in service and region, no slash in the type), and gives that structure back: nothing else
  is accepted, and nothing is lost.\<close>
theorem arn_parse_render:
  "arn_Parse s = Inr a \<longleftrightarrow> wf_arn a \<and> s = arn_String a"
  by (rule Parse_Inr_iff)

end
