(* ===== verification/Db.thy ===== *)
theory Db
  imports Page Arn
begin

text \<open>
  The control-plane database and the world that the operations on it run in: the tables of
  \<open>internal/store/migrations\<close> with their constraints, statements that may fail, transactions,
  the clock and the random bytes. The Go code reaches Postgres through \<open>pgx\<close>, which is not
  part of the repository; what is modelled here is the SQL that the repository itself writes:
  each statement is a function on the tables.

  A statement may fail for reasons outside the program. \<open>w_faults\<close> lists, for the coming statements
  in order, whether each one fails and with which error; theorems that hold for every world
  hold for every pattern of failures. A statement that fails has had no effect, and a \<open>COMMIT\<close> that fails has been
  rolled back: the case that the server carried it out and only its reply was lost is not covered. Statements of one
  operation are not interleaved with those of another.
\<close>

subsection \<open>Tables\<close>

record account_row =
  ac_id :: string
  ac_name :: string
  ac_state :: string
  ac_created :: int

record key_row =
  ak_id :: string
  ak_account :: string
  ak_principal :: string
  ak_ciphertext :: bytes
  ak_nonce :: bytes
  ak_master :: string
  ak_state :: string
  ak_created :: int

record idem_row =
  id_operation :: string
  id_token :: string
  id_result :: string
  id_created :: int

record policy_row =
  po_arn :: string
  po_account :: string
  po_name :: string
  po_document :: bytes
  po_created :: int

record attach_row =
  at_policy :: string
  at_principal :: string
  at_created :: int

record session_row =
  ss_sha :: bytes
  ss_account :: string
  ss_principal :: string
  ss_csrf :: string
  ss_created :: int
  ss_expires :: int

record db =
  d_accounts :: "account_row list"
  d_keys :: "key_row list"
  d_idem :: "idem_row list"
  d_policies :: "policy_row list"
  d_attach :: "attach_row list"
  d_sessions :: "session_row list"

definition emptyDb :: db where
  "emptyDb = \<lparr>d_accounts = [], d_keys = [], d_idem = [], d_policies = [], d_attach = [], d_sessions = []\<rparr>"

text \<open>The SQLSTATE codes of the constraint violations.\<close>

definition pgUniqueViolation :: string where "pgUniqueViolation = ''23505''"
definition pgForeignKeyViolation :: string where "pgForeignKeyViolation = ''23503''"
definition pgCheckViolation :: string where "pgCheckViolation = ''23514''"

definition ErrNoRows :: err where "ErrNoRows = Sentinel ''no rows in result set''"

definition isUniqueViolation :: "err \<Rightarrow> bool" where
  "isUniqueViolation e \<longleftrightarrow> asPg e = Some pgUniqueViolation"

subsection \<open>The world\<close>

text \<open>A statement fails with an SQLSTATE from the server, or because the connection does.\<close>

datatype fault = Sqlstate string | ConnError string

fun faultErr :: "fault \<Rightarrow> err" where
  "faultErr (Sqlstate c) = PgErr c"
| "faultErr (ConnError m) = Errorf m [] None"

lemma fault_not_NoRows [simp]: "\<not> errorsIs (faultErr f) ErrNoRows" "asApi (faultErr f) = None"
  by (cases f; simp add: ErrNoRows_def)+

record world =
  w_db :: db
  w_faults :: "fault option list"
  w_entropy :: bytes
  w_now :: time

definition nextFault :: "'a world_scheme \<Rightarrow> err option" where
  "nextFault w = (case w_faults w of [] \<Rightarrow> None | f # _ \<Rightarrow> map_option faultErr f)"

definition popFault :: "'a world_scheme \<Rightarrow> 'a world_scheme" where
  "popFault w = w\<lparr>w_faults := tl (w_faults w)\<rparr>"

lemma nextFault_Some: "nextFault w = Some e \<Longrightarrow> \<not> errorsIs e ErrNoRows \<and> asApi e = None"
  by (auto simp: nextFault_def split: list.splits)

lemma popFault_simps [simp]:
  "w_db (popFault w) = w_db w" "w_entropy (popFault w) = w_entropy w" "w_now (popFault w) = w_now w"
  by (simp_all add: popFault_def)

lemma popFault_update [simp]:
  "popFault w\<lparr>w_db := d\<rparr> = popFault (w\<lparr>w_db := d\<rparr>)" "popFault w\<lparr>w_entropy := b\<rparr> = popFault (w\<lparr>w_entropy := b\<rparr>)"
  by (simp_all add: popFault_def)

lemma nextFault_update [simp]:
  "nextFault (w\<lparr>w_db := d\<rparr>) = nextFault w" "nextFault (w\<lparr>w_entropy := b\<rparr>) = nextFault w"
  by (simp_all add: nextFault_def)

text \<open>A world in which no statement fails any more.\<close>

definition calm :: "'a world_scheme \<Rightarrow> bool" where
  "calm w \<longleftrightarrow> set (w_faults w) \<subseteq> {None}"

lemma calm_next [simp]: "calm w \<Longrightarrow> nextFault w = None"
  by (auto simp: calm_def nextFault_def split: list.splits)

lemma calm_pop [simp]: "calm w \<Longrightarrow> calm (popFault w)"
  by (cases "w_faults w") (auto simp: calm_def popFault_def)

lemma calm_update [simp]: "calm (w\<lparr>w_db := d\<rparr>) = calm w" "calm (w\<lparr>w_entropy := b\<rparr>) = calm w"
  by (simp_all add: calm_def)

subsection \<open>Statements and transactions\<close>

definition sql :: "(db \<Rightarrow> err + 'a \<times> db) \<Rightarrow> ('w world_scheme, err + 'a) state" where
  "sql f = State (\<lambda>w.
     case nextFault w of
       Some e \<Rightarrow> (Inl e, popFault w)
     | None \<Rightarrow> (case f (w_db w) of
         Inl e \<Rightarrow> (Inl e, popFault w)
       | Inr (a, d) \<Rightarrow> (Inr a, popFault (w\<lparr>w_db := d\<rparr>))))"

text \<open>\<open>Begin\<close> yields the tables to come back to; a transaction whose commit fails is rolled back (a commit whose
  reply alone is lost, and which may have taken effect, is not modelled).\<close>

definition tx_Begin :: "('w world_scheme, err + db) state" where
  "tx_Begin = sql (\<lambda>d. Inr (d, d))"

definition tx_Rollback :: "db \<Rightarrow> ('w world_scheme, unit) state" where
  "tx_Rollback snap = modify (\<lambda>w. w\<lparr>w_db := snap\<rparr>)"

definition tx_Commit :: "db \<Rightarrow> ('w world_scheme, err + unit) state" where
  "tx_Commit snap = State (\<lambda>w.
     case nextFault w of
       Some e \<Rightarrow> (Inl e, popFault (w\<lparr>w_db := snap\<rparr>))
     | None \<Rightarrow> (Inr (), popFault w))"

text \<open>
  Leaving a function with an error after \<open>Begin\<close> runs the deferred rollback.
\<close>

definition failTx :: "db \<Rightarrow> err \<Rightarrow> ('w world_scheme, err + 'a) state" where
  "failTx snap e = do { tx_Rollback snap; ret (Inl e) }"

lemma run_sql:
  "run (sql f) w =
     (case nextFault w of
       Some e \<Rightarrow> (Inl e, popFault w)
     | None \<Rightarrow> (case f (w_db w) of
         Inl e \<Rightarrow> (Inl e, popFault w)
       | Inr (a, d) \<Rightarrow> (Inr a, popFault (w\<lparr>w_db := d\<rparr>))))"
  by (simp add: sql_def)

lemma run_tx [simp]:
  "run (tx_Rollback snap) w = ((), w\<lparr>w_db := snap\<rparr>)"
  "run (failTx snap e) w = (Inl e, w\<lparr>w_db := snap\<rparr>)"
  by (simp_all add: tx_Rollback_def failTx_def)

lemma run_tx_Begin:
  "run tx_Begin w = (case nextFault w of Some e \<Rightarrow> (Inl e, popFault w) | None \<Rightarrow> (Inr (w_db w), popFault w))"
  by (simp add: tx_Begin_def run_sql split: option.split)

lemma run_tx_Commit:
  "run (tx_Commit snap) w = (case nextFault w of
     Some e \<Rightarrow> (Inl e, popFault (w\<lparr>w_db := snap\<rparr>)) | None \<Rightarrow> (Inr (), popFault w))"
  by (simp add: tx_Commit_def)

lemmas run_db = run_sql run_tx_Begin run_tx_Commit

text \<open>Row lookups by a key: \<open>QueryRow\<close> with \<open>Scan\<close>, which reports a missing row as \<open>ErrNoRows\<close>.\<close>

definition queryRow :: "(db \<Rightarrow> 'r option) \<Rightarrow> db \<Rightarrow> err + 'r \<times> db" where
  "queryRow sel d = (case sel d of None \<Rightarrow> Inl ErrNoRows | Some r \<Rightarrow> Inr (r, d))"

definition queryRows :: "(db \<Rightarrow> 'r list) \<Rightarrow> db \<Rightarrow> err + 'r list \<times> db" where
  "queryRows sel d = Inr (sel d, d)"

definition accountById :: "string \<Rightarrow> db \<Rightarrow> account_row option" where
  "accountById i d = find (\<lambda>r. ac_id r = i) (d_accounts d)"

definition keyById :: "string \<Rightarrow> db \<Rightarrow> key_row option" where
  "keyById i d = find (\<lambda>r. ak_id r = i) (d_keys d)"

definition idemById :: "string \<Rightarrow> string \<Rightarrow> db \<Rightarrow> idem_row option" where
  "idemById op tok d = find (\<lambda>r. id_operation r = op \<and> id_token r = tok) (d_idem d)"

definition policyByArn :: "string \<Rightarrow> db \<Rightarrow> policy_row option" where
  "policyByArn a d = find (\<lambda>r. po_arn r = a) (d_policies d)"

definition sessionBySha :: "bytes \<Rightarrow> db \<Rightarrow> session_row option" where
  "sessionBySha h d = find (\<lambda>r. ss_sha r = h) (d_sessions d)"

lemmas byKey_defs = accountById_def keyById_def idemById_def policyByArn_def sessionBySha_def

lemma find_append: "find P (xs @ ys) = (case find P xs of Some x \<Rightarrow> Some x | None \<Rightarrow> find P ys)"
  by (induction xs) auto

lemma find_None: "find P xs = None \<longleftrightarrow> (\<forall>x \<in> set xs. \<not> P x)"
  by (auto simp: find_None_iff)

lemma find_SomeD: "find P xs = Some x \<Longrightarrow> x \<in> set xs \<and> P x"
  by (induction xs) (auto split: if_splits)

lemma find_filter_other: "(\<And>x. P x \<Longrightarrow> Q x) \<Longrightarrow> find P (filter Q xs) = find P xs"
  by (induction xs) auto

text \<open>\<open>INSERT ... ON CONFLICT DO NOTHING\<close> into the idempotency table: the number of rows inserted.\<close>

definition insertIdem :: "idem_row \<Rightarrow> db \<Rightarrow> err + nat \<times> db" where
  "insertIdem r d =
     (case idemById (id_operation r) (id_token r) d of
        Some _ \<Rightarrow> Inr (0, d)
      | None \<Rightarrow> Inr (1, d\<lparr>d_idem := d_idem d @ [r]\<rparr>))"

subsection \<open>Random bytes and the clock\<close>

definition randRead :: "nat \<Rightarrow> ('w world_scheme, bytes option) state" where
  "randRead n = State (\<lambda>w.
     if n \<le> length (w_entropy w) then (Some (take n (w_entropy w)), w\<lparr>w_entropy := drop n (w_entropy w)\<rparr>)
     else (None, w\<lparr>w_entropy := []\<rparr>))"

lemma run_randRead:
  "run (randRead n) w =
     (if n \<le> length (w_entropy w) then (Some (take n (w_entropy w)), w\<lparr>w_entropy := drop n (w_entropy w)\<rparr>)
      else (None, w\<lparr>w_entropy := []\<rparr>))"
  by (simp add: randRead_def)

definition ErrEntropy :: err where "ErrEntropy = Sentinel ''rand: entropy source failed''"

subsection \<open>Integrity\<close>

text \<open>The constraints of the schema, as an invariant of the tables.\<close>

definition wf_db :: "db \<Rightarrow> bool" where
  "wf_db d \<longleftrightarrow>
     distinct (map ac_id (d_accounts d)) \<and> (\<forall>r \<in> set (d_accounts d). is_account_id (ac_id r)) \<and>
     distinct (map ak_id (d_keys d)) \<and> (\<forall>r \<in> set (d_keys d). ak_account r \<in> ac_id ` set (d_accounts d)) \<and>
     distinct (map (\<lambda>r. (id_operation r, id_token r)) (d_idem d)) \<and>
     distinct (map po_arn (d_policies d)) \<and> distinct (map (\<lambda>r. (po_account r, po_name r)) (d_policies d)) \<and>
     (\<forall>r \<in> set (d_policies d). po_account r \<in> ac_id ` set (d_accounts d)) \<and>
     distinct (map (\<lambda>r. (at_policy r, at_principal r)) (d_attach d)) \<and>
     (\<forall>r \<in> set (d_attach d). at_policy r \<in> po_arn ` set (d_policies d)) \<and>
     distinct (map ss_sha (d_sessions d)) \<and> (\<forall>r \<in> set (d_sessions d). ss_account r \<in> ac_id ` set (d_accounts d))"

lemma find_unique:
  "distinct (map f xs) \<Longrightarrow> x \<in> set xs \<Longrightarrow> find (\<lambda>y. f y = f x) xs = Some x"
  by (induction xs) auto

lemma wf_emptyDb: "wf_db emptyDb"
  by (simp add: wf_db_def emptyDb_def)

end
