(* ===== verification/Secrets.thy ===== *)
theory Secrets
  imports Db Encoding
begin

text \<open>
  Encryption of stored secrets (\<open>internal/secrets/secrets.go\<close>): the keyring, its configuration from the
  environment, \<open>Seal\<close> and \<open>Open\<close>. AES-256-GCM is a pair of functions, an argument of the
  definitions; \<open>gcm_ok\<close> states that opening what was sealed with the same key, nonce and
  additional data gives the plaintext back.
\<close>

record aead =
  gcm_seal :: "bytes \<Rightarrow> bytes \<Rightarrow> bytes \<Rightarrow> bytes \<Rightarrow> bytes"
  gcm_open :: "bytes \<Rightarrow> bytes \<Rightarrow> bytes \<Rightarrow> bytes \<Rightarrow> bytes option"

definition gcm_ok :: "aead \<Rightarrow> bool" where
  "gcm_ok g \<longleftrightarrow> (\<forall>k n p a. gcm_open g k n (gcm_seal g k n p a) a = Some p)"

text \<open>What authenticated encryption adds: a ciphertext does not open under other additional data.\<close>

definition gcm_binds :: "aead \<Rightarrow> bool" where
  "gcm_binds g \<longleftrightarrow> (\<forall>k n p a a'. a' \<noteq> a \<longrightarrow> gcm_open g k n (gcm_seal g k n p a) a' = None)"

definition MasterKeysEnv :: string where "MasterKeysEnv = ''DARIYA_MASTER_KEYS''"
definition KeySize :: nat where "KeySize = 32"
definition NonceSize :: nat where "NonceSize = 12"

record Keyring =
  kr_keys :: "bytes strmap"
  kr_primary :: string

text \<open>The sizes are checked while Go iterates over the map, so which bad key is reported is unspecified.\<close>

definition NewKeyring :: "bytes strmap \<Rightarrow> string \<Rightarrow> err + Keyring" where
  "NewKeyring keys primary =
     (if keys = [] then Inl (Errorf ''secrets: no master keys'' [] None)
      else if lookup keys primary = None then
        Inl (Errorf ''secrets: primary key %q is not in the keyring'' [AStr primary] None)
      else case find (\<lambda>(i, raw). length raw \<noteq> KeySize) keys of
        Some (i, raw) \<Rightarrow> Inl (Errorf ''secrets: key %q is %d bytes, want %d''
          [AStr i, ANum (int (length raw)), ANum (int KeySize)] None)
      | None \<Rightarrow> Inr \<lparr>kr_keys = keys, kr_primary = primary\<rparr>)"

fun parseMasterKeys :: "string list \<Rightarrow> bytes strmap \<Rightarrow> string \<Rightarrow> err + bytes strmap \<times> string" where
  "parseMasterKeys [] keys primary = Inr (keys, primary)"
| "parseMasterKeys (entry # es) keys primary =
     (case cut CHR '':'' (trimSpace entry) of
        None \<Rightarrow> Inl (Errorf ''secrets: %s entry %q is not id:base64key'' [AStr MasterKeysEnv, AStr entry] None)
      | Some (i, b64) \<Rightarrow>
          if i = [] then Inl (Errorf ''secrets: %s entry %q is not id:base64key'' [AStr MasterKeysEnv, AStr entry] None)
          else case stdDecode b64 of
            None \<Rightarrow> Inl (Errorf ''secrets: %s entry %q: %w'' [AStr MasterKeysEnv, AStr i] (Some (Sentinel ''illegal base64 data'')))
          | Some key \<Rightarrow> parseMasterKeys es (AList.update i key keys) (if primary = [] then i else primary))"

definition NewKeyringFromEnv :: "(string \<Rightarrow> string) \<Rightarrow> err + Keyring" where
  "NewKeyringFromEnv getenv =
     (if getenv MasterKeysEnv = [] then
        Inl (Errorf ''secrets: %s is not set (see `make dev-keys`)'' [AStr MasterKeysEnv] None)
      else andThen (parseMasterKeys (splitOn CHR '','' (getenv MasterKeysEnv)) [] [])
        (\<lambda>(keys, primary). NewKeyring keys primary))"

record Sealed =
  se_Ciphertext :: bytes
  se_Nonce :: bytes
  se_KeyID :: string

text \<open>A keyring without its primary key would make \<open>Seal\<close> panic; \<open>NewKeyring\<close> excludes it.\<close>

definition sec_Seal :: "aead \<Rightarrow> Keyring \<Rightarrow> bytes \<Rightarrow> string \<Rightarrow> ('w world_scheme, err + Sealed) state" where
  "sec_Seal g kr plaintext aad = do {
     n \<leftarrow> randRead NonceSize;
     case n of
       None \<Rightarrow> ret (Inl (Errorf ''secrets: nonce: %w'' [] (Some ErrEntropy)))
     | Some nonce \<Rightarrow> ret (Inr \<lparr>se_Ciphertext = gcm_seal g (the (lookup (kr_keys kr) (kr_primary kr))) nonce plaintext aad,
         se_Nonce = nonce, se_KeyID = kr_primary kr\<rparr>)
   }"

definition sec_Open :: "aead \<Rightarrow> Keyring \<Rightarrow> Sealed \<Rightarrow> string \<Rightarrow> err + bytes" where
  "sec_Open g kr s aad =
     (case lookup (kr_keys kr) (se_KeyID s) of
        None \<Rightarrow> Inl (Errorf ''secrets: unknown master key %q -- it must stay in %s until every row it encrypted has been rewritten''
                  [AStr (se_KeyID s), AStr MasterKeysEnv] None)
      | Some key \<Rightarrow>
          (case gcm_open g key (se_Nonce s) (se_Ciphertext s) aad of
             None \<Rightarrow> Inl (Errorf ''secrets: decrypt: %w'' [] (Some (Sentinel ''cipher: message authentication failed'')))
           | Some out \<Rightarrow> Inr out))"

definition wf_keyring :: "Keyring \<Rightarrow> bool" where
  "wf_keyring kr \<longleftrightarrow> lookup (kr_keys kr) (kr_primary kr) \<noteq> None \<and>
     (\<forall>i k. lookup (kr_keys kr) i = Some k \<longrightarrow> length k = KeySize)"

lemma NewKeyring_wf: "NewKeyring keys primary = Inr kr \<Longrightarrow> wf_keyring kr \<and> kr_keys kr = keys \<and> kr_primary kr = primary"
  by (auto simp: NewKeyring_def wf_keyring_def find_None split: if_splits option.splits)
    (use map_of_SomeD in fastforce)

lemma NewKeyringFromEnv_wf: "NewKeyringFromEnv getenv = Inr kr \<Longrightarrow> wf_keyring kr"
  using NewKeyring_wf by (auto simp: NewKeyringFromEnv_def andThen_Inr split: if_splits prod.splits)

lemma Open_Seal:
  assumes "gcm_ok g" "wf_keyring kr" "run (sec_Seal g kr p aad) w = (Inr s, w')"
  shows "sec_Open g kr s aad = Inr p" "se_KeyID s = kr_primary kr" "w_db w' = w_db w" "w_faults w' = w_faults w" "w_now w' = w_now w"
  using assms by (auto simp: sec_Seal_def sec_Open_def run_randRead wf_keyring_def gcm_ok_def split: if_splits)

text \<open>
  Rotation: a keyring that still holds the key a row was sealed with opens it, whichever key is
  primary now.
\<close>

lemma Open_rotated:
  assumes "gcm_ok g" "wf_keyring kr" "run (sec_Seal g kr p aad) w = (Inr s, w')"
    "lookup (kr_keys kr') (kr_primary kr) = lookup (kr_keys kr) (kr_primary kr)"
  shows "sec_Open g kr' s aad = Inr p"
  using Open_Seal(1) [OF assms(1-3)] Open_Seal(2) [OF assms(1-3)] assms(4) by (simp add: sec_Open_def)

lemma Open_other_row:
  assumes "gcm_binds g" "wf_keyring kr" "run (sec_Seal g kr p aad) w = (Inr s, w')" "aad' \<noteq> aad"
  shows "isl (sec_Open g kr s aad')"
  using assms by (auto simp: sec_Seal_def sec_Open_def run_randRead wf_keyring_def gcm_binds_def split: if_splits)

text \<open>An instance of the parameters, for the witnesses: the additional data in front of the plaintext.\<close>

definition sampleAead :: aead where
  "sampleAead = \<lparr>gcm_seal = (\<lambda>k n p a. hexEncode a @ '':'' @ p),
     gcm_open = (\<lambda>k n c a. case cut CHR '':'' c of None \<Rightarrow> None | Some (x, p) \<Rightarrow> if x = hexEncode a then Some p else None)\<rparr>"

lemma hexEncode_colon [simp]: "CHR '':'' \<notin> set (hexEncode s)"
  using set_hexEncode [of s] by (auto simp: hexDigits_def)

lemma hexEncode_eq [simp]: "hexEncode s = hexEncode t \<longleftrightarrow> s = t"
  using hex.enc_eq_iff by simp

lemma sampleAead_ok: "gcm_ok sampleAead" "gcm_binds sampleAead"
  by (simp_all add: gcm_ok_def gcm_binds_def sampleAead_def)

definition sampleKeyring :: Keyring where
  "sampleKeyring = \<lparr>kr_keys = [(''k1'', replicate 32 CHR ''m'')], kr_primary = ''k1''\<rparr>"

lemma sampleKeyring_wf: "wf_keyring sampleKeyring"
  by (simp add: wf_keyring_def sampleKeyring_def KeySize_def)

end
