(* ===== verification/Control.thy ===== *)
theory Control
  imports Secrets Ttlcache
begin

text \<open>
  The accounts service (\<open>internal/control/accounts.go\<close>, \<open>keys.go\<close>, \<open>keycache.go\<close>): creation and listing of
  accounts, creation, listing, deletion and resolution of access keys, and the cache in front
  of the resolution. Every operation is a state transformer of the world, statement by
  statement, with each error path and each rollback of the code.
\<close>

subsection \<open>Messages\<close>

datatype ResourceState = RS_UNSPECIFIED | RS_CREATING | RS_ACTIVE | RS_UPDATING | RS_DELETING | RS_FAILED

definition stateName :: "ResourceState \<Rightarrow> string" where
  "stateName s = (case s of
     RS_UNSPECIFIED \<Rightarrow> ''RESOURCE_STATE_UNSPECIFIED'' | RS_CREATING \<Rightarrow> ''RESOURCE_STATE_CREATING''
   | RS_ACTIVE \<Rightarrow> ''RESOURCE_STATE_ACTIVE'' | RS_UPDATING \<Rightarrow> ''RESOURCE_STATE_UPDATING''
   | RS_DELETING \<Rightarrow> ''RESOURCE_STATE_DELETING'' | RS_FAILED \<Rightarrow> ''RESOURCE_STATE_FAILED'')"

definition parseState :: "string \<Rightarrow> ResourceState" where
  "parseState s =
     (case find (\<lambda>x. stateName x = s) [RS_UNSPECIFIED, RS_CREATING, RS_ACTIVE, RS_UPDATING, RS_DELETING, RS_FAILED] of
        Some x \<Rightarrow> x | None \<Rightarrow> RS_UNSPECIFIED)"

lemma parseState_stateName [simp]: "parseState (stateName s) = s"
  by (cases s) (simp_all add: parseState_def stateName_def)

record Account =
  an_AccountId :: string
  an_Name :: string
  an_State :: ResourceState
  an_CreatedAtUnixMs :: int

record AccessKey =
  ky_AccessKeyId :: string
  ky_AccountId :: string
  ky_PrincipalArn :: string
  ky_State :: ResourceState
  ky_CreatedAtUnixMs :: int
  ky_SecretAccessKey :: string

record SigningKey =
  sk_AccessKeyID :: string
  sk_AccountID :: string
  sk_PrincipalARN :: string
  sk_Secret :: bytes

subsection \<open>Accounts\<close>

definition accountIDAttempts :: nat where "accountIDAttempts = 5"

definition control_validateName :: "string \<Rightarrow> err option" where
  "control_validateName name =
     (if name = [] then Some (Validation ''name is required'' [])
      else if length name > 64 then
        Some (Validation ''name must be at most 64 characters, got %d'' [ANum (int (length name))])
      else None)"

text \<open>
  \<open>rand.Int\<close> below ten reads a byte, keeps its low four bits and draws again when they are ten or more.
\<close>

fun drawDigit :: "bytes \<Rightarrow> (char \<times> bytes) option" where
  "drawDigit [] = None"
| "drawDigit (b # bs) =
     (let n = of_char b mod 16 :: nat in if n < 10 then Some (''0123456789'' ! n, bs) else drawDigit bs)"

fun drawDigits :: "nat \<Rightarrow> bytes \<Rightarrow> string option \<times> bytes" where
  "drawDigits 0 bs = (Some [], bs)"
| "drawDigits (Suc n) bs =
     (case drawDigit bs of
        None \<Rightarrow> (None, [])
      | Some (c, bs') \<Rightarrow>
          (case drawDigits n bs' of (None, r) \<Rightarrow> (None, r) | (Some cs, r) \<Rightarrow> (Some (c # cs), r)))"

definition newAccountID :: "('w world_scheme, err + string) state" where
  "newAccountID = State (\<lambda>w.
     case drawDigits AccountIDLen (w_entropy w) of
       (None, r) \<Rightarrow> (Inl ErrEntropy, w\<lparr>w_entropy := r\<rparr>)
     | (Some i, r) \<Rightarrow> (Inr i, w\<lparr>w_entropy := r\<rparr>))"

definition accountOf :: "account_row \<Rightarrow> Account" where
  "accountOf r = \<lparr>an_AccountId = ac_id r, an_Name = ac_name r, an_State = parseState (ac_state r),
     an_CreatedAtUnixMs = ac_created r\<rparr>"

definition getAccountRow :: "string \<Rightarrow> ('w world_scheme, err + Account) state" where
  "getAccountRow i = do {
     r \<leftarrow> sql (queryRow (accountById i));
     case r of
       Inl e \<Rightarrow> (if errorsIs e ErrNoRows then ret (Inl (NotFound ''no account %s'' [AStr i]))
                 else ret (Inl (Internal (Some e) ''could not read account'' [])))
     | Inr row \<Rightarrow> ret (Inr (accountOf row))
   }"

definition insertAccount :: "account_row \<Rightarrow> db \<Rightarrow> err + unit \<times> db" where
  "insertAccount r d =
     (if \<not> is_account_id (ac_id r) then Inl (PgErr pgCheckViolation)
      else if accountById (ac_id r) d \<noteq> None then Inl (PgErr pgUniqueViolation)
      else Inr ((), d\<lparr>d_accounts := d_accounts d @ [r]\<rparr>))"

definition tryCreateAccount :: "string \<Rightarrow> string \<Rightarrow> string \<Rightarrow> int \<Rightarrow> ('w world_scheme, err + Account) state" where
  "tryCreateAccount i name clientToken nowMS = do {
     tx \<leftarrow> tx_Begin;
     case tx of
       Inl e \<Rightarrow> ret (Inl (Internal (Some e) ''could not begin transaction'' []))
     | Inr snap \<Rightarrow> do {
         ins \<leftarrow> sql (insertAccount \<lparr>ac_id = i, ac_name = name, ac_state = stateName RS_ACTIVE, ac_created = nowMS\<rparr>);
         case ins of
           Inl e \<Rightarrow> failTx snap e
         | Inr _ \<Rightarrow> do {
             tag \<leftarrow> (if clientToken = [] then ret (Inr 1)
                    else sql (insertIdem \<lparr>id_operation = ''CreateAccount'', id_token = clientToken, id_result = i, id_created = nowMS\<rparr>));
             case tag of
               Inl e \<Rightarrow> failTx snap (Internal (Some e) ''could not record idempotency token'' [])
             | Inr n \<Rightarrow>
                 if n = 0 then do {
                   tx_Rollback snap;
                   prior \<leftarrow> sql (queryRow (idemById ''CreateAccount'' clientToken));
                   case prior of
                     Inl e \<Rightarrow> ret (Inl (Internal (Some e) ''could not read idempotency token'' []))
                   | Inr row \<Rightarrow> getAccountRow (id_result row)
                 }
                 else do {
                   c \<leftarrow> tx_Commit snap;
                   case c of
                     Inl e \<Rightarrow> ret (Inl (Internal (Some e) ''could not commit account'' []))
                   | Inr _ \<Rightarrow> ret (Inr \<lparr>an_AccountId = i, an_Name = name, an_State = RS_ACTIVE, an_CreatedAtUnixMs = nowMS\<rparr>)
                 }
           }
       }
   }"

fun createAccountLoop :: "nat \<Rightarrow> string \<Rightarrow> string \<Rightarrow> int \<Rightarrow> ('w world_scheme, err + Account) state" where
  "createAccountLoop 0 name token nowMS =
     ret (Inl (Internal None ''could not allocate an unused account id in %d attempts'' [ANum (int accountIDAttempts)]))"
| "createAccountLoop (Suc n) name token nowMS = do {
     i \<leftarrow> newAccountID;
     case i of
       Inl e \<Rightarrow> ret (Inl (Internal (Some e) ''could not allocate an account id'' []))
     | Inr i \<Rightarrow> do {
         acct \<leftarrow> tryCreateAccount i name token nowMS;
         case acct of
           Inr a \<Rightarrow> ret (Inr a)
         | Inl e \<Rightarrow> (if isUniqueViolation e then createAccountLoop n name token nowMS else ret (Inl e))
       }
   }"

definition CreateAccount :: "string \<Rightarrow> string \<Rightarrow> ('w world_scheme, err + Account) state" where
  "CreateAccount name clientToken =
     (case control_validateName name of
        Some e \<Rightarrow> ret (Inl e)
      | None \<Rightarrow> do {
          now \<leftarrow> gets w_now;
          createAccountLoop accountIDAttempts name clientToken (unixMilli now)
        })"

definition GetAccount :: "string \<Rightarrow> ('w world_scheme, err + Account) state" where
  "GetAccount i =
     (case ValidateAccountID i of
        Some e \<Rightarrow> ret (Inl (Validation ''account_id must be 12 digits'' []))
      | None \<Rightarrow> getAccountRow i)"

text \<open>
  A page of accounts. \<open>ck\<close> is the collation of the key column.
\<close>

definition ListAccounts ::
  "(string \<Rightarrow> 'c::linorder) \<Rightarrow> int \<Rightarrow> string \<Rightarrow> ('w world_scheme, err + Account list \<times> string) state" where
  "ListAccounts ck maxResults nextToken =
     (case page_Limit maxResults of
        Inl e \<Rightarrow> ret (Inl e)
      | Inr limit \<Rightarrow>
     (case page_Decode nextToken of
        Inl e \<Rightarrow> ret (Inl e)
      | Inr after \<Rightarrow> do {
          rows \<leftarrow> sql (queryRows (\<lambda>d. keysetQuery ck ac_id (d_accounts d) after (limit + 1)));
          case rows of
            Inl e \<Rightarrow> ret (Inl (Internal (Some e) ''could not list accounts'' []))
          | Inr rows \<Rightarrow>
              let accounts = map accountOf rows in
              if length accounts > limit
              then ret (Inr (take limit accounts, page_Encode (an_AccountId (take limit accounts ! (limit - 1)))))
              else ret (Inr (accounts, []))
        }))"

subsection \<open>Access keys\<close>

definition accessKeyPrefix :: string where "accessKeyPrefix = ''DARIYAKEY''"
definition accessKeyIDChars :: string where "accessKeyIDChars = ''ABCDEFGHIJKLMNOPQRSTUVWXYZ234567''"
definition accessKeyIDLen :: nat where "accessKeyIDLen = 16"
definition secretBytes :: nat where "secretBytes = 30"

definition newAccessKeyID :: "('w world_scheme, err + string) state" where
  "newAccessKeyID = do {
     b \<leftarrow> randRead accessKeyIDLen;
     case b of
       None \<Rightarrow> ret (Inl ErrEntropy)
     | Some buf \<Rightarrow> ret (Inr (accessKeyPrefix @ map (\<lambda>c. accessKeyIDChars ! (of_char c mod 32)) buf))
   }"

definition newSecret :: "('w world_scheme, err + string) state" where
  "newSecret = do {
     b \<leftarrow> randRead secretBytes;
     case b of None \<Rightarrow> ret (Inl ErrEntropy) | Some buf \<Rightarrow> ret (Inr (stdEncode buf))
   }"

definition resolvePrincipalARN :: "string \<Rightarrow> string \<Rightarrow> string \<Rightarrow> err + string" where
  "resolvePrincipalARN region accountID requested =
     (if requested = [] then Inr (''arn:dariya:iam:'' @ region @ '':'' @ accountID @ '':user/root'')
      else case arn_Parse requested of
        Inl e \<Rightarrow> Inl (Validation ''principal_arn is not a valid ARN: %v'' [AErr e])
      | Inr a \<Rightarrow>
          if a_Service a \<noteq> ''iam'' then
            Inl (Validation ''principal_arn must be an iam ARN, got service %q'' [AStr (a_Service a)])
          else if a_Account a \<noteq> accountID then
            Inl (Validation ''principal_arn belongs to account %s, not %s'' [AStr (a_Account a), AStr accountID])
          else if a_Type a \<noteq> ''user'' \<and> a_Type a \<noteq> ''role'' then
            Inl (Validation ''principal_arn must name a user or a role, got %q'' [AStr (a_Type a)])
          else Inr requested)"

definition insertKey :: "key_row \<Rightarrow> db \<Rightarrow> err + unit \<times> db" where
  "insertKey r d =
     (if keyById (ak_id r) d \<noteq> None then Inl (PgErr pgUniqueViolation)
      else if accountById (ak_account r) d = None then Inl (PgErr pgForeignKeyViolation)
      else Inr ((), d\<lparr>d_keys := d_keys d @ [r]\<rparr>))"

definition secretAlreadyReturned :: err where
  "secretAlreadyReturned = ApiErr CodeIdempotencyMis
     (''this client_token already created an access key; its secret was returned once and cannot be returned again -- create a new key'', [])
     [] [] None"

record CreateAccessKeyRequest =
  ckr_AccountId :: string
  ckr_PrincipalArn :: string
  ckr_ClientToken :: string

text \<open>The transaction of \<open>CreateAccessKey\<close>, once everything that goes into the row is known.\<close>

definition storeAccessKey :: "key_row \<Rightarrow> string \<Rightarrow> string \<Rightarrow> ('w world_scheme, err + AccessKey) state" where
  "storeAccessKey row secret token = do {
     tx \<leftarrow> tx_Begin;
     case tx of
       Inl e \<Rightarrow> ret (Inl (Internal (Some e) ''could not begin transaction'' []))
     | Inr snap \<Rightarrow> do {
         ins \<leftarrow> sql (insertKey row);
         case ins of
           Inl e \<Rightarrow> failTx snap (Internal (Some e) ''could not store the access key'' [])
         | Inr _ \<Rightarrow> do {
             tag \<leftarrow> (if token = [] then ret (Inr 1)
                    else sql (insertIdem \<lparr>id_operation = ''CreateAccessKey'', id_token = token, id_result = ak_id row, id_created = ak_created row\<rparr>));
             case tag of
               Inl e \<Rightarrow> failTx snap (Internal (Some e) ''could not record idempotency token'' [])
             | Inr n \<Rightarrow>
                 if n = 0 then failTx snap secretAlreadyReturned
                 else do {
                   c \<leftarrow> tx_Commit snap;
                   case c of
                     Inl e \<Rightarrow> ret (Inl (Internal (Some e) ''could not commit the access key'' []))
                   | Inr _ \<Rightarrow> ret (Inr \<lparr>ky_AccessKeyId = ak_id row, ky_AccountId = ak_account row, ky_PrincipalArn = ak_principal row,
                       ky_State = RS_ACTIVE, ky_CreatedAtUnixMs = ak_created row, ky_SecretAccessKey = secret\<rparr>)
                 }
           }
       }
   }"

definition CreateAccessKey ::
  "aead \<Rightarrow> Keyring \<Rightarrow> string \<Rightarrow> CreateAccessKeyRequest \<Rightarrow> ('w world_scheme, err + AccessKey) state" where
  "CreateAccessKey g kr region req =
     (case ValidateAccountID (ckr_AccountId req) of
        Some e \<Rightarrow> ret (Inl (Validation ''account_id must be 12 digits'' []))
      | None \<Rightarrow> do {
          acct \<leftarrow> getAccountRow (ckr_AccountId req);
          case acct of
            Inl e \<Rightarrow> ret (Inl e)
          | Inr _ \<Rightarrow>
          (case resolvePrincipalARN region (ckr_AccountId req) (ckr_PrincipalArn req) of
             Inl e \<Rightarrow> ret (Inl e)
           | Inr principalARN \<Rightarrow> do {
               keyID \<leftarrow> newAccessKeyID;
               case keyID of
                 Inl e \<Rightarrow> ret (Inl (Internal (Some e) ''could not allocate an access key id'' []))
               | Inr keyID \<Rightarrow> do {
                   secret \<leftarrow> newSecret;
                   case secret of
                     Inl e \<Rightarrow> ret (Inl (Internal (Some e) ''could not generate a secret'' []))
                   | Inr secret \<Rightarrow> do {
                       sealed \<leftarrow> sec_Seal g kr secret keyID;
                       case sealed of
                         Inl e \<Rightarrow> ret (Inl (Internal (Some e) ''could not encrypt the secret'' []))
                       | Inr sealed \<Rightarrow> do {
                           now \<leftarrow> gets w_now;
                           storeAccessKey
                             \<lparr>ak_id = keyID, ak_account = ckr_AccountId req, ak_principal = principalARN,
                              ak_ciphertext = se_Ciphertext sealed, ak_nonce = se_Nonce sealed, ak_master = se_KeyID sealed,
                              ak_state = stateName RS_ACTIVE, ak_created = unixMilli now\<rparr>
                             secret (ckr_ClientToken req)
                         }
                     }
                 }
             })
        })"

definition keyOf :: "key_row \<Rightarrow> AccessKey" where
  "keyOf r = \<lparr>ky_AccessKeyId = ak_id r, ky_AccountId = ak_account r, ky_PrincipalArn = ak_principal r,
     ky_State = parseState (ak_state r), ky_CreatedAtUnixMs = ak_created r, ky_SecretAccessKey = []\<rparr>"

definition ListAccessKeys ::
  "(string \<Rightarrow> 'c::linorder) \<Rightarrow> string \<Rightarrow> int \<Rightarrow> string \<Rightarrow> ('w world_scheme, err + AccessKey list \<times> string) state" where
  "ListAccessKeys ck accountId maxResults nextToken =
     (case ValidateAccountID accountId of
        Some e \<Rightarrow> ret (Inl (Validation ''account_id must be 12 digits'' []))
      | None \<Rightarrow>
     (case page_Limit maxResults of
        Inl e \<Rightarrow> ret (Inl e)
      | Inr limit \<Rightarrow>
     (case page_Decode nextToken of
        Inl e \<Rightarrow> ret (Inl e)
      | Inr after \<Rightarrow> do {
          rows \<leftarrow> sql (queryRows (\<lambda>d. keysetQuery ck ak_id (filter (\<lambda>r. ak_account r = accountId) (d_keys d)) after (limit + 1)));
          case rows of
            Inl e \<Rightarrow> ret (Inl (Internal (Some e) ''could not list access keys'' []))
          | Inr rows \<Rightarrow>
              let keys = map keyOf rows in
              if length keys > limit
              then ret (Inr (take limit keys, page_Encode (ky_AccessKeyId (take limit keys ! (limit - 1)))))
              else ret (Inr (keys, []))
        })))"

definition deleteKeyRow :: "string \<Rightarrow> db \<Rightarrow> err + nat \<times> db" where
  "deleteKeyRow i d =
     Inr (length (filter (\<lambda>r. ak_id r = i) (d_keys d)), d\<lparr>d_keys := filter (\<lambda>r. ak_id r \<noteq> i) (d_keys d)\<rparr>)"

text \<open>\<open>onKeyDeleted\<close> is the registered callback; with none registered it is \<^const>\<open>None\<close>.\<close>

definition DeleteAccessKey ::
  "(string \<Rightarrow> ('w world_scheme, unit) state) option \<Rightarrow> string \<Rightarrow> ('w world_scheme, err + unit) state" where
  "DeleteAccessKey onKeyDeleted i =
     (if i = [] then ret (Inl (Validation ''access_key_id is required'' []))
      else do {
        tag \<leftarrow> sql (deleteKeyRow i);
        case tag of
          Inl e \<Rightarrow> ret (Inl (Internal (Some e) ''could not delete the access key'' []))
        | Inr n \<Rightarrow>
            if n = 0 then ret (Inl (NotFound ''no access key %s'' [AStr i]))
            else do {
              (case onKeyDeleted of None \<Rightarrow> ret () | Some f \<Rightarrow> f i);
              ret (Inr ())
            }
      })"

definition ResolveSigningKey :: "aead \<Rightarrow> Keyring \<Rightarrow> string \<Rightarrow> ('w world_scheme, err + SigningKey) state" where
  "ResolveSigningKey g kr i = do {
     r \<leftarrow> sql (queryRow (keyById i));
     case r of
       Inl e \<Rightarrow> (if errorsIs e ErrNoRows then ret (Inl (NotFound ''no access key %s'' [AStr i]))
                 else ret (Inl (Internal (Some e) ''could not read the access key'' [])))
     | Inr row \<Rightarrow>
         (case sec_Open g kr \<lparr>se_Ciphertext = ak_ciphertext row, se_Nonce = ak_nonce row, se_KeyID = ak_master row\<rparr> i of
            Inl e \<Rightarrow> ret (Inl (Internal (Some e) ''could not decrypt the access key secret'' []))
          | Inr secret \<Rightarrow> ret (Inr \<lparr>sk_AccessKeyID = i, sk_AccountID = ak_account row, sk_PrincipalARN = ak_principal row,
              sk_Secret = secret\<rparr>))
   }"

subsection \<open>What the operations do to the tables\<close>

lemma getAccountRow_run:
  "run (getAccountRow i) w =
     (case nextFault w of
        Some e \<Rightarrow> (Inl (Internal (Some e) ''could not read account'' []), popFault w)
      | None \<Rightarrow> (case accountById i (w_db w) of
          None \<Rightarrow> (Inl (NotFound ''no account %s'' [AStr i]), popFault w)
        | Some r \<Rightarrow> (Inr (accountOf r), popFault w)))"
  using nextFault_Some [of w]
  by (auto simp: getAccountRow_def run_db queryRow_def ErrNoRows_def split: option.split)

lemma getAccountRow_db [simp]: "w_db (snd (run (getAccountRow i) w)) = w_db w"
  by (simp add: getAccountRow_run split: option.split)

definition newAccountRow :: "string \<Rightarrow> string \<Rightarrow> int \<Rightarrow> account_row" where
  "newAccountRow i name t = \<lparr>ac_id = i, ac_name = name, ac_state = stateName RS_ACTIVE, ac_created = t\<rparr>"

definition newIdemRow :: "string \<Rightarrow> string \<Rightarrow> string \<Rightarrow> int \<Rightarrow> idem_row" where
  "newIdemRow op tok res t = \<lparr>id_operation = op, id_token = tok, id_result = res, id_created = t\<rparr>"

text \<open>The tables after an account was created under a token (or none).\<close>

definition withAccount :: "string \<Rightarrow> string \<Rightarrow> string \<Rightarrow> int \<Rightarrow> db \<Rightarrow> db" where
  "withAccount i name tok t d =
     d\<lparr>d_accounts := d_accounts d @ [newAccountRow i name t],
       d_idem := (if tok = [] then d_idem d else d_idem d @ [newIdemRow ''CreateAccount'' tok i t])\<rparr>"

lemma tryCreateAccount_cases:
  assumes "run (tryCreateAccount i name tok t) w = (r, w')"
  shows "(\<exists>e. r = Inl e) \<and> w_db w' = w_db w \<or>
    (\<exists>row arow. tok \<noteq> [] \<and> idemById ''CreateAccount'' tok (w_db w) = Some row \<and>
       accountById (id_result row) (w_db w) = Some arow \<and> r = Inr (accountOf arow) \<and> w_db w' = w_db w) \<or>
    is_account_id i \<and> accountById i (w_db w) = None \<and>
      (tok = [] \<or> idemById ''CreateAccount'' tok (w_db w) = None) \<and>
      r = Inr (accountOf (newAccountRow i name t)) \<and> w_db w' = withAccount i name tok t (w_db w)"
  using assms unfolding tryCreateAccount_def
  by (auto simp: run_db insertAccount_def insertIdem_def queryRow_def getAccountRow_run accountOf_def newAccountRow_def
      newIdemRow_def withAccount_def idemById_def accountById_def
      split: option.splits sum.splits prod.splits if_splits)

lemma newAccountID_db [simp]: "w_db (snd (run newAccountID w)) = w_db w"
  by (simp add: newAccountID_def split: prod.split option.split)

lemma newAccountID_now [simp]: "w_now (snd (run newAccountID w)) = w_now w"
  by (simp add: newAccountID_def split: prod.split option.split)

text \<open>The three ways an account creation can end, the same for one attempt and for the whole loop.\<close>

definition createOutcome :: "string \<Rightarrow> string \<Rightarrow> int \<Rightarrow> db \<Rightarrow> err + Account \<Rightarrow> db \<Rightarrow> bool" where
  "createOutcome name tok t d r d' \<longleftrightarrow>
    ((\<exists>e. r = Inl e) \<and> d' = d) \<or>
    (\<exists>row arow. tok \<noteq> [] \<and> idemById ''CreateAccount'' tok d = Some row \<and>
       accountById (id_result row) d = Some arow \<and> r = Inr (accountOf arow) \<and> d' = d) \<or>
    (\<exists>i. is_account_id i \<and> accountById i d = None \<and> (tok = [] \<or> idemById ''CreateAccount'' tok d = None) \<and>
      r = Inr (accountOf (newAccountRow i name t)) \<and> d' = withAccount i name tok t d)"

lemma createOutcome_fail: "createOutcome name tok t d (Inl e) d"
  by (simp add: createOutcome_def)

lemma createAccountLoop_outcome:
  "run (createAccountLoop n name tok t) w = (r, w') \<Longrightarrow> createOutcome name tok t (w_db w) r (w_db w')"
proof (induction n arbitrary: w)
  case 0
  then show ?case by (auto simp: createOutcome_fail)
next
  case (Suc n)
  obtain x w1 where x: "run newAccountID w = (x, w1)" by fastforce
  have d1: "w_db w1 = w_db w" using newAccountID_db [of w] x by simp
  show ?case
  proof (cases x)
    case (Inl e)
    then show ?thesis using Suc.prems x d1 by (auto simp: createOutcome_fail)
  next
    case i: (Inr i)
    obtain a w2 where a: "run (tryCreateAccount i name tok t) w1 = (a, w2)" by fastforce
    note c = tryCreateAccount_cases [OF a, unfolded d1]
    show ?thesis
    proof (cases a)
      case e: (Inl e)
      then have d2: "w_db w2 = w_db w" using c by auto
      then show ?thesis
        using Suc.prems x i a e Suc.IH [of w2] by (auto simp: createOutcome_fail split: if_splits)
    next
      case (Inr acct)
      then have "r = Inr acct" "w' = w2" using Suc.prems x i a by auto
      then show ?thesis using c Inr unfolding createOutcome_def by auto
    qed
  qed
qed

lemma CreateAccount_outcome:
  assumes "run (CreateAccount name tok) w = (r, w')"
  shows "createOutcome name tok (unixMilli (w_now w)) (w_db w) r (w_db w')"
  using assms createAccountLoop_outcome
  by (auto simp: CreateAccount_def createOutcome_fail split: option.splits)

lemma accountById_append:
  "accountById i (d\<lparr>d_accounts := d_accounts d @ [r]\<rparr>) =
     (case accountById i d of Some x \<Rightarrow> Some x | None \<Rightarrow> if ac_id r = i then Some r else None)"
  by (simp add: accountById_def find_append split: option.split)

lemma accountById_id: "accountById i d = Some r \<Longrightarrow> ac_id r = i"
  by (auto simp: accountById_def dest: find_SomeD)

lemma withAccount_lookups:
  "accountById i d = None \<Longrightarrow> accountById i (withAccount i name tok t d) = Some (newAccountRow i name t)"
  "tok \<noteq> [] \<Longrightarrow> idemById ''CreateAccount'' tok d = None \<Longrightarrow>
   idemById ''CreateAccount'' tok (withAccount i name tok t d) = Some (newIdemRow ''CreateAccount'' tok i t)"
  by (simp_all add: withAccount_def accountById_def idemById_def find_append newAccountRow_def newIdemRow_def)

lemma wf_withAccount:
  assumes "wf_db d" "is_account_id i" "accountById i d = None" "tok = [] \<or> idemById ''CreateAccount'' tok d = None"
  shows "wf_db (withAccount i name tok t d)"
  using assms by (auto simp: wf_db_def withAccount_def newAccountRow_def newIdemRow_def accountById_def idemById_def
      find_None image_iff)

lemma wf_createOutcome: "wf_db d \<Longrightarrow> createOutcome name tok t d r d' \<Longrightarrow> wf_db d'"
  by (auto simp: createOutcome_def wf_withAccount)

subsection \<open>Properties of account creation\<close>

text \<open>C30: creating an account is all or nothing, whatever statement fails: an error leaves every table as it was, and
  a success either replays the account that the same client token created before (writing
  nothing) or adds exactly one new account, with its idempotency row in the same transaction.
  The integrity of the tables is kept.\<close>
theorem create_account_all_or_nothing:
  assumes "run (CreateAccount name tok) w = (r, w')" "wf_db (w_db w)"
  shows "wf_db (w_db w') \<and>
    (case r of
       Inl e \<Rightarrow> w_db w' = w_db w
     | Inr a \<Rightarrow>
         (w_db w' = w_db w \<and> tok \<noteq> [] \<and> idemById ''CreateAccount'' tok (w_db w) \<noteq> None) \<or>
         (accountById (an_AccountId a) (w_db w) = None \<and>
          d_accounts (w_db w') = d_accounts (w_db w) @ [newAccountRow (an_AccountId a) (an_Name a) (an_CreatedAtUnixMs a)] \<and>
          an_Name a = name \<and>
          d_idem (w_db w') = d_idem (w_db w) @
            (if tok = [] then [] else [newIdemRow ''CreateAccount'' tok (an_AccountId a) (an_CreatedAtUnixMs a)])))"
proof -
  note c = CreateAccount_outcome [OF assms(1)]
  have "wf_db (w_db w')" by (rule wf_createOutcome [OF assms(2) c])
  moreover have "case r of
       Inl e \<Rightarrow> w_db w' = w_db w
     | Inr a \<Rightarrow>
         (w_db w' = w_db w \<and> tok \<noteq> [] \<and> idemById ''CreateAccount'' tok (w_db w) \<noteq> None) \<or>
         (accountById (an_AccountId a) (w_db w) = None \<and>
          d_accounts (w_db w') = d_accounts (w_db w) @ [newAccountRow (an_AccountId a) (an_Name a) (an_CreatedAtUnixMs a)] \<and>
          an_Name a = name \<and>
          d_idem (w_db w') = d_idem (w_db w) @
            (if tok = [] then [] else [newIdemRow ''CreateAccount'' tok (an_AccountId a) (an_CreatedAtUnixMs a)]))"
    using c by (auto simp: createOutcome_def withAccount_def accountOf_def newAccountRow_def)
  ultimately show ?thesis by blast
qed

text \<open>A retried creation returns the account of the first call: after a successful call with a client token,
  every later successful call with the same token returns that same account and writes nothing,
  as long as the account's row and the token's row are still there.\<close>
theorem create_account_idempotent:
  assumes "run (CreateAccount name tok) w = (Inr a, w1)" "tok \<noteq> []" "wf_db (w_db w)"
    "idemById ''CreateAccount'' tok (w_db w2) = idemById ''CreateAccount'' tok (w_db w1)"
    "accountById (an_AccountId a) (w_db w2) = accountById (an_AccountId a) (w_db w1)"
    "run (CreateAccount name' tok) w2 = (Inr a', w3)"
  shows "a' = a \<and> w_db w3 = w_db w2"
proof -
  have "\<exists>row arow. idemById ''CreateAccount'' tok (w_db w1) = Some row \<and> id_result row = an_AccountId a \<and>
      accountById (an_AccountId a) (w_db w1) = Some arow \<and> a = accountOf arow"
    using CreateAccount_outcome [OF assms(1)] assms(2) unfolding createOutcome_def
  proof (elim disjE exE conjE)
    fix row arow
    assume "idemById ''CreateAccount'' tok (w_db w) = Some row" "Inr a = Inr (accountOf arow)"
      "accountById (id_result row) (w_db w) = Some arow" "w_db w1 = w_db w"
    then show ?thesis using accountById_id [of "id_result row" "w_db w" arow] by (auto simp: accountOf_def)
  next
    fix i
    assume "accountById i (w_db w) = None" "idemById ''CreateAccount'' tok (w_db w) = None"
      "Inr a = Inr (accountOf (newAccountRow i name (unixMilli (w_now w))))"
      "w_db w1 = withAccount i name tok (unixMilli (w_now w)) (w_db w)"
    then show ?thesis using withAccount_lookups assms(2)
      by (auto simp: accountOf_def newAccountRow_def newIdemRow_def)
  qed simp_all
  then show ?thesis
    using CreateAccount_outcome [OF assms(6)] assms(2,4,5) by (auto simp: createOutcome_def)
qed

subsection \<open>Access keys: what the operations do\<close>

text \<open>The answer of an undisturbed resolution, as a function of the tables.\<close>

definition signingTruth :: "aead \<Rightarrow> Keyring \<Rightarrow> db \<Rightarrow> string \<Rightarrow> err + SigningKey" where
  "signingTruth g kr d i =
     (case keyById i d of
        None \<Rightarrow> Inl (NotFound ''no access key %s'' [AStr i])
      | Some row \<Rightarrow>
          (case sec_Open g kr \<lparr>se_Ciphertext = ak_ciphertext row, se_Nonce = ak_nonce row, se_KeyID = ak_master row\<rparr> i of
             Inl e \<Rightarrow> Inl (Internal (Some e) ''could not decrypt the access key secret'' [])
           | Inr secret \<Rightarrow> Inr \<lparr>sk_AccessKeyID = i, sk_AccountID = ak_account row, sk_PrincipalARN = ak_principal row,
               sk_Secret = secret\<rparr>))"

lemma ResolveSigningKey_run:
  "run (ResolveSigningKey g kr i) w =
     (case nextFault w of
        Some e \<Rightarrow> (Inl (Internal (Some e) ''could not read the access key'' []), popFault w)
      | None \<Rightarrow> (signingTruth g kr (w_db w) i, popFault w))"
  using nextFault_Some [of w]
  by (auto simp: ResolveSigningKey_def signingTruth_def run_db queryRow_def ErrNoRows_def split: option.split sum.split)

text \<open>The tables after a key was stored.\<close>

definition withKey :: "key_row \<Rightarrow> string \<Rightarrow> db \<Rightarrow> db" where
  "withKey row tok d =
     d\<lparr>d_keys := d_keys d @ [row],
       d_idem := (if tok = [] then d_idem d else d_idem d @ [newIdemRow ''CreateAccessKey'' tok (ak_id row) (ak_created row)])\<rparr>"

lemma storeAccessKey_cases:
  assumes "run (storeAccessKey row secret tok) w = (r, w')"
  shows "(\<exists>e. r = Inl e) \<and> w_db w' = w_db w \<or>
    keyById (ak_id row) (w_db w) = None \<and> accountById (ak_account row) (w_db w) \<noteq> None \<and>
      (tok = [] \<or> idemById ''CreateAccessKey'' tok (w_db w) = None) \<and>
      r = Inr \<lparr>ky_AccessKeyId = ak_id row, ky_AccountId = ak_account row, ky_PrincipalArn = ak_principal row,
        ky_State = RS_ACTIVE, ky_CreatedAtUnixMs = ak_created row, ky_SecretAccessKey = secret\<rparr> \<and>
      w_db w' = withKey row tok (w_db w)"
  using assms unfolding storeAccessKey_def
  by (auto simp: run_db insertKey_def insertIdem_def newIdemRow_def withKey_def
      keyById_def accountById_def idemById_def
      split: option.splits sum.splits prod.splits if_splits)

text \<open>How a key creation can end: nothing written, or one row whose ciphertext opens to the returned secret.\<close>

definition keyOutcome :: "aead \<Rightarrow> Keyring \<Rightarrow> string \<Rightarrow> CreateAccessKeyRequest \<Rightarrow> db \<Rightarrow> err + AccessKey \<Rightarrow> db \<Rightarrow> bool" where
  "keyOutcome g kr region req d r d' \<longleftrightarrow>
    ((\<exists>e. r = Inl e) \<and> d' = d) \<or>
    (\<exists>k row. r = Inr k \<and> d' = withKey row (ckr_ClientToken req) d \<and> keyById (ak_id row) d = None \<and>
       accountById (ckr_AccountId req) d \<noteq> None \<and> is_account_id (ckr_AccountId req) \<and>
       (ckr_ClientToken req = [] \<or> idemById ''CreateAccessKey'' (ckr_ClientToken req) d = None) \<and>
       ky_AccessKeyId k = ak_id row \<and> ky_AccountId k = ckr_AccountId req \<and> ak_account row = ckr_AccountId req \<and>
       resolvePrincipalARN region (ckr_AccountId req) (ckr_PrincipalArn req) = Inr (ky_PrincipalArn k) \<and>
       ak_principal row = ky_PrincipalArn k \<and>
       sec_Open g kr \<lparr>se_Ciphertext = ak_ciphertext row, se_Nonce = ak_nonce row, se_KeyID = ak_master row\<rparr> (ak_id row)
         = Inr (ky_SecretAccessKey k))"

lemma randRead_db [simp]: "w_db (snd (run (randRead n) w)) = w_db w"
  by (simp add: run_randRead)

lemma newAccessKeyID_db [simp]: "w_db (snd (run newAccessKeyID w)) = w_db w"
  by (simp add: newAccessKeyID_def run_randRead)

lemma newSecret_db [simp]: "w_db (snd (run newSecret w)) = w_db w"
  by (simp add: newSecret_def run_randRead)

lemma sec_Seal_db [simp]: "w_db (snd (run (sec_Seal g kr p a) w)) = w_db w"
  by (simp add: sec_Seal_def run_randRead)

lemma CreateAccessKey_outcome:
  assumes "gcm_ok g" "wf_keyring kr" "run (CreateAccessKey g kr region req) w = (r, w')"
  shows "keyOutcome g kr region req (w_db w) r (w_db w')"
proof (cases "\<exists>e. r = Inl e \<and> w_db w' = w_db w")
  case True
  then show ?thesis by (auto simp: keyOutcome_def)
next
  case False
  obtain a0 w0 where a0: "run (getAccountRow (ckr_AccountId req)) w = (a0, w0)" by fastforce
  have d0: "w_db w0 = w_db w" using getAccountRow_db [of "ckr_AccountId req" w] a0 by simp
  obtain k1 w1 where k1: "run newAccessKeyID w0 = (k1, w1)" by fastforce
  have d1: "w_db w1 = w_db w" using newAccessKeyID_db [of w0] k1 d0 by simp
  obtain s2 w2 where s2: "run newSecret w1 = (s2, w2)" by fastforce
  have d2: "w_db w2 = w_db w" using newSecret_db [of w1] s2 d1 by simp
  have acct: "ValidateAccountID (ckr_AccountId req) = None"
    using assms(3) False by (cases "ValidateAccountID (ckr_AccountId req)") (auto simp: CreateAccessKey_def)
  note unf = assms(3) [unfolded CreateAccessKey_def acct]
  obtain ac where ac: "a0 = Inr ac" using unf a0 d0 False by (cases a0) auto
  obtain p where p: "resolvePrincipalARN region (ckr_AccountId req) (ckr_PrincipalArn req) = Inr p"
    using unf a0 d0 ac False by (cases "resolvePrincipalARN region (ckr_AccountId req) (ckr_PrincipalArn req)") auto
  obtain kid where kid: "k1 = Inr kid" using unf a0 ac p k1 d1 False by (cases k1) auto
  obtain secret where secret: "s2 = Inr secret" using unf a0 ac p k1 kid s2 d2 False by (cases s2) auto
  obtain s3 w3 where s3: "run (sec_Seal g kr secret kid) w2 = (s3, w3)" by fastforce
  have d3: "w_db w3 = w_db w" using sec_Seal_db [of g kr secret kid w2] s3 d2 by simp
  obtain sealed where sealed: "s3 = Inr sealed" using unf a0 ac p k1 kid s2 secret s3 d3 False by (cases s3) auto
  let ?row = "\<lparr>ak_id = kid, ak_account = ckr_AccountId req, ak_principal = p, ak_ciphertext = se_Ciphertext sealed,
    ak_nonce = se_Nonce sealed, ak_master = se_KeyID sealed, ak_state = stateName RS_ACTIVE, ak_created = unixMilli (w_now w3)\<rparr>"
  have "run (storeAccessKey ?row secret (ckr_ClientToken req)) w3 = (r, w')"
    using unf a0 ac p k1 kid s2 secret s3 sealed by simp
  note c = storeAccessKey_cases [OF this, unfolded d3]
  have "sealed = \<lparr>se_Ciphertext = se_Ciphertext sealed, se_Nonce = se_Nonce sealed, se_KeyID = se_KeyID sealed\<rparr>"
    by (cases sealed) simp
  then have op: "sec_Open g kr \<lparr>se_Ciphertext = se_Ciphertext sealed, se_Nonce = se_Nonce sealed,
      se_KeyID = se_KeyID sealed\<rparr> kid = Inr secret"
    using Open_Seal(1) [OF assms(1,2)] s3 sealed by metis
  let ?k = "\<lparr>ky_AccessKeyId = kid, ky_AccountId = ckr_AccountId req, ky_PrincipalArn = p,
        ky_State = RS_ACTIVE, ky_CreatedAtUnixMs = unixMilli (w_now w3), ky_SecretAccessKey = secret\<rparr>"
  show ?thesis unfolding keyOutcome_def
    by (rule disjI2, rule exI [of _ ?k], rule exI [of _ ?row])
      (use c False p acct op in \<open>auto simp: ValidateAccountID_None\<close>)
qed

lemma wf_withKey:
  assumes "wf_db d" "keyById (ak_id row) d = None" "accountById (ak_account row) d \<noteq> None"
    "tok = [] \<or> idemById ''CreateAccessKey'' tok d = None"
  shows "wf_db (withKey row tok d)"
proof -
  obtain a where a: "accountById (ak_account row) d = Some a" using assms(3) by auto
  then have "a \<in> set (d_accounts d)" "ac_id a = ak_account row"
    by (auto simp: accountById_def dest: find_SomeD)
  then have "ak_account row \<in> ac_id ` set (d_accounts d)" by force
  with assms(1,2,4) show ?thesis
    by (auto simp: wf_db_def withKey_def newIdemRow_def keyById_def idemById_def find_None)
qed

lemma wf_deleteKey: "wf_db d \<Longrightarrow> deleteKeyRow i d = Inr (n, d') \<Longrightarrow> wf_db d'"
  by (auto simp: wf_db_def deleteKeyRow_def distinct_map_filter)

lemma keyById_withKey: "keyById (ak_id row) d = None \<Longrightarrow> keyById (ak_id row) (withKey row tok d) = Some row"
  by (simp add: keyById_def withKey_def find_append)

lemma keyById_deleteKey:
  "deleteKeyRow i d = Inr (n, d') \<Longrightarrow> keyById j d' = (if j = i then None else keyById j d)"
proof -
  assume "deleteKeyRow i d = Inr (n, d')"
  then have d': "d_keys d' = filter (\<lambda>r. ak_id r \<noteq> i) (d_keys d)" by (auto simp: deleteKeyRow_def)
  show ?thesis
  proof (cases "j = i")
    case True
    then show ?thesis using d' by (simp add: keyById_def find_None)
  next
    case False
    then show ?thesis using d' by (simp add: keyById_def find_filter_other)
  qed
qed

lemma DeleteAccessKey_run:
  "run (DeleteAccessKey cb i) w =
     (if i = [] then (Inl (Validation ''access_key_id is required'' []), w)
      else case nextFault w of
        Some e \<Rightarrow> (Inl (Internal (Some e) ''could not delete the access key'' []), popFault w)
      | None \<Rightarrow> (if keyById i (w_db w) = None
          then (Inl (NotFound ''no access key %s'' [AStr i]), popFault w)
          else (Inr (), final_of (case cb of None \<Rightarrow> ret () | Some f \<Rightarrow> f i)
             (popFault (w\<lparr>w_db := (w_db w)\<lparr>d_keys := filter (\<lambda>r. ak_id r \<noteq> i) (d_keys (w_db w))\<rparr>\<rparr>)))))"
proof -
  have "filter (\<lambda>r. ak_id r = i) (d_keys d) = [] \<longleftrightarrow> keyById i d = None" for d
    by (auto simp: keyById_def find_None filter_empty_conv)
  moreover have "keyById i d = None \<Longrightarrow> d\<lparr>d_keys := filter (\<lambda>r. ak_id r \<noteq> i) (d_keys d)\<rparr> = d" for d
    by (auto simp: keyById_def find_None intro: filter_True)
  ultimately show ?thesis
    by (auto simp: DeleteAccessKey_def run_db deleteKeyRow_def split: option.split prod.split)
qed

subsection \<open>Listings\<close>

lemma keysetPage_map:
  "map f (fst (keysetPage ck key rows after limit)) = map f (take limit (keysetQuery ck key rows after (limit + 1)))"
  by (simp add: keysetPage_def Let_def)

lemma ListAccounts_run:
  assumes "nextFault w = None" "page_Limit m = Inr limit" "page_Decode tok = Inr after" "0 < limit"
  shows "run (ListAccounts ck m tok) w =
    (Inr (map_prod (map accountOf) id (keysetPage ck ac_id (d_accounts (w_db w)) after limit)), popFault w)"
  using assms by (auto simp: ListAccounts_def run_db queryRows_def keysetPage_def Let_def accountOf_def nth_append take_map
      min_def)

lemma ListAccessKeys_run:
  assumes "nextFault w = None" "is_account_id acct" "page_Limit m = Inr limit" "page_Decode tok = Inr after" "0 < limit"
  shows "run (ListAccessKeys ck acct m tok) w =
    (Inr (map_prod (map keyOf) id (keysetPage ck ak_id (filter (\<lambda>r. ak_account r = acct) (d_keys (w_db w))) after limit)),
     popFault w)"
  using assms by (auto simp: ListAccessKeys_def run_db queryRows_def keysetPage_def Let_def keyOf_def take_map min_def)

text \<open>
  The two listings are keyset listings. A state of a listing is the world and the page size asked
  for, with the account for the keys; the server's clamp decides the size of the page.
\<close>

definition clampOf :: "int \<Rightarrow> nat" where
  "clampOf m = (case page_Limit m of Inr l \<Rightarrow> l | Inl _ \<Rightarrow> 0)"

lemma clampOf: "0 \<le> m \<Longrightarrow> m \<le> 500 \<Longrightarrow> page_Limit m = Inr (clampOf m) \<and> 0 < clampOf m"
  by (auto simp: clampOf_def page_Limit_def DefaultLimit_def MaxLimit_def)

definition accountsPage :: "(string \<Rightarrow> 'c::linorder) \<Rightarrow> 'w world_scheme \<times> int \<Rightarrow> string \<Rightarrow> err + Account list \<times> string" where
  "accountsPage ck s tok = result_of (ListAccounts ck (snd s) tok) (fst s)"

interpretation accounts_listing: keyset_listing "accountsPage ck" accountOf ck ac_id "\<lambda>s. d_accounts (w_db (fst s))"
  "\<lambda>s. clampOf (snd s)"
  "\<lambda>s. nextFault (fst s) = None \<and> keyed ck ac_id (d_accounts (w_db (fst s))) \<and> 0 \<le> snd s \<and> snd s \<le> 500"
  for ck :: "string \<Rightarrow> 'c::linorder"
  by unfold_locales (auto simp: clampOf accountsPage_def ListAccounts_run)

definition keysPage ::
  "(string \<Rightarrow> 'c::linorder) \<Rightarrow> ('w world_scheme \<times> int) \<times> string \<Rightarrow> string \<Rightarrow> err + AccessKey list \<times> string" where
  "keysPage ck s tok = result_of (ListAccessKeys ck (snd s) (snd (fst s)) tok) (fst (fst s))"

definition keysOfAccount :: "string \<Rightarrow> db \<Rightarrow> key_row list" where
  "keysOfAccount acct d = filter (\<lambda>r. ak_account r = acct) (d_keys d)"

interpretation keys_listing: keyset_listing "keysPage ck" keyOf ck ak_id "\<lambda>s. keysOfAccount (snd s) (w_db (fst (fst s)))"
  "\<lambda>s. clampOf (snd (fst s))"
  "\<lambda>s. nextFault (fst (fst s)) = None \<and> is_account_id (snd s) \<and>
     keyed ck ak_id (keysOfAccount (snd s) (w_db (fst (fst s)))) \<and> 0 \<le> snd (fst s) \<and> snd (fst s) \<le> 500"
  for ck :: "string \<Rightarrow> 'c::linorder"
  by unfold_locales (auto simp: clampOf keysPage_def ListAccessKeys_run keysOfAccount_def)

subsection \<open>Properties of access keys and listings\<close>

lemma keyOutcome_Inr:
  assumes "keyOutcome g kr region req d (Inr k) d'"
  shows "\<exists>row. d' = withKey row (ckr_ClientToken req) d \<and> ky_AccessKeyId k = ak_id row \<and> keyById (ak_id row) d = None \<and>
    signingTruth g kr d' (ky_AccessKeyId k) = Inr \<lparr>sk_AccessKeyID = ky_AccessKeyId k, sk_AccountID = ckr_AccountId req,
      sk_PrincipalARN = ky_PrincipalArn k, sk_Secret = ky_SecretAccessKey k\<rparr>"
proof -
  from assms obtain row where row: "d' = withKey row (ckr_ClientToken req) d" "keyById (ak_id row) d = None"
    "ky_AccessKeyId k = ak_id row" "ak_account row = ckr_AccountId req" "ak_principal row = ky_PrincipalArn k"
    "sec_Open g kr \<lparr>se_Ciphertext = ak_ciphertext row, se_Nonce = ak_nonce row, se_KeyID = ak_master row\<rparr> (ak_id row)
         = Inr (ky_SecretAccessKey k)"
    unfolding keyOutcome_def by auto
  then show ?thesis by (auto simp: signingTruth_def keyById_withKey)
qed

lemma signingTruth_cong: "keyById i d = keyById i d' \<Longrightarrow> signingTruth g kr d i = signingTruth g kr d' i"
  by (simp add: signingTruth_def)

text \<open>A created key resolves: whatever statements fail, an error leaves the tables as they were, and a success has
  stored a key which every later undisturbed lookup resolves to the very secret that was
  returned, the account it was created for and the principal that was checked to belong to it,
  for as long as its row stands and the keyring holds the key it was sealed with.\<close>
theorem created_key_resolves:
  assumes "gcm_ok g" "wf_keyring kr" "run (CreateAccessKey g kr region req) w = (r, w')"
  shows "case r of
      Inl e \<Rightarrow> w_db w' = w_db w
    | Inr k \<Rightarrow> keyById (ky_AccessKeyId k) (w_db w) = None \<and>
        (\<forall>v. nextFault v = None \<longrightarrow> keyById (ky_AccessKeyId k) (w_db v) = keyById (ky_AccessKeyId k) (w_db w') \<longrightarrow>
          result_of (ResolveSigningKey g kr (ky_AccessKeyId k)) (v :: 'w world_scheme) =
            Inr \<lparr>sk_AccessKeyID = ky_AccessKeyId k, sk_AccountID = ckr_AccountId req,
              sk_PrincipalARN = ky_PrincipalArn k, sk_Secret = ky_SecretAccessKey k\<rparr>)"
proof (cases r)
  case (Inl e)
  then show ?thesis using CreateAccessKey_outcome [OF assms] by (simp add: keyOutcome_def)
next
  case (Inr k)
  note o = CreateAccessKey_outcome [OF assms, unfolded Inr]
  obtain row :: key_row where row: "ky_AccessKeyId k = ak_id row" "keyById (ak_id row) (w_db w) = None"
    and tr: "signingTruth g kr (w_db w') (ky_AccessKeyId k) = Inr \<lparr>sk_AccessKeyID = ky_AccessKeyId k,
      sk_AccountID = ckr_AccountId req, sk_PrincipalARN = ky_PrincipalArn k, sk_Secret = ky_SecretAccessKey k\<rparr>"
    using keyOutcome_Inr [OF o] by blast
  have "result_of (ResolveSigningKey g kr (ky_AccessKeyId k)) v = signingTruth g kr (w_db w') (ky_AccessKeyId k)"
    if "nextFault v = None" "keyById (ky_AccessKeyId k) (w_db v) = keyById (ky_AccessKeyId k) (w_db w')"
    for v :: "'w world_scheme"
    using that(1) signingTruth_cong [OF that(2), of g kr] by (simp add: ResolveSigningKey_run)
  then show ?thesis using row tr Inr by simp
qed

text \<open>The principal of a key lies in the key's account.\<close>

lemma resolvePrincipalARN_account:
  assumes "resolvePrincipalARN region acct req = Inr p" "is_account_id acct" "region \<noteq> []" "CHR '':'' \<notin> set region"
  shows "\<exists>a. arn_Parse p = Inr a \<and> a_Account a = acct \<and> a_Service a = ''iam'' \<and> a_Type a \<in> {''user'', ''role''}"
proof (cases "req = []")
  case True
  let ?a = "\<lparr>a_Service = ''iam'', a_Region = region, a_Account = acct, a_Type = ''user'', a_ID = ''root''\<rparr>"
  have "p = arn_String ?a" using assms(1) True by (simp add: resolvePrincipalARN_def arn_String_append Partition_def)
  then have "arn_Parse p = Inr ?a" using Parse_String [of ?a] assms(2-4) by (simp add: wf_arn_def)
  then show ?thesis by simp
next
  case False
  then show ?thesis using assms(1) by (auto simp: resolvePrincipalARN_def split: sum.splits if_splits)
qed

text \<open>Following the page tokens of a listing collects every row exactly once, in key order, and stops; a listing
  of keys shows the keys of the account asked for and of no other, and never a secret.\<close>
theorem listings_collect_everything:
  fixes ck :: "string \<Rightarrow> 'c::linorder"
  assumes "nextFault w = None" "0 \<le> m" "m \<le> 500" "is_account_id acct"
    "keyed ck ac_id (d_accounts (w_db w))" "keyed ck ak_id (keysOfAccount acct (w_db w))"
  shows "collectPages (Suc (length (d_accounts (w_db w)))) (\<lambda>tok. result_of (ListAccounts ck m tok) w) [] =
      Some (Inr (map accountOf (inKeyOrder ck ac_id (d_accounts (w_db w))))) \<and>
    collectPages (Suc (length (d_keys (w_db w)))) (\<lambda>tok. result_of (ListAccessKeys ck acct m tok) w) [] =
      Some (Inr (map keyOf (inKeyOrder ck ak_id (keysOfAccount acct (w_db w))))) \<and>
    list_all (\<lambda>k. ky_AccountId k = acct \<and> ky_SecretAccessKey k = [])
      (map keyOf (inKeyOrder ck ak_id (keysOfAccount acct (w_db w))))"
proof (intro conjI)
  have "accountsPage ck (w, m) = (\<lambda>tok. result_of (ListAccounts ck m tok) w)"
    by (rule ext) (simp add: accountsPage_def)
  then show "collectPages (Suc (length (d_accounts (w_db w)))) (\<lambda>tok. result_of (ListAccounts ck m tok) w) [] =
      Some (Inr (map accountOf (inKeyOrder ck ac_id (d_accounts (w_db w)))))"
    using accounts_listing.follow.collect_all [of "(w, m)" ck "Suc (length (d_accounts (w_db w)))"] assms
    by (simp del: collectPages.simps)
next
  have "keysPage ck ((w, m), acct) = (\<lambda>tok. result_of (ListAccessKeys ck acct m tok) w)"
    by (rule ext) (simp add: keysPage_def)
  moreover have "length (keysOfAccount acct (w_db w)) < Suc (length (d_keys (w_db w)))"
    by (simp add: keysOfAccount_def less_Suc_eq_le)
  ultimately show "collectPages (Suc (length (d_keys (w_db w)))) (\<lambda>tok. result_of (ListAccessKeys ck acct m tok) w) [] =
      Some (Inr (map keyOf (inKeyOrder ck ak_id (keysOfAccount acct (w_db w)))))"
    using keys_listing.follow.collect_all [of "((w, m), acct)" ck "Suc (length (d_keys (w_db w)))"] assms
    by (simp del: collectPages.simps)
next
  show "list_all (\<lambda>k. ky_AccountId k = acct \<and> ky_SecretAccessKey k = [])
      (map keyOf (inKeyOrder ck ak_id (keysOfAccount acct (w_db w))))"
    by (simp add: list_all_iff inKeyOrder_def keyOf_def keysOfAccount_def)
qed

subsection \<open>Witnesses\<close>

text \<open>A world with bytes to draw from and no failing statement.\<close>

definition sampleWorld :: world where
  "sampleWorld = \<lparr>w_db = emptyDb, w_faults = [], w_entropy = replicate 12 CHR ''1'' @ replicate 12 CHR ''2'' @ replicate 150 CHR ''a'',
     w_now = 1700000000000000000\<rparr>"

definition sampleAccount :: Account where
  "sampleAccount = \<lparr>an_AccountId = ''111111111111'', an_Name = ''acme'', an_State = RS_ACTIVE,
     an_CreatedAtUnixMs = 1700000000000\<rparr>"

definition sampleWorld1 :: world where
  "sampleWorld1 = final_of (CreateAccount ''acme'' ''t1'') sampleWorld"

lemma sampleCreate: "run (CreateAccount ''acme'' ''t1'') sampleWorld = (Inr sampleAccount, sampleWorld1)"
proof -
  have "result_of (CreateAccount ''acme'' ''t1'') sampleWorld = Inr sampleAccount" by code_simp
  then show ?thesis by (simp add: sampleWorld1_def prod_eq_iff)
qed

definition sampleWorld2 :: world where
  "sampleWorld2 = final_of (CreateAccount ''other'' ''t1'') sampleWorld1"

lemma sampleRetry: "\<exists>a. run (CreateAccount ''other'' ''t1'') sampleWorld1 = (Inr a, sampleWorld2)"
proof -
  have "\<not> isl (result_of (CreateAccount ''other'' ''t1'') sampleWorld1)" by code_simp
  then show ?thesis
    by (cases "result_of (CreateAccount ''other'' ''t1'') sampleWorld1") (auto simp: sampleWorld2_def prod_eq_iff)
qed

lemma wf_sampleWorld: "wf_db (w_db sampleWorld)"
  by (simp add: sampleWorld_def wf_emptyDb)

lemma create_account_all_or_nothing_witness:
  "wf_db (w_db sampleWorld1) \<and> accountById ''111111111111'' (w_db sampleWorld) = None"
  using create_account_all_or_nothing [OF sampleCreate wf_sampleWorld]
  by (auto simp: sampleAccount_def sampleWorld_def emptyDb_def accountById_def)

lemma create_account_idempotent_witness:
  "\<exists>a w3. run (CreateAccount ''other'' ''t1'') sampleWorld1 = (Inr a, w3) \<and> a = sampleAccount \<and> w_db w3 = w_db sampleWorld1"
proof -
  obtain a where a: "run (CreateAccount ''other'' ''t1'') sampleWorld1 = (Inr a, sampleWorld2)" using sampleRetry by blast
  then show ?thesis
    using create_account_idempotent [OF sampleCreate _ wf_sampleWorld refl refl a] by simp
qed

definition sampleKeyRequest :: CreateAccessKeyRequest where
  "sampleKeyRequest = \<lparr>ckr_AccountId = ''111111111111'', ckr_PrincipalArn = [], ckr_ClientToken = []\<rparr>"

definition sampleWorld3 :: world where
  "sampleWorld3 = final_of (CreateAccessKey sampleAead sampleKeyring ''hind-1'' sampleKeyRequest) sampleWorld1"

lemma sampleKeyCreated:
  "\<exists>k. run (CreateAccessKey sampleAead sampleKeyring ''hind-1'' sampleKeyRequest) sampleWorld1 = (Inr k, sampleWorld3)"
proof -
  have "\<not> isl (result_of (CreateAccessKey sampleAead sampleKeyring ''hind-1'' sampleKeyRequest) sampleWorld1)" by code_simp
  then show ?thesis
    by (cases "result_of (CreateAccessKey sampleAead sampleKeyring ''hind-1'' sampleKeyRequest) sampleWorld1")
      (auto simp: sampleWorld3_def prod_eq_iff)
qed

lemma sampleWorld3_quiet: "nextFault sampleWorld3 = None"
  by code_simp

lemma created_key_resolves_witness:
  "\<exists>k :: AccessKey. result_of (ResolveSigningKey sampleAead sampleKeyring (ky_AccessKeyId k)) sampleWorld3 =
     Inr \<lparr>sk_AccessKeyID = ky_AccessKeyId k, sk_AccountID = ''111111111111'', sk_PrincipalARN = ky_PrincipalArn k,
       sk_Secret = ky_SecretAccessKey k\<rparr>"
proof -
  obtain k :: AccessKey where
    k: "run (CreateAccessKey sampleAead sampleKeyring ''hind-1'' sampleKeyRequest) sampleWorld1 = (Inr k, sampleWorld3)"
    using sampleKeyCreated by blast
  have "result_of (ResolveSigningKey sampleAead sampleKeyring (ky_AccessKeyId k)) sampleWorld3 =
     Inr \<lparr>sk_AccessKeyID = ky_AccessKeyId k, sk_AccountID = ckr_AccountId sampleKeyRequest, sk_PrincipalARN = ky_PrincipalArn k,
       sk_Secret = ky_SecretAccessKey k\<rparr>"
    using created_key_resolves [OF sampleAead_ok(1) sampleKeyring_wf k, unfolded sum.case] sampleWorld3_quiet by blast
  then show ?thesis unfolding sampleKeyRequest_def by (intro exI [of _ k]) simp
qed

lemma listings_collect_everything_witness:
  "collectPages 2 (\<lambda>tok. result_of (ListAccounts (\<lambda>k. k) 1 tok) sampleWorld3) [] = Some (Inr [sampleAccount])"
proof -
  have d: "d_accounts (w_db sampleWorld3) = [newAccountRow ''111111111111'' ''acme'' 1700000000000]"
    "nextFault sampleWorld3 = None" "length (d_keys (w_db sampleWorld3)) = 1"
    "keyed (\<lambda>k. k) ak_id (keysOfAccount ''111111111111'' (w_db sampleWorld3))" by code_simp+
  then have "keyed (\<lambda>k. k) ac_id (d_accounts (w_db sampleWorld3))" by (simp add: keyed_def newAccountRow_def)
  with listings_collect_everything [of sampleWorld3 1 "''111111111111''" "\<lambda>k. k"] d
  show ?thesis
    by (simp add: inKeyOrder_def accountOf_def newAccountRow_def sampleAccount_def is_account_id_def isDigit_def
        numeral_2_eq_2 del: collectPages.simps)
qed

end
