(* ===== verification/Capability.thy ===== *)
theory Capability
  imports Apierr Encoding
begin

text \<open>
  Capability tokens (\<open>internal/capability/capability.go\<close>): minting at the front door, offline
  verification at a service, and the parsing of keys from the environment.

  Ed25519 and the protobuf wire format are not part of the repository. They are the fields of a
  \<open>wire\<close> record, an argument of every definition that uses them; \<open>wire_ok\<close> states what the code
  relies on: a signature made with a seed verifies under its public key and is not empty,
  and unmarshalling what was marshalled gives the message back. Tokens of forgers are arbitrary
  bytes; what cannot be forged is stated through the set of messages that verify.
\<close>

subsection \<open>Messages and the parameters of the model\<close>

record Capability =
  cp_AccountId :: string
  cp_CallerAccountId :: string
  cp_PrincipalArn :: string
  cp_Action :: string
  cp_ResourceArn :: string
  cp_RequestId :: string
  cp_IssuedAtUnixMs :: int
  cp_ExpiresAtUnixMs :: int

record SignedCapability =
  tk_CapabilityBytes :: bytes
  tk_Signature :: bytes
  tk_KeyId :: string

text \<open>Marshalling fails on a string that is not UTF-8; unmarshalling on bytes that are no message.\<close>

record wire =
  ed_public :: "bytes \<Rightarrow> bytes"
  ed_sign :: "bytes \<Rightarrow> bytes \<Rightarrow> bytes"
  ed_verify :: "bytes \<Rightarrow> bytes \<Rightarrow> bytes \<Rightarrow> bool"
  marshalCap :: "Capability \<Rightarrow> bytes option"
  unmarshalCap :: "bytes \<Rightarrow> Capability option"
  marshalToken :: "SignedCapability \<Rightarrow> bytes option"
  unmarshalToken :: "bytes \<Rightarrow> SignedCapability option"

definition ed25519_ok :: "wire \<Rightarrow> bool" where
  "ed25519_ok w \<longleftrightarrow> (\<forall>seed m. ed_verify w (ed_public w seed) m (ed_sign w seed m) \<and> ed_sign w seed m \<noteq> [] \<and>
     (length seed = 32 \<longrightarrow> length (ed_public w seed) = 32))"

definition protobuf_ok :: "wire \<Rightarrow> bool" where
  "protobuf_ok w \<longleftrightarrow>
     (\<forall>c b. marshalCap w c = Some b \<longrightarrow> unmarshalCap w b = Some c \<and> (cp_Action c \<noteq> [] \<longrightarrow> b \<noteq> [])) \<and>
     (\<forall>t b. marshalToken w t = Some b \<longrightarrow> unmarshalToken w b = Some t \<and> (tk_KeyId t \<noteq> [] \<longrightarrow> b \<noteq> []))"

definition wire_ok :: "wire \<Rightarrow> bool" where
  "wire_ok w \<longleftrightarrow> ed25519_ok w \<and> protobuf_ok w"

subsection \<open>Constants\<close>

definition CapabilityTTL :: duration where "CapabilityTTL = 30 * second"
definition EnvSigningKey :: string where "EnvSigningKey = ''DARIYA_TOKEN_SIGNING_KEY''"
definition EnvPublicKeys :: string where "EnvPublicKeys = ''DARIYA_TOKEN_PUBLIC_KEYS''"
definition SeedSize :: nat where "SeedSize = 32"
definition PublicKeySize :: nat where "PublicKeySize = 32"

definition ErrNoSuchKey :: err where "ErrNoSuchKey = Sentinel ''capability: unknown signing key id''"
definition ErrBadSignature :: err where "ErrBadSignature = Sentinel ''capability: signature does not verify''"
definition ErrExpired :: err where "ErrExpired = Sentinel ''capability: token has expired''"
definition ErrCapMalformed :: err where "ErrCapMalformed = Sentinel ''capability: token is malformed''"

lemmas cap_err_defs = ErrNoSuchKey_def ErrBadSignature_def ErrExpired_def ErrCapMalformed_def

subsection \<open>Minting\<close>

record Claims =
  cl_AccountID :: string
  cl_CallerAccountID :: string
  cl_PrincipalARN :: string
  cl_Action :: string
  cl_ResourceARN :: string
  cl_RequestID :: string

record Minter =
  m_keyID :: string
  m_key :: bytes
  m_ttl :: duration

definition parseKeyEntry :: "string \<Rightarrow> err + string \<times> bytes" where
  "parseKeyEntry entry =
     (case cut CHR '':'' entry of
        None \<Rightarrow> Inl (Errorf ''capability: %q is not id:base64key'' [AStr entry] None)
      | Some (kid, encoded) \<Rightarrow>
          if kid = [] then Inl (Errorf ''capability: %q is not id:base64key'' [AStr entry] None)
          else case stdDecode encoded of
            None \<Rightarrow> Inl (Errorf ''capability: key %q: %w'' [AStr kid] (Some (Sentinel ''illegal base64 data'')))
          | Some material \<Rightarrow> Inr (kid, material))"

definition NewMinter :: "string \<Rightarrow> bytes \<Rightarrow> duration \<Rightarrow> err + Minter" where
  "NewMinter keyID seed ttl =
     (if length seed \<noteq> SeedSize then
        Inl (Errorf ''capability: signing key must be %d bytes, got %d'' [ANum (int SeedSize), ANum (int (length seed))] None)
      else Inr \<lparr>m_keyID = keyID, m_key = seed, m_ttl = (if ttl \<le> 0 then CapabilityTTL else ttl)\<rparr>)"

definition NewMinterFromEnv :: "(string \<Rightarrow> string) \<Rightarrow> duration \<Rightarrow> err + Minter" where
  "NewMinterFromEnv getenv ttl =
     (if getenv EnvSigningKey = [] then
        Inl (Errorf ''capability: %s is not set (see `make dev-keys`)'' [AStr EnvSigningKey] None)
      else andThen (parseKeyEntry (getenv EnvSigningKey)) (\<lambda>(kid, seed). NewMinter kid seed ttl))"

definition minter_PublicKey :: "wire \<Rightarrow> Minter \<Rightarrow> bytes" where
  "minter_PublicKey w m = ed_public w (m_key m)"

definition capabilityOf :: "Minter \<Rightarrow> time \<Rightarrow> Claims \<Rightarrow> Capability" where
  "capabilityOf m now c =
     \<lparr>cp_AccountId = cl_AccountID c,
      cp_CallerAccountId = (if cl_CallerAccountID c = [] then cl_AccountID c else cl_CallerAccountID c),
      cp_PrincipalArn = cl_PrincipalARN c, cp_Action = cl_Action c, cp_ResourceArn = cl_ResourceARN c,
      cp_RequestId = cl_RequestID c, cp_IssuedAtUnixMs = unixMilli now,
      cp_ExpiresAtUnixMs = unixMilli (now + m_ttl m)\<rparr>"

definition Mint :: "wire \<Rightarrow> Minter \<Rightarrow> time \<Rightarrow> Claims \<Rightarrow> err + SignedCapability" where
  "Mint w m now c =
     (case marshalCap w (capabilityOf m now c) of
        None \<Rightarrow> Inl (Errorf ''capability: marshal: %w'' [] (Some (Sentinel ''string field contains invalid UTF-8'')))
      | Some encoded \<Rightarrow>
          Inr \<lparr>tk_CapabilityBytes = encoded, tk_Signature = ed_sign w (m_key m) encoded, tk_KeyId = m_keyID m\<rparr>)"

subsection \<open>Verifying\<close>

record Verifier =
  v_keys :: "bytes strmap"
  v_Skew :: duration

definition NewVerifier :: "bytes strmap \<Rightarrow> Verifier" where
  "NewVerifier keys = \<lparr>v_keys = keys, v_Skew = second\<rparr>"

fun parsePublicKeys :: "string list \<Rightarrow> bytes strmap \<Rightarrow> err + bytes strmap" where
  "parsePublicKeys [] keys = Inr keys"
| "parsePublicKeys (entry # es) keys =
     (case parseKeyEntry (trimSpace entry) of
        Inl e \<Rightarrow> Inl e
      | Inr (kid, material) \<Rightarrow>
          if length material \<noteq> PublicKeySize then
            Inl (Errorf ''capability: public key %q is %d bytes, want %d''
              [AStr kid, ANum (int (length material)), ANum (int PublicKeySize)] None)
          else parsePublicKeys es (AList.update kid material keys))"

definition NewVerifierFromEnv :: "(string \<Rightarrow> string) \<Rightarrow> err + Verifier" where
  "NewVerifierFromEnv getenv =
     (if getenv EnvPublicKeys = [] then Inl (Errorf ''capability: %s is not set'' [AStr EnvPublicKeys] None)
      else andThen (parsePublicKeys (splitOn CHR '','' (getenv EnvPublicKeys)) []) (\<lambda>keys. Inr (NewVerifier keys)))"

definition cap_Verify :: "wire \<Rightarrow> Verifier \<Rightarrow> time \<Rightarrow> SignedCapability option \<Rightarrow> err + Capability" where
  "cap_Verify w v now token =
     (case token of
        None \<Rightarrow> Inl ErrCapMalformed
      | Some t \<Rightarrow>
          if tk_CapabilityBytes t = [] \<or> tk_Signature t = [] then Inl ErrCapMalformed
          else case lookup (v_keys v) (tk_KeyId t) of
            None \<Rightarrow> Inl (Errorf ''%w: %q -- it must stay configured until every token it signed has expired''
                      [AStr (tk_KeyId t)] (Some ErrNoSuchKey))
          | Some key \<Rightarrow>
              if \<not> ed_verify w key (tk_CapabilityBytes t) (tk_Signature t) then Inl ErrBadSignature
              else case unmarshalCap w (tk_CapabilityBytes t) of
                None \<Rightarrow> Inl (Errorf ''%w: %v'' [AErr (Sentinel ''proto: cannot parse'')] (Some ErrCapMalformed))
              | Some cap \<Rightarrow>
                  if unixMilli (now - v_Skew v) > cp_ExpiresAtUnixMs cap then
                    Inl (Errorf ''%w: expired at %d'' [ANum (cp_ExpiresAtUnixMs cap)] (Some ErrExpired))
                  else Inr cap)"

subsection \<open>What verification accepts\<close>

lemma cap_Verify_Inr:
  "cap_Verify w v now (Some t) = Inr cap \<longleftrightarrow>
     tk_CapabilityBytes t \<noteq> [] \<and> tk_Signature t \<noteq> [] \<and>
     (\<exists>key. lookup (v_keys v) (tk_KeyId t) = Some key \<and> ed_verify w key (tk_CapabilityBytes t) (tk_Signature t)) \<and>
     unmarshalCap w (tk_CapabilityBytes t) = Some cap \<and> unixMilli (now - v_Skew v) \<le> cp_ExpiresAtUnixMs cap"
  by (auto simp: cap_Verify_def split: option.splits)

lemma Mint_Inr:
  "Mint w m now c = Inr t \<longleftrightarrow>
     (\<exists>b. marshalCap w (capabilityOf m now c) = Some b \<and>
        t = \<lparr>tk_CapabilityBytes = b, tk_Signature = ed_sign w (m_key m) b, tk_KeyId = m_keyID m\<rparr>)"
  by (auto simp: Mint_def split: option.splits)

lemma capabilityOf_sel [simp]:
  "cp_Action (capabilityOf m now c) = cl_Action c" "cp_ResourceArn (capabilityOf m now c) = cl_ResourceARN c"
  "cp_AccountId (capabilityOf m now c) = cl_AccountID c" "cp_PrincipalArn (capabilityOf m now c) = cl_PrincipalARN c"
  "cp_RequestId (capabilityOf m now c) = cl_RequestID c"
  by (simp_all add: capabilityOf_def)

lemma Mint_Verify:
  assumes "wire_ok w" "Mint w m t0 c = Inr t" "cl_Action c \<noteq> []"
    "lookup (v_keys v) (m_keyID m) = Some (minter_PublicKey w m)"
  shows "cap_Verify w v now (Some t) =
    (if unixMilli (now - v_Skew v) \<le> unixMilli (t0 + m_ttl m) then Inr (capabilityOf m t0 c)
     else Inl (Errorf ''%w: expired at %d'' [ANum (unixMilli (t0 + m_ttl m))] (Some ErrExpired)))"
proof -
  obtain b where b: "marshalCap w (capabilityOf m t0 c) = Some b"
    "t = \<lparr>tk_CapabilityBytes = b, tk_Signature = ed_sign w (m_key m) b, tk_KeyId = m_keyID m\<rparr>"
    using assms(2) by (auto simp: Mint_Inr)
  moreover have "unmarshalCap w b = Some (capabilityOf m t0 c)" "b \<noteq> []"
    using assms(1,3) b(1) capabilityOf_sel [of m t0 c] unfolding wire_ok_def protobuf_ok_def by metis+
  ultimately show ?thesis
    using assms(1,4) by (auto simp: cap_Verify_def wire_ok_def ed25519_ok_def minter_PublicKey_def capabilityOf_def)
qed

lemma parsePublicKeys_sizes:
  "parsePublicKeys es keys = Inr keys' \<Longrightarrow> \<forall>k v. lookup keys k = Some v \<longrightarrow> length v = PublicKeySize \<Longrightarrow>
   lookup keys' k = Some v \<Longrightarrow> length v = PublicKeySize"
  by (induction es keys rule: parsePublicKeys.induct) (auto split: sum.splits if_splits)

lemma NewVerifierFromEnv_sizes:
  "NewVerifierFromEnv getenv = Inr v \<Longrightarrow> lookup (v_keys v) k = Some key \<Longrightarrow> length key = PublicKeySize"
  using parsePublicKeys_sizes [of _ "[]"]
  by (auto simp: NewVerifierFromEnv_def NewVerifier_def andThen_Inr split: if_splits)

lemma NewMinter_size: "NewMinter keyID seed ttl = Inr m \<Longrightarrow> length (m_key m) = 32 \<and> 0 < m_ttl m"
  by (auto simp: NewMinter_def SeedSize_def CapabilityTTL_def split: if_splits)

subsection \<open>A concrete instance of the parameters\<close>

text \<open>A wire format and a signature scheme that satisfy \<open>wire_ok\<close>, for the witnesses.\<close>

definition encInt :: "int \<Rightarrow> string" where
  "encInt i = (if i < 0 then replicate (nat (- i)) CHR ''n'' else replicate (nat i) CHR ''p'')"

definition decInt :: "string \<Rightarrow> int" where
  "decInt s = (case s of [] \<Rightarrow> 0 | c # _ \<Rightarrow> if c = CHR ''n'' then - int (length s) else int (length s))"

lemma decInt_encInt [simp]: "decInt (encInt i) = i"
  by (cases "nat (- i)"; cases "nat i") (auto simp: decInt_def encInt_def)

definition packFields :: "string list \<Rightarrow> bytes" where
  "packFields fs = joinWith '':'' (map hexEncode fs)"

definition unpackFields :: "bytes \<Rightarrow> string list option" where
  "unpackFields b = those (map hexDecode (splitOn CHR '':'' b))"

lemma hexEncode_no_colon: "CHR '':'' \<notin> set (hexEncode s)"
  using set_hexEncode [of s] by (auto simp: hexDigits_def)

lemma unpack_pack [simp]: "fs \<noteq> [] \<Longrightarrow> unpackFields (packFields fs) = Some fs"
proof -
  assume "fs \<noteq> []"
  then have "splitOn CHR '':'' (packFields fs) = map hexEncode fs"
    unfolding packFields_def by (intro splitOn_joinWith) (auto simp: hexEncode_no_colon)
  moreover have "those (map hexDecode (map hexEncode fs)) = Some fs"
    by (induction fs) (simp_all add: hex_roundtrip)
  ultimately show ?thesis by (simp add: unpackFields_def)
qed

lemma packFields_ne: "packFields (x # y # fs) \<noteq> []"
  by (simp add: packFields_def)

definition sampleWire :: wire where
  "sampleWire =
     \<lparr>ed_public = (\<lambda>k. k), ed_sign = (\<lambda>k m. ''sig:'' @ k @ m), ed_verify = (\<lambda>p m s. s = ''sig:'' @ p @ m),
      marshalCap = (\<lambda>c. Some (packFields [cp_AccountId c, cp_CallerAccountId c, cp_PrincipalArn c, cp_Action c,
        cp_ResourceArn c, cp_RequestId c, encInt (cp_IssuedAtUnixMs c), encInt (cp_ExpiresAtUnixMs c)])),
      unmarshalCap = (\<lambda>b. case unpackFields b of
          Some [a, ca, p, ac, r, q, i, e] \<Rightarrow>
            Some \<lparr>cp_AccountId = a, cp_CallerAccountId = ca, cp_PrincipalArn = p, cp_Action = ac, cp_ResourceArn = r,
              cp_RequestId = q, cp_IssuedAtUnixMs = decInt i, cp_ExpiresAtUnixMs = decInt e\<rparr>
        | _ \<Rightarrow> None),
      marshalToken = (\<lambda>t. Some (packFields [tk_CapabilityBytes t, tk_Signature t, tk_KeyId t])),
      unmarshalToken = (\<lambda>b. case unpackFields b of
          Some [c, s, k] \<Rightarrow> Some \<lparr>tk_CapabilityBytes = c, tk_Signature = s, tk_KeyId = k\<rparr>
        | _ \<Rightarrow> None)\<rparr>"

lemma sampleWire_ok: "wire_ok sampleWire"
  unfolding wire_ok_def ed25519_ok_def protobuf_ok_def
  by (auto simp: sampleWire_def packFields_ne)

end
