(* ===== verification/Sha256.thy ===== *)
theory Sha256
  imports Encoding
begin

unbundle bit_operations_syntax

text \<open>
  The two functions of Go's \<open>crypto\<close> packages that the request signatures, the instance names and the
  session tokens rest on, as executable definitions on byte strings: SHA-256 (FIPS 180-4)
  and HMAC-SHA-256 (RFC 2104). What the development uses of them is that they are functions
  with 32-byte values; nothing is assumed about collisions.
\<close>

type_synonym w32 = "32 word"

text \<open>
  The constants of the standard: the first thirty-two bits of the fractional parts of the cube roots of the first
  sixty-four primes, and of the square roots of the first eight. \<open>rootBits\<close> finds an integer root bit by bit.
\<close>

fun rootBits :: "nat \<Rightarrow> int \<Rightarrow> nat \<Rightarrow> int \<Rightarrow> int" where
  "rootBits k x 0 acc = acc"
| "rootBits k x (Suc n) acc = rootBits k x n (if (acc + 2 ^ n) ^ k \<le> x then acc + 2 ^ n else acc)"

definition fractionBits :: "nat \<Rightarrow> nat \<Rightarrow> w32" where
  "fractionBits k p = word_of_int (rootBits k (int p * 2 ^ (32 * k)) 40 0)"

definition primesBelow :: "nat \<Rightarrow> nat list" where
  "primesBelow m = filter (\<lambda>p. list_all (\<lambda>d. p mod d \<noteq> 0) [2..<p]) [2..<m]"

definition roundConstants :: "w32 list" where
  "roundConstants = map (fractionBits 3) (primesBelow 312)"

datatype hashState = HS w32 w32 w32 w32 w32 w32 w32 w32

definition initialState :: hashState where
  "initialState = HS (fractionBits 2 2) (fractionBits 2 3) (fractionBits 2 5) (fractionBits 2 7)
     (fractionBits 2 11) (fractionBits 2 13) (fractionBits 2 17) (fractionBits 2 19)"

definition ror :: "nat \<Rightarrow> w32 \<Rightarrow> w32" where
  "ror n x = (drop_bit n x) OR (push_bit (32 - n) x)"

definition smallSigma0 :: "w32 \<Rightarrow> w32" where "smallSigma0 x = ror 7 x XOR ror 18 x XOR drop_bit 3 x"
definition smallSigma1 :: "w32 \<Rightarrow> w32" where "smallSigma1 x = ror 17 x XOR ror 19 x XOR drop_bit 10 x"
definition bigSigma0 :: "w32 \<Rightarrow> w32" where "bigSigma0 x = ror 2 x XOR ror 13 x XOR ror 22 x"
definition bigSigma1 :: "w32 \<Rightarrow> w32" where "bigSigma1 x = ror 6 x XOR ror 11 x XOR ror 25 x"

fun roundStep :: "hashState \<Rightarrow> w32 \<times> w32 \<Rightarrow> hashState" where
  "roundStep (HS a b c d e f g h) (k, w) =
     (let t1 = h + bigSigma1 e + ((e AND f) XOR (NOT e AND g)) + k + w;
          t2 = bigSigma0 a + ((a AND b) XOR (a AND c) XOR (b AND c))
      in HS (t1 + t2) a b c (d + t1) e f g)"

text \<open>The message schedule, newest word first.\<close>

fun extendSchedule :: "nat \<Rightarrow> w32 list \<Rightarrow> w32 list" where
  "extendSchedule 0 ws = ws"
| "extendSchedule (Suc n) ws =
     extendSchedule n ((smallSigma1 (ws ! 1) + ws ! 6 + smallSigma0 (ws ! 14) + ws ! 15) # ws)"

fun wordsOf :: "bytes \<Rightarrow> w32 list" where
  "wordsOf (a # b # c # d # r) =
     (push_bit 24 (of_char a) OR push_bit 16 (of_char b) OR push_bit 8 (of_char c) OR of_char d) # wordsOf r"
| "wordsOf r = []"

definition bytesOf :: "w32 \<Rightarrow> bytes" where
  "bytesOf w = map (\<lambda>n. char_of (unat (drop_bit n w))) [24, 16, 8, 0]"

fun addStates :: "hashState \<Rightarrow> hashState \<Rightarrow> hashState" where
  "addStates (HS a b c d e f g h) (HS a' b' c' d' e' f' g' h') =
     HS (a + a') (b + b') (c + c') (d + d') (e + e') (f + f') (g + g') (h + h')"

definition compressBlock :: "hashState \<Rightarrow> bytes \<Rightarrow> hashState" where
  "compressBlock st blk =
     addStates st (foldl roundStep st (zip roundConstants (rev (extendSchedule 48 (rev (wordsOf blk))))))"

fun blocksOf :: "nat \<Rightarrow> bytes \<Rightarrow> bytes list" where
  "blocksOf 0 s = []"
| "blocksOf (Suc n) s = take 64 s # blocksOf n (drop 64 s)"

definition padMessage :: "bytes \<Rightarrow> bytes" where
  "padMessage m =
     m @ [CHR 0x80] @ replicate ((119 - length m mod 64) mod 64) (CHR 0x00)
       @ map (\<lambda>n. char_of (8 * length m div 2 ^ n)) [56, 48, 40, 32, 24, 16, 8, 0]"

fun digestBytes :: "hashState \<Rightarrow> bytes" where
  "digestBytes (HS a b c d e f g h) = concat (map bytesOf [a, b, c, d, e, f, g, h])"

definition sha256 :: "bytes \<Rightarrow> bytes" where
  "sha256 m =
     (let p = padMessage m in digestBytes (foldl compressBlock initialState (blocksOf (length p div 64) p)))"

definition xorByte :: "char \<Rightarrow> char \<Rightarrow> char" where
  "xorByte a b = char_of ((of_char a :: nat) XOR of_char b)"

definition hmacSha256 :: "bytes \<Rightarrow> bytes \<Rightarrow> bytes" where
  "hmacSha256 key m =
     (let k0 = (if length key > 64 then sha256 key else key);
          k = k0 @ replicate (64 - length k0) (CHR 0x00)
      in sha256 (map (xorByte (CHR 0x5c)) k @ sha256 (map (xorByte (CHR 0x36)) k @ m)))"

lemma length_sha256 [simp]: "length (sha256 m) = 32"
proof -
  have "length (digestBytes st) = 32" for st by (cases st) (simp add: bytesOf_def)
  then show ?thesis by (simp add: sha256_def Let_def)
qed

lemma length_hmac [simp]: "length (hmacSha256 key m) = 32"
  by (simp add: hmacSha256_def Let_def)

end
