(* ===== verification/Gotime.thy ===== *)
theory Gotime
  imports Prelude
begin

text \<open>
  What the request signatures use of Go's \<open>time\<close> package: a civil UTC time, its rendering with
  the layout \<open>20060102T150405Z\<close>, and \<open>time.Parse\<close> with that layout, leniencies included: a
  one-digit hour is accepted, and so is a fraction of a second that the layout does
  not have. \<open>unixNano\<close> places a civil time on the line of \<^typ>\<open>time\<close>.
\<close>

record civil =
  cv_year :: nat
  cv_month :: nat
  cv_day :: nat
  cv_hour :: nat
  cv_min :: nat
  cv_sec :: nat
  cv_nsec :: nat

subsection \<open>The calendar\<close>

definition leapYear :: "nat \<Rightarrow> bool" where
  "leapYear y \<longleftrightarrow> y mod 4 = 0 \<and> (y mod 100 \<noteq> 0 \<or> y mod 400 = 0)"

definition daysIn :: "nat \<Rightarrow> nat \<Rightarrow> nat" where
  "daysIn m y = (if m = 2 \<and> leapYear y then 29 else [31, 28, 31, 30, 31, 30, 31, 31, 30, 31, 30, 31] ! (m - 1))"

definition daysBeforeYear :: "nat \<Rightarrow> int" where
  "daysBeforeYear y = (let z = int y - 1 in 365 * (z + 1) + z div 4 - z div 100 + z div 400)"

definition civilDays :: "civil \<Rightarrow> int" where
  "civilDays c =
     daysBeforeYear (cv_year c) - daysBeforeYear 1970
       + int (sum_list (map (\<lambda>m. daysIn m (cv_year c)) [1..<cv_month c])) + int (cv_day c) - 1"

definition unixNano :: "civil \<Rightarrow> time" where
  "unixNano c =
     (civilDays c * 86400 + int (cv_hour c * 3600 + cv_min c * 60 + cv_sec c)) * second + int (cv_nsec c)"

definition wf_civil :: "civil \<Rightarrow> bool" where
  "wf_civil c \<longleftrightarrow>
     cv_year c \<le> 9999 \<and> 1 \<le> cv_month c \<and> cv_month c \<le> 12 \<and>
     1 \<le> cv_day c \<and> cv_day c \<le> daysIn (cv_month c) (cv_year c) \<and>
     cv_hour c < 24 \<and> cv_min c < 60 \<and> cv_sec c < 60 \<and> cv_nsec c < 1000000000"

lemma unixNano_epoch: "unixNano \<lparr>cv_year = 1970, cv_month = 1, cv_day = 1, cv_hour = 0, cv_min = 0, cv_sec = 0, cv_nsec = 0\<rparr> = 0"
  by (simp add: unixNano_def civilDays_def)

lemma unixNano_nsec: "unixNano (c\<lparr>cv_nsec := 0\<rparr>) = unixNano c - int (cv_nsec c)"
  by (simp add: unixNano_def civilDays_def)

lemma daysIn_bound: "1 \<le> m \<Longrightarrow> m \<le> 12 \<Longrightarrow> daysIn m y \<le> 31"
proof -
  assume "1 \<le> m" "m \<le> 12"
  let ?d = "[31, 28, 31, 30, 31, 30, 31, 31, 30, 31, 30, 31] :: nat list"
  have "?d ! (m - 1) \<in> set ?d" using \<open>1 \<le> m\<close> \<open>m \<le> 12\<close> by (intro nth_mem) simp
  moreover have "\<forall>d \<in> set ?d. d \<le> 31" by simp
  ultimately show ?thesis by (auto simp: daysIn_def)
qed

subsection \<open>Digits\<close>

definition digitVal :: "char \<Rightarrow> nat" where
  "digitVal c = (of_char c :: nat) - 48"

definition digitChar :: "nat \<Rightarrow> char" where
  "digitChar n = char_of (48 + n)"

lemma digitChar [simp]: "n < 10 \<Longrightarrow> digitVal (digitChar n) = n" "n < 10 \<Longrightarrow> isDigit (digitChar n)"
  by (auto simp: digitVal_def digitChar_def isDigit_def less_eq_char_def)

fun numOf :: "string \<Rightarrow> nat \<Rightarrow> nat" where
  "numOf [] acc = acc"
| "numOf (c # s) acc = numOf s (10 * acc + digitVal c)"

text \<open>Zero-padded decimal numbers of the two widths the layout has.\<close>

definition pad2 :: "nat \<Rightarrow> string" where
  "pad2 n = [digitChar (n div 10 mod 10), digitChar (n mod 10)]"

definition pad4 :: "nat \<Rightarrow> string" where
  "pad4 n = [digitChar (n div 1000 mod 10), digitChar (n div 100 mod 10), digitChar (n div 10 mod 10), digitChar (n mod 10)]"

definition formatStamp :: "civil \<Rightarrow> string" where
  "formatStamp c =
     pad4 (cv_year c) @ pad2 (cv_month c) @ pad2 (cv_day c) @ ''T'' @
     pad2 (cv_hour c) @ pad2 (cv_min c) @ pad2 (cv_sec c) @ ''Z''"

subsection \<open>Parsing\<close>

text \<open>\<open>getnum\<close>: one or two digits, both required when fixed.\<close>

fun getnum :: "bool \<Rightarrow> string \<Rightarrow> (nat \<times> string) option" where
  "getnum fixed (a # b # s) =
     (if \<not> isDigit a then None
      else if isDigit b then Some (10 * digitVal a + digitVal b, s)
      else if fixed then None else Some (digitVal a, b # s))"
| "getnum fixed [a] = (if isDigit a \<and> \<not> fixed then Some (digitVal a, []) else None)"
| "getnum fixed [] = None"

definition parseYear :: "string \<Rightarrow> (nat \<times> string) option" where
  "parseYear s =
     (if length s \<ge> 4 \<and> (\<forall>c \<in> set (take 4 s). isDigit c) then Some (numOf (take 4 s) 0, drop 4 s) else None)"

fun skipChar :: "char \<Rightarrow> string \<Rightarrow> string option" where
  "skipChar c [] = None"
| "skipChar c (x # s) = (if x = c then Some s else None)"

definition parseFraction :: "string \<Rightarrow> nat \<times> string" where
  "parseFraction s =
     (case s of
        p # d # r \<Rightarrow>
          if (p = CHR ''.'' \<or> p = CHR '','') \<and> isDigit d then
            (let ds = takeWhile isDigit (d # r); used = take 9 ds
             in (numOf used 0 * 10 ^ (9 - length used), dropWhile isDigit (d # r)))
          else (0, s)
      | _ \<Rightarrow> (0, s))"

definition parseStamp :: "string \<Rightarrow> civil option" where
  "parseStamp s =
     (case parseYear s of None \<Rightarrow> None | Some (y, s) \<Rightarrow>
      case getnum True s of None \<Rightarrow> None | Some (mo, s) \<Rightarrow>
      if mo = 0 \<or> 12 < mo then None else
      case getnum True s of None \<Rightarrow> None | Some (d, s) \<Rightarrow>
      case skipChar (CHR ''T'') s of None \<Rightarrow> None | Some s \<Rightarrow>
      case getnum False s of None \<Rightarrow> None | Some (h, s) \<Rightarrow>
      if 24 \<le> h then None else
      case getnum True s of None \<Rightarrow> None | Some (mi, s) \<Rightarrow>
      if 60 \<le> mi then None else
      case getnum True s of None \<Rightarrow> None | Some (sec, s) \<Rightarrow>
      if 60 \<le> sec then None else
      (let (ns, s) = parseFraction s in
       case skipChar (CHR ''Z'') s of None \<Rightarrow> None | Some s \<Rightarrow>
       if s \<noteq> [] then None
       else if d < 1 \<or> daysIn mo y < d then None
       else Some \<lparr>cv_year = y, cv_month = mo, cv_day = d, cv_hour = h, cv_min = mi, cv_sec = sec, cv_nsec = ns\<rparr>))"

lemma getnum_pad2: "n < 100 \<Longrightarrow> getnum f (pad2 n @ s) = Some (n, s)"
  by (simp add: pad2_def)

lemma parseYear_pad4: "n \<le> 9999 \<Longrightarrow> parseYear (pad4 n @ s) = Some (n, s)"
proof -
  assume "n \<le> 9999"
  define a b c where "a = n div 10" and "b = a div 10" and "c = b div 10"
  have "c < 10" using \<open>n \<le> 9999\<close> by (simp add: a_def b_def c_def div_mult2_eq [symmetric])
  have "n div 1000 = c" "n div 100 = b" by (simp_all add: a_def b_def c_def div_mult2_eq [symmetric])
  then have "pad4 n = [digitChar c, digitChar (b mod 10), digitChar (a mod 10), digitChar (n mod 10)]"
    using \<open>c < 10\<close> by (simp add: pad4_def a_def)
  moreover have "10 * (10 * (10 * c + b mod 10) + a mod 10) + n mod 10 = n"
    by (simp only: c_def mult_div_mod_eq b_def a_def)
  ultimately show ?thesis using \<open>c < 10\<close> by (simp add: parseYear_def)
qed

lemma parse_format: "wf_civil c \<Longrightarrow> parseStamp (formatStamp c) = Some (c\<lparr>cv_nsec := 0\<rparr>)"
proof -
  assume wf: "wf_civil c"
  have "cv_day c \<le> 31" using wf daysIn_bound [of "cv_month c" "cv_year c"] by (auto simp: wf_civil_def)
  with wf have lt: "cv_month c < 100" "cv_day c < 100" "cv_hour c < 100" "cv_min c < 100" "cv_sec c < 100"
    by (auto simp: wf_civil_def)
  show ?thesis
    unfolding parseStamp_def formatStamp_def using wf lt
    by (simp add: parseYear_pad4 getnum_pad2 wf_civil_def parseFraction_def)
qed

lemma getnum_length: "getnum f s = Some (n, r) \<Longrightarrow> length r < length s \<and> (f \<longrightarrow> length s = length r + 2)"
  by (induction f s rule: getnum.induct) (auto split: if_splits)

lemma skipChar_Some: "skipChar c s = Some r \<longleftrightarrow> s = c # r"
  by (cases s) auto

lemma parseStamp_length: "parseStamp s = Some c \<Longrightarrow> 8 \<le> length s"
  by (auto simp: parseStamp_def parseYear_def skipChar_Some Let_def split: option.splits if_splits prod.splits
      dest!: getnum_length)

end
