(* ===== verification/Signing.thy ===== *)
theory Signing
  imports Apierr Sha256 Gotime
begin

text \<open>
  Request signing (\<open>internal/signing/signing.go\<close>): the canonical string that both sides MAC, the client's
  \<open>Sign\<close>, the parser of the \<open>Authorization\<close> header and the server's \<open>Verify\<close> with its checks in the
  order of the code.

  \<open>url.Values\<close> is an association list from keys to value lists with distinct keys; Go iterates
  over it in an unspecified order, so nothing may depend on the order of the list.
  A slice expression past the end of a string would panic: \<open>sg_Verify\<close> returns \<^const>\<open>None\<close> then,
  and a lemma shows it never does.
\<close>

subsection \<open>Constants, failures and types\<close>

definition Algorithm :: string where "Algorithm = ''DARIYA1-HMAC-SHA256''"
definition TimeFormat :: string where "TimeFormat = ''20060102T150405Z''"
definition DateHeader :: string where "DateHeader = ''X-Dariya-Date''"
definition ContentSHA256Header :: string where "ContentSHA256Header = ''X-Dariya-Content-Sha256''"
definition MaxSkew :: duration where "MaxSkew = 5 * minute"

definition FailMalformedHeader :: string where "FailMalformedHeader = ''malformed_authorization_header''"
definition FailUnknownAlgo :: string where "FailUnknownAlgo = ''unknown_algorithm''"
definition FailMalformedCred :: string where "FailMalformedCred = ''malformed_credential_scope''"
definition FailMissingDate :: string where "FailMissingDate = ''missing_date_header''"
definition FailMalformedDate :: string where "FailMalformedDate = ''malformed_date_header''"
definition FailDateMismatch :: string where "FailDateMismatch = ''date_header_disagrees_with_credential_scope''"
definition FailSkew :: string where "FailSkew = ''timestamp_outside_skew_window''"
definition FailScopeMismatch :: string where
  "FailScopeMismatch = ''credential_scope_is_for_a_different_region_or_service''"
definition FailBodyHash :: string where "FailBodyHash = ''body_hash_does_not_match_body''"
definition FailSignature :: string where "FailSignature = ''signature_does_not_match''"

lemmas fail_defs = FailMalformedHeader_def FailUnknownAlgo_def FailMalformedCred_def FailMissingDate_def
  FailMalformedDate_def FailDateMismatch_def FailSkew_def FailScopeMismatch_def FailBodyHash_def
  FailSignature_def

definition failf :: "string \<Rightarrow> string \<Rightarrow> arg list \<Rightarrow> err" where
  "failf f fmt as = SignErr f fmt as"

definition signErrorString :: "err \<Rightarrow> message option" where
  "signErrorString e = (case e of SignErr f fmt as \<Rightarrow> Some (''signing: %s: %s'', AStr f # AStr fmt # as) | _ \<Rightarrow> None)"

record Credentials =
  cr_AccessKeyID :: string
  cr_Secret :: bytes

record Scope =
  sc_AccessKeyID :: string
  sc_Date :: string
  sc_Region :: string
  sc_Service :: string

definition Scope_String :: "Scope \<Rightarrow> string" where
  "Scope_String s = joinWith ''/'' [sc_AccessKeyID s, sc_Date s, sc_Region s, sc_Service s]"

definition scopeSuffix :: "Scope \<Rightarrow> string" where
  "scopeSuffix s = joinWith ''/'' [sc_Date s, sc_Region s, sc_Service s]"

type_synonym urlValues = "(string \<times> string list) list"

record sgRequest =
  sr_Method :: string
  sr_Path :: string
  sr_Query :: urlValues
  sr_Body :: bytes

record Signature =
  sig_Scope :: Scope
  sig_Signature :: string

subsection \<open>Canonicalisation\<close>

definition upperhex :: string where "upperhex = ''0123456789ABCDEF''"

definition unreserved :: "char \<Rightarrow> bool" where
  "unreserved c \<longleftrightarrow> isUpper c \<or> isLower c \<or> isDigit c \<or> c = CHR ''-'' \<or> c = CHR ''_'' \<or> c = CHR ''.'' \<or> c = CHR ''~''"

fun uriEncode :: "string \<Rightarrow> string" where
  "uriEncode [] = []"
| "uriEncode (c # s) =
     (if unreserved c then c # uriEncode s
      else CHR ''%'' # upperhex ! (of_char c div 16) # upperhex ! (of_char c mod 16) # uriEncode s)"

definition canonicalPath :: "string \<Rightarrow> string" where
  "canonicalPath p = (if p = [] then ''/'' else joinWith ''/'' (map uriEncode (splitOn CHR ''/'' p)))"

definition queryPairs :: "urlValues \<Rightarrow> string list" where
  "queryPairs q =
     concat (map (\<lambda>(key, values). map (\<lambda>v. uriEncode key @ ''='' @ uriEncode v) (sort values)) q)"

definition canonicalQuery :: "urlValues \<Rightarrow> string" where
  "canonicalQuery q = (if q = [] then [] else joinWith ''&'' (sort (queryPairs q)))"

definition HashBody :: "bytes \<Rightarrow> string" where
  "HashBody body = hexEncode (sha256 body)"

definition CanonicalString :: "sgRequest \<Rightarrow> Scope \<Rightarrow> string \<Rightarrow> string" where
  "CanonicalString req scope timestamp =
     Algorithm @ ''\<newline>'' @ toUpper (sr_Method req) @ ''\<newline>'' @ canonicalPath (sr_Path req) @ ''\<newline>'' @
     canonicalQuery (sr_Query req) @ ''\<newline>'' @ timestamp @ ''\<newline>'' @ HashBody (sr_Body req) @ ''\<newline>'' @
     Scope_String scope"

subsection \<open>Signing\<close>

definition mac :: "bytes \<Rightarrow> string \<Rightarrow> string" where
  "mac secret message = hexEncode (hmacSha256 secret message)"

definition sg_Sign :: "sgRequest \<Rightarrow> Credentials \<Rightarrow> string \<Rightarrow> string \<Rightarrow> civil \<Rightarrow> string \<times> string strmap" where
  "sg_Sign req cred region service now =
     (let ts = formatStamp now;
          scope = \<lparr>sc_AccessKeyID = cr_AccessKeyID cred, sc_Date = take 8 ts, sc_Region = region, sc_Service = service\<rparr>;
          sig = mac (cr_Secret cred) (CanonicalString req scope ts)
      in (Algorithm @ '' Credential='' @ Scope_String scope @ '', Signature='' @ sig,
          [(DateHeader, ts), (ContentSHA256Header, HashBody (sr_Body req))]))"

subsection \<open>Verification\<close>

record parseAuth =
  pa_sig :: Signature
  pa_cred :: bool
  pa_seen :: bool

definition emptyScope :: Scope where
  "emptyScope = \<lparr>sc_AccessKeyID = [], sc_Date = [], sc_Region = [], sc_Service = []\<rparr>"

fun parseParams :: "string list \<Rightarrow> parseAuth \<Rightarrow> err + parseAuth" where
  "parseParams [] st = Inr st"
| "parseParams (part # parts) st =
     (case cut CHR ''='' (trimSpace part) of
        None \<Rightarrow> Inl (failf FailMalformedHeader ''parameter %q is not key=value'' [AStr part])
      | Some (key, value) \<Rightarrow>
          if key = ''Credential'' then
            (case splitOn CHR ''/'' value of
               [k, d, r, s] \<Rightarrow>
                 parseParams parts
                   (st\<lparr>pa_sig := (pa_sig st)\<lparr>sig_Scope := \<lparr>sc_AccessKeyID = k, sc_Date = d, sc_Region = r, sc_Service = s\<rparr>\<rparr>,
                       pa_cred := True\<rparr>)
             | _ \<Rightarrow> Inl (failf FailMalformedCred ''expected <key>/<yyyymmdd>/<region>/<service>, got %q'' [AStr value]))
          else if key = ''Signature'' then
            parseParams parts (st\<lparr>pa_sig := (pa_sig st)\<lparr>sig_Signature := value\<rparr>, pa_seen := True\<rparr>)
          else parseParams parts st)"

definition ParseAuthorization :: "string \<Rightarrow> err + Signature" where
  "ParseAuthorization header =
     (case cut CHR '' '' (trimSpace header) of
        None \<Rightarrow> Inl (failf FailMalformedHeader ''expected %q followed by parameters'' [AStr Algorithm])
      | Some (algo, params) \<Rightarrow>
          if algo \<noteq> Algorithm then Inl (failf FailUnknownAlgo ''got %q, want %q'' [AStr algo, AStr Algorithm])
          else
            andThen (parseParams (splitOn CHR '','' params)
                       \<lparr>pa_sig = \<lparr>sig_Scope = emptyScope, sig_Signature = []\<rparr>, pa_cred = False, pa_seen = False\<rparr>)
              (\<lambda>st. if \<not> pa_cred st \<or> \<not> pa_seen st
                    then Inl (failf FailMalformedHeader ''both Credential and Signature are required'' [])
                    else Inr (pa_sig st)))"

record VerifyInput =
  vi_Request :: sgRequest
  vi_Signature :: Signature
  vi_DateHeaderValue :: string
  vi_ContentSHA256Header :: string
  vi_Secret :: bytes
  vi_Region :: string
  vi_Service :: string
  vi_Now :: time

definition sg_Verify :: "VerifyInput \<Rightarrow> err option option" where
  "sg_Verify inp =
     (if vi_DateHeaderValue inp = [] then Some (Some (failf FailMissingDate ''%s is required'' [AStr DateHeader]))
      else case parseStamp (vi_DateHeaderValue inp) of
        None \<Rightarrow> Some (Some (failf FailMalformedDate ''%s=%q is not %s''
                  [AStr DateHeader, AStr (vi_DateHeaderValue inp), AStr TimeFormat]))
      | Some ts \<Rightarrow>
        (case sliceTo (vi_DateHeaderValue inp) 8 of
           None \<Rightarrow> None
         | Some want \<Rightarrow>
           if sc_Date (sig_Scope (vi_Signature inp)) \<noteq> want then
             Some (Some (failf FailDateMismatch ''credential scope date is %s, %s says %s''
               [AStr (sc_Date (sig_Scope (vi_Signature inp))), AStr DateHeader, AStr want]))
           else let skew = vi_Now inp - unixNano ts in
           if skew > MaxSkew \<or> skew < - MaxSkew then
             Some (Some (failf FailSkew ''request is %s away from server time, limit is %s'' [ANum skew, ANum MaxSkew]))
           else if sc_Region (sig_Scope (vi_Signature inp)) \<noteq> vi_Region inp \<or>
                   sc_Service (sig_Scope (vi_Signature inp)) \<noteq> vi_Service inp then
             Some (Some (failf FailScopeMismatch ''signed for %s/%s, this endpoint is %s/%s''
               [AStr (sc_Region (sig_Scope (vi_Signature inp))), AStr (sc_Service (sig_Scope (vi_Signature inp))),
                AStr (vi_Region inp), AStr (vi_Service inp)]))
           else if vi_ContentSHA256Header inp \<noteq> [] \<and> HashBody (sr_Body (vi_Request inp)) \<noteq> vi_ContentSHA256Header inp then
             Some (Some (failf FailBodyHash ''%s says %s, body hashes to %s''
               [AStr ContentSHA256Header, AStr (vi_ContentSHA256Header inp), AStr (HashBody (sr_Body (vi_Request inp)))]))
           else
             let expected = mac (vi_Secret inp)
                   (CanonicalString (vi_Request inp) (sig_Scope (vi_Signature inp)) (vi_DateHeaderValue inp)) in
             if expected \<noteq> sig_Signature (vi_Signature inp) then
               (case sliceTo expected 8 of
                  None \<Rightarrow> None
                | Some p \<Rightarrow> Some (Some (failf FailSignature ''computed %s...'' [AStr p])))
             else Some None))"

subsection \<open>The encoding of a component is injective and stays within its alphabet\<close>

lemma upperhex_props: "distinct upperhex" "length upperhex = 16" "set upperhex \<subseteq> Collect unreserved"
  by (simp_all add: upperhex_def unreserved_def char_class_defs)

lemma upperhex_eq [simp]: "i < 16 \<Longrightarrow> j < 16 \<Longrightarrow> upperhex ! i = upperhex ! j \<longleftrightarrow> i = j"
  using nth_eq_iff_index_eq [OF upperhex_props(1)] by (simp add: upperhex_props(2))

lemma upperhex_unreserved [simp]: "i < 16 \<Longrightarrow> unreserved (upperhex ! i)"
  using upperhex_props by (metis mem_Collect_eq nth_mem subsetD)

lemma percent_reserved [simp]: "\<not> unreserved CHR ''%''"
  by (simp add: unreserved_def char_class_defs)

lemma char_nibbles: "(of_char c :: nat) div 16 = of_char d div 16 \<Longrightarrow> (of_char c :: nat) mod 16 = of_char d mod 16 \<Longrightarrow> c = d"
  by (metis div_mult_mod_eq of_char_eq_iff)

lemma nibble_less [simp]: "(of_char c :: nat) div 16 < 16"
  using byte_less [of c] by simp

lemma uriEncode_inj: "uriEncode s = uriEncode t \<Longrightarrow> s = t"
proof (induction s arbitrary: t)
  case Nil
  then show ?case by (cases t) (auto split: if_splits)
next
  case (Cons c s)
  obtain d t' where t: "t = d # t'" using Cons.prems by (cases t) (auto split: if_splits)
  have "c = d \<and> uriEncode s = uriEncode t'"
    using Cons.prems unfolding t
    by (auto split: if_splits intro: char_nibbles)
  with Cons.IH t show ?case by auto
qed

lemma uriEncode_chars: "c \<in> set (uriEncode s) \<Longrightarrow> unreserved c \<or> c = CHR ''%''"
  by (induction s rule: uriEncode.induct) (auto split: if_splits)

lemma uriEncode_clean [simp]:
  "CHR ''/'' \<notin> set (uriEncode s)" "CHR ''='' \<notin> set (uriEncode s)" "CHR ''&'' \<notin> set (uriEncode s)"
  "CHR ''\<newline>'' \<notin> set (uriEncode s)"
  by (auto dest!: uriEncode_chars simp: unreserved_def char_class_defs)

subsection \<open>What the canonical string determines\<close>

definition normalPath :: "string \<Rightarrow> string" where
  "normalPath p = (if p = [] then ''/'' else p)"

lemma canonicalPath_norm: "canonicalPath p = joinWith ''/'' (map uriEncode (splitOn CHR ''/'' (normalPath p)))"
  by (simp add: canonicalPath_def normalPath_def)

lemma canonicalPath_eq: "canonicalPath p = canonicalPath q \<longleftrightarrow> normalPath p = normalPath q"
proof
  assume "canonicalPath p = canonicalPath q"
  then have "map uriEncode (splitOn CHR ''/'' (normalPath p)) = map uriEncode (splitOn CHR ''/'' (normalPath q))"
    unfolding canonicalPath_norm by (rule joinWith_inj) simp_all
  then have "splitOn CHR ''/'' (normalPath p) = splitOn CHR ''/'' (normalPath q)"
    by (rule map_injective) (simp add: inj_def uriEncode_inj)
  then show "normalPath p = normalPath q" by (metis joinWith_splitOn)
qed (simp add: canonicalPath_norm)

text \<open>A query as a bag of key/value pairs: what is left when the order is forgotten.\<close>

definition flatQuery :: "urlValues \<Rightarrow> (string \<times> string) list" where
  "flatQuery q = concat (map (\<lambda>(key, values). map (Pair key) values) q)"

definition encodePair :: "string \<times> string \<Rightarrow> string" where
  "encodePair p = uriEncode (fst p) @ CHR ''='' # uriEncode (snd p)"

lemma encodePair_inj: "encodePair p = encodePair p' \<Longrightarrow> p = p'"
  using split_prefix_unique [of "uriEncode (fst p)" "CHR ''=''" "uriEncode (snd p)" "uriEncode (fst p')" "uriEncode (snd p')"]
  by (auto simp: encodePair_def prod_eq_iff intro: uriEncode_inj)

lemma mset_queryPairs: "mset (queryPairs q) = image_mset encodePair (mset (flatQuery q))"
  by (induction q) (auto simp: queryPairs_def flatQuery_def encodePair_def image_mset.compositionality comp_def)

lemma queryPairs_clean: "x \<in> set (queryPairs q) \<Longrightarrow> CHR ''&'' \<notin> set x \<and> CHR ''\<newline>'' \<notin> set x \<and> x \<noteq> []"
  by (auto simp: queryPairs_def)

lemma canonicalQuery_join: "canonicalQuery q = joinWith ''&'' (sort (queryPairs q))"
  by (simp add: canonicalQuery_def queryPairs_def)

lemma joinWith_inj_ne:
  assumes "joinWith [c] xs = joinWith [c] ys"
    "\<forall>x \<in> set xs. c \<notin> set x \<and> x \<noteq> []" "\<forall>y \<in> set ys. c \<notin> set y \<and> y \<noteq> []"
  shows "xs = ys"
proof (cases "xs = [] \<or> ys = []")
  case True
  have "zs = []" if "joinWith [c] zs = []" "\<forall>z \<in> set zs. z \<noteq> []" for zs
    using joinWith_eq_Nil_iff [OF that(1)] that(2) by auto
  with True assms show ?thesis by (metis joinWith.simps(1))
next
  case False
  with assms show ?thesis by (intro joinWith_inj [OF assms(1)]) auto
qed

lemma canonicalQuery_eq: "canonicalQuery q = canonicalQuery q' \<longleftrightarrow> mset (flatQuery q) = mset (flatQuery q')"
proof
  assume "canonicalQuery q = canonicalQuery q'"
  then have "sort (queryPairs q) = sort (queryPairs q')"
    unfolding canonicalQuery_join by (rule joinWith_inj_ne) (auto dest: queryPairs_clean)
  then have "mset (queryPairs q) = mset (queryPairs q')" by (metis mset_sort)
  then have "image_mset encodePair (mset (flatQuery q)) = image_mset encodePair (mset (flatQuery q'))"
    by (simp only: mset_queryPairs)
  moreover have "inj (image_mset encodePair)"
    by (rule multiset.inj_map) (rule injI, rule encodePair_inj)
  ultimately show "mset (flatQuery q) = mset (flatQuery q')" by (rule injD [rotated])
next
  assume "mset (flatQuery q) = mset (flatQuery q')"
  then have "mset (queryPairs q) = mset (queryPairs q')" by (simp add: mset_queryPairs)
  then have "sort (queryPairs q) = sort (queryPairs q')" by (metis properties_for_sort mset_sort sorted_sort)
  then show "canonicalQuery q = canonicalQuery q'" by (simp add: canonicalQuery_join)
qed

text \<open>A line of the canonical string: a text without a newline.\<close>

abbreviation line :: "string \<Rightarrow> bool" where "line s \<equiv> CHR ''\<newline>'' \<notin> set s"

lemma line_joinWith: "(\<forall>x \<in> set xs. line x) \<Longrightarrow> line sep \<Longrightarrow> line (joinWith sep xs)"
  using set_joinWith [of sep xs] by auto

lemma line_canonicalPath [simp]: "line (canonicalPath p)"
  unfolding canonicalPath_norm by (rule line_joinWith) auto

lemma line_canonicalQuery [simp]: "line (canonicalQuery q)"
  unfolding canonicalQuery_join by (rule line_joinWith) (auto dest: queryPairs_clean)

lemma hexDigits_chars: "set hexDigits \<subseteq> {c. isDigit c \<or> isLower c}"
  by (simp add: hexDigits_def char_class_defs)

lemma hexEncode_chars: "c \<in> set (hexEncode s) \<Longrightarrow> isDigit c \<or> isLower c"
  using set_hexEncode hexDigits_chars by blast

lemma line_HashBody [simp]: "line (HashBody b)"
  by (auto simp: HashBody_def char_class_defs dest!: hexEncode_chars)

lemma hexEncode_inj: "hexEncode s = hexEncode t \<longleftrightarrow> s = t"
  using hex.enc_eq_iff by simp

lemma line_toUpper [simp]: "line s \<Longrightarrow> line (toUpper s)"
proof -
  have "upperChar c = CHR ''\<newline>'' \<Longrightarrow> c = CHR ''\<newline>''" for c
  proof -
    assume a: "upperChar c = CHR ''\<newline>''"
    have "\<not> isLower c"
    proof
      assume l: "isLower c"
      then have "(97::nat) \<le> of_char c" by (simp add: isLower_def less_eq_char_def)
      moreover have "(of_char (upperChar c) :: nat) = of_char c - 32"
        using l less_imp_diff_less [OF byte_less [of c], of 32] by (simp add: upperChar_def)
      ultimately show False using a by simp
    qed
    then show ?thesis using a by (simp add: upperChar_def)
  qed
  then show "line s \<Longrightarrow> line (toUpper s)" unfolding toUpper_def by (metis image_iff list.set_map)
qed

text \<open>The four fields of a scope as the parser of the header can produce them.\<close>

definition wf_scope :: "Scope \<Rightarrow> bool" where
  "wf_scope sc \<longleftrightarrow>
     (\<forall>f \<in> {sc_AccessKeyID sc, sc_Date sc, sc_Region sc, sc_Service sc}. CHR ''/'' \<notin> set f)"

lemma Scope_String_inj: "wf_scope s \<Longrightarrow> wf_scope t \<Longrightarrow> Scope_String s = Scope_String t \<Longrightarrow> s = t"
  using joinWith_inj [of "CHR ''/''" "[sc_AccessKeyID s, sc_Date s, sc_Region s, sc_Service s]"
      "[sc_AccessKeyID t, sc_Date t, sc_Region t, sc_Service t]"]
  by (simp add: Scope_String_def wf_scope_def)

lemma lines_eq:
  assumes "a @ ''\<newline>'' @ r = a' @ ''\<newline>'' @ r'" "line a" "line a'"
  shows "a = a' \<and> r = r'"
  using split_prefix_unique [of a "CHR ''\<newline>''" r a' r'] assms by simp

lemma CanonicalString_inj:
  assumes "CanonicalString req sc ts = CanonicalString req' sc' ts'"
    "line (sr_Method req)" "line (sr_Method req')" "line ts" "line ts'" "wf_scope sc" "wf_scope sc'"
  shows "toUpper (sr_Method req) = toUpper (sr_Method req') \<and>
    normalPath (sr_Path req) = normalPath (sr_Path req') \<and>
    mset (flatQuery (sr_Query req)) = mset (flatQuery (sr_Query req')) \<and> ts = ts' \<and>
    sha256 (sr_Body req) = sha256 (sr_Body req') \<and> sc = sc'"
proof -
  note e0 = assms(1) [unfolded CanonicalString_def]
  from e0 have e1: "toUpper (sr_Method req) @ ''\<newline>'' @ canonicalPath (sr_Path req) @ ''\<newline>'' @
     canonicalQuery (sr_Query req) @ ''\<newline>'' @ ts @ ''\<newline>'' @ HashBody (sr_Body req) @ ''\<newline>'' @ Scope_String sc =
     toUpper (sr_Method req') @ ''\<newline>'' @ canonicalPath (sr_Path req') @ ''\<newline>'' @
     canonicalQuery (sr_Query req') @ ''\<newline>'' @ ts' @ ''\<newline>'' @ HashBody (sr_Body req') @ ''\<newline>'' @ Scope_String sc'"
    by (simp only: same_append_eq)
  note e2 = lines_eq [OF e1 line_toUpper [OF assms(2)] line_toUpper [OF assms(3)]]
  note e3 = lines_eq [OF conjunct2 [OF e2] line_canonicalPath line_canonicalPath]
  note e4 = lines_eq [OF conjunct2 [OF e3] line_canonicalQuery line_canonicalQuery]
  note e5 = lines_eq [OF conjunct2 [OF e4] assms(4,5)]
  note e6 = lines_eq [OF conjunct2 [OF e5] line_HashBody line_HashBody]
  have "sha256 (sr_Body req) = sha256 (sr_Body req')"
    using conjunct1 [OF e6] by (simp add: HashBody_def hexEncode_inj)
  moreover have "sc = sc'" using Scope_String_inj [OF assms(6,7) conjunct2 [OF e6]] .
  ultimately show ?thesis
    using conjunct1 [OF e2] conjunct1 [OF e3] conjunct1 [OF e4] conjunct1 [OF e5]
    by (simp add: canonicalPath_eq canonicalQuery_eq)
qed

lemma CanonicalString_cong:
  assumes "toUpper (sr_Method req) = toUpper (sr_Method req')"
    "normalPath (sr_Path req) = normalPath (sr_Path req')"
    "mset (flatQuery (sr_Query req)) = mset (flatQuery (sr_Query req'))"
    "sha256 (sr_Body req) = sha256 (sr_Body req')"
  shows "CanonicalString req sc ts = CanonicalString req' sc ts"
  using assms by (simp add: CanonicalString_def HashBody_def flip: canonicalPath_eq canonicalQuery_eq)

subsection \<open>Verify\<close>

lemma length_mac [simp]: "length (mac k m) = 64"
  by (simp add: mac_def)

lemma sg_Verify_no_panic: "sg_Verify inp \<noteq> None"
  using parseStamp_length by (auto simp: sg_Verify_def sliceTo_def Let_def split: option.splits)

lemma sg_Verify_ok:
  "sg_Verify inp = Some None \<longleftrightarrow>
     (\<exists>ts. parseStamp (vi_DateHeaderValue inp) = Some ts \<and>
        sc_Date (sig_Scope (vi_Signature inp)) = take 8 (vi_DateHeaderValue inp) \<and>
        \<bar>vi_Now inp - unixNano ts\<bar> \<le> MaxSkew \<and>
        sc_Region (sig_Scope (vi_Signature inp)) = vi_Region inp \<and>
        sc_Service (sig_Scope (vi_Signature inp)) = vi_Service inp \<and>
        vi_ContentSHA256Header inp \<in> {[], HashBody (sr_Body (vi_Request inp))} \<and>
        sig_Signature (vi_Signature inp) = mac (vi_Secret inp)
          (CanonicalString (vi_Request inp) (sig_Scope (vi_Signature inp)) (vi_DateHeaderValue inp)))"
proof (cases "parseStamp (vi_DateHeaderValue inp)")
  case None
  then show ?thesis by (simp add: sg_Verify_def)
next
  case (Some ts)
  then have "8 \<le> length (vi_DateHeaderValue inp)" by (rule parseStamp_length)
  then have "vi_DateHeaderValue inp \<noteq> []" "sliceTo (vi_DateHeaderValue inp) 8 = Some (take 8 (vi_DateHeaderValue inp))"
    by (auto simp: sliceTo_def)
  moreover have "\<bar>d\<bar> \<le> MaxSkew \<longleftrightarrow> \<not> (d > MaxSkew \<or> d < - MaxSkew)" for d :: int by linarith
  ultimately show ?thesis using Some
    by (auto simp: sg_Verify_def Let_def split: option.splits)
qed

subsection \<open>A signed request verifies\<close>

text \<open>Fields that survive the header: no separator of the credential, no comma, no white space.\<close>

definition plainField :: "string \<Rightarrow> bool" where
  "plainField f \<longleftrightarrow> (\<forall>c \<in> set f. c \<noteq> CHR ''/'' \<and> c \<noteq> CHR '','' \<and> \<not> isSpace c)"

lemma trimSpace_id: "s \<noteq> [] \<Longrightarrow> \<not> isSpace (hd s) \<Longrightarrow> \<not> isSpace (last s) \<Longrightarrow> trimSpace s = s"
proof -
  assume a: "s \<noteq> []" "\<not> isSpace (hd s)" "\<not> isSpace (last s)"
  then have "dropWhile isSpace s = s" by (cases s) auto
  moreover have "dropWhile isSpace (rev s) = rev s" using a by (cases "rev s") (auto simp: hd_rev [symmetric])
  ultimately show ?thesis by (simp add: trimSpace_def)
qed

lemma trimSpace_Cons_space: "trimSpace (CHR '' '' # s) = trimSpace s"
  by (simp add: trimSpace_def isSpace_def)

lemma hexEncode_last: "s \<noteq> [] \<Longrightarrow> \<not> isSpace (last (hexEncode s)) \<and> CHR '','' \<notin> set (hexEncode s) \<and> hexEncode s \<noteq> []"
proof -
  assume "s \<noteq> []"
  then have ne: "hexEncode s \<noteq> []" by (cases s) simp_all
  have "isDigit c \<or> isLower c \<Longrightarrow> \<not> isSpace c \<and> c \<noteq> CHR '',''" for c
    by (auto simp: char_class_defs less_eq_char_def)
  then show ?thesis using hexEncode_chars last_in_set [OF ne] ne by blast
qed

lemma ParseAuthorization_rendered:
  assumes "plainField k" "plainField d" "plainField r" "plainField sv" "sv \<noteq> []" "m \<noteq> []"
  shows "ParseAuthorization (Algorithm @ '' Credential='' @
      Scope_String \<lparr>sc_AccessKeyID = k, sc_Date = d, sc_Region = r, sc_Service = sv\<rparr> @ '', Signature='' @ hexEncode m)
    = Inr \<lparr>sig_Scope = \<lparr>sc_AccessKeyID = k, sc_Date = d, sc_Region = r, sc_Service = sv\<rparr>, sig_Signature = hexEncode m\<rparr>"
proof -
  let ?sc = "\<lparr>sc_AccessKeyID = k, sc_Date = d, sc_Region = r, sc_Service = sv\<rparr>"
  let ?v = "Scope_String ?sc"
  note hx = hexEncode_last [OF assms(6)]
  define cred where "cred = ''Credential='' @ ?v"
  define sg where "sg = ''Signature='' @ hexEncode m"
  have pf: "CHR '','' \<notin> set f \<and> CHR ''/'' \<notin> set f" if "plainField f" for f using that by (auto simp: plainField_def)
  have alg: "CHR '' '' \<notin> set Algorithm" by (simp add: Algorithm_def)
  let ?h = "Algorithm @ CHR '' '' # cred @ CHR '','' # CHR '' '' # sg"
  have "trimSpace ?h = ?h"
    by (rule trimSpace_id) (use hx in \<open>simp_all add: Algorithm_def isSpace_def sg_def\<close>)
  then have c1: "cut CHR '' '' (trimSpace ?h) = Some (Algorithm, cred @ CHR '','' # CHR '' '' # sg)"
    using cut_append [OF alg] by simp
  have "CHR '','' \<notin> set ?v"
    using set_joinWith [of "''/''" "[k, d, r, sv]"] assms(1-4) pf by (auto simp: Scope_String_def)
  then have c2: "splitOn CHR '','' (cred @ CHR '','' # CHR '' '' # sg) = [cred, CHR '' '' # sg]"
    using hx by (simp add: cred_def sg_def)
  have "last ?v = last sv" using assms(5) by (simp add: Scope_String_def)
  then have "\<not> isSpace (last cred)"
    using assms(4,5) by (simp add: cred_def Scope_String_def plainField_def)
  then have "trimSpace cred = cred" by (intro trimSpace_id) (simp_all add: cred_def isSpace_def)
  then have c3: "cut CHR ''='' (trimSpace cred) = Some (''Credential'', ?v)"
    using cut_append [of "CHR ''=''" "''Credential''" ?v] by (simp add: cred_def)
  have "trimSpace (CHR '' '' # sg) = sg"
    unfolding trimSpace_Cons_space by (rule trimSpace_id) (use hx in \<open>simp_all add: sg_def isSpace_def\<close>)
  then have c4: "cut CHR ''='' (trimSpace (CHR '' '' # sg)) = Some (''Signature'', hexEncode m)"
    using cut_append [of "CHR ''=''" "''Signature''" "hexEncode m"] by (simp add: sg_def)
  have c5: "splitOn CHR ''/'' ?v = [k, d, r, sv]"
    using splitOn_joinWith [of "[k, d, r, sv]" "CHR ''/''"] assms(1-4) pf by (simp add: Scope_String_def)
  have "ParseAuthorization ?h = Inr \<lparr>sig_Scope = ?sc, sig_Signature = hexEncode m\<rparr>"
    unfolding ParseAuthorization_def c1 by (simp add: c2 c3 c4 c5)
  then show ?thesis by (simp add: cred_def sg_def)
qed

lemma formatStamp_chars: "wf_civil c \<Longrightarrow> plainField (take 8 (formatStamp c)) \<and> line (formatStamp c)"
proof -
  assume "wf_civil c"
  have d: "isDigit (digitChar n)" if "n < 10" for n using that by simp
  have nd: "isDigit x \<Longrightarrow> x \<noteq> CHR ''/'' \<and> x \<noteq> CHR '','' \<and> \<not> isSpace x \<and> x \<noteq> CHR ''\<newline>''" for x
    by (auto simp: char_class_defs less_eq_char_def)
  have "\<forall>x \<in> set (pad4 n) \<union> set (pad2 n). isDigit x" for n by (simp add: pad4_def pad2_def d)
  with nd have "\<forall>x \<in> set (pad4 n) \<union> set (pad2 n). x \<noteq> CHR ''/'' \<and> x \<noteq> CHR '','' \<and> \<not> isSpace x \<and> x \<noteq> CHR ''\<newline>''" for n
    by blast
  moreover have "take 8 (formatStamp c) = pad4 (cv_year c) @ pad2 (cv_month c) @ pad2 (cv_day c)"
    by (simp add: formatStamp_def pad4_def pad2_def)
  ultimately show ?thesis by (auto simp: plainField_def formatStamp_def)
qed

lemma signed_request_verifies:
  assumes "wf_civil now" "plainField (cr_AccessKeyID cred)" "plainField region" "plainField service" "service \<noteq> []"
    "\<bar>serverNow - unixNano (now\<lparr>cv_nsec := 0\<rparr>)\<bar> \<le> MaxSkew"
    "sr_Method req' = sr_Method req" "sr_Path req' = sr_Path req" "sr_Body req' = sr_Body req"
    "mset (flatQuery (sr_Query req')) = mset (flatQuery (sr_Query req))"
    "sg_Sign req cred region service now = (auth, headers)"
  shows "\<exists>sig date hash. ParseAuthorization auth = Inr sig \<and>
    sc_AccessKeyID (sig_Scope sig) = cr_AccessKeyID cred \<and>
    lookup headers DateHeader = Some date \<and> lookup headers ContentSHA256Header = Some hash \<and>
    sg_Verify \<lparr>vi_Request = req', vi_Signature = sig, vi_DateHeaderValue = date, vi_ContentSHA256Header = hash,
      vi_Secret = cr_Secret cred, vi_Region = region, vi_Service = service, vi_Now = serverNow\<rparr> = Some None"
proof -
  let ?ts = "formatStamp now"
  let ?sc = "\<lparr>sc_AccessKeyID = cr_AccessKeyID cred, sc_Date = take 8 ?ts, sc_Region = region, sc_Service = service\<rparr>"
  let ?m = "hmacSha256 (cr_Secret cred) (CanonicalString req ?sc ?ts)"
  have "?m \<noteq> []" using length_hmac [of "cr_Secret cred" "CanonicalString req ?sc ?ts"] by (metis list.size(3) zero_neq_numeral)
  then have p: "ParseAuthorization auth = Inr \<lparr>sig_Scope = ?sc, sig_Signature = hexEncode ?m\<rparr>"
    using ParseAuthorization_rendered [OF assms(2) _ assms(3,4,5)] assms(11) formatStamp_chars [OF assms(1)]
    by (auto simp: sg_Sign_def Let_def mac_def)
  have h: "lookup headers DateHeader = Some ?ts" "lookup headers ContentSHA256Header = Some (HashBody (sr_Body req))"
    using assms(11) by (auto simp: sg_Sign_def Let_def DateHeader_def ContentSHA256Header_def)
  have "CanonicalString req' ?sc ?ts = CanonicalString req ?sc ?ts"
    by (rule CanonicalString_cong) (simp_all add: assms(7-10))
  then show ?thesis
    using p h parse_format [OF assms(1)] assms(6,9) by (simp add: sg_Verify_ok mac_def)
qed

subsection \<open>Properties\<close>

text \<open>C31: the canonical string determines the request: two signing inputs give the same string exactly when they
  agree on the method (up to case), the path (the empty one being the root), the bag of query
  pairs, the timestamp, the hash of the body and the whole scope. No byte of one field can
  be moved into another, and the order of the query is all that is forgotten.\<close>
theorem canonical_string_injective:
  assumes "CHR ''\<newline>'' \<notin> set (sr_Method req)" "CHR ''\<newline>'' \<notin> set (sr_Method req')"
    "CHR ''\<newline>'' \<notin> set ts" "CHR ''\<newline>'' \<notin> set ts'" "wf_scope sc" "wf_scope sc'"
  shows "CanonicalString req sc ts = CanonicalString req' sc' ts' \<longleftrightarrow>
    toUpper (sr_Method req) = toUpper (sr_Method req') \<and>
    normalPath (sr_Path req) = normalPath (sr_Path req') \<and>
    mset (flatQuery (sr_Query req)) = mset (flatQuery (sr_Query req')) \<and> ts = ts' \<and>
    sha256 (sr_Body req) = sha256 (sr_Body req') \<and> sc = sc'"
  using CanonicalString_inj [OF _ assms] CanonicalString_cong [of req req'] by blast

definition sampleRequest :: sgRequest where
  "sampleRequest = \<lparr>sr_Method = ''POST'', sr_Path = ''/v1/accounts'', sr_Query = [(''b'', [''2'', ''1'']), (''a'', [''x''])],
     sr_Body = ''{}''\<rparr>"

definition sampleScope :: Scope where
  "sampleScope = \<lparr>sc_AccessKeyID = ''DKIAEXAMPLE'', sc_Date = ''20250102'', sc_Region = ''hind-1'', sc_Service = ''control''\<rparr>"

lemma canonical_string_injective_witness:
  "CanonicalString sampleRequest sampleScope ''20250102T030405Z'' \<noteq>
   CanonicalString (sampleRequest\<lparr>sr_Path := ''/v1/keys''\<rparr>) sampleScope ''20250102T030405Z''"
  using canonical_string_injective [of sampleRequest "sampleRequest\<lparr>sr_Path := ''/v1/keys''\<rparr>"
      "''20250102T030405Z''" "''20250102T030405Z''" sampleScope sampleScope]
  by (simp add: sampleRequest_def sampleScope_def wf_scope_def normalPath_def)

text \<open>What a client signs, the server accepts: the header that \<open>Sign\<close> returns parses back to the signed
  scope and signature, and \<open>Verify\<close> accepts them for the same request (the query in any
  order), while the server's clock is within five minutes of the signed second.\<close>
theorem sign_verify_roundtrip:
  assumes "wf_civil now" "plainField (cr_AccessKeyID cred)" "plainField region" "plainField service" "service \<noteq> []"
    "\<bar>serverNow - unixNano (now\<lparr>cv_nsec := 0\<rparr>)\<bar> \<le> MaxSkew"
    "sr_Method req' = sr_Method req" "sr_Path req' = sr_Path req" "sr_Body req' = sr_Body req"
    "mset (flatQuery (sr_Query req')) = mset (flatQuery (sr_Query req))"
    "sg_Sign req cred region service now = (auth, headers)"
  shows "\<exists>sig date hash. ParseAuthorization auth = Inr sig \<and>
    sc_AccessKeyID (sig_Scope sig) = cr_AccessKeyID cred \<and>
    lookup headers DateHeader = Some date \<and> lookup headers ContentSHA256Header = Some hash \<and>
    sg_Verify \<lparr>vi_Request = req', vi_Signature = sig, vi_DateHeaderValue = date, vi_ContentSHA256Header = hash,
      vi_Secret = cr_Secret cred, vi_Region = region, vi_Service = service, vi_Now = serverNow\<rparr> = Some None"
  using signed_request_verifies [OF assms] .

lemma sign_verify_roundtrip_witness:
  "\<exists>auth headers sig date hash.
    sg_Sign sampleRequest \<lparr>cr_AccessKeyID = ''DKIAEXAMPLE'', cr_Secret = ''s3cret''\<rparr> ''hind-1'' ''control''
      \<lparr>cv_year = 2025, cv_month = 1, cv_day = 2, cv_hour = 3, cv_min = 4, cv_sec = 5, cv_nsec = 6\<rparr> = (auth, headers) \<and>
    ParseAuthorization auth = Inr sig \<and>
    sg_Verify \<lparr>vi_Request = sampleRequest\<lparr>sr_Query := [(''a'', [''x'']), (''b'', [''1'', ''2''])]\<rparr>, vi_Signature = sig,
      vi_DateHeaderValue = date, vi_ContentSHA256Header = hash, vi_Secret = ''s3cret'', vi_Region = ''hind-1'',
      vi_Service = ''control'',
      vi_Now = unixNano \<lparr>cv_year = 2025, cv_month = 1, cv_day = 2, cv_hour = 3, cv_min = 4, cv_sec = 5, cv_nsec = 0\<rparr>\<rparr> = Some None"
proof -
  let ?now = "\<lparr>cv_year = 2025, cv_month = 1, cv_day = 2, cv_hour = 3, cv_min = 4, cv_sec = 5, cv_nsec = 6\<rparr>"
  let ?cred = "\<lparr>cr_AccessKeyID = ''DKIAEXAMPLE'', cr_Secret = ''s3cret''\<rparr>"
  let ?req = "sampleRequest\<lparr>sr_Query := [(''a'', [''x'']), (''b'', [''1'', ''2''])]\<rparr>"
  obtain auth headers where s: "sg_Sign sampleRequest ?cred ''hind-1'' ''control'' ?now = (auth, headers)" by fastforce
  show ?thesis
    using sign_verify_roundtrip [OF _ _ _ _ _ _ _ _ _ _ s, of "unixNano (?now\<lparr>cv_nsec := 0\<rparr>)" ?req] s
    by (auto simp: wf_civil_def daysIn_def plainField_def char_class_defs MaxSkew_def sampleRequest_def flatQuery_def)
qed

text \<open>C14: \<open>Verify\<close> never panics, and accepts exactly the requests whose date header parses, agrees with the
  credential scope and is within the skew on either side, whose scope is this endpoint's region
  and service, whose stated body hash (if any) is the body's, and whose signature is the MAC
  of the canonical string under the key's secret. There is no other way in.\<close>
theorem verify_accepts_exactly:
  "sg_Verify inp \<noteq> None \<and>
   (sg_Verify inp = Some None \<longleftrightarrow>
     (\<exists>ts. parseStamp (vi_DateHeaderValue inp) = Some ts \<and>
        sc_Date (sig_Scope (vi_Signature inp)) = take 8 (vi_DateHeaderValue inp) \<and>
        \<bar>vi_Now inp - unixNano ts\<bar> \<le> MaxSkew \<and>
        sc_Region (sig_Scope (vi_Signature inp)) = vi_Region inp \<and>
        sc_Service (sig_Scope (vi_Signature inp)) = vi_Service inp \<and>
        vi_ContentSHA256Header inp \<in> {[], HashBody (sr_Body (vi_Request inp))} \<and>
        sig_Signature (vi_Signature inp) = mac (vi_Secret inp)
          (CanonicalString (vi_Request inp) (sig_Scope (vi_Signature inp)) (vi_DateHeaderValue inp))))"
  using sg_Verify_no_panic sg_Verify_ok by blast

end
