(* ===== verification/Httpx.thy ===== *)
theory Httpx
  imports Capability Signing
begin

text \<open>
  The HTTP plumbing (\<open>internal/httpx/httpx.go\<close>): requests with their context, the response writer, the two
  response renderers, and the middlewares that every request passes.

  A handler runs in a state that pairs the response writer with the rest of the program's state, and
  either returns or panics. The writer keeps what \<open>net/http\<close> keeps: the header map that a
  handler may still change, and the status and headers that the first \<open>WriteHeader\<close> put on
  the wire. The mutable holder through which the access log learns the caller
  travels with the writer, since both belong to one request. Header names are in their
  canonical spelling.
\<close>

subsection \<open>Requests\<close>

text \<open>\<open>hr_BodyFails\<close> tells whether the connection breaks while the body is read.\<close>

type_synonym headers = "(string \<times> string list) list"

record Principal =
  pr_AccountId :: string
  pr_PrincipalArn :: string

record ctx =
  cx_RequestID :: string
  cx_Principal :: "Principal option"
  cx_Capability :: "SignedCapability option"
  cx_hasLogFields :: bool

record request =
  hr_Method :: string
  hr_Path :: string
  hr_Query :: urlValues
  hr_Header :: headers
  hr_Body :: bytes
  hr_BodyFails :: bool
  hr_Ctx :: ctx

definition emptyCtx :: ctx where
  "emptyCtx = \<lparr>cx_RequestID = [], cx_Principal = None, cx_Capability = None, cx_hasLogFields = False\<rparr>"

definition RequestIDHeader :: string where "RequestIDHeader = ''X-Dariya-Request-Id''"
definition CapabilityHeader :: string where "CapabilityHeader = ''X-Dariya-Capability''"

definition header_Get :: "headers \<Rightarrow> string \<Rightarrow> string" where
  "header_Get h k = (case lookup h k of Some (v # _) \<Rightarrow> v | _ \<Rightarrow> [])"

definition header_Set :: "string \<Rightarrow> string \<Rightarrow> headers \<Rightarrow> headers" where
  "header_Set k v h = AList.update k [v] h"

definition header_Add :: "string \<Rightarrow> string \<Rightarrow> headers \<Rightarrow> headers" where
  "header_Add k v h = AList.update k (getOr [] h k @ [v]) h"

definition header_Del :: "string \<Rightarrow> headers \<Rightarrow> headers" where
  "header_Del k h = AList.delete k h"

lemma header_Get_Set [simp]: "header_Get (header_Set k v h) k' = (if k' = k then v else header_Get h k')"
  by (simp add: header_Get_def header_Set_def)

lemma header_Get_Del [simp]: "header_Get (header_Del k h) k' = (if k' = k then [] else header_Get h k')"
  by (simp add: header_Get_def header_Del_def)

lemma lookup_header_Set [simp]: "lookup (header_Set k v h) k' = (if k' = k then Some [v] else lookup h k')"
  by (simp add: header_Set_def)

lemma lookup_header_Del [simp]: "lookup (header_Del k h) k' = (if k' = k then None else lookup h k')"
  by (simp add: header_Del_def)

text \<open>\<open>signing.RequestFromHTTP\<close>, with the body that was read.\<close>

definition RequestFromHTTP :: "request \<Rightarrow> bytes \<Rightarrow> sgRequest" where
  "RequestFromHTTP r body = \<lparr>sr_Method = hr_Method r, sr_Path = hr_Path r, sr_Query = hr_Query r, sr_Body = body\<rparr>"

definition RequestID :: "request \<Rightarrow> string" where
  "RequestID r = cx_RequestID (hr_Ctx r)"

definition withRequestID :: "string \<Rightarrow> request \<Rightarrow> request" where
  "withRequestID i r = r\<lparr>hr_Ctx := (hr_Ctx r)\<lparr>cx_RequestID := i\<rparr>\<rparr>"

definition PrincipalFrom :: "request \<Rightarrow> Principal option" where
  "PrincipalFrom r = cx_Principal (hr_Ctx r)"

definition WithCapability :: "SignedCapability \<Rightarrow> request \<Rightarrow> request" where
  "WithCapability t r = r\<lparr>hr_Ctx := (hr_Ctx r)\<lparr>cx_Capability := Some t\<rparr>\<rparr>"

definition CapabilityFrom :: "request \<Rightarrow> SignedCapability option" where
  "CapabilityFrom r = cx_Capability (hr_Ctx r)"

subsection \<open>The response writer\<close>

text \<open>A body is written in pieces: an error in the contract shape, a message of the services, or bytes.\<close>

datatype 'm body = ErrBody wire_error | Msg 'm | Bytes bytes

record logFields =
  lf_accountID :: string
  lf_principalARN :: string

record accessLine =
  al_request_id :: string
  al_method :: string
  al_path :: string
  al_status :: nat
  al_caller :: "(string \<times> string) option"

record 'm rw =
  rw_header :: headers
  rw_status :: nat
  rw_sent :: headers
  rw_body :: "'m body list"
  rw_logFields :: logFields
  rw_access :: "accessLine list"

definition emptyRw :: "'m rw" where
  "emptyRw = \<lparr>rw_header = [], rw_status = 0, rw_sent = [], rw_body = [],
     rw_logFields = \<lparr>lf_accountID = [], lf_principalARN = []\<rparr>, rw_access = []\<rparr>"

definition WriteHeader :: "nat \<Rightarrow> 'm rw \<Rightarrow> 'm rw" where
  "WriteHeader code w = (if rw_status w = 0 then w\<lparr>rw_status := code, rw_sent := rw_header w\<rparr> else w)"

definition Write :: "'m body \<Rightarrow> 'm rw \<Rightarrow> 'm rw" where
  "Write b w = (let w' = WriteHeader 200 w in w'\<lparr>rw_body := rw_body w' @ [b]\<rparr>)"

datatype outcome = Done | Panicked string

type_synonym ('m, 's) handler = "request \<Rightarrow> ('m rw \<times> 's, outcome) state"
type_synonym ('m, 's) middleware = "('m, 's) handler \<Rightarrow> ('m, 's) handler"

text \<open>Steps on the writer, and steps on the rest of the state.\<close>

definition onRw :: "('m rw \<Rightarrow> 'm rw) \<Rightarrow> ('m rw \<times> 's, unit) state" where
  "onRw f = State (\<lambda>(w, s). ((), (f w, s)))"

definition inState :: "('s, 'a) state \<Rightarrow> ('m rw \<times> 's, 'a) state" where
  "inState m = State (\<lambda>(w, s). let (a, s') = run m s in (a, (w, s')))"

definition setHeader :: "string \<Rightarrow> string \<Rightarrow> ('m rw \<times> 's, unit) state" where
  "setHeader k v = onRw (\<lambda>w. w\<lparr>rw_header := header_Set k v (rw_header w)\<rparr>)"

lemma run_onRw [simp]: "run_state (onRw f) (w, s) = ((), (f w, s))"
  by (simp add: onRw_def)

lemma run_inState [simp]: "run_state (inState m) (w, s) = (fst (run m s), (w, snd (run m s)))"
  by (simp add: inState_def split: prod.split)

lemma run_setHeader [simp]:
  "run_state (setHeader k v) (w, s) = ((), (w\<lparr>rw_header := header_Set k v (rw_header w)\<rparr>, s))"
  by (simp add: setHeader_def)

lemma WriteHeader_simps [simp]:
  "rw_header (WriteHeader c w) = rw_header w" "rw_body (WriteHeader c w) = rw_body w"
  "rw_access (WriteHeader c w) = rw_access w" "rw_logFields (WriteHeader c w) = rw_logFields w"
  "rw_status (WriteHeader c w) = (if rw_status w = 0 then c else rw_status w)"
  by (simp_all add: WriteHeader_def)

definition jsonType :: string where "jsonType = ''application/json''"

definition WriteJSON :: "request \<Rightarrow> nat \<Rightarrow> 'm option \<Rightarrow> ('m rw \<times> 's, outcome) state" where
  "WriteJSON r status body = do {
     setHeader ''Content-Type'' jsonType;
     onRw (WriteHeader status);
     case body of
       None \<Rightarrow> ret Done
     | Some m \<Rightarrow> do { onRw (Write (Msg m)); ret Done }
   }"

definition errorBody :: "request \<Rightarrow> err \<Rightarrow> bool \<Rightarrow> wire_error" where
  "errorBody r e dev =
     (let a = From e in
      \<lparr>we_code = eCode a, we_message = eMessage a, we_request_id = RequestID r,
       we_details = (if dev then eDetails a else [])\<rparr>)"

definition WriteError :: "request \<Rightarrow> err \<Rightarrow> bool \<Rightarrow> ('m rw \<times> 's, outcome) state" where
  "WriteError r e dev = do {
     setHeader ''Content-Type'' jsonType;
     onRw (WriteHeader (HTTPStatus (From e)));
     onRw (Write (ErrBody (errorBody r e dev)));
     ret Done
   }"

subsection \<open>Middleware\<close>

definition Chain :: "('m, 's) handler \<Rightarrow> ('m, 's) middleware list \<Rightarrow> ('m, 's) handler" where
  "Chain h mw = foldr (\<lambda>m h. m h) mw h"

lemma Chain_simps [simp]: "Chain h [] = h" "Chain h (m # ms) = m (Chain h ms)"
  by (simp_all add: Chain_def)

text \<open>\<open>rand n\<close> reads \<open>n\<close> bytes from the system's generator, which may fail.\<close>

definition NewRequestID :: "(nat \<Rightarrow> ('s, bytes option) state) \<Rightarrow> ('s, string) state" where
  "NewRequestID rand = do {
     b \<leftarrow> rand 16;
     case b of
       None \<Rightarrow> ret ''req-entropy-failure''
     | Some bs \<Rightarrow> ret (hexEncode bs)
   }"

definition WithRequestID :: "(nat \<Rightarrow> ('s, bytes option) state) \<Rightarrow> ('m, 's) middleware" where
  "WithRequestID rand next r = do {
     i \<leftarrow> inState (NewRequestID rand);
     setHeader RequestIDHeader i;
     next (withRequestID i r)
   }"

definition isRequestID :: "string \<Rightarrow> bool" where
  "isRequestID s = (if length s \<noteq> 32 then False else hexDecode s \<noteq> None)"

definition AdoptRequestID :: "(nat \<Rightarrow> ('s, bytes option) state) \<Rightarrow> ('m, 's) middleware" where
  "AdoptRequestID rand next r = do {
     let i = header_Get (hr_Header r) RequestIDHeader;
     i \<leftarrow> (if \<not> isRequestID i then inState (NewRequestID rand) else ret i);
     setHeader RequestIDHeader i;
     next (withRequestID i r)
   }"

definition Recover :: "bool \<Rightarrow> ('m, 's) middleware" where
  "Recover dev next r = do {
     res \<leftarrow> next r;
     case res of
       Done \<Rightarrow> ret Done
     | Panicked v \<Rightarrow> WriteError r (Internal None ''internal failure'' []) dev
   }"

text \<open>\<open>WithPrincipal\<close> also fills the access log's holder, where the request carries one.\<close>

definition WithPrincipal :: "Principal \<Rightarrow> request \<Rightarrow> ('m rw \<times> 's, request) state" where
  "WithPrincipal p r = do {
     onRw (\<lambda>w. if cx_hasLogFields (hr_Ctx r)
       then w\<lparr>rw_logFields := \<lparr>lf_accountID = pr_AccountId p, lf_principalARN = pr_PrincipalArn p\<rparr>\<rparr> else w);
     ret (r\<lparr>hr_Ctx := (hr_Ctx r)\<lparr>cx_Principal := Some p\<rparr>\<rparr>)
   }"

text \<open>A panic passes through the access log unlogged, since nothing is deferred. The status logged is the one that was sent; the
  recorder of the code keeps the last one that a handler asked for, which differs only for a handler that sets the status twice. The
  number of bytes and the duration are left out.\<close>

definition AccessLog :: "('m, 's) middleware" where
  "AccessLog next r = do {
     onRw (\<lambda>w. w\<lparr>rw_logFields := \<lparr>lf_accountID = [], lf_principalARN = []\<rparr>\<rparr>);
     let r = r\<lparr>hr_Ctx := (hr_Ctx r)\<lparr>cx_hasLogFields := True\<rparr>\<rparr>;
     res \<leftarrow> next r;
     case res of
       Panicked v \<Rightarrow> ret (Panicked v)
     | Done \<Rightarrow> do {
         onRw (\<lambda>w. w\<lparr>rw_access := rw_access w @ [\<lparr>al_request_id = RequestID r, al_method = hr_Method r,
           al_path = hr_Path r, al_status = rw_status w,
           al_caller = (if lf_accountID (rw_logFields w) \<noteq> []
             then Some (lf_accountID (rw_logFields w), lf_principalARN (rw_logFields w)) else None)\<rparr>]\<rparr>);
         ret Done
       }
   }"

subsection \<open>What the renderers and the outer chain guarantee\<close>

lemma Write_simps [simp]:
  "rw_body (Write b w) = rw_body w @ [b]" "rw_access (Write b w) = rw_access w" "rw_header (Write b w) = rw_header w"
  "rw_status (Write b w) = (if rw_status w = 0 then 200 else rw_status w)" "rw_logFields (Write b w) = rw_logFields w"
  by (simp_all add: Write_def Let_def)

lemma HTTPStatus_pos [simp]: "HTTPStatus e \<noteq> 0" "0 < HTTPStatus e"
  using HTTPStatus_error [of e] by simp_all

lemma run_WriteJSON:
  "run (WriteJSON r status body) (w, s) =
     (Done, (let w' = WriteHeader status (w\<lparr>rw_header := header_Set ''Content-Type'' jsonType (rw_header w)\<rparr>) in
             case body of None \<Rightarrow> w' | Some m \<Rightarrow> Write (Msg m) w', s))"
  by (simp add: WriteJSON_def Let_def split: option.split)

lemma run_WriteError:
  "run (WriteError r e dev) (w, s) =
     (Done, (Write (ErrBody (errorBody r e dev)) (WriteHeader (HTTPStatus (From e))
        (w\<lparr>rw_header := header_Set ''Content-Type'' jsonType (rw_header w)\<rparr>)), s))"
  by (simp add: WriteError_def)

definition edgeChain :: "(nat \<Rightarrow> ('s, bytes option) state) \<Rightarrow> bool \<Rightarrow> ('m, 's) handler \<Rightarrow> ('m, 's) handler" where
  "edgeChain rand dev h = Chain h [WithRequestID rand, Recover dev, AccessLog]"

text \<open>The request as the handler inside the chain sees it.\<close>

definition insideEdge :: "string \<Rightarrow> request \<Rightarrow> request" where
  "insideEdge i r = (withRequestID i r)\<lparr>hr_Ctx := (hr_Ctx (withRequestID i r))\<lparr>cx_hasLogFields := True\<rparr>\<rparr>"

lemma run_edgeChain:
  fixes h :: "('m, 's) handler"
  assumes "run (NewRequestID rand) s = (i, s1)"
    "run (h (insideEdge i r)) (w\<lparr>rw_header := header_Set RequestIDHeader i (rw_header w),
        rw_logFields := \<lparr>lf_accountID = [], lf_principalARN = []\<rparr>\<rparr>, s1) = (out, (w2, s2))"
  shows "run (edgeChain rand dev h r) (w, s) =
    (case out of
       Done \<Rightarrow> (Done, (w2\<lparr>rw_access := rw_access w2 @ [\<lparr>al_request_id = i, al_method = hr_Method r,
           al_path = hr_Path r, al_status = rw_status w2,
           al_caller = (if lf_accountID (rw_logFields w2) \<noteq> []
             then Some (lf_accountID (rw_logFields w2), lf_principalARN (rw_logFields w2)) else None)\<rparr>]\<rparr>, s2))
     | Panicked v \<Rightarrow> run (WriteError (withRequestID i r) (Internal None ''internal failure'' []) dev) (w2, s2))"
  using assms
  by (cases out) (simp_all add: edgeChain_def WithRequestID_def Recover_def AccessLog_def insideEdge_def
      withRequestID_def RequestID_def Let_def)

subsection \<open>Properties\<close>

text \<open>No panic escapes the edge chain: whatever the handler does, the request is answered, and a handler that
  panics before writing gives a 500 whose body says nothing but the code, a fixed
  message and the request id that was minted for it.\<close>
theorem panic_is_contained:
  "fst (run (edgeChain rand dev h r) (w, s)) = Done \<and>
   (\<forall>i s1 v w2 s2. run (NewRequestID rand) s = (i, s1) \<longrightarrow>
      run (h (insideEdge i r)) (w\<lparr>rw_header := header_Set RequestIDHeader i (rw_header w),
        rw_logFields := \<lparr>lf_accountID = [], lf_principalARN = []\<rparr>\<rparr>, s1) = (Panicked v, (w2, s2)) \<longrightarrow>
      rw_status w2 = 0 \<longrightarrow> rw_body w2 = [] \<longrightarrow>
      (\<exists>w3. run (edgeChain rand dev h r) (w, s) = (Done, (w3, s2)) \<and> rw_status w3 = 500 \<and>
        rw_body w3 = [ErrBody \<lparr>we_code = CodeInternal, we_message = (''internal failure'', []), we_request_id = i,
          we_details = []\<rparr>]))"
proof -
  obtain i s1 where i: "run (NewRequestID rand) s = (i, s1)" by fastforce
  obtain out w2 s2 where h: "run (h (insideEdge i r)) (w\<lparr>rw_header := header_Set RequestIDHeader i (rw_header w),
        rw_logFields := \<lparr>lf_accountID = [], lf_principalARN = []\<rparr>\<rparr>, s1) = (out, (w2, s2))"
    using prod_cases3 by blast
  note edge = run_edgeChain [of rand s i s1 h r w out w2 s2 dev, OF i h]
  have "fst (run (edgeChain rand dev h r) (w, s)) = Done"
    unfolding edge by (cases out) (simp_all add: run_WriteError)
  moreover have "errorBody (withRequestID i r) (Internal None ''internal failure'' []) dev =
      \<lparr>we_code = CodeInternal, we_message = (''internal failure'', []), we_request_id = i, we_details = []\<rparr>"
    by (simp add: errorBody_def Internal_def RequestID_def withRequestID_def)
  ultimately show ?thesis
    using edge i h by (auto simp: run_WriteError)
qed

text \<open>A request whose handler panics leaves no line in the access log, although a 500 is sent for it: the access
  log sits inside \<open>Recover\<close> and logs only when the handler returns.\<close>
theorem panicking_request_is_not_logged:
  "\<exists>w s'. run (edgeChain rand dev (\<lambda>_. ret (Panicked v)) r) (emptyRw :: 'm rw, s) = (Done, (w, s')) \<and>
     rw_status w = 500 \<and> rw_access w = []"
proof -
  obtain i s1 where i: "run (NewRequestID rand) s = (i, s1)" by fastforce
  let ?w = "(emptyRw :: 'm rw)\<lparr>rw_header := header_Set RequestIDHeader i (rw_header (emptyRw :: 'm rw)),
      rw_logFields := \<lparr>lf_accountID = [], lf_principalARN = []\<rparr>\<rparr>"
  have "run (edgeChain rand dev (\<lambda>_. ret (Panicked v)) r) (emptyRw :: 'm rw, s) =
      run (WriteError (withRequestID i r) (Internal None ''internal failure'' []) dev) (?w, s1)"
    using run_edgeChain [of rand s i s1 "\<lambda>_. ret (Panicked v)" r emptyRw "Panicked v" ?w s1 dev, OF i] by simp
  then show ?thesis by (auto simp: run_WriteError emptyRw_def)
qed

definition sampleHttpRequest :: request where
  "sampleHttpRequest = \<lparr>hr_Method = ''GET'', hr_Path = ''/ping'', hr_Query = [], hr_Header = [], hr_Body = [],
     hr_BodyFails = False, hr_Ctx = emptyCtx\<rparr>"

definition sampleRand :: "nat \<Rightarrow> ('s, bytes option) state" where
  "sampleRand n = ret (Some (replicate n CHR ''r''))"

lemma panic_is_contained_witness:
  "\<exists>w3. run (edgeChain sampleRand True (\<lambda>_. ret (Panicked ''nil map'')) sampleHttpRequest) (emptyRw :: unit rw, ()) =
       (Done, (w3, ())) \<and> rw_status w3 = 500"
proof -
  have "run (NewRequestID sampleRand) () = (hexEncode (replicate 16 CHR ''r''), ())"
    by (simp add: NewRequestID_def sampleRand_def)
  moreover have "run (ret (Panicked ''nil map'')) (w, ()) = (Panicked ''nil map'', (w, ()))" for w :: "unit rw"
    by simp
  moreover have "rw_status (emptyRw :: unit rw) = 0" "rw_body (emptyRw :: unit rw) = []" by (simp_all add: emptyRw_def)
  ultimately show ?thesis
    using panic_is_contained [of sampleRand True "\<lambda>_. ret (Panicked ''nil map'')" sampleHttpRequest "emptyRw :: unit rw" "()"]
    by fastforce
qed

end
