(* ===== verification/Servicekit.thy ===== *)
theory Servicekit
  imports Httpx Arn
begin

text \<open>
  The guard in front of every service (\<open>internal/servicekit/servicekit.go\<close>): it takes the capability off the
  request, verifies it offline, and accepts it only for the action and resource the service is
  about to serve, with the account taken from the token. Its two entry points share one
  verification, as in the code, and one characterisation here.
\<close>

definition ErrNoCapability :: err where "ErrNoCapability = Sentinel ''servicekit: no capability on the request''"
definition ErrMismatch :: err where
  "ErrMismatch = Sentinel ''servicekit: the capability does not authorise this request''"

record Intent =
  in_Action :: string
  in_ResourceType :: string
  in_ResourceID :: string

record Guard =
  gd_verifier :: Verifier
  gd_service :: string
  gd_region :: string

definition NewGuard :: "Verifier \<Rightarrow> string \<Rightarrow> string \<Rightarrow> Guard" where
  "NewGuard v service region = \<lparr>gd_verifier = v, gd_service = service, gd_region = region\<rparr>"

text \<open>The format \<open>arn:dariya:%s:%s:%s:%s/%s\<close> with which every package assembles a resource name.\<close>

definition formatArn :: "string \<Rightarrow> string \<Rightarrow> string \<Rightarrow> string \<Rightarrow> string \<Rightarrow> string" where
  "formatArn service region account typ ident =
     arn_String \<lparr>a_Service = service, a_Region = region, a_Account = account, a_Type = typ, a_ID = ident\<rparr>"

lemma formatArn_text:
  "formatArn service region account typ ident =
     ''arn:dariya:'' @ service @ '':'' @ region @ '':'' @ account @ '':'' @ typ @ ''/'' @ ident"
  by (simp add: formatArn_def arn_String_append Partition_def)

definition guard_authorize ::
  "wire \<Rightarrow> Guard \<Rightarrow> time \<Rightarrow> request \<Rightarrow> string \<Rightarrow> (string \<Rightarrow> string) \<Rightarrow> err + Capability" where
  "guard_authorize w g now r action expectedFor =
     (let header = header_Get (hr_Header r) CapabilityHeader in
      if header = [] then Inl ErrNoCapability
      else case stdDecode header of
        None \<Rightarrow> Inl (Errorf ''servicekit: capability header is not base64: %w'' [] (Some (Sentinel ''illegal base64 data'')))
      | Some raw \<Rightarrow>
        (case unmarshalToken w raw of
           None \<Rightarrow> Inl (Errorf ''servicekit: capability header is not a SignedCapability: %w'' []
                     (Some (Sentinel ''proto: cannot parse'')))
         | Some token \<Rightarrow>
           (case cap_Verify w (gd_verifier g) now (Some token) of
              Inl e \<Rightarrow> Inl e
            | Inr cap \<Rightarrow>
                if cp_Action cap \<noteq> action then
                  Inl (Errorf ''%w: authorises %q, this request is %q'' [AStr (cp_Action cap), AStr action] (Some ErrMismatch))
                else if cp_ResourceArn cap \<noteq> expectedFor (cp_AccountId cap) then
                  Inl (Errorf ''%w: authorises %q, this request is for %q''
                    [AStr (cp_ResourceArn cap), AStr (expectedFor (cp_AccountId cap))] (Some ErrMismatch))
                else (case arn_Parse (cp_ResourceArn cap) of
                  Inl e \<Rightarrow> Inl (Errorf ''%w: resource is not a valid ARN: %v'' [AErr e] (Some ErrMismatch))
                | Inr resource \<Rightarrow>
                    if cp_AccountId cap \<noteq> a_Account resource then
                      Inl (Errorf ''%w: token names account %s but its resource belongs to %s''
                        [AStr (cp_AccountId cap), AStr (a_Account resource)] (Some ErrMismatch))
                    else Inr cap))))"

definition guard_Authorize :: "wire \<Rightarrow> Guard \<Rightarrow> time \<Rightarrow> request \<Rightarrow> Intent \<Rightarrow> err + Capability" where
  "guard_Authorize w g now r intent =
     (if in_Action intent = [] \<or> in_ResourceType intent = [] \<or> in_ResourceID intent = [] then
        Inl (Errorf ''servicekit: intent must state an action, a resource type and a resource id'' [] None)
      else guard_authorize w g now r (in_Action intent)
        (\<lambda>account. formatArn (gd_service g) (gd_region g) account (in_ResourceType intent) (in_ResourceID intent)))"

definition guard_AuthorizeAccount :: "wire \<Rightarrow> Guard \<Rightarrow> time \<Rightarrow> request \<Rightarrow> string \<Rightarrow> err + Capability" where
  "guard_AuthorizeAccount w g now r action =
     (if action = [] then Inl (Errorf ''servicekit: an account-scoped intent must state an action'' [] None)
      else guard_authorize w g now r action
        (\<lambda>account. formatArn (gd_service g) (gd_region g) account ''account'' account))"

subsection \<open>What the guard accepts\<close>

definition tokenOn :: "wire \<Rightarrow> request \<Rightarrow> SignedCapability option" where
  "tokenOn w r =
     (let header = header_Get (hr_Header r) CapabilityHeader in
      if header = [] then None
      else case stdDecode header of None \<Rightarrow> None | Some raw \<Rightarrow> unmarshalToken w raw)"

lemma guard_authorize_Inr:
  "guard_authorize w g now r action expectedFor = Inr cap \<longleftrightarrow>
     (\<exists>t res. tokenOn w r = Some t \<and> cap_Verify w (gd_verifier g) now (Some t) = Inr cap \<and>
        cp_Action cap = action \<and> cp_ResourceArn cap = expectedFor (cp_AccountId cap) \<and>
        arn_Parse (expectedFor (cp_AccountId cap)) = Inr res \<and> a_Account res = cp_AccountId cap)"
  unfolding guard_authorize_def tokenOn_def Let_def
  by (auto split: option.splits sum.splits if_splits)

lemma wf_resource_parts:
  "arn_Parse (formatArn service region account typ ident) = Inr res \<Longrightarrow> a_Account res = account \<Longrightarrow>
   is_account_id account"
  by (auto simp: formatArn_def Parse_Inr_iff wf_arn_def)

text \<open>A resource name assembled from well-formed parts parses back to them.\<close>

definition plainSegment :: "string \<Rightarrow> bool" where
  "plainSegment s \<longleftrightarrow> s \<noteq> [] \<and> CHR '':'' \<notin> set s"

lemma parse_formatArn:
  "plainSegment service \<Longrightarrow> plainSegment region \<Longrightarrow> is_account_id account \<Longrightarrow> typ \<noteq> [] \<Longrightarrow>
   CHR ''/'' \<notin> set typ \<Longrightarrow> ident \<noteq> [] \<Longrightarrow>
   arn_Parse (formatArn service region account typ ident) =
     Inr \<lparr>a_Service = service, a_Region = region, a_Account = account, a_Type = typ, a_ID = ident\<rparr>"
  unfolding formatArn_def by (rule Parse_String) (simp add: wf_arn_def plainSegment_def)

lemma formatArn_inj:
  assumes "is_account_id account" "is_account_id account'" "plainSegment service" "plainSegment region"
    "typ \<noteq> []" "CHR ''/'' \<notin> set typ" "ident \<noteq> []" "typ' \<noteq> []" "CHR ''/'' \<notin> set typ'" "ident' \<noteq> []"
    "formatArn service region account typ ident = formatArn service region account' typ' ident'"
  shows "account = account' \<and> typ = typ' \<and> ident = ident'"
proof -
  note a = parse_formatArn [OF assms(3,4,1,5-7)]
  note b = parse_formatArn [OF assms(3,4,2,8-10)]
  have "Inr \<lparr>a_Service = service, a_Region = region, a_Account = account, a_Type = typ, a_ID = ident\<rparr> =
      (Inr \<lparr>a_Service = service, a_Region = region, a_Account = account', a_Type = typ', a_ID = ident'\<rparr> :: err + ARN)"
    using a [unfolded assms(11)] b by (rule trans [OF sym])
  then show ?thesis by simp
qed

lemma guard_AuthorizeD:
  assumes "guard_Authorize w g now r intent = Inr cap"
  shows "is_account_id (cp_AccountId cap) \<and> in_Action intent = cp_Action cap \<and>
    in_ResourceType intent \<noteq> [] \<and> in_ResourceID intent \<noteq> [] \<and>
    cp_ResourceArn cap = formatArn (gd_service g) (gd_region g) (cp_AccountId cap) (in_ResourceType intent) (in_ResourceID intent) \<and>
    (\<exists>t. tokenOn w r = Some t \<and> unmarshalCap w (tk_CapabilityBytes t) = Some cap)"
proof -
  have ne: "in_Action intent \<noteq> []" "in_ResourceType intent \<noteq> []" "in_ResourceID intent \<noteq> []"
    and a: "guard_authorize w g now r (in_Action intent)
      (\<lambda>account. formatArn (gd_service g) (gd_region g) account (in_ResourceType intent) (in_ResourceID intent)) = Inr cap"
    using assms by (simp_all add: guard_Authorize_def split: if_splits)
  from a obtain t res where t: "tokenOn w r = Some t" "cap_Verify w (gd_verifier g) now (Some t) = Inr cap"
    "cp_Action cap = in_Action intent"
    "cp_ResourceArn cap = formatArn (gd_service g) (gd_region g) (cp_AccountId cap) (in_ResourceType intent) (in_ResourceID intent)"
    "arn_Parse (formatArn (gd_service g) (gd_region g) (cp_AccountId cap) (in_ResourceType intent) (in_ResourceID intent)) = Inr res"
    "a_Account res = cp_AccountId cap"
    unfolding guard_authorize_Inr by blast
  then show ?thesis
    using wf_resource_parts [OF t(5,6)] ne unfolding cap_Verify_Inr by (intro conjI) auto
qed

lemma stdEncode_Nil_iff: "stdEncode s = [] \<longleftrightarrow> s = []"
  using std_roundtrip [of s] std_roundtrip [of "[]"] by (auto simp: stdEncode.simps)

lemma tokenOn_minted:
  assumes "wire_ok w" "marshalToken w t = Some raw" "tk_KeyId t \<noteq> []" "header_Get (hr_Header r) CapabilityHeader = stdEncode raw"
  shows "tokenOn w r = Some t \<and> header_Get (hr_Header r) CapabilityHeader \<noteq> []"
proof -
  have "unmarshalToken w raw = Some t" "raw \<noteq> []"
    using assms(1-3) unfolding wire_ok_def protobuf_ok_def by blast+
  then show ?thesis using assms(4) by (simp add: tokenOn_def Let_def std_roundtrip stdEncode_Nil_iff)
qed

lemma guard_minted:
  assumes "wire_ok w" "Mint w m t0 c = Inr t" "marshalToken w t = Some raw" "m_keyID m \<noteq> []"
    "header_Get (hr_Header r) CapabilityHeader = stdEncode raw"
    "lookup (v_keys (gd_verifier g)) (m_keyID m) = Some (minter_PublicKey w m)"
    "plainSegment (gd_service g)" "plainSegment (gd_region g)" "is_account_id (cl_AccountID c)"
    "in_Action intent = cl_Action c" "cl_Action c \<noteq> []" "in_ResourceType intent \<noteq> []"
    "CHR ''/'' \<notin> set (in_ResourceType intent)" "in_ResourceID intent \<noteq> []"
    "cl_ResourceARN c = formatArn (gd_service g) (gd_region g) (cl_AccountID c) (in_ResourceType intent) (in_ResourceID intent)"
  shows "guard_Authorize w g now r intent =
    (if unixMilli (now - v_Skew (gd_verifier g)) \<le> unixMilli (t0 + m_ttl m) then Inr (capabilityOf m t0 c)
     else Inl (Errorf ''%w: expired at %d'' [ANum (unixMilli (t0 + m_ttl m))] (Some ErrExpired)))"
proof -
  have "tk_KeyId t = m_keyID m" using assms(2) by (auto simp: Mint_Inr)
  with tokenOn_minted [OF assms(1,3) _ assms(5)] assms(4)
  have tok: "tokenOn w r = Some t" and ne: "header_Get (hr_Header r) CapabilityHeader \<noteq> []" by auto
  obtain b where b: "stdDecode (header_Get (hr_Header r) CapabilityHeader) = Some b" "unmarshalToken w b = Some t"
    using tok ne by (auto simp: tokenOn_def Let_def split: option.splits)
  note v = Mint_Verify [OF assms(1,2,11,6), of now]
  note p = parse_formatArn [OF assms(7-9,12-14)]
  show ?thesis
    unfolding guard_Authorize_def guard_authorize_def Let_def
    using ne b v p assms(10-15) by simp
qed

subsection \<open>Properties\<close>

text \<open>C9: the guard accepts a request exactly when the intent is complete, the request carries a token that verifies
  under a configured key and has not expired, and that token names this very action, this very
  resource (of this process's service and region, in the token's account) and an account
  that owns the resource. Comparison is by equality: no prefix, no pattern.\<close>
theorem guard_accepts_exactly:
  "guard_Authorize w g now r intent = Inr cap \<longleftrightarrow>
     in_Action intent \<noteq> [] \<and> in_ResourceType intent \<noteq> [] \<and> in_ResourceID intent \<noteq> [] \<and>
     (\<exists>t key. tokenOn w r = Some t \<and> tk_CapabilityBytes t \<noteq> [] \<and> tk_Signature t \<noteq> [] \<and>
        lookup (v_keys (gd_verifier g)) (tk_KeyId t) = Some key \<and>
        ed_verify w key (tk_CapabilityBytes t) (tk_Signature t) \<and>
        unmarshalCap w (tk_CapabilityBytes t) = Some cap \<and>
        unixMilli (now - v_Skew (gd_verifier g)) \<le> cp_ExpiresAtUnixMs cap) \<and>
     cp_Action cap = in_Action intent \<and>
     cp_ResourceArn cap = formatArn (gd_service g) (gd_region g) (cp_AccountId cap) (in_ResourceType intent) (in_ResourceID intent) \<and>
     (\<exists>res. arn_Parse (cp_ResourceArn cap) = Inr res \<and> a_Account res = cp_AccountId cap)"
  by (auto simp: guard_Authorize_def guard_authorize_Inr cap_Verify_Inr)

text \<open>One token serves one intent: two intents that the guard accepts with the same token are the same action,
  type and id (and the account comes from the token), provided the service's own name and region
  are plain segments and the types hold no slash.\<close>
theorem guard_one_intent_per_token:
  assumes "guard_Authorize w g now r intent = Inr cap" "guard_Authorize w g now' r intent' = Inr cap'"
    "plainSegment (gd_service g)" "plainSegment (gd_region g)"
    "CHR ''/'' \<notin> set (in_ResourceType intent)" "CHR ''/'' \<notin> set (in_ResourceType intent')"
  shows "intent = intent' \<and> cap = cap'"
proof -
  note one = guard_AuthorizeD [OF assms(1)] and two = guard_AuthorizeD [OF assms(2)]
  have c: "cap = cap'" using one two by (metis option.inject)
  have "formatArn (gd_service g) (gd_region g) (cp_AccountId cap) (in_ResourceType intent) (in_ResourceID intent) =
     formatArn (gd_service g) (gd_region g) (cp_AccountId cap) (in_ResourceType intent') (in_ResourceID intent')"
    using one two c by metis
  from formatArn_inj [OF _ _ assms(3,4) _ assms(5) _ _ assms(6) _ this]
  have "in_ResourceType intent = in_ResourceType intent' \<and> in_ResourceID intent = in_ResourceID intent'"
    using one two by blast
  moreover have "in_Action intent = in_Action intent'" using one two c by metis
  ultimately show ?thesis using c by (intro conjI Intent.equality) simp_all
qed

text \<open>C23: what the front door mints, the service accepts, for as long as the token lives and no longer: a token minted
  for a routed action and resource, carried in the header, is accepted by the guard of the service
  that owns the resource for exactly that intent until its expiry (plus the verifier's
  skew), and refused as expired afterwards.\<close>
theorem minted_token_serves_its_intent:
  assumes "wire_ok w" "Mint w m t0 c = Inr t" "marshalToken w t = Some raw" "m_keyID m \<noteq> []"
    "header_Get (hr_Header r) CapabilityHeader = stdEncode raw"
    "lookup (v_keys (gd_verifier g)) (m_keyID m) = Some (minter_PublicKey w m)"
    "plainSegment (gd_service g)" "plainSegment (gd_region g)" "is_account_id (cl_AccountID c)"
    "in_Action intent = cl_Action c" "cl_Action c \<noteq> []" "in_ResourceType intent \<noteq> []"
    "CHR ''/'' \<notin> set (in_ResourceType intent)" "in_ResourceID intent \<noteq> []"
    "cl_ResourceARN c = formatArn (gd_service g) (gd_region g) (cl_AccountID c) (in_ResourceType intent) (in_ResourceID intent)"
  shows "guard_Authorize w g now r intent =
    (if unixMilli (now - v_Skew (gd_verifier g)) \<le> unixMilli (t0 + m_ttl m) then Inr (capabilityOf m t0 c)
     else Inl (Errorf ''%w: expired at %d'' [ANum (unixMilli (t0 + m_ttl m))] (Some ErrExpired)))"
  by (rule guard_minted [OF assms])

subsection \<open>Witnesses\<close>

definition sampleMinter :: Minter where
  "sampleMinter = \<lparr>m_keyID = ''k1'', m_key = replicate 32 CHR ''s'', m_ttl = CapabilityTTL\<rparr>"

definition sampleClaims :: Claims where
  "sampleClaims = \<lparr>cl_AccountID = ''000000000001'', cl_CallerAccountID = [],
     cl_PrincipalARN = ''arn:dariya:iam:hind-1:000000000001:user/root'', cl_Action = ''chala:RunInstance'',
     cl_ResourceARN = formatArn ''chala'' ''hind-1'' ''000000000001'' ''instance'' ''web'', cl_RequestID = ''r1''\<rparr>"

definition sampleGuard :: Guard where
  "sampleGuard = NewGuard (NewVerifier [(''k1'', replicate 32 CHR ''s'')]) ''chala'' ''hind-1''"

definition sampleIntent :: Intent where
  "sampleIntent = \<lparr>in_Action = ''chala:RunInstance'', in_ResourceType = ''instance'', in_ResourceID = ''web''\<rparr>"

definition sampleToken :: SignedCapability where
  "sampleToken = (let b = the (marshalCap sampleWire (capabilityOf sampleMinter 0 sampleClaims)) in
     \<lparr>tk_CapabilityBytes = b, tk_Signature = ed_sign sampleWire (m_key sampleMinter) b, tk_KeyId = ''k1''\<rparr>)"

definition tokenRequest :: request where
  "tokenRequest = sampleHttpRequest\<lparr>hr_Header :=
     [(CapabilityHeader, [stdEncode (the (marshalToken sampleWire sampleToken))])]\<rparr>"

lemma sampleMint: "Mint sampleWire sampleMinter 0 sampleClaims = Inr sampleToken"
  by (simp add: Mint_Inr sampleToken_def Let_def) (simp add: sampleMinter_def sampleWire_def)

lemma tokenRequest_header:
  "header_Get (hr_Header tokenRequest) CapabilityHeader = stdEncode (the (marshalToken sampleWire sampleToken))"
  by (simp add: tokenRequest_def header_Get_def)

lemma marshal_sampleToken: "marshalToken sampleWire sampleToken = Some (the (marshalToken sampleWire sampleToken))"
  by (simp add: sampleWire_def)

lemma sampleGuard_key: "lookup (v_keys (gd_verifier sampleGuard)) (m_keyID sampleMinter) =
    Some (minter_PublicKey sampleWire sampleMinter)"
  by (simp add: sampleGuard_def NewGuard_def NewVerifier_def sampleMinter_def minter_PublicKey_def sampleWire_def)

lemma sampleGuard_plain:
  "plainSegment (gd_service sampleGuard)" "plainSegment (gd_region sampleGuard)" "is_account_id (cl_AccountID sampleClaims)"
  by (simp_all add: sampleGuard_def NewGuard_def plainSegment_def sampleClaims_def is_account_id_def isDigit_def)

lemma sampleIntent_parts:
  "in_Action sampleIntent = cl_Action sampleClaims" "cl_Action sampleClaims \<noteq> []"
  "in_ResourceType sampleIntent \<noteq> []" "CHR ''/'' \<notin> set (in_ResourceType sampleIntent)" "in_ResourceID sampleIntent \<noteq> []"
  "cl_ResourceARN sampleClaims = formatArn (gd_service sampleGuard) (gd_region sampleGuard) (cl_AccountID sampleClaims)
     (in_ResourceType sampleIntent) (in_ResourceID sampleIntent)"
  "m_keyID sampleMinter \<noteq> []"
  by (simp_all add: sampleIntent_def sampleClaims_def sampleGuard_def NewGuard_def sampleMinter_def)

lemma minted_token_serves_its_intent_witness:
  "guard_Authorize sampleWire sampleGuard 0 tokenRequest sampleIntent = Inr (capabilityOf sampleMinter 0 sampleClaims) \<and>
   (\<exists>e. guard_Authorize sampleWire sampleGuard minute tokenRequest sampleIntent = Inl e \<and> errorsIs e ErrExpired)"
  unfolding minted_token_serves_its_intent [OF sampleWire_ok sampleMint marshal_sampleToken sampleIntent_parts(7)
      tokenRequest_header sampleGuard_key sampleGuard_plain sampleIntent_parts(1-6)]
  by (simp add: sampleGuard_def NewGuard_def NewVerifier_def sampleMinter_def CapabilityTTL_def unixMilli_def)

lemma sampleGuard_accepts: "\<exists>cap. guard_Authorize sampleWire sampleGuard 0 tokenRequest sampleIntent = Inr cap"
  unfolding guard_minted [OF sampleWire_ok sampleMint marshal_sampleToken sampleIntent_parts(7)
      tokenRequest_header sampleGuard_key sampleGuard_plain sampleIntent_parts(1-6)]
  by (simp add: sampleGuard_def NewGuard_def NewVerifier_def sampleMinter_def CapabilityTTL_def unixMilli_def)

lemma guard_one_intent_per_token_witness:
  "\<forall>intent. in_ResourceType intent = ''instance'' \<longrightarrow> intent \<noteq> sampleIntent \<longrightarrow>
     isl (guard_Authorize sampleWire sampleGuard 0 tokenRequest intent)"
proof (intro allI impI)
  fix intent :: Intent assume t: "in_ResourceType intent = ''instance''" and ne: "intent \<noteq> sampleIntent"
  show "isl (guard_Authorize sampleWire sampleGuard 0 tokenRequest intent)"
  proof (cases "guard_Authorize sampleWire sampleGuard 0 tokenRequest intent")
    case (Inr cap)
    obtain cap' where a: "guard_Authorize sampleWire sampleGuard 0 tokenRequest sampleIntent = Inr cap'"
      using sampleGuard_accepts by blast
    have "intent = sampleIntent"
      using guard_one_intent_per_token [OF Inr a sampleGuard_plain(1,2)] t sampleIntent_parts(4) by simp
    with ne show ?thesis by simp
  qed simp
qed

end
