(* ===== verification/Router.thy ===== *)
theory Router
  imports Servicekit
begin

text \<open>
  The route table (\<open>internal/router/router.go\<close>): its validation at boot, the choice of a route, the answers it
  gives to authentication (which service) and to authorization (which action on which resource),
  and the three builders of resource names. The locale \<open>scoped_resource\<close> is the contract of a
  builder: the resource it names lies in the account of the authenticated caller.
\<close>

subsection \<open>Routes and tables\<close>

text \<open>A route's handler is a value of any type; a missing function or handler is \<^const>\<open>None\<close>.\<close>

record 'h Route =
  rt_Service :: string
  rt_Method :: string
  rt_Prefix :: string
  rt_Action :: string
  rt_Resource :: "(request \<Rightarrow> Principal \<Rightarrow> err + string) option"
  rt_Upstream :: string
  rt_Handler :: "'h option"

record 'h Table =
  tb_routes :: "'h Route list"
  tb_region :: string

fun checkRoutes :: "nat \<Rightarrow> 'h Route list \<Rightarrow> err option" where
  "checkRoutes i [] = None"
| "checkRoutes i (rt # rts) =
     (if rt_Service rt = [] then Some (Errorf ''router: route %d has no service'' [ANum (int i)] None)
      else if rt_Prefix rt = [] then Some (Errorf ''router: route %d has no prefix'' [ANum (int i)] None)
      else if rt_Action rt = [] then
        Some (Errorf ''router: route %d (%s) has no action'' [ANum (int i), AStr (rt_Prefix rt)] None)
      else if rt_Resource rt = None then
        Some (Errorf ''router: route %d (%s) has no resource'' [ANum (int i), AStr (rt_Prefix rt)] None)
      else if rt_Handler rt = None \<and> rt_Upstream rt = [] then
        Some (Errorf ''router: route %d (%s) has neither a handler nor an upstream'' [ANum (int i), AStr (rt_Prefix rt)] None)
      else if rt_Handler rt \<noteq> None \<and> rt_Upstream rt \<noteq> [] then
        Some (Errorf ''router: route %d (%s) has both a handler and an upstream'' [ANum (int i), AStr (rt_Prefix rt)] None)
      else checkRoutes (Suc i) rts)"

definition NewTable :: "string \<Rightarrow> 'h Route list \<Rightarrow> err + 'h Table" where
  "NewTable region routes =
     (case checkRoutes 0 routes of Some e \<Rightarrow> Inl e | None \<Rightarrow> Inr \<lparr>tb_routes = routes, tb_region = region\<rparr>)"

definition matchesPrefix :: "string \<Rightarrow> string \<Rightarrow> bool" where
  "matchesPrefix path pre =
     (if \<not> hasPrefix path pre then False
      else if length path = length pre then True
      else if hasSuffix pre ''/'' then True
      else path ! length pre = CHR ''/'')"

definition routeServes :: "'h Route \<Rightarrow> request \<Rightarrow> bool" where
  "routeServes rt r \<longleftrightarrow> (rt_Method rt = [] \<or> rt_Method rt = hr_Method r) \<and> matchesPrefix (hr_Path r) (rt_Prefix rt)"

fun bestRoute :: "request \<Rightarrow> 'h Route list \<Rightarrow> 'h Route option \<Rightarrow> 'h Route option" where
  "bestRoute r [] best = best"
| "bestRoute r (rt # rts) best =
     (if rt_Method rt \<noteq> [] \<and> rt_Method rt \<noteq> hr_Method r then bestRoute r rts best
      else if \<not> matchesPrefix (hr_Path r) (rt_Prefix rt) then bestRoute r rts best
      else bestRoute r rts
        (case best of
           None \<Rightarrow> Some rt
         | Some b \<Rightarrow> if length (rt_Prefix rt) > length (rt_Prefix b) then Some rt else Some b))"

definition table_Match :: "'h Table \<Rightarrow> request \<Rightarrow> 'h Route option" where
  "table_Match t r = bestRoute r (tb_routes t) None"

definition ServiceFor :: "'h Table \<Rightarrow> string \<Rightarrow> request \<Rightarrow> string" where
  "ServiceFor t controlPlaneService r =
     (case table_Match t r of Some rt \<Rightarrow> rt_Service rt | None \<Rightarrow> controlPlaneService)"

record Target =
  tg_Action :: string
  tg_ResourceARN :: string

text \<open>Calling a resource function that is nil would panic; a table that passed \<open>NewTable\<close> has none.\<close>

definition TargetFor :: "'h Table \<Rightarrow> request \<Rightarrow> Principal \<Rightarrow> err + Target" where
  "TargetFor t r p =
     (case table_Match t r of
        None \<Rightarrow> Inl (NotFound ''no route for %s %s'' [AStr (hr_Method r), AStr (hr_Path r)])
      | Some rt \<Rightarrow>
          (case the (rt_Resource rt) r p of
             Inl e \<Rightarrow> Inl e
           | Inr resource \<Rightarrow> Inr \<lparr>tg_Action = rt_Action rt, tg_ResourceARN = resource\<rparr>))"

subsection \<open>Resource builders\<close>

definition AccountResource :: "string \<Rightarrow> string \<Rightarrow> string \<Rightarrow> string \<Rightarrow> request \<Rightarrow> Principal \<Rightarrow> err + string" where
  "AccountResource region service typ ident r p = Inr (formatArn service region (pr_AccountId p) typ ident)"

definition SelfAccountResource :: "string \<Rightarrow> string \<Rightarrow> request \<Rightarrow> Principal \<Rightarrow> err + string" where
  "SelfAccountResource region service r p =
     Inr (formatArn service region (pr_AccountId p) ''account'' (pr_AccountId p))"

definition PathResource :: "string \<Rightarrow> string \<Rightarrow> string \<Rightarrow> string \<Rightarrow> request \<Rightarrow> Principal \<Rightarrow> err + string" where
  "PathResource region service typ pre r p =
     (let rest = trimPrefix (hr_Path r) pre;
          ident = (case cut CHR ''/'' rest of None \<Rightarrow> rest | Some (a, _) \<Rightarrow> a)
      in if ident = [] then Inl (Validation ''the path does not name a %s'' [AStr typ])
         else if containsAny ident '':*'' then Inl (Validation (''a %s name may not contain ':' or '*'' @ [CHR 0x27]) [AStr typ])
         else Inr (formatArn service region (pr_AccountId p) typ ident))"

subsection \<open>Choosing a route\<close>

lemma matchesPrefix_iff:
  "matchesPrefix path pre \<longleftrightarrow>
     path = pre \<or> (hasSuffix pre ''/'' \<and> hasPrefix path pre) \<or> hasPrefix path (pre @ ''/'')"
proof -
  have "hasPrefix path (pre @ ''/'') \<longleftrightarrow> hasPrefix path pre \<and> length path \<noteq> length pre \<and> path ! length pre = CHR ''/''"
    by (auto simp: hasPrefix_iff nth_append neq_Nil_conv)
  then show ?thesis
    by (auto simp: matchesPrefix_def dest: hasPrefix_same_length)
qed

lemma bestRoute_Some:
  "bestRoute r rts best = Some rt \<Longrightarrow>
     (rt \<in> set rts \<and> routeServes rt r \<or> best = Some rt) \<and>
     (\<forall>rt' \<in> set rts. routeServes rt' r \<longrightarrow> length (rt_Prefix rt') \<le> length (rt_Prefix rt)) \<and>
     (\<forall>b. best = Some b \<longrightarrow> length (rt_Prefix b) \<le> length (rt_Prefix rt))"
  by (induction r rts best rule: bestRoute.induct)
     (auto simp: routeServes_def split: if_splits option.splits)

lemma bestRoute_None: "bestRoute r rts best = None \<longleftrightarrow> best = None \<and> (\<forall>rt \<in> set rts. \<not> routeServes rt r)"
  by (induction r rts best rule: bestRoute.induct) (auto simp: routeServes_def split: option.splits)

lemma table_Match_Some:
  "table_Match t r = Some rt \<Longrightarrow> rt \<in> set (tb_routes t) \<and> routeServes rt r \<and>
     (\<forall>rt' \<in> set (tb_routes t). routeServes rt' r \<longrightarrow> length (rt_Prefix rt') \<le> length (rt_Prefix rt))"
  using bestRoute_Some [of r "tb_routes t" None rt] by (simp add: table_Match_def)

lemma table_Match_None: "table_Match t r = None \<longleftrightarrow> (\<forall>rt \<in> set (tb_routes t). \<not> routeServes rt r)"
  by (simp add: table_Match_def bestRoute_None)

definition wf_route :: "'h Route \<Rightarrow> bool" where
  "wf_route rt \<longleftrightarrow> rt_Service rt \<noteq> [] \<and> rt_Prefix rt \<noteq> [] \<and> rt_Action rt \<noteq> [] \<and> rt_Resource rt \<noteq> None \<and>
     (rt_Handler rt = None \<longleftrightarrow> rt_Upstream rt \<noteq> [])"

lemma checkRoutes_None: "checkRoutes i rts = None \<longleftrightarrow> (\<forall>rt \<in> set rts. wf_route rt)"
  by (induction i rts rule: checkRoutes.induct) (auto simp: wf_route_def)

lemma NewTable_Inr: "NewTable region routes = Inr t \<longleftrightarrow> (\<forall>rt \<in> set routes. wf_route rt) \<and> t = \<lparr>tb_routes = routes, tb_region = region\<rparr>"
  unfolding checkRoutes_None [of 0, symmetric] by (auto simp: NewTable_def split: option.split)

subsection \<open>The contract of a resource builder\<close>

text \<open>\<open>ok\<close> collects what the builder's own parameters and the principal have to satisfy.\<close>

locale scoped_resource =
  fixes resource :: "request \<Rightarrow> Principal \<Rightarrow> err + string"
    and ok :: "Principal \<Rightarrow> bool"
  assumes scoped: "ok p \<Longrightarrow> resource r p = Inr a \<Longrightarrow> \<exists>res. arn_Parse a = Inr res \<and> a_Account res = pr_AccountId p"
begin

lemma tenants_apart:
  "ok p \<Longrightarrow> ok q \<Longrightarrow> resource r p = Inr a \<Longrightarrow> resource r' q = Inr b \<Longrightarrow> pr_AccountId p \<noteq> pr_AccountId q \<Longrightarrow> a \<noteq> b"
  using scoped by (metis Inr_inject)

lemma account_of: "ok p \<Longrightarrow> resource r p = Inr a \<Longrightarrow> arn_Parse a = Inr res \<Longrightarrow> a_Account res = pr_AccountId p"
  using scoped by fastforce

end

definition okSegments :: "string \<Rightarrow> string \<Rightarrow> Principal \<Rightarrow> bool" where
  "okSegments region service p \<longleftrightarrow> plainSegment region \<and> plainSegment service \<and> is_account_id (pr_AccountId p)"

definition okType :: "string \<Rightarrow> bool" where
  "okType typ \<longleftrightarrow> typ \<noteq> [] \<and> CHR ''/'' \<notin> set typ"

interpretation account_resource: scoped_resource "AccountResource region service ty ident"
    "\<lambda>p. okSegments region service p \<and> okType ty \<and> ident \<noteq> []"
  for region service ty ident
  by unfold_locales (auto simp: AccountResource_def okSegments_def okType_def parse_formatArn)

interpretation self_account_resource: scoped_resource "SelfAccountResource region service" "okSegments region service"
  for region service
  by unfold_locales (auto simp: SelfAccountResource_def okSegments_def parse_formatArn)

interpretation path_resource: scoped_resource "PathResource region service ty pre"
    "\<lambda>p. okSegments region service p \<and> okType ty"
  for region service ty pre
  by unfold_locales (auto simp: PathResource_def Let_def okSegments_def okType_def parse_formatArn split: if_splits)

text \<open>A table whose builders all satisfy the contract.\<close>

definition scopedTable :: "(Principal \<Rightarrow> bool) \<Rightarrow> 'h Table \<Rightarrow> bool" where
  "scopedTable ok t \<longleftrightarrow> (\<forall>rt \<in> set (tb_routes t). \<exists>f. rt_Resource rt = Some f \<and> scoped_resource f ok)"

lemma scoped_resource_mono: "scoped_resource f ok \<Longrightarrow> (\<And>p. ok' p \<Longrightarrow> ok p) \<Longrightarrow> scoped_resource f ok'"
  by (simp add: scoped_resource_def)

lemma TargetFor_scoped:
  assumes "scopedTable ok t" "ok p" "TargetFor t r p = Inr tg"
  shows "\<exists>res. arn_Parse (tg_ResourceARN tg) = Inr res \<and> a_Account res = pr_AccountId p"
proof -
  from assms(3) obtain rt resource where rt: "table_Match t r = Some rt" "the (rt_Resource rt) r p = Inr resource"
    "tg_ResourceARN tg = resource"
    by (auto simp: TargetFor_def split: option.splits sum.splits)
  with table_Match_Some [OF rt(1)] assms(1) obtain f where "rt_Resource rt = Some f" "scoped_resource f ok"
    by (auto simp: scopedTable_def)
  with rt assms(2) show ?thesis using scoped_resource.scoped by fastforce
qed

subsection \<open>Properties\<close>

text \<open>C32: the table picks a route that serves the method and covers the path at a segment boundary, and no serving
  route has a longer prefix; it finds none exactly when none serves. A path that merely begins
  with the letters of a prefix is not covered by it.\<close>
theorem match_is_longest_prefix:
  "(table_Match t r = None \<longleftrightarrow> (\<forall>rt \<in> set (tb_routes t). \<not> routeServes rt r)) \<and>
   (\<forall>rt. table_Match t r = Some rt \<longrightarrow> rt \<in> set (tb_routes t) \<and>
      (rt_Method rt = [] \<or> rt_Method rt = hr_Method r) \<and>
      (hr_Path r = rt_Prefix rt \<or> (hasSuffix (rt_Prefix rt) ''/'' \<and> hasPrefix (hr_Path r) (rt_Prefix rt)) \<or>
         hasPrefix (hr_Path r) (rt_Prefix rt @ ''/'')) \<and>
      (\<forall>rt' \<in> set (tb_routes t). routeServes rt' r \<longrightarrow> length (rt_Prefix rt') \<le> length (rt_Prefix rt)))"
  using table_Match_None [of t r] table_Match_Some [of t r]
  unfolding matchesPrefix_iff [symmetric] routeServes_def by blast

text \<open>C13: \<open>NewTable\<close> accepts exactly the tables in which every route has a service, a prefix, an action, a resource and
  precisely one of a handler and an upstream, so no route can be dispatched without
  being authorized.\<close>
theorem new_table_accepts_exactly:
  "(\<exists>t. NewTable region routes = Inr t) \<longleftrightarrow>
     list_all (\<lambda>rt. rt_Service rt \<noteq> [] \<and> rt_Prefix rt \<noteq> [] \<and> rt_Action rt \<noteq> [] \<and> rt_Resource rt \<noteq> None \<and>
        (rt_Handler rt = None \<longleftrightarrow> rt_Upstream rt \<noteq> [])) routes"
  by (simp add: NewTable_Inr wf_route_def list_all_iff)

definition sampleTable :: "unit Table" where
  "sampleTable = \<lparr>tb_routes = [\<lparr>rt_Service = ''chala'', rt_Method = ''GET'', rt_Prefix = ''/v1/instances'',
      rt_Action = ''chala:DescribeInstances'', rt_Resource = Some (SelfAccountResource ''hind-1'' ''chala''),
      rt_Upstream = ''http://127.0.0.1:9300'', rt_Handler = None\<rparr>,
     \<lparr>rt_Service = ''chala'', rt_Method = ''GET'', rt_Prefix = ''/v1/instances/'',
      rt_Action = ''chala:DescribeInstances'', rt_Resource = Some (PathResource ''hind-1'' ''chala'' ''instance'' ''/v1/instances/''),
      rt_Upstream = ''http://127.0.0.1:9300'', rt_Handler = None\<rparr>], tb_region = ''hind-1''\<rparr>"

definition samplePrincipal :: Principal where
  "samplePrincipal = \<lparr>pr_AccountId = ''000000000001'', pr_PrincipalArn = ''arn:dariya:iam:hind-1:000000000001:user/root''\<rparr>"

lemma samplePrincipal_ok: "okSegments ''hind-1'' ''chala'' samplePrincipal"
  by (simp add: okSegments_def samplePrincipal_def plainSegment_def is_account_id_def isDigit_def)

lemma match_is_longest_prefix_witness:
  "table_Match sampleTable (sampleHttpRequest\<lparr>hr_Path := ''/v1/instancesX''\<rparr>) = None \<and>
   (\<exists>rt. table_Match sampleTable (sampleHttpRequest\<lparr>hr_Path := ''/v1/instances/web''\<rparr>) = Some rt \<and>
      rt_Prefix rt = ''/v1/instances/'')"
proof -
  have "\<forall>rt \<in> set (tb_routes sampleTable). \<not> routeServes rt (sampleHttpRequest\<lparr>hr_Path := ''/v1/instancesX''\<rparr>)"
    by (simp add: sampleTable_def routeServes_def sampleHttpRequest_def matchesPrefix_def hasSuffix_def)
  moreover have "table_Match sampleTable (sampleHttpRequest\<lparr>hr_Path := ''/v1/instances/web''\<rparr>) =
      Some (tb_routes sampleTable ! 1)"
    by (simp add: table_Match_def sampleTable_def sampleHttpRequest_def matchesPrefix_def hasSuffix_def)
  ultimately show ?thesis
    using match_is_longest_prefix [of sampleTable "sampleHttpRequest\<lparr>hr_Path := ''/v1/instancesX''\<rparr>"]
    by (simp add: sampleTable_def)
qed

end
