(* ===== verification/Iam_Policy.thy ===== *)
theory Iam_Policy
  imports Apierr
begin

text \<open>
  The policy engine (\<open>internal/iam/policy.go\<close>): the pattern language, the evaluation loop and the write-time
  validation of documents. The loop is modelled as it is written, one statement at a time
  with its early return, and proved equal to the rule it implements: a matching deny anywhere wins,
  then a matching allow, then the implicit deny.
\<close>

subsection \<open>Documents, requests and decisions\<close>

text \<open>A proto3 enum may carry a number that the schema does not name.\<close>

datatype effect = EFFECT_UNSPECIFIED | EFFECT_ALLOW | EFFECT_DENY | EFFECT_OTHER int

datatype decisionEffect = DECISION_UNSPECIFIED | DECISION_ALLOW | DECISION_EXPLICIT_DENY | DECISION_IMPLICIT_DENY

record statement =
  s_sid :: string
  s_effect :: effect
  s_actions :: "string list"
  s_resources :: "string list"

text \<open>A policy document is its statements; a missing one is \<^const>\<open>None\<close>.\<close>

type_synonym document = "statement list option"

definition statementsOf :: "document \<Rightarrow> statement list" where
  "statementsOf d = (case d of None \<Rightarrow> [] | Some ss \<Rightarrow> ss)"

record iamRequest =
  rq_Action :: string
  rq_ResourceARN :: string

record Decision =
  dc_Effect :: decisionEffect
  dc_PolicyARN :: string
  dc_SID :: string

definition dc_Allowed :: "Decision \<Rightarrow> bool" where
  "dc_Allowed d \<longleftrightarrow> dc_Effect d = DECISION_ALLOW"

record AttachedPolicy =
  ap_PolicyARN :: string
  ap_Document :: document

text \<open>The messages of the \<open>Authorize\<close> call, with the caller as account and principal name.\<close>

record AuthorizeRequest =
  aq_AccountId :: string
  aq_PrincipalArn :: string
  aq_Action :: string
  aq_ResourceArn :: string
  aq_RequestId :: string

record AuthorizeResponse =
  as_Decision :: decisionEffect
  as_MatchedPolicyArn :: string
  as_MatchedSid :: string
  as_Reason :: string

subsection \<open>Matching and evaluation\<close>

definition Match :: "string \<Rightarrow> string \<Rightarrow> bool" where
  "Match pattern value =
     (if pattern = ''*'' then True
      else if hasSuffix pattern ''*'' then hasPrefix value (trimSuffix pattern ''*'')
      else pattern = value)"

fun matchesAny :: "string list \<Rightarrow> string \<Rightarrow> bool" where
  "matchesAny [] value = False"
| "matchesAny (p # ps) value = (if Match p value then True else matchesAny ps value)"

definition matches :: "statement \<Rightarrow> iamRequest \<Rightarrow> bool" where
  "matches st req \<longleftrightarrow> matchesAny (s_actions st) (rq_Action req) \<and> matchesAny (s_resources st) (rq_ResourceARN req)"

text \<open>The inner loop: an early return is the left part, the allow found so far the right one.\<close>

fun evalStatements :: "string \<Rightarrow> iamRequest \<Rightarrow> statement list \<Rightarrow> Decision option \<Rightarrow> Decision + Decision option" where
  "evalStatements pARN req [] allow = Inr allow"
| "evalStatements pARN req (st # sts) allow =
     (if \<not> matches st req then evalStatements pARN req sts allow
      else case s_effect st of
        EFFECT_DENY \<Rightarrow> Inl \<lparr>dc_Effect = DECISION_EXPLICIT_DENY, dc_PolicyARN = pARN, dc_SID = s_sid st\<rparr>
      | EFFECT_ALLOW \<Rightarrow>
          evalStatements pARN req sts
            (if allow = None then Some \<lparr>dc_Effect = DECISION_ALLOW, dc_PolicyARN = pARN, dc_SID = s_sid st\<rparr> else allow)
      | _ \<Rightarrow> evalStatements pARN req sts allow)"

fun evalPolicies :: "iamRequest \<Rightarrow> AttachedPolicy list \<Rightarrow> Decision option \<Rightarrow> Decision + Decision option" where
  "evalPolicies req [] allow = Inr allow"
| "evalPolicies req (p # ps) allow =
     (case evalStatements (ap_PolicyARN p) req (statementsOf (ap_Document p)) allow of
        Inl d \<Rightarrow> Inl d
      | Inr a \<Rightarrow> evalPolicies req ps a)"

definition Evaluate :: "AttachedPolicy list \<Rightarrow> iamRequest \<Rightarrow> Decision" where
  "Evaluate policies req =
     (case evalPolicies req policies None of
        Inl d \<Rightarrow> d
      | Inr (Some a) \<Rightarrow> a
      | Inr None \<Rightarrow> \<lparr>dc_Effect = DECISION_IMPLICIT_DENY, dc_PolicyARN = [], dc_SID = []\<rparr>)"

subsection \<open>Validation\<close>

text \<open>The result names the statement and the reason, or is \<^const>\<open>None\<close> for a valid document.\<close>

type_synonym documentError = "nat \<times> string"

definition documentErrorString :: "documentError \<Rightarrow> message" where
  "documentErrorString e = (''policy statement %d: %s'', [ANum (int (fst e)), AStr (snd e)])"

fun validateStatements :: "nat \<Rightarrow> statement list \<Rightarrow> documentError option" where
  "validateStatements i [] = None"
| "validateStatements i (s # ss) =
     (if s_effect s = EFFECT_UNSPECIFIED then Some (i, ''effect must be ALLOW or DENY'')
      else if s_actions s = [] then Some (i, ''at least one action is required'')
      else if s_resources s = [] then Some (i, ''at least one resource is required'')
      else if list_ex (\<lambda>a. a = []) (s_actions s) then Some (i, ''an action must not be empty'')
      else if list_ex (\<lambda>r. r = []) (s_resources s) then Some (i, ''a resource must not be empty'')
      else validateStatements (Suc i) ss)"

definition ValidateDocument :: "document \<Rightarrow> documentError option" where
  "ValidateDocument doc =
     (case doc of
        None \<Rightarrow> Some (0, ''a policy document is required'')
      | Some ss \<Rightarrow>
          if ss = [] then Some (0, ''a policy must have at least one statement'')
          else validateStatements 0 ss)"

definition wf_statement :: "statement \<Rightarrow> bool" where
  "wf_statement s \<longleftrightarrow> s_effect s \<noteq> EFFECT_UNSPECIFIED \<and> s_actions s \<noteq> [] \<and> s_resources s \<noteq> [] \<and>
     [] \<notin> set (s_actions s) \<and> [] \<notin> set (s_resources s)"

lemma validateStatements_None: "validateStatements i ss = None \<longleftrightarrow> (\<forall>s \<in> set ss. wf_statement s)"
  by (induction i ss rule: validateStatements.induct) (auto simp: wf_statement_def list_ex_iff)

lemma ValidateDocument_None:
  "ValidateDocument doc = None \<longleftrightarrow> (\<exists>ss. doc = Some ss \<and> ss \<noteq> [] \<and> (\<forall>s \<in> set ss. wf_statement s))"
  by (auto simp: ValidateDocument_def validateStatements_None split: option.split)

subsection \<open>The pattern language\<close>

lemma Match_iff: "Match pattern value \<longleftrightarrow> pattern = value \<or> (\<exists>p. pattern = p @ ''*'' \<and> hasPrefix value p)"
  by (auto simp: Match_def hasSuffix_iff)

lemma matchesAny_iff: "matchesAny ps v \<longleftrightarrow> (\<exists>p \<in> set ps. Match p v)"
  by (induction ps) auto

subsection \<open>The loop computes the rule\<close>

definition matching :: "AttachedPolicy list \<Rightarrow> iamRequest \<Rightarrow> effect \<Rightarrow> (string \<times> string) list" where
  "matching ps req eff =
     concat (map (\<lambda>p. map (\<lambda>s. (ap_PolicyARN p, s_sid s))
       (filter (\<lambda>s. matches s req \<and> s_effect s = eff) (statementsOf (ap_Document p)))) ps)"

text \<open>The rule: the first deny in the list, else the first allow, else nothing.\<close>

definition referenceDecision :: "AttachedPolicy list \<Rightarrow> iamRequest \<Rightarrow> Decision" where
  "referenceDecision ps req =
     (case matching ps req EFFECT_DENY of
        (a, s) # _ \<Rightarrow> \<lparr>dc_Effect = DECISION_EXPLICIT_DENY, dc_PolicyARN = a, dc_SID = s\<rparr>
      | [] \<Rightarrow>
          (case matching ps req EFFECT_ALLOW of
             (a, s) # _ \<Rightarrow> \<lparr>dc_Effect = DECISION_ALLOW, dc_PolicyARN = a, dc_SID = s\<rparr>
           | [] \<Rightarrow> \<lparr>dc_Effect = DECISION_IMPLICIT_DENY, dc_PolicyARN = [], dc_SID = []\<rparr>))"

definition firstAllow :: "Decision option \<Rightarrow> (string \<times> string) list \<Rightarrow> Decision option" where
  "firstAllow allow ms =
     (case allow of Some d \<Rightarrow> Some d
      | None \<Rightarrow> (case ms of [] \<Rightarrow> None | (a, s) # _ \<Rightarrow> Some \<lparr>dc_Effect = DECISION_ALLOW, dc_PolicyARN = a, dc_SID = s\<rparr>))"

definition denied :: "(string \<times> string) list \<Rightarrow> Decision option" where
  "denied ms = (case ms of [] \<Rightarrow> None
     | (a, s) # _ \<Rightarrow> Some \<lparr>dc_Effect = DECISION_EXPLICIT_DENY, dc_PolicyARN = a, dc_SID = s\<rparr>)"

lemma firstAllow_append: "firstAllow (firstAllow allow xs) ys = firstAllow allow (xs @ ys)"
  by (auto simp: firstAllow_def split: option.split list.split)

lemma denied_append: "denied (xs @ ys) = (case denied xs of None \<Rightarrow> denied ys | Some d \<Rightarrow> Some d)"
  by (auto simp: denied_def split: list.split)

lemma evalStatements_rule:
  "evalStatements pARN req sts allow =
     (let ms = (\<lambda>eff. map (\<lambda>s. (pARN, s_sid s)) (filter (\<lambda>s. matches s req \<and> s_effect s = eff) sts)) in
      case denied (ms EFFECT_DENY) of Some d \<Rightarrow> Inl d | None \<Rightarrow> Inr (firstAllow allow (ms EFFECT_ALLOW)))"
  by (induction sts arbitrary: allow)
     (auto simp: Let_def denied_def firstAllow_def split: effect.split option.split list.split)

lemma evalPolicies_rule:
  "evalPolicies req ps allow =
     (case denied (matching ps req EFFECT_DENY) of
        Some d \<Rightarrow> Inl d | None \<Rightarrow> Inr (firstAllow allow (matching ps req EFFECT_ALLOW)))"
proof (induction ps arbitrary: allow)
  case Nil
  then show ?case by (simp add: matching_def denied_def firstAllow_def split: option.split)
next
  case (Cons p ps)
  have m: "matching (p # ps) req eff = map (\<lambda>s. (ap_PolicyARN p, s_sid s))
       (filter (\<lambda>s. matches s req \<and> s_effect s = eff) (statementsOf (ap_Document p))) @ matching ps req eff" for eff
    by (simp add: matching_def)
  show ?case
    by (simp add: evalStatements_rule Cons.IH m denied_append firstAllow_append Let_def split: option.split)
qed

lemma Evaluate_reference: "Evaluate ps req = referenceDecision ps req"
  by (auto simp: Evaluate_def referenceDecision_def evalPolicies_rule denied_def firstAllow_def
      split: list.split option.split)

lemma matching_iff:
  "matching ps req eff \<noteq> [] \<longleftrightarrow>
     (\<exists>p \<in> set ps. \<exists>s \<in> set (statementsOf (ap_Document p)). matches s req \<and> s_effect s = eff)"
  by (auto simp: matching_def filter_empty_conv)

lemma Evaluate_effect:
  "dc_Effect (Evaluate ps req) =
     (if matching ps req EFFECT_DENY \<noteq> [] then DECISION_EXPLICIT_DENY
      else if matching ps req EFFECT_ALLOW \<noteq> [] then DECISION_ALLOW else DECISION_IMPLICIT_DENY)"
  by (auto simp: Evaluate_reference referenceDecision_def split: list.split)

lemma Evaluate_allow_iff:
  "dc_Effect (Evaluate ps req) = DECISION_ALLOW \<longleftrightarrow>
     (\<exists>p \<in> set ps. \<exists>s \<in> set (statementsOf (ap_Document p)). matches s req \<and> s_effect s = EFFECT_ALLOW) \<and>
     \<not> (\<exists>p \<in> set ps. \<exists>s \<in> set (statementsOf (ap_Document p)). matches s req \<and> s_effect s = EFFECT_DENY)"
  unfolding matching_iff [symmetric] by (simp add: Evaluate_effect)

subsection \<open>Properties\<close>

text \<open>C3: the evaluation loop with its early return computes the rule: the first matching deny across all policies
  decides, else the first matching allow, else the implicit deny; and what decides does not
  depend on the order in which the policies came back. An unspecified or unknown effect
  never grants.\<close>
theorem evaluate_is_the_rule:
  "Evaluate ps req = referenceDecision ps req \<and>
   (mset ps' = mset ps \<longrightarrow> dc_Effect (Evaluate ps' req) = dc_Effect (Evaluate ps req)) \<and>
   (dc_Effect (Evaluate ps req) = DECISION_ALLOW \<longleftrightarrow>
     (\<exists>p \<in> set ps. \<exists>s \<in> set (statementsOf (ap_Document p)). matches s req \<and> s_effect s = EFFECT_ALLOW) \<and>
     \<not> (\<exists>p \<in> set ps. \<exists>s \<in> set (statementsOf (ap_Document p)). matches s req \<and> s_effect s = EFFECT_DENY))"
proof -
  have "dc_Effect (Evaluate ps' req) = dc_Effect (Evaluate ps req)" if "mset ps' = mset ps"
    unfolding Evaluate_effect matching_iff using mset_eq_setD [OF that] by simp
  then show ?thesis using Evaluate_reference Evaluate_allow_iff by blast
qed

definition denyKeys :: AttachedPolicy where
  "denyKeys = \<lparr>ap_PolicyARN = ''arn:dariya:iam:hind-1:000000000001:policy/no-keys'',
     ap_Document = Some [\<lparr>s_sid = ''NoKeys'', s_effect = EFFECT_DENY, s_actions = [''iam:CreateAccessKey''],
       s_resources = [''*'']\<rparr>]\<rparr>"

definition allowIam :: AttachedPolicy where
  "allowIam = \<lparr>ap_PolicyARN = ''arn:dariya:iam:hind-1:000000000001:policy/admin'',
     ap_Document = Some [\<lparr>s_sid = ''Admin'', s_effect = EFFECT_ALLOW, s_actions = [''iam:*''],
       s_resources = [''arn:dariya:iam:hind-1:000000000001:*'']\<rparr>]\<rparr>"

lemma evaluate_is_the_rule_witness:
  "dc_Effect (Evaluate [denyKeys, allowIam]
     \<lparr>rq_Action = ''iam:CreateAccessKey'', rq_ResourceARN = ''arn:dariya:iam:hind-1:000000000001:account/a''\<rparr>) =
   dc_Effect (Evaluate [allowIam, denyKeys]
     \<lparr>rq_Action = ''iam:CreateAccessKey'', rq_ResourceARN = ''arn:dariya:iam:hind-1:000000000001:account/a''\<rparr>)"
  using evaluate_is_the_rule [of "[allowIam, denyKeys]" _ "[denyKeys, allowIam]"] by (simp add: add_mset_commute)

text \<open>A pattern matches a value exactly when it is the value, or ends in a star whose stem the value begins with;
  a star anywhere else is a literal.\<close>
theorem match_pattern_language:
  "Match pattern value \<longleftrightarrow> pattern = value \<or> (\<exists>p. pattern = p @ ''*'' \<and> hasPrefix value p)"
  by (rule Match_iff)

end
