(* ===== verification/Authz.thy ===== *)
theory Authz
  imports Router Iam_Policy
begin

text \<open>
  The authorization middleware (\<open>internal/authz/authz.go\<close>). The decider, the target of a route and the
  optional minter are the three functions of its configuration, as in the code; a decider and a
  minter may read and change the rest of the program's state.
\<close>

record 's AuthzConfig =
  az_Decide :: "AuthorizeRequest \<Rightarrow> ('s, err + AuthorizeResponse) state"
  az_Target :: "request \<Rightarrow> Principal \<Rightarrow> err + Target"
  az_Mint :: "(Claims \<Rightarrow> ('s, err + SignedCapability) state) option"
  az_Dev :: bool

definition decisionName :: "decisionEffect \<Rightarrow> string" where
  "decisionName d = (case d of
      DECISION_UNSPECIFIED \<Rightarrow> ''DECISION_UNSPECIFIED'' | DECISION_ALLOW \<Rightarrow> ''DECISION_ALLOW''
    | DECISION_EXPLICIT_DENY \<Rightarrow> ''DECISION_EXPLICIT_DENY'' | DECISION_IMPLICIT_DENY \<Rightarrow> ''DECISION_IMPLICIT_DENY'')"

definition authz_denied :: "Target \<Rightarrow> AuthorizeResponse \<Rightarrow> bool \<Rightarrow> err" where
  "authz_denied target resp dev =
     ApiErr CodeAccessDenied (''not authorized to perform %s on %s'', [AStr (tg_Action target), AStr (tg_ResourceARN target)]) []
       (if dev then [(''decision'', decisionName (as_Decision resp)), (''matched_policy'', as_MatchedPolicyArn resp),
                     (''matched_sid'', as_MatchedSid resp), (''reason'', as_Reason resp)] else [])
       None"

definition claimsFor :: "request \<Rightarrow> Principal \<Rightarrow> Target \<Rightarrow> Claims" where
  "claimsFor r p target =
     \<lparr>cl_AccountID = pr_AccountId p, cl_CallerAccountID = [], cl_PrincipalARN = pr_PrincipalArn p,
      cl_Action = tg_Action target, cl_ResourceARN = tg_ResourceARN target, cl_RequestID = RequestID r\<rparr>"

definition authorizeRequestFor :: "request \<Rightarrow> Principal \<Rightarrow> Target \<Rightarrow> AuthorizeRequest" where
  "authorizeRequestFor r p target =
     \<lparr>aq_AccountId = pr_AccountId p, aq_PrincipalArn = pr_PrincipalArn p, aq_Action = tg_Action target,
      aq_ResourceArn = tg_ResourceARN target, aq_RequestId = RequestID r\<rparr>"

definition authzMiddleware :: "wire \<Rightarrow> 's AuthzConfig \<Rightarrow> ('m, 's) middleware" where
  "authzMiddleware w cfg next r =
     (case PrincipalFrom r of
        None \<Rightarrow> WriteError r (Internal None ''internal failure'' []) (az_Dev cfg)
      | Some p \<Rightarrow>
     (case az_Target cfg r p of
        Inl e \<Rightarrow> WriteError r (Internal (Some e) ''internal failure'' []) (az_Dev cfg)
      | Inr target \<Rightarrow> do {
     resp \<leftarrow> inState (az_Decide cfg (authorizeRequestFor r p target));
     case resp of
       Inl e \<Rightarrow> WriteError r e (az_Dev cfg)
     | Inr resp \<Rightarrow>
         if as_Decision resp \<noteq> DECISION_ALLOW then WriteError r (authz_denied target resp (az_Dev cfg)) (az_Dev cfg)
         else (case az_Mint cfg of
           None \<Rightarrow> next r
         | Some mint \<Rightarrow> do {
             token \<leftarrow> inState (mint (claimsFor r p target));
             case token of
               Inl e \<Rightarrow> WriteError r (Internal (Some e) ''internal failure'' []) (az_Dev cfg)
             | Inr token \<Rightarrow>
                 (case marshalToken w token of
                    None \<Rightarrow> WriteError r (Internal (Some (Sentinel ''string field contains invalid UTF-8''))
                              ''internal failure'' []) (az_Dev cfg)
                  | Some encoded \<Rightarrow>
                      next (WithCapability token
                        (r\<lparr>hr_Header := header_Set CapabilityHeader (stdEncode encoded) (hr_Header r)\<rparr>)))
           })
     }))"

text \<open>The verdict alone: the error to answer with, or the request that is passed on.\<close>

definition authzVerdict :: "wire \<Rightarrow> 's AuthzConfig \<Rightarrow> request \<Rightarrow> ('s, err + request) state" where
  "authzVerdict w cfg r =
     (case PrincipalFrom r of None \<Rightarrow> ret (Inl (Internal None ''internal failure'' []))
      | Some p \<Rightarrow> (case az_Target cfg r p of Inl e \<Rightarrow> ret (Inl (Internal (Some e) ''internal failure'' []))
      | Inr target \<Rightarrow> do {
          resp \<leftarrow> az_Decide cfg (authorizeRequestFor r p target);
          case resp of Inl e \<Rightarrow> ret (Inl e)
          | Inr resp \<Rightarrow>
              if as_Decision resp \<noteq> DECISION_ALLOW then ret (Inl (authz_denied target resp (az_Dev cfg)))
              else (case az_Mint cfg of None \<Rightarrow> ret (Inr r)
                | Some mint \<Rightarrow> do {
                    token \<leftarrow> mint (claimsFor r p target);
                    case token of Inl e \<Rightarrow> ret (Inl (Internal (Some e) ''internal failure'' []))
                    | Inr token \<Rightarrow>
                        (case marshalToken w token of
                           None \<Rightarrow> ret (Inl (Internal (Some (Sentinel ''string field contains invalid UTF-8'')) ''internal failure'' []))
                         | Some encoded \<Rightarrow> ret (Inr (WithCapability token
                             (r\<lparr>hr_Header := header_Set CapabilityHeader (stdEncode encoded) (hr_Header r)\<rparr>))))
                  })
        }))"

lemma run_authz:
  "run (authzMiddleware w cfg next r) (rw, s) =
     (case run (authzVerdict w cfg r) s of
        (Inl e, s') \<Rightarrow> run (WriteError r e (az_Dev cfg)) (rw, s')
      | (Inr r', s') \<Rightarrow> run (next r') (rw, s'))"
  by (auto simp: authzMiddleware_def authzVerdict_def split: option.splits sum.splits prod.splits)

lemma authzVerdict_pass:
  "run (authzVerdict w cfg r) s = (Inr r', s') \<longleftrightarrow>
     (\<exists>p tg resp s1. PrincipalFrom r = Some p \<and> az_Target cfg r p = Inr tg \<and>
        run (az_Decide cfg (authorizeRequestFor r p tg)) s = (Inr resp, s1) \<and> as_Decision resp = DECISION_ALLOW \<and>
        (case az_Mint cfg of None \<Rightarrow> r' = r \<and> s' = s1
         | Some mint \<Rightarrow> (\<exists>token encoded. run (mint (claimsFor r p tg)) s1 = (Inr token, s') \<and>
             marshalToken w token = Some encoded \<and>
             r' = WithCapability token (r\<lparr>hr_Header := header_Set CapabilityHeader (stdEncode encoded) (hr_Header r)\<rparr>))))"
  by (auto simp: authzVerdict_def split: option.splits sum.splits prod.splits if_splits)

lemma authz_target_error:
  assumes "PrincipalFrom r = Some p" "az_Target cfg r p = Inl e"
  shows "run (authzMiddleware w cfg next r) (rw, s) =
    run (WriteError r (Internal (Some e) ''internal failure'' []) (az_Dev cfg)) (rw, s)"
  using assms by (simp add: authzMiddleware_def)

subsection \<open>Properties\<close>

text \<open>An authenticated request for a path that no route covers is answered with a 500 and the code
  \<open>InternalFailure\<close>, not with the \<open>ResourceNotFound\<close> that the route table returns for it: the
  middleware wraps every error of the table as an internal failure. A path that names no
  resource, or a name with a colon or a star, ends the same way.\<close>
theorem unroutable_path_is_a_500:
  assumes "PrincipalFrom r = Some p" "az_Target cfg = TargetFor t" "table_Match t r = None"
    "rw_status rw = 0" "rw_body rw = []"
  shows "\<exists>rw'. run (authzMiddleware w cfg next r) (rw, s) = (Done, (rw', s)) \<and> rw_status rw' = 500 \<and>
    rw_body rw' = [ErrBody \<lparr>we_code = CodeInternal, we_message = (''internal failure'', []),
      we_request_id = RequestID r, we_details = []\<rparr>]"
proof -
  have "az_Target cfg r p = Inl (NotFound ''no route for %s %s'' [AStr (hr_Method r), AStr (hr_Path r)])"
    using assms(2,3) by (simp add: TargetFor_def)
  with assms(1,4,5) show ?thesis
    by (simp add: authz_target_error run_WriteError errorBody_def) (simp add: Internal_def)
qed

definition denyAll :: "AuthorizeRequest \<Rightarrow> (unit, err + AuthorizeResponse) state" where
  "denyAll q = ret (Inr \<lparr>as_Decision = DECISION_IMPLICIT_DENY, as_MatchedPolicyArn = [], as_MatchedSid = [], as_Reason = []\<rparr>)"

lemma unroutable_path_is_a_500_witness:
  "\<exists>rw'. run (authzMiddleware sampleWire \<lparr>az_Decide = denyAll, az_Target = TargetFor sampleTable, az_Mint = None, az_Dev = False\<rparr>
       (\<lambda>_. ret Done)
       (sampleHttpRequest\<lparr>hr_Path := ''/nowhere'', hr_Ctx := emptyCtx\<lparr>cx_Principal := Some samplePrincipal\<rparr>\<rparr>))
     (emptyRw :: unit rw, ()) = (Done, (rw', ())) \<and> rw_status rw' = 500"
proof -
  let ?r = "sampleHttpRequest\<lparr>hr_Path := ''/nowhere'', hr_Ctx := emptyCtx\<lparr>cx_Principal := Some samplePrincipal\<rparr>\<rparr>"
  let ?cfg = "\<lparr>az_Decide = denyAll, az_Target = TargetFor sampleTable, az_Mint = None, az_Dev = False\<rparr>"
  have "table_Match sampleTable ?r = None"
    by (simp add: table_Match_def sampleTable_def sampleHttpRequest_def matchesPrefix_def)
  then show ?thesis
    using unroutable_path_is_a_500 [of ?r samplePrincipal ?cfg sampleTable "emptyRw :: unit rw" sampleWire "\<lambda>_. ret Done" "()"]
    by (auto simp: PrincipalFrom_def emptyRw_def)
qed

end
