(* ===== verification/Process.thy ===== *)
theory Process
  imports Control Authz
begin

text \<open>
  The front door's process and the credential cache (\<open>internal/control/keycache.go\<close>).

  The process adds to the world the two caches that live as long as it does: the one in front of
  the credential lookup and the one in front of the policy lookup. An operation of the world
  runs in the process as it is; \<open>withKeyCache\<close> and \<open>withPolicyCache\<close> run an operation of a cache
  over the process that the cache is part of.
\<close>

record process = world +
  p_keyCache :: "SigningKey cache"
  p_policyCache :: "AttachedPolicy list cache"

definition withKeyCache :: "(SigningKey cache \<times> process, 'a) state \<Rightarrow> (process, 'a) state" where
  "withKeyCache m = State (\<lambda>p. case run m (p_keyCache p, p) of (a, (c, p')) \<Rightarrow> (a, p'\<lparr>p_keyCache := c\<rparr>))"

definition withPolicyCache :: "(AttachedPolicy list cache \<times> process, 'a) state \<Rightarrow> (process, 'a) state" where
  "withPolicyCache m = State (\<lambda>p. case run m (p_policyCache p, p) of (a, (c, p')) \<Rightarrow> (a, p'\<lparr>p_policyCache := c\<rparr>))"

lemma run_withKeyCache:
  "run (withKeyCache m) p = (case run m (p_keyCache p, p) of (a, (c, p')) \<Rightarrow> (a, p'\<lparr>p_keyCache := c\<rparr>))"
  by (simp add: withKeyCache_def)

lemma run_withPolicyCache:
  "run (withPolicyCache m) p = (case run m (p_policyCache p, p) of (a, (c, p')) \<Rightarrow> (a, p'\<lparr>p_policyCache := c\<rparr>))"
  by (simp add: withPolicyCache_def)

lemma popFault_process [simp]:
  "p_keyCache (popFault p) = p_keyCache p" "p_policyCache (popFault p) = p_policyCache p"
  "nextFault (p\<lparr>p_keyCache := c\<rparr>) = nextFault p" "nextFault (p\<lparr>p_policyCache := c'\<rparr>) = nextFault p"
  "popFault (p\<lparr>p_keyCache := c\<rparr>) = popFault p\<lparr>p_keyCache := c\<rparr>"
  "popFault (p\<lparr>p_policyCache := c'\<rparr>) = popFault p\<lparr>p_policyCache := c'\<rparr>"
  by (simp_all add: popFault_def nextFault_def)

subsection \<open>The caching resolver\<close>

definition isNotFound :: "err \<Rightarrow> bool" where
  "isNotFound e = (case asApi e of None \<Rightarrow> False | Some a \<Rightarrow> eCode a = CodeNotFound)"

record CacheOptions =
  co_TTL :: duration
  co_NegativeTTL :: duration
  co_MaxEntries :: int

definition NewCachingResolver :: "CacheOptions \<Rightarrow> SigningKey cache" where
  "NewCachingResolver opts =
     cache_New \<lparr>o_TTL = co_TTL opts, o_NegativeTTL = co_NegativeTTL opts, o_MaxEntries = co_MaxEntries opts,
       o_IsNegative = Some isNotFound\<rparr>"

definition cachedResolve :: "aead \<Rightarrow> Keyring \<Rightarrow> string \<Rightarrow> (process, err + SigningKey) state" where
  "cachedResolve g kr accessKeyID = withKeyCache (cache_Get w_now (ResolveSigningKey g kr) accessKeyID)"

definition resolver_Invalidate :: "string \<Rightarrow> (process, unit) state" where
  "resolver_Invalidate accessKeyID = modify (\<lambda>p. p\<lparr>p_keyCache := cache_Invalidate accessKeyID (p_keyCache p)\<rparr>)"

definition resolver_Stats :: "process \<Rightarrow> cacheStats" where
  "resolver_Stats p = cache_Stats (p_keyCache p)"

lemma ResolveSigningKey_final: "final_of (ResolveSigningKey g kr i) w = popFault w"
  by (simp add: ResolveSigningKey_run split: option.split)

lemma ResolveSigningKey_result:
  "result_of (ResolveSigningKey g kr i) w = signingTruth g kr (w_db w) i \<or>
   (\<exists>e. result_of (ResolveSigningKey g kr i) w = Inl e \<and> \<not> isNotFound e)"
  by (auto simp: ResolveSigningKey_run isNotFound_def code_defs split: option.split)

interpretation key_source: cached_source "ResolveSigningKey g kr :: string \<Rightarrow> (process, err + SigningKey) state"
    "\<lambda>w. signingTruth g kr (w_db w)" w_now isNotFound
  for g kr
  by unfold_locales (rule ResolveSigningKey_result, simp add: ResolveSigningKey_final)

text \<open>Every entry of the credential cache is what the tables say now.\<close>

definition keysCoherent :: "aead \<Rightarrow> Keyring \<Rightarrow> process \<Rightarrow> bool" where
  "keysCoherent g kr p \<longleftrightarrow> wf_cache (p_keyCache p) \<and> c_isNegative (p_keyCache p) = isNotFound \<and>
     (\<forall>k e. lookup (c_entries (p_keyCache p)) k = Some e \<longrightarrow> en_result e = signingTruth g kr (w_db p) k)"

lemma keysCoherent_source: "keysCoherent g kr p \<longleftrightarrow> key_source.coherent g kr (p_keyCache p) p"
  by (simp add: keysCoherent_def key_source.coherent_def)

lemma keysCoherent_New:
  "p_keyCache p = NewCachingResolver opts \<Longrightarrow> keysCoherent g kr p"
  by (simp add: keysCoherent_source NewCachingResolver_def key_source.coherent_New)

lemma cache_Get_keeps_process:
  assumes "\<And>k. final_of (load k) p = popFault (p :: process)"
    "run (cache_Get w_now load i) (c, p) = (r, (c', p'))"
  shows "p' = p \<or> p' = popFault p"
  using assms(2) assms(1) [of i] by (auto simp: run_Get split: option.splits prod.splits)

lemma cachedResolve_run:
  assumes "keysCoherent g kr p" "run (cachedResolve g kr i) p = (r, p')"
  shows "r = signingTruth g kr (w_db p) i \<or> (\<exists>e. r = Inl e \<and> \<not> isNotFound e)" "keysCoherent g kr p'"
    "w_db p' = w_db p" "w_entropy p' = w_entropy p" "w_now p' = w_now p" "p_policyCache p' = p_policyCache p"
proof -
  obtain c q where g: "run (cache_Get w_now (ResolveSigningKey g kr) i) (p_keyCache p, p) = (r, (c, q))"
    and p': "p' = q\<lparr>p_keyCache := c\<rparr>"
    using assms(2) by (auto simp: cachedResolve_def run_withKeyCache split: prod.splits)
  note co = key_source.Get_coherent [OF assms(1) [unfolded keysCoherent_source] g]
  have "q = p \<or> q = popFault p"
    using cache_Get_keeps_process [OF _ g] by (simp add: ResolveSigningKey_final)
  then show "w_db p' = w_db p" "w_entropy p' = w_entropy p" "w_now p' = w_now p" "p_policyCache p' = p_policyCache p"
    unfolding p' by auto
  show "r = signingTruth g kr (w_db p) i \<or> (\<exists>e. r = Inl e \<and> \<not> isNotFound e)" using co(3) .
  show "keysCoherent g kr p'" using co(1) unfolding keysCoherent_source p'
    by (simp add: key_source.coherent_def)
qed

subsection \<open>Properties\<close>

text \<open>C21: the credential cache is transparent on the process that serves every change: while it agrees with the
  tables, a lookup through it answers what the tables say or fails with an error that is not
  an answer, and leaves tables and agreement as they were. Deleting a key with the cache's
  callback registered keeps the agreement, and from then on the key resolves to nothing.\<close>
theorem revocation_is_immediate:
  assumes "keysCoherent g kr p" "run (cachedResolve g kr i) p = (r, p')"
    "run (DeleteAccessKey (Some resolver_Invalidate) j) p = (Inr (), q)"
  shows "(r = signingTruth g kr (w_db p) i \<or> (\<exists>e. r = Inl e \<and> \<not> isNotFound e)) \<and> w_db p' = w_db p \<and> keysCoherent g kr p' \<and>
    keysCoherent g kr q \<and> (\<exists>e. result_of (cachedResolve g kr j) q = Inl e)"
proof -
  note a = cachedResolve_run [OF assms(1,2)]
  let ?d = "(w_db p)\<lparr>d_keys := filter (\<lambda>r. ak_id r \<noteq> j) (d_keys (w_db p))\<rparr>"
  have q: "q = popFault (p\<lparr>w_db := ?d\<rparr>)\<lparr>p_keyCache := cache_Invalidate j (p_keyCache p)\<rparr>"
    using assms(3) by (auto simp: DeleteAccessKey_run resolver_Invalidate_def popFault_def split: if_splits option.splits)
  have d: "keyById k ?d = (if k = j then None else keyById k (w_db p))" for k
    using keyById_deleteKey [of j "w_db p" _ ?d k] by (simp add: deleteKeyRow_def)
  have wq: "w_db q = ?d" by (simp add: q)
  have "signingTruth g kr (w_db q) k = signingTruth g kr (w_db p) k" if "k \<noteq> j" for k
    by (rule signingTruth_cong) (simp only: wq d that if_False)
  note co = key_source.Invalidate_coherent [OF assms(1) [unfolded keysCoherent_source] this]
  have kc: "keysCoherent g kr q" using co unfolding keysCoherent_source by (simp add: q)
  obtain r2 q2 where r2: "run (cachedResolve g kr j) q = (r2, q2)" by fastforce
  have "signingTruth g kr (w_db q) j = Inl (NotFound ''no access key %s'' [AStr j])"
    using d [of j] by (simp add: wq signingTruth_def)
  then have "\<exists>e. r2 = Inl e" using cachedResolve_run(1) [OF kc r2] by auto
  with a kc r2 show ?thesis by simp
qed

text \<open>A process over the sample world in which an account and a key were created, with empty caches.\<close>

definition plainCacheOptions :: CacheOptions where
  "plainCacheOptions = \<lparr>co_TTL = 0, co_NegativeTTL = 0, co_MaxEntries = 0\<rparr>"

definition sampleProcess :: process where
  "sampleProcess = \<lparr>w_db = w_db sampleWorld3, w_faults = [], w_entropy = replicate 200 CHR ''x'', w_now = w_now sampleWorld3,
     p_keyCache = NewCachingResolver plainCacheOptions, p_policyCache = cache_New plainOptions\<rparr>"

definition sampleKeyID :: string where "sampleKeyID = ''DARIYAKEYSSSSSSSSSSSSBBBB''"

lemma revocation_is_immediate_witness:
  "\<exists>q e. run (DeleteAccessKey (Some resolver_Invalidate) sampleKeyID) sampleProcess = (Inr (), q) \<and>
     result_of (cachedResolve sampleAead sampleKeyring sampleKeyID) q = Inl e"
proof -
  have co: "keysCoherent sampleAead sampleKeyring sampleProcess"
    by (rule keysCoherent_New) (simp add: sampleProcess_def)
  have "\<not> isl (result_of (DeleteAccessKey (Some resolver_Invalidate) sampleKeyID) sampleProcess)"
    by code_simp
  then obtain q where q: "run (DeleteAccessKey (Some resolver_Invalidate) sampleKeyID) sampleProcess = (Inr (), q)"
    by (cases "result_of (DeleteAccessKey (Some resolver_Invalidate) sampleKeyID) sampleProcess") (auto simp: prod_eq_iff)
  obtain r p' where "run (cachedResolve sampleAead sampleKeyring sampleKeyID) sampleProcess = (r, p')" by fastforce
  with revocation_is_immediate [OF co this q] q show ?thesis by blast
qed

end
