(* ===== verification/Iam_Server.thy ===== *)
theory Iam_Server
  imports Process
begin

text \<open>
  The policy store and the authorizer (\<open>internal/iam/server.go\<close>, \<open>authorize.go\<close>): creating, reading, listing and
  deleting policies, attaching them to principals, and the authorization question over the
  cached policies of a principal.

  A document is stored as protojson in a JSONB column. The encoder and the decoder (as reading the column
  back sees it) are parameters, \<open>docCodec\<close>; what the code relies on is that they round-trip.
\<close>

subsection \<open>Messages\<close>

record PolicyDocument =
  pd_Version :: string
  pd_Statements :: "statement list"

record docCodec =
  dj_Marshal :: "PolicyDocument \<Rightarrow> bytes option"
  dj_Unmarshal :: "bytes \<Rightarrow> PolicyDocument option"

definition json_ok :: "docCodec \<Rightarrow> bool" where
  "json_ok dj \<longleftrightarrow> (\<forall>d b. dj_Marshal dj d = Some b \<longrightarrow> dj_Unmarshal dj b = Some d)"

record Policy =
  pl_PolicyArn :: string
  pl_AccountId :: string
  pl_Name :: string
  pl_Document :: PolicyDocument
  pl_CreatedAtUnixMs :: int

record CreatePolicyRequest =
  cpr_AccountId :: string
  cpr_Name :: string
  cpr_Document :: "PolicyDocument option"
  cpr_ClientToken :: string

definition DocumentVersion :: string where "DocumentVersion = ''2026-09-01''"

definition PolicyARN :: "string \<Rightarrow> string \<Rightarrow> string \<Rightarrow> string" where
  "PolicyARN region accountID name = ''arn:dariya:iam:'' @ region @ '':'' @ accountID @ '':policy/'' @ name"

definition iam_validateName :: "string \<Rightarrow> err option" where
  "iam_validateName name =
     (if name = [] then Some (Validation ''name is required'' [])
      else if length name > 64 then
        Some (Validation ''name must be at most 64 characters, got %d'' [ANum (int (length name))])
      else None)"

text \<open>The errors of the protobuf library are opaque.\<close>

definition ErrProtojson :: err where "ErrProtojson = Sentinel ''proto: syntax error''"

subsection \<open>Reading policies\<close>

definition scanPolicy :: "docCodec \<Rightarrow> policy_row \<Rightarrow> err + Policy" where
  "scanPolicy dj row =
     (case dj_Unmarshal dj (po_document row) of
        None \<Rightarrow> Inl (Internal (Some ErrProtojson) ''policy %s could not be decoded'' [AStr (po_arn row)])
      | Some doc \<Rightarrow> Inr \<lparr>pl_PolicyArn = po_arn row, pl_AccountId = po_account row, pl_Name = po_name row,
          pl_Document = doc, pl_CreatedAtUnixMs = po_created row\<rparr>)"

definition getPolicy :: "docCodec \<Rightarrow> string \<Rightarrow> ('w world_scheme, err + Policy) state" where
  "getPolicy dj policyARN = do {
     r \<leftarrow> sql (queryRow (policyByArn policyARN));
     case r of
       Inl e \<Rightarrow> (if errorsIs e ErrNoRows then ret (Inl (NotFound ''no policy %s'' [AStr policyARN]))
                 else ret (Inl (Internal (Some e) ''could not scan a policy'' [])))
     | Inr row \<Rightarrow> ret (scanPolicy dj row)
   }"

definition GetPolicy :: "docCodec \<Rightarrow> string \<Rightarrow> ('w world_scheme, err + Policy) state" where
  "GetPolicy dj policyARN = getPolicy dj policyARN"

fun scanPolicies :: "docCodec \<Rightarrow> policy_row list \<Rightarrow> err + Policy list" where
  "scanPolicies dj [] = Inr []"
| "scanPolicies dj (r # rs) =
     (case scanPolicy dj r of
        Inl e \<Rightarrow> Inl e
      | Inr p \<Rightarrow> (case scanPolicies dj rs of Inl e \<Rightarrow> Inl e | Inr ps \<Rightarrow> Inr (p # ps)))"

definition ListPolicies ::
  "docCodec \<Rightarrow> (string \<Rightarrow> 'c::linorder) \<Rightarrow> string \<Rightarrow> int \<Rightarrow> string \<Rightarrow> ('w world_scheme, err + Policy list \<times> string) state" where
  "ListPolicies dj ck accountId maxResults nextToken =
     (case ValidateAccountID accountId of
        Some e \<Rightarrow> ret (Inl (Validation ''account_id must be 12 digits'' []))
      | None \<Rightarrow>
     (case page_Limit maxResults of
        Inl e \<Rightarrow> ret (Inl e)
      | Inr limit \<Rightarrow>
     (case page_Decode nextToken of
        Inl e \<Rightarrow> ret (Inl e)
      | Inr after \<Rightarrow> do {
          rows \<leftarrow> sql (queryRows (\<lambda>d. keysetQuery ck po_arn (filter (\<lambda>r. po_account r = accountId) (d_policies d)) after (limit + 1)));
          case rows of
            Inl e \<Rightarrow> ret (Inl (Internal (Some e) ''could not list policies'' []))
          | Inr rows \<Rightarrow>
              (case scanPolicies dj rows of
                 Inl e \<Rightarrow> ret (Inl e)
               | Inr policies \<Rightarrow>
                   if length policies > limit
                   then ret (Inr (take limit policies, page_Encode (pl_PolicyArn (take limit policies ! (limit - 1)))))
                   else ret (Inr (policies, [])))
        })))"

subsection \<open>Creating a policy\<close>

definition insertPolicy :: "policy_row \<Rightarrow> db \<Rightarrow> err + unit \<times> db" where
  "insertPolicy r d =
     (if policyByArn (po_arn r) d \<noteq> None then Inl (PgErr pgUniqueViolation)
      else if list_ex (\<lambda>x. po_account x = po_account r \<and> po_name x = po_name r) (d_policies d) then Inl (PgErr pgUniqueViolation)
      else if accountById (po_account r) d = None then Inl (PgErr pgForeignKeyViolation)
      else Inr ((), d\<lparr>d_policies := d_policies d @ [r]\<rparr>))"

definition withVersion :: "PolicyDocument \<Rightarrow> PolicyDocument" where
  "withVersion doc = (if pd_Version doc = [] then doc\<lparr>pd_Version := DocumentVersion\<rparr> else doc)"

text \<open>The transaction, once the row is known: the token is claimed before the policy is inserted.\<close>

definition storePolicy :: "docCodec \<Rightarrow> policy_row \<Rightarrow> PolicyDocument \<Rightarrow> string \<Rightarrow> ('w world_scheme, err + Policy) state" where
  "storePolicy dj row doc token = do {
     tx \<leftarrow> tx_Begin;
     case tx of
       Inl e \<Rightarrow> ret (Inl (Internal (Some e) ''could not begin transaction'' []))
     | Inr snap \<Rightarrow> do {
         tag \<leftarrow> (if token = [] then ret (Inr 1)
                else sql (insertIdem \<lparr>id_operation = ''CreatePolicy'', id_token = token, id_result = po_arn row, id_created = po_created row\<rparr>));
         case tag of
           Inl e \<Rightarrow> failTx snap (Internal (Some e) ''could not record idempotency token'' [])
         | Inr n \<Rightarrow>
             if n = 0 then do {
               tx_Rollback snap;
               prior \<leftarrow> sql (queryRow (idemById ''CreatePolicy'' token));
               case prior of
                 Inl e \<Rightarrow> ret (Inl (Internal (Some e) ''could not read idempotency token'' []))
               | Inr idem \<Rightarrow> getPolicy dj (id_result idem)
             }
             else do {
               ins \<leftarrow> sql (insertPolicy row);
               case ins of
                 Inl e \<Rightarrow> failTx snap (if isUniqueViolation e
                     then AlreadyExists ''account %s already has a policy named %q'' [AStr (po_account row), AStr (po_name row)]
                     else Internal (Some e) ''could not store the policy'' [])
               | Inr _ \<Rightarrow> do {
                   c \<leftarrow> tx_Commit snap;
                   case c of
                     Inl e \<Rightarrow> ret (Inl (Internal (Some e) ''could not commit the policy'' []))
                   | Inr _ \<Rightarrow> ret (Inr \<lparr>pl_PolicyArn = po_arn row, pl_AccountId = po_account row, pl_Name = po_name row,
                       pl_Document = doc, pl_CreatedAtUnixMs = po_created row\<rparr>)
                 }
             }
       }
   }"

definition CreatePolicy :: "docCodec \<Rightarrow> string \<Rightarrow> CreatePolicyRequest \<Rightarrow> ('w world_scheme, err + Policy) state" where
  "CreatePolicy dj region req =
     (case ValidateAccountID (cpr_AccountId req) of
        Some e \<Rightarrow> ret (Inl (Validation ''account_id must be 12 digits'' []))
      | None \<Rightarrow>
     (case iam_validateName (cpr_Name req) of
        Some e \<Rightarrow> ret (Inl e)
      | None \<Rightarrow>
     (case ValidateDocument (map_option pd_Statements (cpr_Document req)) of
        Some e \<Rightarrow> ret (Inl (Validation ''%v'' [AErr (Errorf (fst (documentErrorString e)) (snd (documentErrorString e)) None)]))
      | None \<Rightarrow>
     (let doc = withVersion (the (cpr_Document req)) in
      case dj_Marshal dj doc of
        None \<Rightarrow> ret (Inl (Internal (Some ErrProtojson) ''could not encode the policy document'' []))
      | Some encoded \<Rightarrow> do {
          now \<leftarrow> gets w_now;
          storePolicy dj
            \<lparr>po_arn = PolicyARN region (cpr_AccountId req) (cpr_Name req), po_account = cpr_AccountId req, po_name = cpr_Name req,
             po_document = encoded, po_created = unixMilli now\<rparr> doc (cpr_ClientToken req)
        }))))"

subsection \<open>Deleting and attaching\<close>

text \<open>The callback registered with \<open>OnPrincipalChanged\<close>, if any.\<close>

type_synonym 'w callback = "(string \<Rightarrow> ('w world_scheme, unit) state) option"

definition principalChanged :: "'w callback \<Rightarrow> string \<Rightarrow> ('w world_scheme, unit) state" where
  "principalChanged cb principalARN = (case cb of None \<Rightarrow> ret () | Some f \<Rightarrow> f principalARN)"

fun principalsChanged :: "'w callback \<Rightarrow> string list \<Rightarrow> ('w world_scheme, unit) state" where
  "principalsChanged cb [] = ret ()"
| "principalsChanged cb (p # ps) = do { principalChanged cb p; principalsChanged cb ps }"

definition attachedTo :: "string \<Rightarrow> db \<Rightarrow> string list" where
  "attachedTo policyARN d = map at_principal (filter (\<lambda>a. at_policy a = policyARN) (d_attach d))"

definition principalsAttachedTo :: "string \<Rightarrow> ('w world_scheme, err + string list) state" where
  "principalsAttachedTo policyARN = do {
     rows \<leftarrow> sql (queryRows (attachedTo policyARN));
     case rows of
       Inl e \<Rightarrow> ret (Inl (Internal (Some e) ''could not read policy attachments'' []))
     | Inr out \<Rightarrow> ret (Inr out)
   }"

text \<open>Deleting the row of a policy deletes its attachments by the cascade of the schema.\<close>

definition deletePolicyRow :: "string \<Rightarrow> db \<Rightarrow> err + nat \<times> db" where
  "deletePolicyRow a d =
     Inr (length (filter (\<lambda>r. po_arn r = a) (d_policies d)),
          d\<lparr>d_policies := filter (\<lambda>r. po_arn r \<noteq> a) (d_policies d),
            d_attach := filter (\<lambda>r. at_policy r \<noteq> a) (d_attach d)\<rparr>)"

definition DeletePolicy :: "'w callback \<Rightarrow> string \<Rightarrow> ('w world_scheme, err + unit) state" where
  "DeletePolicy cb policyARN = do {
     affected \<leftarrow> principalsAttachedTo policyARN;
     case affected of
       Inl e \<Rightarrow> ret (Inl e)
     | Inr affected \<Rightarrow> do {
         tag \<leftarrow> sql (deletePolicyRow policyARN);
         case tag of
           Inl e \<Rightarrow> ret (Inl (Internal (Some e) ''could not delete the policy'' []))
         | Inr n \<Rightarrow>
             if n = 0 then ret (Inl (NotFound ''no policy %s'' [AStr policyARN]))
             else do { principalsChanged cb affected; ret (Inr ()) }
       }
   }"

definition insertAttachment :: "attach_row \<Rightarrow> db \<Rightarrow> err + unit \<times> db" where
  "insertAttachment r d =
     (if list_ex (\<lambda>x. at_policy x = at_policy r \<and> at_principal x = at_principal r) (d_attach d) then Inr ((), d)
      else if policyByArn (at_policy r) d = None then Inl (PgErr pgForeignKeyViolation)
      else Inr ((), d\<lparr>d_attach := d_attach d @ [r]\<rparr>))"

definition AttachPolicy :: "docCodec \<Rightarrow> 'w callback \<Rightarrow> string \<Rightarrow> string \<Rightarrow> ('w world_scheme, err + unit) state" where
  "AttachPolicy dj cb policyARN principalARN = do {
     policy \<leftarrow> getPolicy dj policyARN;
     case policy of
       Inl e \<Rightarrow> ret (Inl e)
     | Inr policy \<Rightarrow>
     (case arn_Parse principalARN of
        Inl e \<Rightarrow> ret (Inl (Validation ''principal_arn is not a valid ARN: %v'' [AErr e]))
      | Inr pr \<Rightarrow>
          if a_Service pr \<noteq> ''iam'' \<or> (a_Type pr \<noteq> ''user'' \<and> a_Type pr \<noteq> ''role'') then
            ret (Inl (Validation ''principal_arn must name an iam user or role'' []))
          else if a_Account pr \<noteq> pl_AccountId policy then
            ret (Inl (Validation ''policy belongs to account %s and principal to account %s; a policy cannot be attached across accounts''
              [AStr (pl_AccountId policy), AStr (a_Account pr)]))
          else do {
            now \<leftarrow> gets w_now;
            ins \<leftarrow> sql (insertAttachment \<lparr>at_policy = policyARN, at_principal = principalARN, at_created = unixMilli now\<rparr>);
            case ins of
              Inl e \<Rightarrow> ret (Inl (Internal (Some e) ''could not attach the policy'' []))
            | Inr _ \<Rightarrow> do { principalChanged cb principalARN; ret (Inr ()) }
          })
   }"

definition deleteAttachment :: "string \<Rightarrow> string \<Rightarrow> db \<Rightarrow> err + nat \<times> db" where
  "deleteAttachment policyARN principalARN d =
     Inr (length (filter (\<lambda>r. at_policy r = policyARN \<and> at_principal r = principalARN) (d_attach d)),
          d\<lparr>d_attach := filter (\<lambda>r. \<not> (at_policy r = policyARN \<and> at_principal r = principalARN)) (d_attach d)\<rparr>)"

definition DetachPolicy :: "'w callback \<Rightarrow> string \<Rightarrow> string \<Rightarrow> ('w world_scheme, err + unit) state" where
  "DetachPolicy cb policyARN principalARN = do {
     tag \<leftarrow> sql (deleteAttachment policyARN principalARN);
     case tag of
       Inl e \<Rightarrow> ret (Inl (Internal (Some e) ''could not detach the policy'' []))
     | Inr n \<Rightarrow>
         if n = 0 then ret (Inl (NotFound ''policy %s is not attached to %s'' [AStr policyARN, AStr principalARN]))
         else do { principalChanged cb principalARN; ret (Inr ()) }
   }"

subsection \<open>The policies of a principal\<close>

definition attachedRows :: "(string \<Rightarrow> 'c::linorder) \<Rightarrow> string \<Rightarrow> db \<Rightarrow> policy_row list" where
  "attachedRows ck principalARN d =
     sort_key (\<lambda>p. ck (po_arn p))
       (concat (map (\<lambda>a. filter (\<lambda>p. po_arn p = at_policy a) (d_policies d))
         (filter (\<lambda>a. at_principal a = principalARN) (d_attach d))))"

fun decodePolicies :: "docCodec \<Rightarrow> policy_row list \<Rightarrow> err + AttachedPolicy list" where
  "decodePolicies dj [] = Inr []"
| "decodePolicies dj (r # rs) =
     (case dj_Unmarshal dj (po_document r) of
        None \<Rightarrow> Inl (Internal (Some ErrProtojson) ''policy %s could not be decoded'' [AStr (po_arn r)])
      | Some doc \<Rightarrow>
          (case decodePolicies dj rs of
             Inl e \<Rightarrow> Inl e
           | Inr ps \<Rightarrow> Inr (\<lparr>ap_PolicyARN = po_arn r, ap_Document = Some (pd_Statements doc)\<rparr> # ps)))"

definition PoliciesFor ::
  "docCodec \<Rightarrow> (string \<Rightarrow> 'c::linorder) \<Rightarrow> string \<Rightarrow> ('w world_scheme, err + AttachedPolicy list) state" where
  "PoliciesFor dj ck principalARN = do {
     rows \<leftarrow> sql (queryRows (attachedRows ck principalARN));
     case rows of
       Inl e \<Rightarrow> ret (Inl (Internal (Some e) ''could not read attached policies'' []))
     | Inr rows \<Rightarrow> ret (decodePolicies dj rows)
   }"

subsection \<open>The authorizer\<close>

record AuthorizerOptions =
  ao_TTL :: duration
  ao_MaxEntries :: int
  ao_Dev :: bool

definition NewAuthorizer :: "AuthorizerOptions \<Rightarrow> AttachedPolicy list cache" where
  "NewAuthorizer opts =
     cache_New \<lparr>o_TTL = ao_TTL opts, o_NegativeTTL = 0, o_MaxEntries = ao_MaxEntries opts, o_IsNegative = None\<rparr>"

definition InvalidatePrincipal :: "string \<Rightarrow> (process, unit) state" where
  "InvalidatePrincipal principalARN = modify (\<lambda>p. p\<lparr>p_policyCache := cache_Invalidate principalARN (p_policyCache p)\<rparr>)"

definition authorizer_Stats :: "process \<Rightarrow> cacheStats" where
  "authorizer_Stats p = cache_Stats (p_policyCache p)"

definition iam_reason :: "bool \<Rightarrow> string \<Rightarrow> string" where
  "iam_reason dev t = (if \<not> dev then [] else t)"

definition explain :: "Decision \<Rightarrow> string" where
  "explain d = (case dc_Effect d of
     DECISION_ALLOW \<Rightarrow> ''allowed by statement '' @ dc_SID d @ '' in '' @ dc_PolicyARN d
   | DECISION_EXPLICIT_DENY \<Rightarrow> ''denied by statement '' @ dc_SID d @ '' in '' @ dc_PolicyARN d
   | _ \<Rightarrow> ''no attached policy matches this action and resource'')"

text \<open>\<open>get\<close> is the lookup of the policies, through a cache or not.\<close>

definition authorize ::
  "bool \<Rightarrow> (string \<Rightarrow> ('s, err + AttachedPolicy list) state) \<Rightarrow> AuthorizeRequest \<Rightarrow> ('s, err + AuthorizeResponse) state" where
  "authorize dev get req =
     (if aq_PrincipalArn req = [] then ret (Inl (Validation ''principal.principal_arn is required'' []))
      else if aq_Action req = [] then ret (Inl (Validation ''action is required'' []))
      else case arn_Parse (aq_ResourceArn req) of
        Inl e \<Rightarrow> ret (Inl (Validation ''resource_arn is not a valid ARN: %v'' [AErr e]))
      | Inr resource \<Rightarrow>
     (case arn_Parse (aq_PrincipalArn req) of
        Inl e \<Rightarrow> ret (Inl (Validation ''principal_arn is not a valid ARN: %v'' [AErr e]))
      | Inr principalARN \<Rightarrow>
          if a_Account principalARN \<noteq> a_Account resource then
            ret (Inr \<lparr>as_Decision = DECISION_EXPLICIT_DENY, as_MatchedPolicyArn = [], as_MatchedSid = [],
              as_Reason = iam_reason dev ''the principal and the resource are in different accounts''\<rparr>)
          else do {
            policies \<leftarrow> get (aq_PrincipalArn req);
            case policies of
              Inl e \<Rightarrow> ret (Inl e)
            | Inr policies \<Rightarrow>
                let decision = Evaluate policies \<lparr>rq_Action = aq_Action req, rq_ResourceARN = aq_ResourceArn req\<rparr> in
                ret (Inr \<lparr>as_Decision = dc_Effect decision, as_MatchedPolicyArn = dc_PolicyARN decision,
                  as_MatchedSid = dc_SID decision, as_Reason = iam_reason dev (explain decision)\<rparr>)
          }))"

definition cachedPolicies :: "docCodec \<Rightarrow> (string \<Rightarrow> 'c::linorder) \<Rightarrow> string \<Rightarrow> (process, err + AttachedPolicy list) state" where
  "cachedPolicies dj ck principalARN = withPolicyCache (cache_Get w_now (PoliciesFor dj ck) principalARN)"

definition authorizer_Authorize ::
  "docCodec \<Rightarrow> (string \<Rightarrow> 'c::linorder) \<Rightarrow> bool \<Rightarrow> AuthorizeRequest \<Rightarrow> (process, err + AuthorizeResponse) state" where
  "authorizer_Authorize dj ck dev req = authorize dev (cachedPolicies dj ck) req"

text \<open>The gRPC method: a cache of its own for one call, which is then dropped.\<close>

definition freshCache :: "('v cache \<times> 's, 'a) state \<Rightarrow> cacheOptions \<Rightarrow> ('s, 'a) state" where
  "freshCache m opts = State (\<lambda>s. case run m (cache_New opts, s) of (a, (c, s')) \<Rightarrow> (a, s'))"

definition server_Authorize ::
  "docCodec \<Rightarrow> (string \<Rightarrow> 'c::linorder) \<Rightarrow> AuthorizeRequest \<Rightarrow> ('w world_scheme, err + AuthorizeResponse) state" where
  "server_Authorize dj ck req =
     authorize False (\<lambda>a. freshCache (cache_Get w_now (PoliciesFor dj ck) a)
       \<lparr>o_TTL = 1, o_NegativeTTL = 0, o_MaxEntries = 0, o_IsNegative = None\<rparr>) req"

subsection \<open>What the operations do to the tables\<close>

text \<open>A call that changes nothing has used up statements only.\<close>

definition faultsOnly :: "'w world_scheme \<Rightarrow> 'w world_scheme \<Rightarrow> bool" where
  "faultsOnly w w' \<longleftrightarrow> (\<exists>fs. w' = w\<lparr>w_faults := fs\<rparr>)"

lemma faultsOnly_intros [simp, intro]:
  "faultsOnly w w" "faultsOnly w (popFault w)" "faultsOnly w (popFault (popFault w))"
  "faultsOnly w (popFault (popFault (popFault w)))"
  by (auto simp: faultsOnly_def popFault_def) (metis world.surjective world.update_convs(2))+

lemma faultsOnly_rollback:
  "w_db w' = w_db w \<Longrightarrow> w' = v\<lparr>w_db := d\<rparr> \<Longrightarrow> faultsOnly w (v\<lparr>w_db := w_db w\<rparr>) \<Longrightarrow> faultsOnly w w'"
  by (auto simp: faultsOnly_def)

lemma faultsOnly_simps:
  "faultsOnly w w' \<Longrightarrow> w_db w' = w_db w \<and> w_entropy w' = w_entropy w \<and> w_now w' = w_now w"
  by (auto simp: faultsOnly_def)

lemma getPolicy_run:
  "run (getPolicy dj a) w =
     (case nextFault w of
        Some e \<Rightarrow> (Inl (Internal (Some e) ''could not scan a policy'' []), popFault w)
      | None \<Rightarrow> (case policyByArn a (w_db w) of
          None \<Rightarrow> (Inl (NotFound ''no policy %s'' [AStr a]), popFault w)
        | Some r \<Rightarrow> (scanPolicy dj r, popFault w)))"
  using nextFault_Some [of w]
  by (auto simp: getPolicy_def run_db queryRow_def ErrNoRows_def split: option.split)

lemma scanPolicy_Inr: "scanPolicy dj r = Inr p \<Longrightarrow>
  pl_PolicyArn p = po_arn r \<and> pl_AccountId p = po_account r \<and> dj_Unmarshal dj (po_document r) = Some (pl_Document p)"
  by (auto simp: scanPolicy_def split: option.splits)

lemma PoliciesFor_run:
  "run (PoliciesFor dj ck a) w =
     (case nextFault w of
        Some e \<Rightarrow> (Inl (Internal (Some e) ''could not read attached policies'' []), popFault w)
      | None \<Rightarrow> (decodePolicies dj (attachedRows ck a (w_db w)), popFault w))"
  by (simp add: PoliciesFor_def run_db queryRows_def split: option.split)

definition withAttachment :: "attach_row \<Rightarrow> db \<Rightarrow> db" where
  "withAttachment r d =
     (if list_ex (\<lambda>x. at_policy x = at_policy r \<and> at_principal x = at_principal r) (d_attach d) then d
      else d\<lparr>d_attach := d_attach d @ [r]\<rparr>)"

lemma AttachPolicy_cases:
  assumes "run (AttachPolicy dj cb a pr) w = (r, w')"
  shows "(\<exists>e. r = Inl e) \<and> faultsOnly w w' \<or>
    r = Inr () \<and> (\<exists>row ident doc. policyByArn a (w_db w) = Some row \<and> dj_Unmarshal dj (po_document row) = Some doc \<and>
      arn_Parse pr = Inr ident \<and> a_Account ident = po_account row \<and> a_Service ident = ''iam'' \<and> a_Type ident \<in> {''user'', ''role''} \<and>
      w' = final_of (principalChanged cb pr)
        (popFault (popFault (w\<lparr>w_db := withAttachment \<lparr>at_policy = a, at_principal = pr, at_created = unixMilli (w_now w)\<rparr> (w_db w)\<rparr>))))"
  using assms unfolding AttachPolicy_def
  by (auto simp: run_db getPolicy_run scanPolicy_def insertAttachment_def withAttachment_def
      split: option.splits sum.splits prod.splits if_splits)

definition withoutAttachment :: "string \<Rightarrow> string \<Rightarrow> db \<Rightarrow> db" where
  "withoutAttachment a pr d = d\<lparr>d_attach := filter (\<lambda>r. \<not> (at_policy r = a \<and> at_principal r = pr)) (d_attach d)\<rparr>"

lemma deleteAttachment_eq:
  "deleteAttachment a pr d =
     Inr (length (filter (\<lambda>r. at_policy r = a \<and> at_principal r = pr) (d_attach d)), withoutAttachment a pr d)"
  by (simp add: deleteAttachment_def withoutAttachment_def)

lemma DetachPolicy_cases:
  assumes "run (DetachPolicy cb a pr) w = (r, w')"
  shows "(\<exists>e. r = Inl e) \<and> faultsOnly w w' \<or>
    r = Inr () \<and> (\<exists>t \<in> set (d_attach (w_db w)). at_policy t = a \<and> at_principal t = pr) \<and>
      w' = final_of (principalChanged cb pr) (popFault (w\<lparr>w_db := withoutAttachment a pr (w_db w)\<rparr>))"
proof -
  have none: "withoutAttachment a pr d = d" if "filter (\<lambda>r. at_policy r = a \<and> at_principal r = pr) (d_attach d) = []" for d
    using that unfolding withoutAttachment_def filter_empty_conv by (subst filter_True) auto
  show ?thesis
    using assms none [of "w_db w"] unfolding DetachPolicy_def
    by (auto simp: run_db deleteAttachment_eq filter_empty_conv split: option.splits if_splits prod.splits)
qed

definition withoutPolicy :: "string \<Rightarrow> db \<Rightarrow> db" where
  "withoutPolicy a d = d\<lparr>d_policies := filter (\<lambda>r. po_arn r \<noteq> a) (d_policies d),
     d_attach := filter (\<lambda>r. at_policy r \<noteq> a) (d_attach d)\<rparr>"

lemma withoutPolicy_absent:
  "wf_db d \<Longrightarrow> filter (\<lambda>r. po_arn r = a) (d_policies d) = [] \<Longrightarrow> withoutPolicy a d = d"
proof -
  assume wf: "wf_db d" and no: "filter (\<lambda>r. po_arn r = a) (d_policies d) = []"
  have p: "filter (\<lambda>r. po_arn r \<noteq> a) (d_policies d) = d_policies d"
    using no by (auto simp: filter_empty_conv intro!: filter_True)
  have "at_policy r \<noteq> a" if "r \<in> set (d_attach d)" for r
    using wf no that by (fastforce simp: wf_db_def filter_empty_conv)
  then have "filter (\<lambda>r. at_policy r \<noteq> a) (d_attach d) = d_attach d" by (auto intro!: filter_True)
  with p show ?thesis by (simp add: withoutPolicy_def)
qed

lemma DeletePolicy_cases:
  assumes "run (DeletePolicy cb a) w = (r, w')" "wf_db (w_db w)"
  shows "(\<exists>e. r = Inl e) \<and> faultsOnly w w' \<or>
    r = Inr () \<and> w' = final_of (principalsChanged cb (attachedTo a (w_db w)))
        (popFault (popFault (w\<lparr>w_db := withoutPolicy a (w_db w)\<rparr>)))"
  using assms withoutPolicy_absent [of "w_db w" a] unfolding DeletePolicy_def principalsAttachedTo_def
  by (auto simp: run_db deletePolicyRow_def queryRows_def withoutPolicy_def [symmetric]
      split: option.splits if_splits prod.splits)

definition withPolicy :: "policy_row \<Rightarrow> string \<Rightarrow> db \<Rightarrow> db" where
  "withPolicy row tok d =
     d\<lparr>d_policies := d_policies d @ [row],
       d_idem := (if tok = [] then d_idem d else d_idem d @ [newIdemRow ''CreatePolicy'' tok (po_arn row) (po_created row)])\<rparr>"

text \<open>How the creation of a policy can end: no change, a replay of an earlier result, or one new row.\<close>

lemma storePolicy_cases:
  assumes "run (storePolicy dj row doc tok) w = (r, w')"
  shows "(\<exists>e. r = Inl e) \<and> w_db w' = w_db w \<or>
    (\<exists>idem prior. tok \<noteq> [] \<and> idemById ''CreatePolicy'' tok (w_db w) = Some idem \<and>
       policyByArn (id_result idem) (w_db w) = Some prior \<and> r = scanPolicy dj prior \<and> w_db w' = w_db w) \<or>
    policyByArn (po_arn row) (w_db w) = None \<and>
      \<not> list_ex (\<lambda>x. po_account x = po_account row \<and> po_name x = po_name row) (d_policies (w_db w)) \<and>
      accountById (po_account row) (w_db w) \<noteq> None \<and> (tok = [] \<or> idemById ''CreatePolicy'' tok (w_db w) = None) \<and>
      r = Inr \<lparr>pl_PolicyArn = po_arn row, pl_AccountId = po_account row, pl_Name = po_name row, pl_Document = doc,
        pl_CreatedAtUnixMs = po_created row\<rparr> \<and> w_db w' = withPolicy row tok (w_db w)"
  using assms unfolding storePolicy_def
  by (auto simp: run_db insertPolicy_def insertIdem_def queryRow_def getPolicy_run newIdemRow_def withPolicy_def byKey_defs
      split: option.splits sum.splits prod.splits if_splits)


lemma more_popFault [simp]: "world.more (popFault w) = world.more w"
  by (simp add: popFault_def)

lemma storePolicy_more: "world.more (final_of (storePolicy dj row doc tok) w) = world.more w"
  unfolding storePolicy_def
  by (auto simp: run_db getPolicy_run split: option.split sum.split prod.split)

lemma CreatePolicy_more: "world.more (final_of (CreatePolicy dj region req) w) = world.more w"
  by (auto simp: CreatePolicy_def storePolicy_more Let_def split: option.split)

lemma process_more:
  fixes p q :: process
  assumes "world.more p = world.more q"
  shows "p_policyCache p = p_policyCache q \<and> p_keyCache p = p_keyCache q"
  using assms by (cases p; cases q) simp

lemma iam_validateName_None: "iam_validateName n = None \<longleftrightarrow> n \<noteq> [] \<and> length n \<le> 64"
  by (simp add: iam_validateName_def)

lemma CreatePolicy_stores:
  assumes "run (CreatePolicy dj region req) w = (r, w')"
  shows "(\<exists>e. r = Inl e) \<and> w_db w' = w_db w \<or>
    (\<exists>doc encoded. cpr_Document req = Some doc \<and> ValidateDocument (Some (pd_Statements doc)) = None \<and>
       is_account_id (cpr_AccountId req) \<and> dj_Marshal dj (withVersion doc) = Some encoded \<and>
       run (storePolicy dj \<lparr>po_arn = PolicyARN region (cpr_AccountId req) (cpr_Name req), po_account = cpr_AccountId req,
         po_name = cpr_Name req, po_document = encoded, po_created = unixMilli (w_now w)\<rparr> (withVersion doc) (cpr_ClientToken req)) w = (r, w'))"
proof (cases "cpr_Document req")
  case None
  moreover have "ValidateDocument None \<noteq> None" by (simp add: ValidateDocument_def)
  ultimately show ?thesis using assms by (auto simp: CreatePolicy_def split: option.splits)
next
  case (Some doc)
  with assms show ?thesis by (auto simp: CreatePolicy_def Let_def ValidateAccountID_None split: option.splits)
qed

subsection \<open>Integrity, and attachments within one account\<close>

text \<open>Every attachment binds a policy to a user or a role of the policy's own account.\<close>

definition attachedWithinAccount :: "db \<Rightarrow> bool" where
  "attachedWithinAccount d \<longleftrightarrow>
     (\<forall>t \<in> set (d_attach d). \<forall>r \<in> set (d_policies d). po_arn r = at_policy t \<longrightarrow>
        (\<exists>ident. arn_Parse (at_principal t) = Inr ident \<and> a_Account ident = po_account r \<and> a_Service ident = ''iam''))"

lemma policyByArn_Some: "policyByArn a d = Some r \<Longrightarrow> r \<in> set (d_policies d) \<and> po_arn r = a"
  by (auto simp: policyByArn_def dest: find_SomeD)

lemma policyByArn_None: "policyByArn a d = None \<longleftrightarrow> a \<notin> po_arn ` set (d_policies d)"
  by (auto simp: policyByArn_def find_None)

lemma policyByArn_unique: "wf_db d \<Longrightarrow> r \<in> set (d_policies d) \<Longrightarrow> policyByArn (po_arn r) d = Some r"
  unfolding policyByArn_def by (rule find_unique) (simp_all add: wf_db_def)

lemma accountById_Some: "accountById i d \<noteq> None \<Longrightarrow> i \<in> ac_id ` set (d_accounts d)"
  by (auto simp: accountById_def find_None)

lemma wf_withPolicy:
  assumes "wf_db d" "policyByArn (po_arn row) d = None"
    "\<not> list_ex (\<lambda>x. po_account x = po_account row \<and> po_name x = po_name row) (d_policies d)"
    "accountById (po_account row) d \<noteq> None" "tok = [] \<or> idemById ''CreatePolicy'' tok d = None"
  shows "wf_db (withPolicy row tok d)"
  using assms accountById_Some [OF assms(4)]
  by (auto simp: wf_db_def withPolicy_def newIdemRow_def policyByArn_None idemById_def find_None list_ex_iff)

lemma wf_withAttachment:
  "wf_db d \<Longrightarrow> policyByArn (at_policy t) d \<noteq> None \<Longrightarrow> wf_db (withAttachment t d)"
  by (auto simp: wf_db_def withAttachment_def policyByArn_None list_ex_iff)

lemma wf_withoutAttachment: "wf_db d \<Longrightarrow> wf_db (withoutAttachment a pr d)"
  by (auto simp: wf_db_def withoutAttachment_def distinct_map_filter)

lemma wf_withoutPolicy: "wf_db d \<Longrightarrow> wf_db (withoutPolicy a d)"
  by (auto simp: wf_db_def withoutPolicy_def distinct_map_filter)

lemma within_withPolicy:
  "wf_db d \<Longrightarrow> attachedWithinAccount d \<Longrightarrow> policyByArn (po_arn row) d = None \<Longrightarrow> attachedWithinAccount (withPolicy row tok d)"
  by (fastforce simp: attachedWithinAccount_def withPolicy_def policyByArn_None wf_db_def)

lemma within_withAttachment:
  assumes "wf_db d" "attachedWithinAccount d" "policyByArn (at_policy t) d = Some row"
    "arn_Parse (at_principal t) = Inr ident" "a_Account ident = po_account row" "a_Service ident = ''iam''"
  shows "attachedWithinAccount (withAttachment t d)"
proof -
  have "r = row" if "r \<in> set (d_policies d)" "po_arn r = at_policy t" for r
    using policyByArn_unique [OF assms(1) that(1)] that(2) assms(3) by simp
  then show ?thesis using assms(2,4-6) by (auto simp: attachedWithinAccount_def withAttachment_def)
qed

lemma within_filter:
  "attachedWithinAccount d \<Longrightarrow> attachedWithinAccount (withoutAttachment a pr d)"
  "attachedWithinAccount d \<Longrightarrow> attachedWithinAccount (withoutPolicy a d)"
  by (auto simp: attachedWithinAccount_def withoutAttachment_def withoutPolicy_def)

subsection \<open>The policy cache\<close>

definition policiesTruth :: "docCodec \<Rightarrow> (string \<Rightarrow> 'c::linorder) \<Rightarrow> db \<Rightarrow> string \<Rightarrow> err + AttachedPolicy list" where
  "policiesTruth dj ck d principalARN = decodePolicies dj (attachedRows ck principalARN d)"

lemma PoliciesFor_final: "final_of (PoliciesFor dj ck i) w = popFault w"
  by (simp add: PoliciesFor_run split: option.split)

lemma PoliciesFor_result:
  "result_of (PoliciesFor dj ck i) w = policiesTruth dj ck (w_db w) i \<or> (\<exists>e. result_of (PoliciesFor dj ck i) w = Inl e)"
  by (simp add: PoliciesFor_run policiesTruth_def split: option.split)

interpretation policy_source: cached_source "PoliciesFor dj ck :: string \<Rightarrow> (process, err + AttachedPolicy list) state"
    "\<lambda>w. policiesTruth dj ck (w_db w)" w_now "\<lambda>_. False"
  for dj and ck :: "string \<Rightarrow> 'c::linorder"
  by unfold_locales (use PoliciesFor_result in blast, simp add: PoliciesFor_final)

definition policiesCoherent :: "docCodec \<Rightarrow> (string \<Rightarrow> 'c::linorder) \<Rightarrow> process \<Rightarrow> bool" where
  "policiesCoherent dj ck p \<longleftrightarrow> wf_cache (p_policyCache p) \<and> c_isNegative (p_policyCache p) = (\<lambda>_. False) \<and>
     (\<forall>k e. lookup (c_entries (p_policyCache p)) k = Some e \<longrightarrow> en_result e = policiesTruth dj ck (w_db p) k)"

lemma policiesCoherent_source: "policiesCoherent dj ck p \<longleftrightarrow> cached_source.coherent (\<lambda>w. policiesTruth dj ck (w_db w)) (\<lambda>_. False) (p_policyCache p) p"
  by (simp add: policiesCoherent_def policy_source.coherent_def)

lemma policiesCoherent_New: "p_policyCache p = NewAuthorizer opts \<Longrightarrow> policiesCoherent dj ck p"
  by (simp add: policiesCoherent_def NewAuthorizer_def) (simp add: cache_New_def)

lemma policiesCoherent_cong:
  "policiesCoherent dj ck p \<Longrightarrow> p_policyCache q = p_policyCache p \<Longrightarrow>
   (\<And>k. policiesTruth dj ck (w_db q) k = policiesTruth dj ck (w_db p) k) \<Longrightarrow> policiesCoherent dj ck q"
  by (simp add: policiesCoherent_def)

lemma cachedPolicies_run:
  assumes "policiesCoherent dj ck p" "run (cachedPolicies dj ck i) p = (r, p')"
  shows "r = policiesTruth dj ck (w_db p) i \<or> (\<exists>e. r = Inl e)" "policiesCoherent dj ck p'"
    "w_db p' = w_db p" "w_entropy p' = w_entropy p" "w_now p' = w_now p" "p_keyCache p' = p_keyCache p"
proof -
  obtain c q where g: "run (cache_Get w_now (PoliciesFor dj ck) i) (p_policyCache p, p) = (r, (c, q))"
    and p': "p' = q\<lparr>p_policyCache := c\<rparr>"
    using assms(2) by (auto simp: cachedPolicies_def run_withPolicyCache split: prod.splits)
  note co = policy_source.Get_coherent [OF assms(1) [unfolded policiesCoherent_source] g]
  have "q = p \<or> q = popFault p"
    using cache_Get_keeps_process [OF _ g] by (simp add: PoliciesFor_final)
  then show "w_db p' = w_db p" "w_entropy p' = w_entropy p" "w_now p' = w_now p" "p_keyCache p' = p_keyCache p"
    unfolding p' by auto
  show "r = policiesTruth dj ck (w_db p) i \<or> (\<exists>e. r = Inl e)" using co(3) by blast
  show "policiesCoherent dj ck p'" using co(1) unfolding policiesCoherent_source p'
    by (simp add: policy_source.coherent_def)
qed

text \<open>Dropping the principals of a list keeps the cache coherent when the truth changed for them only.\<close>

lemma InvalidatePrincipal_run:
  "final_of (principalChanged (Some InvalidatePrincipal) a) p = p\<lparr>p_policyCache := cache_Invalidate a (p_policyCache p)\<rparr>"
  by (simp add: principalChanged_def InvalidatePrincipal_def)

lemma principalsChanged_run:
  "final_of (principalsChanged (Some InvalidatePrincipal) as) p =
     p\<lparr>p_policyCache := fold cache_Invalidate as (p_policyCache p)\<rparr>"
  by (induction as arbitrary: p) (simp_all add: principalChanged_def InvalidatePrincipal_def)

lemma fold_Invalidate:
  "wf_cache c \<Longrightarrow> wf_cache (fold cache_Invalidate as c) \<and> c_isNegative (fold cache_Invalidate as c) = c_isNegative c \<and>
     (\<forall>k. lookup (c_entries (fold cache_Invalidate as c)) k = (if k \<in> set as then None else lookup (c_entries c) k))"
proof (induction as arbitrary: c)
  case (Cons a as)
  have "wf_cache (cache_Invalidate a c)" using Cons.prems by (rule wf_Invalidate)
  from Cons.IH [OF this] show ?case by (auto simp: cache_Invalidate_def)
qed simp

lemma coherent_after_change:
  assumes "policiesCoherent dj ck p" "p_policyCache q = fold cache_Invalidate as (p_policyCache p)"
    "\<And>k. k \<notin> set as \<Longrightarrow> policiesTruth dj ck (w_db q) k = policiesTruth dj ck (w_db p) k"
  shows "policiesCoherent dj ck q"
  using assms fold_Invalidate [of "p_policyCache p" as] by (auto simp: policiesCoherent_def)

lemma policiesTruth_cong:
  assumes "filter (\<lambda>t. at_principal t = k) (d_attach d') = filter (\<lambda>t. at_principal t = k) (d_attach d)"
    "\<And>t. t \<in> set (d_attach d) \<Longrightarrow> at_principal t = k \<Longrightarrow>
       filter (\<lambda>p. po_arn p = at_policy t) (d_policies d') = filter (\<lambda>p. po_arn p = at_policy t) (d_policies d)"
  shows "policiesTruth dj ck d' k = policiesTruth dj ck d k"
proof -
  have "map (\<lambda>t. filter (\<lambda>p. po_arn p = at_policy t) (d_policies d')) (filter (\<lambda>t. at_principal t = k) (d_attach d')) =
      map (\<lambda>t. filter (\<lambda>p. po_arn p = at_policy t) (d_policies d)) (filter (\<lambda>t. at_principal t = k) (d_attach d))"
    unfolding assms(1) using assms(2) by (intro map_cong) auto
  then show ?thesis by (simp add: policiesTruth_def attachedRows_def)
qed

lemma truth_withAttachment: "k \<noteq> at_principal t \<Longrightarrow> policiesTruth dj ck (withAttachment t d) k = policiesTruth dj ck d k"
  by (rule policiesTruth_cong) (auto simp: withAttachment_def)

lemma truth_withoutAttachment: "k \<noteq> pr \<Longrightarrow> policiesTruth dj ck (withoutAttachment a pr d) k = policiesTruth dj ck d k"
  by (rule policiesTruth_cong) (auto simp: withoutAttachment_def filter_filter intro: filter_cong)

lemma truth_withoutPolicy: "k \<notin> set (attachedTo a d) \<Longrightarrow> policiesTruth dj ck (withoutPolicy a d) k = policiesTruth dj ck d k"
  by (rule policiesTruth_cong) (auto simp: withoutPolicy_def attachedTo_def filter_filter intro!: filter_cong)

lemma truth_withPolicy:
  assumes "wf_db d" "policyByArn (po_arn row) d = None"
  shows "policiesTruth dj ck (withPolicy row tok d) k = policiesTruth dj ck d k"
  using assms by (intro policiesTruth_cong) (fastforce simp: withPolicy_def wf_db_def policyByArn_None)+

subsection \<open>Any sequence of operations\<close>

text \<open>The operations of the policy store and the authorizer, wired as the front door wires them.\<close>

datatype iamOp =
    OpCreatePolicy CreatePolicyRequest
  | OpDeletePolicy string
  | OpAttachPolicy string string
  | OpDetachPolicy string string
  | OpAuthorize bool AuthorizeRequest

fun runIam :: "docCodec \<Rightarrow> (string \<Rightarrow> 'c::linorder) \<Rightarrow> string \<Rightarrow> iamOp \<Rightarrow> process \<Rightarrow> process" where
  "runIam dj ck region (OpCreatePolicy req) p = final_of (CreatePolicy dj region req) p"
| "runIam dj ck region (OpDeletePolicy a) p = final_of (DeletePolicy (Some InvalidatePrincipal) a) p"
| "runIam dj ck region (OpAttachPolicy a pr) p = final_of (AttachPolicy dj (Some InvalidatePrincipal) a pr) p"
| "runIam dj ck region (OpDetachPolicy a pr) p = final_of (DetachPolicy (Some InvalidatePrincipal) a pr) p"
| "runIam dj ck region (OpAuthorize dev req) p = final_of (authorizer_Authorize dj ck dev req) p"

definition iamInv :: "docCodec \<Rightarrow> (string \<Rightarrow> 'c::linorder) \<Rightarrow> process \<Rightarrow> bool" where
  "iamInv dj ck p \<longleftrightarrow> wf_db (w_db p) \<and> attachedWithinAccount (w_db p) \<and> policiesCoherent dj ck p"

lemma faultsOnly_process: "faultsOnly p q \<Longrightarrow> w_db q = w_db p \<and> p_policyCache q = p_policyCache (p :: process)"
  by (auto simp: faultsOnly_def)

lemma iamInv_cong:
  "iamInv dj ck p \<Longrightarrow> w_db q = w_db p \<Longrightarrow> p_policyCache q = p_policyCache p \<Longrightarrow> iamInv dj ck q"
  by (simp add: iamInv_def policiesCoherent_def)

lemma authorize_final:
  "(\<exists>v. final_of (authorize dev get req) s = v \<and> (v = s \<or> v = final_of (get (aq_PrincipalArn req)) s))"
  by (auto simp: authorize_def Let_def split: sum.split prod.split)

lemma iamInv_Create:
  assumes "iamInv dj ck p"
  shows "iamInv dj ck (final_of (CreatePolicy dj region req) p)"
proof -
  obtain r q where run: "run (CreatePolicy dj region req) p = (r, q)" by fastforce
  have more: "p_policyCache q = p_policyCache p"
    using process_more [of q p] CreatePolicy_more [of dj region req p] run by simp
  consider "w_db q = w_db p"
    | row tok where "policyByArn (po_arn row) (w_db p) = None"
        "\<not> list_ex (\<lambda>x. po_account x = po_account row \<and> po_name x = po_name row) (d_policies (w_db p))"
        "accountById (po_account row) (w_db p) \<noteq> None" "tok = [] \<or> idemById ''CreatePolicy'' tok (w_db p) = None"
        "w_db q = withPolicy row tok (w_db p)"
  proof -
    from CreatePolicy_stores [OF run] have "w_db q = w_db p \<or> (\<exists>row doc tok. run (storePolicy dj row doc tok) p = (r, q))"
      by blast
    then show ?thesis using storePolicy_cases [of dj _ _ _ p r q] that by (elim disjE exE) blast+
  qed
  then have "iamInv dj ck q"
  proof cases
    case 1
    then show ?thesis using iamInv_cong [OF assms] more by blast
  next
    case 2
    have wf: "wf_db (w_db p)" and at: "attachedWithinAccount (w_db p)" and co: "policiesCoherent dj ck p"
      using assms by (simp_all add: iamInv_def)
    have "policiesCoherent dj ck q"
      by (rule policiesCoherent_cong [OF co more]) (simp add: 2(5) truth_withPolicy [OF wf 2(1)])
    then show ?thesis
      using wf_withPolicy [OF wf 2(1-4)] within_withPolicy [OF wf at 2(1)] by (simp add: iamInv_def 2(5))
  qed
  then show ?thesis using run by simp
qed

lemma iamInv_Attach:
  assumes "iamInv dj ck p"
  shows "iamInv dj ck (final_of (AttachPolicy dj (Some InvalidatePrincipal) a pr) p)"
proof -
  obtain r q where run: "run (AttachPolicy dj (Some InvalidatePrincipal) a pr) p = (r, q)" by fastforce
  let ?t = "\<lparr>at_policy = a, at_principal = pr, at_created = unixMilli (w_now p)\<rparr>"
  from AttachPolicy_cases [OF run] consider "faultsOnly p q"
    | row ident where "policyByArn a (w_db p) = Some row" "arn_Parse pr = Inr ident" "a_Account ident = po_account row"
        "a_Service ident = ''iam''" "q = final_of (principalChanged (Some InvalidatePrincipal) pr)
          (popFault (popFault (p\<lparr>w_db := withAttachment ?t (w_db p)\<rparr>)))" by blast
  then have "iamInv dj ck q"
  proof cases
    case 1
    then show ?thesis using iamInv_cong [OF assms] faultsOnly_process by blast
  next
    case 2
    have wf: "wf_db (w_db p)" and at: "attachedWithinAccount (w_db p)" and co: "policiesCoherent dj ck p"
      using assms by (simp_all add: iamInv_def)
    have d: "w_db q = withAttachment ?t (w_db p)" and c: "p_policyCache q = fold cache_Invalidate [pr] (p_policyCache p)"
      by (simp_all add: 2(5) InvalidatePrincipal_run)
    have "policiesCoherent dj ck q"
      by (rule coherent_after_change [OF co c]) (simp add: d truth_withAttachment)
    moreover have "wf_db (withAttachment ?t (w_db p))"
      using wf_withAttachment [OF wf, of ?t] 2(1) by simp
    moreover have "attachedWithinAccount (withAttachment ?t (w_db p))"
      by (rule within_withAttachment [OF wf at]) (use 2(1-4) in simp_all)
    ultimately show ?thesis unfolding iamInv_def d by blast
  qed
  then show ?thesis using run by simp
qed

lemma iamInv_Detach:
  assumes "iamInv dj ck p"
  shows "iamInv dj ck (final_of (DetachPolicy (Some InvalidatePrincipal) a pr) p)"
proof -
  obtain r q where run: "run (DetachPolicy (Some InvalidatePrincipal) a pr) p = (r, q)" by fastforce
  from DetachPolicy_cases [OF run] consider "faultsOnly p q"
    | "q = final_of (principalChanged (Some InvalidatePrincipal) pr) (popFault (p\<lparr>w_db := withoutAttachment a pr (w_db p)\<rparr>))"
    by blast
  then have "iamInv dj ck q"
  proof cases
    case 1
    then show ?thesis using iamInv_cong [OF assms] faultsOnly_process by blast
  next
    case 2
    have d: "w_db q = withoutAttachment a pr (w_db p)" and c: "p_policyCache q = fold cache_Invalidate [pr] (p_policyCache p)"
      by (simp_all add: 2 InvalidatePrincipal_run)
    have "policiesCoherent dj ck q" using assms
      by (intro coherent_after_change [OF _ c]) (simp_all add: d truth_withoutAttachment iamInv_def)
    then show ?thesis using assms by (simp add: iamInv_def d wf_withoutAttachment within_filter)
  qed
  then show ?thesis using run by simp
qed

lemma iamInv_Delete:
  assumes "iamInv dj ck p"
  shows "iamInv dj ck (final_of (DeletePolicy (Some InvalidatePrincipal) a) p)"
proof -
  obtain r q where run: "run (DeletePolicy (Some InvalidatePrincipal) a) p = (r, q)" by fastforce
  have wf: "wf_db (w_db p)" using assms by (simp add: iamInv_def)
  from DeletePolicy_cases [OF run wf] consider "faultsOnly p q"
    | "q = final_of (principalsChanged (Some InvalidatePrincipal) (attachedTo a (w_db p)))
        (popFault (popFault (p\<lparr>w_db := withoutPolicy a (w_db p)\<rparr>)))"
    by blast
  then have "iamInv dj ck q"
  proof cases
    case 1
    then show ?thesis using iamInv_cong [OF assms] faultsOnly_process by blast
  next
    case 2
    have d: "w_db q = withoutPolicy a (w_db p)"
      and c: "p_policyCache q = fold cache_Invalidate (attachedTo a (w_db p)) (p_policyCache p)"
      by (simp_all add: 2 principalsChanged_run)
    have "policiesCoherent dj ck q" using assms
      by (intro coherent_after_change [OF _ c]) (simp_all add: d truth_withoutPolicy iamInv_def)
    then show ?thesis using assms by (simp add: iamInv_def d wf_withoutPolicy within_filter)
  qed
  then show ?thesis using run by simp
qed

lemma iamInv_Authorize:
  assumes "iamInv dj ck p"
  shows "iamInv dj ck (final_of (authorizer_Authorize dj ck dev req) p)"
proof -
  obtain r q where run: "run (cachedPolicies dj ck (aq_PrincipalArn req)) p = (r, q)" by fastforce
  have "policiesCoherent dj ck p" using assms by (simp add: iamInv_def)
  note c = cachedPolicies_run [OF this run]
  have "iamInv dj ck q" using assms c(2,3) by (simp add: iamInv_def)
  then show ?thesis
    using authorize_final [of dev "cachedPolicies dj ck" req p] assms run by (auto simp: authorizer_Authorize_def)
qed

lemma iamInv_runIam: "iamInv dj ck p \<Longrightarrow> iamInv dj ck (runIam dj ck region op p)"
  by (cases op) (simp_all add: iamInv_Create iamInv_Delete iamInv_Attach iamInv_Detach iamInv_Authorize)

lemma iamInv_runs: "iamInv dj ck p \<Longrightarrow> iamInv dj ck (fold (runIam dj ck region) ops p)"
  by (induction ops arbitrary: p) (simp_all add: iamInv_runIam)

subsection \<open>Listing\<close>

definition policyOf :: "docCodec \<Rightarrow> policy_row \<Rightarrow> Policy" where
  "policyOf dj r = \<lparr>pl_PolicyArn = po_arn r, pl_AccountId = po_account r, pl_Name = po_name r,
     pl_Document = the (dj_Unmarshal dj (po_document r)), pl_CreatedAtUnixMs = po_created r\<rparr>"

definition decodable :: "docCodec \<Rightarrow> db \<Rightarrow> bool" where
  "decodable dj d \<longleftrightarrow> (\<forall>r \<in> set (d_policies d). dj_Unmarshal dj (po_document r) \<noteq> None)"

lemma scanPolicies_decodable:
  "(\<forall>r \<in> set rs. dj_Unmarshal dj (po_document r) \<noteq> None) \<Longrightarrow> scanPolicies dj rs = Inr (map (policyOf dj) rs)"
  by (induction rs) (auto simp: scanPolicy_def policyOf_def)

definition policiesOfAccount :: "string \<Rightarrow> db \<Rightarrow> policy_row list" where
  "policiesOfAccount acct d = filter (\<lambda>r. po_account r = acct) (d_policies d)"

lemma keysetQuery_subset: "set (keysetQuery ck key rows after n) \<subseteq> set rows"
  using set_take_subset by (fastforce simp: keysetQuery_def)

lemma ListPolicies_run:
  assumes "nextFault w = None" "is_account_id acct" "page_Limit m = Inr limit" "page_Decode tok = Inr after" "0 < limit"
    "decodable dj (w_db w)"
  shows "run (ListPolicies dj ck acct m tok) w =
    (Inr (map_prod (map (policyOf dj)) id (keysetPage ck po_arn (policiesOfAccount acct (w_db w)) after limit)), popFault w)"
proof -
  have "scanPolicies dj (keysetQuery ck po_arn (filter (\<lambda>r. po_account r = acct) (d_policies (w_db w))) after (Suc limit)) =
      Inr (map (policyOf dj) (keysetQuery ck po_arn (filter (\<lambda>r. po_account r = acct) (d_policies (w_db w))) after (Suc limit)))"
    using keysetQuery_subset [of ck po_arn "filter (\<lambda>r. po_account r = acct) (d_policies (w_db w))" after "Suc limit"] assms(6)
    by (intro scanPolicies_decodable) (auto simp: decodable_def)
  then show ?thesis using assms
    by (auto simp: ListPolicies_def run_db queryRows_def keysetPage_def Let_def policyOf_def take_map min_def policiesOfAccount_def)
qed

definition policiesPage ::
  "docCodec \<Rightarrow> (string \<Rightarrow> 'c::linorder) \<Rightarrow> ('w world_scheme \<times> int) \<times> string \<Rightarrow> string \<Rightarrow> err + Policy list \<times> string" where
  "policiesPage dj ck s tok = result_of (ListPolicies dj ck (snd s) (snd (fst s)) tok) (fst (fst s))"

interpretation policies_listing: keyset_listing "policiesPage dj ck" "policyOf dj" ck po_arn
  "\<lambda>s. policiesOfAccount (snd s) (w_db (fst (fst s)))"
  "\<lambda>s. clampOf (snd (fst s))"
  "\<lambda>s. nextFault (fst (fst s)) = None \<and> is_account_id (snd s) \<and> decodable dj (w_db (fst (fst s))) \<and>
     keyed ck po_arn (policiesOfAccount (snd s) (w_db (fst (fst s)))) \<and> 0 \<le> snd (fst s) \<and> snd (fst s) \<le> 500"
  for dj and ck :: "string \<Rightarrow> 'c::linorder"
  by unfold_locales (auto simp: clampOf policiesPage_def ListPolicies_run)

subsection \<open>Properties\<close>

text \<open>C4: no policy can reach across accounts: whatever policies a principal holds and wherever they are read from, an
  \<open>ALLOW\<close> is given only for a resource in the principal's own account, and only when the policies read
  for exactly this principal allow the action under the evaluation rule.\<close>
theorem cross_account_never_allowed:
  assumes "run (authorize dev get req) s = (Inr resp, s')" "as_Decision resp = DECISION_ALLOW"
  shows "\<exists>ident res policies. arn_Parse (aq_PrincipalArn req) = Inr ident \<and> arn_Parse (aq_ResourceArn req) = Inr res \<and>
    a_Account ident = a_Account res \<and> run (get (aq_PrincipalArn req)) s = (Inr policies, s') \<and>
    dc_Allowed (Evaluate policies \<lparr>rq_Action = aq_Action req, rq_ResourceARN = aq_ResourceArn req\<rparr>)"
  using assms
  by (auto simp: authorize_def Let_def dc_Allowed_def split: if_splits sum.splits prod.splits)

text \<open>C29: under any sequence of policy operations and authorizations, whatever statements of theirs fail, the tables
  keep their constraints, every attachment binds a policy to an IAM user or role of the policy's own
  account, and every entry of the authorizer's cache is what the tables say: a grant or a
  revocation is in force on this process as soon as it returns.\<close>
theorem iam_operations_keep_invariant:
  assumes "wf_db (w_db p)" "attachedWithinAccount (w_db p)" "policiesCoherent dj ck p"
    "q = fold (runIam dj ck region) ops p"
  shows "wf_db (w_db q) \<and> attachedWithinAccount (w_db q) \<and> policiesCoherent dj ck q"
  using iamInv_runs [of dj ck p region ops] assms by (simp add: iamInv_def)

text \<open>C15: what the authorizer decides is decided by the tables: after any sequence of policy operations, an answer is
  the evaluation of the policies attached now, or an explicit deny across accounts.\<close>
theorem decision_is_current:
  assumes "wf_db (w_db p)" "attachedWithinAccount (w_db p)" "policiesCoherent dj ck p"
    "q = fold (runIam dj ck region) ops p" "run (authorizer_Authorize dj ck dev req) q = (Inr resp, q')"
  shows "\<exists>ident res. arn_Parse (aq_PrincipalArn req) = Inr ident \<and> arn_Parse (aq_ResourceArn req) = Inr res \<and>
    (if a_Account ident \<noteq> a_Account res then as_Decision resp = DECISION_EXPLICIT_DENY
     else \<exists>policies. decodePolicies dj (attachedRows ck (aq_PrincipalArn req) (w_db q)) = Inr policies \<and>
       as_Decision resp = dc_Effect (Evaluate policies \<lparr>rq_Action = aq_Action req, rq_ResourceARN = aq_ResourceArn req\<rparr>))"
proof -
  have co: "policiesCoherent dj ck q"
    using iamInv_runs [of dj ck p region ops] assms(1-4) by (simp add: iamInv_def)
  obtain r v where rv: "run (cachedPolicies dj ck (aq_PrincipalArn req)) q = (r, v)" by fastforce
  have truth: "decodePolicies dj (attachedRows ck (aq_PrincipalArn req) (w_db q)) = Inr ps" if "r = Inr ps" for ps
    using cachedPolicies_run(1) [OF co rv] that by (auto simp: policiesTruth_def)
  note run = assms(5) [unfolded authorizer_Authorize_def authorize_def]
  obtain res where res: "arn_Parse (aq_ResourceArn req) = Inr res"
    using run by (cases "arn_Parse (aq_ResourceArn req)") (auto split: if_splits)
  obtain ident where ident: "arn_Parse (aq_PrincipalArn req) = Inr ident"
    using run res by (cases "arn_Parse (aq_PrincipalArn req)") (auto split: if_splits)
  show ?thesis
  proof (cases "a_Account ident = a_Account res")
    case False
    then show ?thesis using run res ident by (auto split: if_splits)
  next
    case True
    show ?thesis
    proof (cases r)
      case (Inl e)
      then show ?thesis using run res ident True rv by (auto split: if_splits)
    next
      case (Inr ps)
      then have "as_Decision resp = dc_Effect (Evaluate ps \<lparr>rq_Action = aq_Action req, rq_ResourceARN = aq_ResourceArn req\<rparr>)"
        using run res ident True rv by (auto simp: Let_def split: if_splits)
      with truth [OF Inr] res ident True show ?thesis by metis
    qed
  qed
qed

lemma decodePolicies_arns: "decodePolicies dj rows = Inr ps \<Longrightarrow> map ap_PolicyARN ps = map po_arn rows"
  by (induction dj rows arbitrary: ps rule: decodePolicies.induct) (auto split: option.splits sum.splits)

lemma set_attachedRows:
  "set (attachedRows ck pr d) = {r \<in> set (d_policies d). \<exists>t \<in> set (d_attach d). at_principal t = pr \<and> at_policy t = po_arn r}"
  by (auto simp: attachedRows_def)

lemma revoked_not_attached:
  "po_arn ` set (attachedRows ck pr (withoutAttachment a pr d)) \<subseteq> - {a}"
  "po_arn ` set (attachedRows ck k (withoutPolicy a d)) \<subseteq> - {a}"
  by (auto simp: set_attachedRows withoutAttachment_def withoutPolicy_def)

lemma cachedPolicies_arns:
  assumes "policiesCoherent dj ck q" "run (cachedPolicies dj ck k) q = (Inr ps, v)" "ap \<in> set ps"
  shows "ap_PolicyARN ap \<in> po_arn ` set (attachedRows ck k (w_db q))"
proof -
  have "decodePolicies dj (attachedRows ck k (w_db q)) = Inr ps"
    using cachedPolicies_run(1) [OF assms(1,2)] by (auto simp: policiesTruth_def)
  from decodePolicies_arns [OF this] assms(3) show ?thesis by (metis (no_types, lifting) image_eqI image_set)
qed

text \<open>A revoked policy grants nothing from the moment the call returns: after a successful detach the principal's
  policies, read through the cache, no longer contain it, and after a successful delete no
  principal's do, though nobody detached it first.\<close>
theorem revoked_policy_no_longer_grants:
  assumes "wf_db (w_db p)" "attachedWithinAccount (w_db p)" "policiesCoherent dj ck p"
    "(run (DetachPolicy (Some InvalidatePrincipal) a k) p = (Inr (), q) \<or> run (DeletePolicy (Some InvalidatePrincipal) a) p = (Inr (), q))"
    "run (cachedPolicies dj ck k) q = (Inr ps, v)"
  shows "list_all (\<lambda>ap. ap_PolicyARN ap \<noteq> a) ps"
proof -
  have inv: "iamInv dj ck p" using assms(1-3) by (simp add: iamInv_def)
  then have co: "policiesCoherent dj ck q"
    using iamInv_Detach [OF inv, of a k] iamInv_Delete [OF inv, of a] assms(4) by (auto simp: iamInv_def)
  have "w_db q = withoutAttachment a k (w_db p) \<or> w_db q = withoutPolicy a (w_db p)"
    using assms(4) DetachPolicy_cases [of "Some InvalidatePrincipal" a k p "Inr ()" q]
      DeletePolicy_cases [of "Some InvalidatePrincipal" a p "Inr ()" q, OF _ assms(1)]
    by (auto simp: InvalidatePrincipal_run principalsChanged_run)
  then have "po_arn ` set (attachedRows ck k (w_db q)) \<subseteq> - {a}"
    using revoked_not_attached(1) [of ck k a "w_db p"] revoked_not_attached(2) [of ck k a "w_db p"] by auto
  with cachedPolicies_arns [OF co assms(5)] show ?thesis by (fastforce simp: list_all_iff)
qed

text \<open>Creating a policy either changes nothing, or stores one policy that from then on reads back exactly as it
  was answered, under the requested account and the ARN derived from its name; a replayed token
  returns the policy of the first call and stores nothing.\<close>
theorem created_policy_reads_back:
  assumes "json_ok dj" "run (CreatePolicy dj region req) w = (r, w')" "nextFault v = None" "w_db v = w_db w'"
  shows "case r of
      Inl e \<Rightarrow> w_db w' = w_db w
    | Inr pol \<Rightarrow> result_of (GetPolicy dj (pl_PolicyArn pol)) (v :: 'w world_scheme) = Inr pol \<and>
        (w_db w' = w_db w \<and> cpr_ClientToken req \<noteq> [] \<or>
         pl_AccountId pol = cpr_AccountId req \<and> pl_PolicyArn pol = PolicyARN region (cpr_AccountId req) (cpr_Name req) \<and>
         policyByArn (pl_PolicyArn pol) (w_db w) = None \<and> Some (pd_Statements (pl_Document pol)) = map_option pd_Statements (cpr_Document req))"
proof -
  from CreatePolicy_stores [OF assms(2)]
  consider e where "r = Inl e" "w_db w' = w_db w"
    | doc encoded row where "cpr_Document req = Some doc" "dj_Marshal dj (withVersion doc) = Some encoded"
        "row = \<lparr>po_arn = PolicyARN region (cpr_AccountId req) (cpr_Name req), po_account = cpr_AccountId req,
         po_name = cpr_Name req, po_document = encoded, po_created = unixMilli (w_now w)\<rparr>"
        "run (storePolicy dj row (withVersion doc) (cpr_ClientToken req)) w = (r, w')" by blast
  then show ?thesis
  proof cases
    case 2
    have enc: "dj_Unmarshal dj encoded = Some (withVersion doc)" using assms(1) 2(2) by (simp add: json_ok_def)
    from storePolicy_cases [OF 2(4)]
    consider e where "r = Inl e" "w_db w' = w_db w"
      | pa prior where "cpr_ClientToken req \<noteq> []" "policyByArn pa (w_db w) = Some prior" "r = scanPolicy dj prior" "w_db w' = w_db w"
      | "policyByArn (po_arn row) (w_db w) = None" "w_db w' = withPolicy row (cpr_ClientToken req) (w_db w)"
        "r = Inr \<lparr>pl_PolicyArn = po_arn row, pl_AccountId = po_account row, pl_Name = po_name row, pl_Document = withVersion doc,
        pl_CreatedAtUnixMs = po_created row\<rparr>"
      by (elim disjE exE conjE) assumption+
    then show ?thesis
    proof cases
      case prior: 2
      moreover have "po_arn prior = pa" using policyByArn_Some [OF prior(2)] by simp
      ultimately show ?thesis using assms(3,4) scanPolicy_Inr [of dj prior]
        by (cases "scanPolicy dj prior") (simp_all add: GetPolicy_def getPolicy_run)
    next
      case new: 3
      have "policyByArn (po_arn row) (w_db w') = Some row"
        using new(1) by (simp add: new(2) policyByArn_def withPolicy_def find_append)
      then show ?thesis using new 2(1,3) assms(3,4) enc
        by (simp add: GetPolicy_def getPolicy_run scanPolicy_def withVersion_def)
    qed simp
  qed simp
qed

text \<open>C36: the client token of \<open>CreatePolicy\<close> is not scoped to an account: a token that one account has used makes the
  same call of any other account, with any name and any valid document, succeed with the first
  account's policy, its document included, and create nothing.\<close>
theorem policy_token_replays_across_accounts:
  assumes "nextFault w = None" "calm w" "is_account_id acct" "iam_validateName name = None" "ValidateDocument (Some (pd_Statements doc)) = None"
    "dj_Marshal dj (withVersion doc) \<noteq> None" "tok \<noteq> []" "idemById ''CreatePolicy'' tok (w_db w) = Some idem"
    "policyByArn (id_result idem) (w_db w) = Some theirs"
  shows "\<exists>w'. run (CreatePolicy dj region \<lparr>cpr_AccountId = acct, cpr_Name = name, cpr_Document = Some doc, cpr_ClientToken = tok\<rparr>) w =
      (scanPolicy dj theirs, w') \<and> w_db w' = w_db w"
proof -
  have nf: "nextFault (popFault w) = None" "nextFault (popFault (popFault w)) = None" "nextFault (popFault (popFault (popFault w))) = None"
    using assms(2) by simp_all
  have "ValidateAccountID acct = None" using assms(3) by (simp add: ValidateAccountID_None)
  then show ?thesis using assms nf
    by (auto simp: CreatePolicy_def storePolicy_def run_db insertIdem_def queryRow_def getPolicy_run Let_def)
qed

text \<open>Listing the policies of an account page by page ends and collects each policy of that account once, in key
  order, and no policy of another account.\<close>
theorem policy_listing_is_complete:
  fixes ck :: "string \<Rightarrow> 'c::linorder"
  assumes "nextFault w = None" "0 \<le> m" "m \<le> 500" "is_account_id acct" "decodable dj (w_db w)"
    "keyed ck po_arn (policiesOfAccount acct (w_db w))"
  shows "collectPages (Suc (length (d_policies (w_db w)))) (\<lambda>tok. result_of (ListPolicies dj ck acct m tok) w) [] =
      Some (Inr (map (policyOf dj) (inKeyOrder ck po_arn (policiesOfAccount acct (w_db w))))) \<and>
    list_all (\<lambda>p. pl_AccountId p = acct) (map (policyOf dj) (inKeyOrder ck po_arn (policiesOfAccount acct (w_db w))))"
proof
  have "policiesPage dj ck ((w, m), acct) = (\<lambda>tok. result_of (ListPolicies dj ck acct m tok) w)"
    by (rule ext) (simp add: policiesPage_def)
  moreover have "length (policiesOfAccount acct (w_db w)) < Suc (length (d_policies (w_db w)))"
    by (simp add: policiesOfAccount_def less_Suc_eq_le)
  ultimately show "collectPages (Suc (length (d_policies (w_db w)))) (\<lambda>tok. result_of (ListPolicies dj ck acct m tok) w) [] =
      Some (Inr (map (policyOf dj) (inKeyOrder ck po_arn (policiesOfAccount acct (w_db w)))))"
    using policies_listing.follow.collect_all [of "((w, m), acct)" dj ck "Suc (length (d_policies (w_db w)))"] assms
    by (simp del: collectPages.simps)
  show "list_all (\<lambda>p. pl_AccountId p = acct) (map (policyOf dj) (inKeyOrder ck po_arn (policiesOfAccount acct (w_db w))))"
    by (simp add: list_all_iff inKeyOrder_def policyOf_def policiesOfAccount_def)
qed

subsection \<open>Witnesses\<close>

text \<open>A codec that knows one document, and the process after a policy was created and attached.\<close>

definition sampleDoc :: PolicyDocument where
  "sampleDoc = \<lparr>pd_Version = ''2026-09-01'', pd_Statements =
     [\<lparr>s_sid = ''all'', s_effect = EFFECT_ALLOW, s_actions = [''chala:*''], s_resources = [''*'']\<rparr>]\<rparr>"

definition sampleCodec :: docCodec where
  "sampleCodec = \<lparr>dj_Marshal = (\<lambda>d. if d = sampleDoc then Some ''{}'' else None),
     dj_Unmarshal = (\<lambda>b. if b = ''{}'' then Some sampleDoc else None)\<rparr>"

definition sampleUser :: string where "sampleUser = ''arn:dariya:iam:hind-1:111111111111:user/root''"
definition samplePolicyARN :: string where "samplePolicyARN = ''arn:dariya:iam:hind-1:111111111111:policy/admin''"

definition samplePolicyRequest :: CreatePolicyRequest where
  "samplePolicyRequest = \<lparr>cpr_AccountId = ''111111111111'', cpr_Name = ''admin'', cpr_Document = Some sampleDoc,
     cpr_ClientToken = ''t9''\<rparr>"

definition sampleOps :: "iamOp list" where
  "sampleOps = [OpCreatePolicy samplePolicyRequest, OpAttachPolicy samplePolicyARN sampleUser]"

definition sampleAuthorized :: process where
  "sampleAuthorized = fold (runIam sampleCodec (\<lambda>k. k) ''hind-1'') sampleOps sampleProcess"

definition sampleQuestion :: AuthorizeRequest where
  "sampleQuestion = \<lparr>aq_AccountId = ''111111111111'', aq_PrincipalArn = sampleUser, aq_Action = ''chala:RunInstance'',
     aq_ResourceArn = ''arn:dariya:chala:hind-1:111111111111:instance/web'', aq_RequestId = []\<rparr>"

lemma sampleCodec_ok: "json_ok sampleCodec"
  by (simp add: json_ok_def sampleCodec_def)

lemma sampleProcess_wf: "wf_db (w_db sampleProcess)"
  by code_simp

lemma sampleProcess_within: "attachedWithinAccount (w_db sampleProcess)"
proof -
  have "d_attach (w_db sampleProcess) = []" by code_simp
  then show ?thesis by (simp add: attachedWithinAccount_def)
qed

lemma sampleProcess_coherent: "policiesCoherent dj ck sampleProcess"
  by (simp add: policiesCoherent_def sampleProcess_def) (simp add: cache_New_def plainOptions_def)

lemma cross_account_never_allowed_witness:
  "\<exists>resp ident res. run (authorize False (\<lambda>_. ret (Inr [\<lparr>ap_PolicyARN = [], ap_Document = Some (pd_Statements sampleDoc)\<rparr>])) sampleQuestion) () = (Inr resp, ()) \<and>
     arn_Parse (aq_PrincipalArn sampleQuestion) = Inr ident \<and> arn_Parse (aq_ResourceArn sampleQuestion) = Inr res \<and> a_Account ident = a_Account res"
proof -
  let ?m = "authorize False (\<lambda>_. ret (Inr [\<lparr>ap_PolicyARN = [], ap_Document = Some (pd_Statements sampleDoc)\<rparr>])) sampleQuestion"
  have "case result_of ?m () of Inl e \<Rightarrow> False | Inr resp \<Rightarrow> as_Decision resp = DECISION_ALLOW" by code_simp
  then obtain resp where r: "run ?m () = (Inr resp, ())" "as_Decision resp = DECISION_ALLOW"
    by (cases "result_of ?m ()") (auto simp: prod_eq_iff)
  from cross_account_never_allowed [OF r] r(1) show ?thesis by blast
qed

lemma iam_operations_keep_invariant_witness:
  "wf_db (w_db sampleAuthorized) \<and> attachedWithinAccount (w_db sampleAuthorized) \<and>
   map at_principal (d_attach (w_db sampleAuthorized)) = [sampleUser]"
proof -
  have "map at_principal (d_attach (w_db sampleAuthorized)) = [sampleUser]" by code_simp
  then show ?thesis
    using iam_operations_keep_invariant [OF sampleProcess_wf sampleProcess_within sampleProcess_coherent sampleAuthorized_def]
    by simp
qed

lemma decision_is_current_witness:
  "\<exists>resp q'. run (authorizer_Authorize sampleCodec (\<lambda>k. k) False sampleQuestion) sampleAuthorized = (Inr resp, q') \<and>
     as_Decision resp = DECISION_ALLOW \<and> (\<exists>res. arn_Parse (aq_ResourceArn sampleQuestion) = Inr res)"
proof -
  let ?m = "authorizer_Authorize sampleCodec (\<lambda>k. k) False sampleQuestion"
  have "case result_of ?m sampleAuthorized of Inl e \<Rightarrow> False | Inr resp \<Rightarrow> as_Decision resp = DECISION_ALLOW" by code_simp
  then obtain resp q' where "run ?m sampleAuthorized = (Inr resp, q')" "as_Decision resp = DECISION_ALLOW"
    by (cases "result_of ?m sampleAuthorized") (auto simp: prod_eq_iff)
  then show ?thesis
    using decision_is_current [OF sampleProcess_wf sampleProcess_within sampleProcess_coherent sampleAuthorized_def] by metis
qed

lemma iamInv_sample: "iamInv sampleCodec (\<lambda>k. k) sampleAuthorized"
  using iamInv_runs [of sampleCodec "\<lambda>k. k" sampleProcess "''hind-1''" sampleOps]
  by (simp add: iamInv_def sampleProcess_wf sampleProcess_within sampleProcess_coherent sampleAuthorized_def)

lemma revoked_policy_no_longer_grants_witness:
  "\<exists>q ps v. run (DetachPolicy (Some InvalidatePrincipal) samplePolicyARN sampleUser) sampleAuthorized = (Inr (), q) \<and>
     run (cachedPolicies sampleCodec (\<lambda>k. k) sampleUser) q = (Inr ps, v) \<and> list_all (\<lambda>ap. ap_PolicyARN ap \<noteq> samplePolicyARN) ps"
proof -
  let ?d = "DetachPolicy (Some InvalidatePrincipal) samplePolicyARN sampleUser :: (process, err + unit) state"
  define q where "q = final_of ?d sampleAuthorized"
  have "\<not> isl (result_of ?d sampleAuthorized)" by code_simp
  then have d: "run ?d sampleAuthorized = (Inr (), q)"
    by (cases "result_of ?d sampleAuthorized") (auto simp: q_def prod_eq_iff)
  have "\<not> isl (result_of (cachedPolicies sampleCodec (\<lambda>k. k) sampleUser) q)" unfolding q_def by code_simp
  then obtain ps v where c: "run (cachedPolicies sampleCodec (\<lambda>k. k) sampleUser) q = (Inr ps, v)"
    by (cases "result_of (cachedPolicies sampleCodec (\<lambda>k. k) sampleUser) q") (auto simp: prod_eq_iff)
  have "list_all (\<lambda>ap. ap_PolicyARN ap \<noteq> samplePolicyARN) ps"
    by (rule revoked_policy_no_longer_grants [of sampleAuthorized sampleCodec "\<lambda>k. k", OF _ _ _ disjI1 [OF d] c])
      (use iamInv_sample in \<open>simp_all add: iamInv_def\<close>)
  with d c show ?thesis by blast
qed

lemma created_policy_reads_back_witness:
  "\<exists>pol. result_of (CreatePolicy sampleCodec ''hind-1'' samplePolicyRequest) sampleProcess = Inr pol \<and>
     result_of (GetPolicy sampleCodec (pl_PolicyArn pol)) sampleAuthorized = Inr pol"
proof -
  let ?m = "CreatePolicy sampleCodec ''hind-1'' samplePolicyRequest :: (process, err + Policy) state"
  define q where "q = final_of ?m sampleProcess"
  have "\<not> isl (result_of ?m sampleProcess)" by code_simp
  then obtain pol where m: "run ?m sampleProcess = (Inr pol, q)"
    by (cases "result_of ?m sampleProcess") (auto simp: q_def prod_eq_iff)
  have "nextFault q = None" unfolding q_def by code_simp
  from created_policy_reads_back [OF sampleCodec_ok m this refl]
  have "result_of (GetPolicy sampleCodec (pl_PolicyArn pol)) q = Inr pol" by simp
  moreover have "nextFault sampleAuthorized = None" "d_policies (w_db sampleAuthorized) = d_policies (w_db q)"
    unfolding q_def by code_simp+
  moreover have "nextFault q = None" unfolding q_def by code_simp
  ultimately have "result_of (GetPolicy sampleCodec (pl_PolicyArn pol)) sampleAuthorized = Inr pol"
    by (simp add: GetPolicy_def getPolicy_run policyByArn_def)
      (cases "find (\<lambda>r. po_arn r = pl_PolicyArn pol) (d_policies (w_db q))"; simp)
  with m show ?thesis by simp
qed

lemma policy_token_replays_across_accounts_witness:
  "\<exists>w' theirs. run (CreatePolicy sampleCodec ''hind-1'' \<lparr>cpr_AccountId = ''999999999999'', cpr_Name = ''mine'', cpr_Document = Some sampleDoc,
      cpr_ClientToken = ''t9''\<rparr>) sampleAuthorized = (scanPolicy sampleCodec theirs, w') \<and> po_account theirs = ''111111111111''"
proof -
  have "case idemById ''CreatePolicy'' ''t9'' (w_db sampleAuthorized) of None \<Rightarrow> False | Some idem \<Rightarrow>
      (case policyByArn (id_result idem) (w_db sampleAuthorized) of None \<Rightarrow> False | Some theirs \<Rightarrow> po_account theirs = ''111111111111'')"
    by code_simp
  then obtain idem theirs where i: "idemById ''CreatePolicy'' ''t9'' (w_db sampleAuthorized) = Some idem"
    "policyByArn (id_result idem) (w_db sampleAuthorized) = Some theirs" "po_account theirs = ''111111111111''"
    by (auto split: option.splits)
  have p: "nextFault sampleAuthorized = None" "calm sampleAuthorized" "is_account_id ''999999999999''" "iam_validateName ''mine'' = None"
    "ValidateDocument (Some (pd_Statements sampleDoc)) = None" "dj_Marshal sampleCodec (withVersion sampleDoc) \<noteq> None" by code_simp+
  show ?thesis using policy_token_replays_across_accounts [OF p _ i(1,2), of "''hind-1''"] i(3) by blast
qed

lemma policy_listing_is_complete_witness:
  "collectPages 2 (\<lambda>tok. result_of (ListPolicies sampleCodec (\<lambda>k. k) ''111111111111'' 1 tok) sampleAuthorized) [] =
     Some (Inr (map (policyOf sampleCodec) (policiesOfAccount ''111111111111'' (w_db sampleAuthorized))))"
proof -
  have d: "nextFault sampleAuthorized = None" "is_account_id ''111111111111''"
    "length (d_policies (w_db sampleAuthorized)) = 1" by code_simp+
  have "list_all (\<lambda>r. dj_Unmarshal sampleCodec (po_document r) \<noteq> None \<and> po_arn r \<noteq> [] \<and> po_account r = ''111111111111'')
      (d_policies (w_db sampleAuthorized))" by code_simp
  moreover obtain r where "d_policies (w_db sampleAuthorized) = [r]" using d(3) by (auto simp: length_Suc_conv)
  ultimately show ?thesis
    using policy_listing_is_complete [of sampleAuthorized 1 "''111111111111''" sampleCodec "\<lambda>k. k"] d(1,2)
    by (cases "po_arn (hd (d_policies (w_db sampleAuthorized)))")
      (simp_all add: decodable_def keyed_def policiesOfAccount_def inKeyOrder_def numeral_2_eq_2 del: collectPages.simps)
qed

end
