(* ===== verification/Session.thy ===== *)
theory Session
  imports Process
begin

text \<open>
  Console sessions (\<open>internal/session/session.go\<close>): an access key pair is exchanged once for an opaque token, whose
  SHA-256 is what the database holds. Signing in, resolving a token, signing out, and the sweep
  of expired rows. Expiry times are stored in whole milliseconds.
\<close>

definition CookieName :: string where "CookieName = ''dariya_session''"
definition CSRFHeader :: string where "CSRFHeader = ''X-Dariya-Csrf''"
definition SessionTTL :: duration where "SessionTTL = 12 * hour"
definition tokenBytes :: nat where "tokenBytes = 32"

definition ErrNoSession :: err where "ErrNoSession = Sentinel ''session: no session''"
definition ErrSessionExpired :: err where "ErrSessionExpired = Sentinel ''session: expired''"
definition ErrBadCredentials :: err where "ErrBadCredentials = Sentinel ''session: unknown access key or wrong secret''"

record Session =
  sn_AccountID :: string
  sn_PrincipalARN :: string
  sn_CSRFToken :: string
  sn_ExpiresAt :: time

record SessionKey =
  snk_AccountID :: string
  snk_PrincipalARN :: string
  snk_Secret :: bytes

record SignInCredentials =
  sic_AccessKeyID :: string
  sic_SecretAccessKey :: string

text \<open>\<open>NewManager\<close> settles the lifetime of a session.\<close>

definition NewManager :: "duration \<Rightarrow> duration" where
  "NewManager ttl = (if ttl \<le> 0 then SessionTTL else ttl)"

subsection \<open>Operations\<close>

definition insertSession :: "session_row \<Rightarrow> db \<Rightarrow> err + unit \<times> db" where
  "insertSession r d =
     (if sessionBySha (ss_sha r) d \<noteq> None then Inl (PgErr pgUniqueViolation)
      else if accountById (ss_account r) d = None then Inl (PgErr pgForeignKeyViolation)
      else Inr ((), d\<lparr>d_sessions := d_sessions d @ [r]\<rparr>))"

text \<open>What remains once the credentials are verified.\<close>

definition issueSession :: "duration \<Rightarrow> SessionKey \<Rightarrow> ('w world_scheme, err + string \<times> Session) state" where
  "issueSession ttl key = do {
     raw \<leftarrow> randRead tokenBytes;
     case raw of
       None \<Rightarrow> ret (Inl (Internal (Some ErrEntropy) ''could not generate a session token'' []))
     | Some raw \<Rightarrow> do {
         csrf \<leftarrow> randRead tokenBytes;
         case csrf of
           None \<Rightarrow> ret (Inl (Internal (Some ErrEntropy) ''could not generate a CSRF token'' []))
         | Some csrf \<Rightarrow> do {
             let token = rawURLEncode raw;
             let csrfToken = rawURLEncode csrf;
             now \<leftarrow> gets w_now;
             let expires = now + ttl;
             ins \<leftarrow> sql (insertSession
               \<lparr>ss_sha = sha256 token, ss_account = snk_AccountID key, ss_principal = snk_PrincipalARN key, ss_csrf = csrfToken,
                ss_created = unixMilli now, ss_expires = unixMilli expires\<rparr>);
             case ins of
               Inl e \<Rightarrow> ret (Inl (Internal (Some e) ''could not create the session'' []))
             | Inr _ \<Rightarrow> ret (Inr (token, \<lparr>sn_AccountID = snk_AccountID key, sn_PrincipalARN = snk_PrincipalARN key,
                 sn_CSRFToken = csrfToken, sn_ExpiresAt = expires\<rparr>))
           }
       }
   }"

definition SignIn ::
  "duration \<Rightarrow> (string \<Rightarrow> ('w world_scheme, err + SessionKey) state) \<Rightarrow> SignInCredentials \<Rightarrow>
   ('w world_scheme, err + string \<times> Session) state" where
  "SignIn ttl keys cred =
     (if sic_AccessKeyID cred = [] \<or> sic_SecretAccessKey cred = [] then
        ret (Inl (Validation ''an access key id and secret access key are required'' []))
      else do {
        key \<leftarrow> keys (sic_AccessKeyID cred);
        let storedSecret = (case key of Inl _ \<Rightarrow> [] | Inr k \<Rightarrow> snk_Secret k);
        let ok = (storedSecret = sic_SecretAccessKey cred);
        case key of
          Inl _ \<Rightarrow> ret (Inl ErrBadCredentials)
        | Inr k \<Rightarrow> (if \<not> ok then ret (Inl ErrBadCredentials) else issueSession ttl k)
      })"

definition session_Resolve :: "string \<Rightarrow> ('w world_scheme, err + Session) state" where
  "session_Resolve token =
     (if token = [] then ret (Inl ErrNoSession)
      else do {
        r \<leftarrow> sql (queryRow (sessionBySha (sha256 token)));
        case r of
          Inl e \<Rightarrow> (if errorsIs e ErrNoRows then ret (Inl ErrNoSession)
                    else ret (Inl (Internal (Some e) ''could not read the session'' [])))
        | Inr row \<Rightarrow> do {
            let expiresAt = ss_expires row * 1000000;
            now \<leftarrow> gets w_now;
            if now > expiresAt then ret (Inl ErrSessionExpired)
            else ret (Inr \<lparr>sn_AccountID = ss_account row, sn_PrincipalARN = ss_principal row, sn_CSRFToken = ss_csrf row,
                           sn_ExpiresAt = expiresAt\<rparr>)
          }
      })"

definition deleteSession :: "bytes \<Rightarrow> db \<Rightarrow> err + unit \<times> db" where
  "deleteSession sha d = Inr ((), d\<lparr>d_sessions := filter (\<lambda>r. ss_sha r \<noteq> sha) (d_sessions d)\<rparr>)"

definition SignOut :: "string \<Rightarrow> ('w world_scheme, err option) state" where
  "SignOut token =
     (if token = [] then ret None
      else do {
        r \<leftarrow> sql (deleteSession (sha256 token));
        case r of Inl e \<Rightarrow> ret (Some (Internal (Some e) ''could not sign out'' [])) | Inr _ \<Rightarrow> ret None
      })"

definition deleteExpired :: "int \<Rightarrow> db \<Rightarrow> err + nat \<times> db" where
  "deleteExpired nowMS d =
     Inr (length (filter (\<lambda>r. ss_expires r < nowMS) (d_sessions d)),
          d\<lparr>d_sessions := filter (\<lambda>r. \<not> ss_expires r < nowMS) (d_sessions d)\<rparr>)"

definition SweepExpired :: "('w world_scheme, err + nat) state" where
  "SweepExpired = do {
     now \<leftarrow> gets w_now;
     r \<leftarrow> sql (deleteExpired (unixMilli now));
     case r of Inl e \<Rightarrow> ret (Inl (Errorf ''session: sweep: %w'' [AErr e] (Some e))) | Inr n \<Rightarrow> ret (Inr n)
   }"

subsection \<open>What they do\<close>

text \<open>What a token resolves to, as a function of the tables and the time.\<close>

definition sessionTruth :: "db \<Rightarrow> time \<Rightarrow> string \<Rightarrow> err + Session" where
  "sessionTruth d now token =
     (case (if token = [] then None else sessionBySha (sha256 token) d) of
        None \<Rightarrow> Inl ErrNoSession
      | Some row \<Rightarrow>
          if now > ss_expires row * 1000000 then Inl ErrSessionExpired
          else Inr \<lparr>sn_AccountID = ss_account row, sn_PrincipalARN = ss_principal row, sn_CSRFToken = ss_csrf row,
                    sn_ExpiresAt = ss_expires row * 1000000\<rparr>)"

lemma Resolve_run:
  "run (session_Resolve token) w =
     (if token = [] then (Inl ErrNoSession, w)
      else case nextFault w of
        Some e \<Rightarrow> (Inl (Internal (Some e) ''could not read the session'' []), popFault w)
      | None \<Rightarrow> (sessionTruth (w_db w) (w_now w) token, popFault w))"
  using nextFault_Some [of w]
  by (auto simp: session_Resolve_def run_db queryRow_def ErrNoRows_def sessionTruth_def Let_def split: option.split)

lemma Resolve_result:
  "nextFault w = None \<Longrightarrow> result_of (session_Resolve token) w = sessionTruth (w_db w) (w_now w) token"
  by (simp add: Resolve_run sessionTruth_def)

lemma issueSession_cases:
  assumes "run (issueSession ttl key) w = (r, w')"
  shows "(\<exists>e. r = Inl e) \<and> w_db w' = w_db w \<or>
    (\<exists>token csrf row. token \<noteq> [] \<and> sessionBySha (sha256 token) (w_db w) = None \<and> accountById (snk_AccountID key) (w_db w) \<noteq> None \<and>
       row = \<lparr>ss_sha = sha256 token, ss_account = snk_AccountID key, ss_principal = snk_PrincipalARN key, ss_csrf = csrf,
         ss_created = unixMilli (w_now w), ss_expires = unixMilli (w_now w + ttl)\<rparr> \<and>
       w_db w' = (w_db w)\<lparr>d_sessions := d_sessions (w_db w) @ [row]\<rparr> \<and>
       r = Inr (token, \<lparr>sn_AccountID = snk_AccountID key, sn_PrincipalARN = snk_PrincipalARN key, sn_CSRFToken = csrf,
         sn_ExpiresAt = w_now w + ttl\<rparr>))"
proof -
  have ne: "rawURLEncode (take tokenBytes b) \<noteq> []" if "tokenBytes \<le> length b" for b
  proof -
    have "take tokenBytes b \<noteq> []" using that by (auto simp: tokenBytes_def)
    then show ?thesis using rawURL_roundtrip [of "take tokenBytes b"] rawURL_roundtrip [of "[]"]
      by (metis option.inject rawURLEncode.simps(1))
  qed
  show ?thesis
    using assms ne [of "w_entropy w"] unfolding issueSession_def
    by (auto simp: run_randRead run_db insertSession_def Let_def split: option.splits if_splits sum.splits)
qed

lemma sessionBySha_append:
  "sessionBySha (ss_sha row) d = None \<Longrightarrow> sessionBySha (ss_sha row) (d\<lparr>d_sessions := d_sessions d @ [row]\<rparr>) = Some row"
  by (simp add: sessionBySha_def find_append)

lemma SignIn_cases:
  assumes "run (SignIn ttl keys cred) w = (r, w')" "keys (sic_AccessKeyID cred) = m" "run m w = (k, w1)"
  shows "(\<exists>e. r = Inl e) \<and> (w' = w \<or> w' = w1) \<or>
    (\<exists>key. k = Inr key \<and> snk_Secret key = sic_SecretAccessKey cred \<and> run (issueSession ttl key) w1 = (r, w'))"
  using assms by (auto simp: SignIn_def Let_def split: if_splits sum.splits)

lemma SignOut_run:
  "run (SignOut token) w =
     (if token = [] then (None, w)
      else case nextFault w of
        Some e \<Rightarrow> (Some (Internal (Some e) ''could not sign out'' []), popFault w)
      | None \<Rightarrow> (None, popFault (w\<lparr>w_db := (w_db w)\<lparr>d_sessions := filter (\<lambda>r. ss_sha r \<noteq> sha256 token) (d_sessions (w_db w))\<rparr>\<rparr>)))"
  by (auto simp: SignOut_def run_db deleteSession_def split: option.split)

lemma SweepExpired_run:
  "run SweepExpired w =
     (case nextFault w of
        Some e \<Rightarrow> (Inl (Errorf ''session: sweep: %w'' [AErr e] (Some e)), popFault w)
      | None \<Rightarrow> (Inr (length (filter (\<lambda>r. ss_expires r < unixMilli (w_now w)) (d_sessions (w_db w)))),
          popFault (w\<lparr>w_db := (w_db w)\<lparr>d_sessions := filter (\<lambda>r. \<not> ss_expires r < unixMilli (w_now w)) (d_sessions (w_db w))\<rparr>\<rparr>)))"
  by (auto simp: SweepExpired_def run_db deleteExpired_def split: option.split)

lemma swept_is_expired: "x < unixMilli t \<Longrightarrow> x * 1000000 < t"
  using pos_mod_sign [of 1000000 t] div_mult_mod_eq [of t 1000000] unfolding unixMilli_def by linarith

lemma find_filter_key:
  "distinct (map f xs) \<Longrightarrow> find (\<lambda>x. f x = k) (filter P xs) =
     (case find (\<lambda>x. f x = k) xs of None \<Rightarrow> None | Some x \<Rightarrow> if P x then Some x else None)"
proof (induction xs)
  case (Cons x xs)
  have "find (\<lambda>x. f x = k) xs = None" if "f x = k"
  proof -
    have "f x \<notin> f ` set xs" using Cons.prems by simp
    then show ?thesis unfolding find_None that [symmetric] by (metis image_eqI)
  qed
  with Cons show ?case by (auto split: option.splits)
qed simp

lemma wf_sessions: "wf_db d \<Longrightarrow> distinct (map ss_sha (d_sessions d))"
  by (simp add: wf_db_def)

lemma wf_session_append:
  assumes "wf_db d" "sessionBySha (ss_sha row) d = None" "accountById (ss_account row) d \<noteq> None"
  shows "wf_db (d\<lparr>d_sessions := d_sessions d @ [row]\<rparr>)"
proof -
  obtain a where "accountById (ss_account row) d = Some a" using assms(3) by auto
  then have "a \<in> set (d_accounts d)" "ac_id a = ss_account row" by (auto simp: accountById_def dest: find_SomeD)
  then have "ss_account row \<in> ac_id ` set (d_accounts d)" by force
  with assms(1,2) show ?thesis by (auto simp: wf_db_def sessionBySha_def find_None)
qed

lemma wf_session_filter: "wf_db d \<Longrightarrow> wf_db (d\<lparr>d_sessions := filter P (d_sessions d)\<rparr>)"
  by (auto simp: wf_db_def distinct_map_filter)

subsection \<open>Properties\<close>

text \<open>A session is an envelope around a credential that was presented in full: signing in succeeds only when the
  lookup of the access key answered with exactly the secret presented, and the token then resolves, for as long
  as its row stands, to that key's account and principal and to the CSRF token that was
  returned, up to its expiry rounded down to the millisecond, and not after it. Any failure leaves
  no session behind.\<close>
theorem session_roundtrip:
  assumes "run (SignIn ttl keys cred) w = (r, w')" "\<And>k v. w_db (final_of (keys k) v) = w_db v"
    "run (keys (sic_AccessKeyID cred)) w = (k, w1)"
  shows "case r of
      Inl e \<Rightarrow> w_db w' = w_db w
    | Inr (token, s) \<Rightarrow> (\<exists>key. k = Inr key \<and> snk_Secret key = sic_SecretAccessKey cred \<and>
        sn_AccountID s = snk_AccountID key \<and> sn_PrincipalARN s = snk_PrincipalARN key \<and> sn_ExpiresAt s = w_now w1 + ttl) \<and>
        sessionBySha (sha256 token) (w_db w) = None \<and>
        (\<forall>v. nextFault v = None \<longrightarrow> sessionBySha (sha256 token) (w_db v) = sessionBySha (sha256 token) (w_db w') \<longrightarrow>
           result_of (session_Resolve token) (v :: 'w world_scheme) =
             (if w_now v \<le> unixMilli (sn_ExpiresAt s) * 1000000 then Inr (s\<lparr>sn_ExpiresAt := unixMilli (sn_ExpiresAt s) * 1000000\<rparr>)
              else Inl ErrSessionExpired))"
proof -
  have db1: "w_db w1 = w_db w" using assms(2) [of "sic_AccessKeyID cred" w] assms(3) by simp
  from SignIn_cases [OF assms(1) refl assms(3)] consider e where "r = Inl e" "w_db w' = w_db w"
    | key where "k = Inr key" "snk_Secret key = sic_SecretAccessKey cred" "run (issueSession ttl key) w1 = (r, w')"
    using db1 by auto
  then show ?thesis
  proof cases
    case 2
    from issueSession_cases [OF 2(3)] consider e where "r = Inl e" "w_db w' = w_db w"
      | token csrf row where "token \<noteq> []" "sessionBySha (sha256 token) (w_db w) = None"
          "row = \<lparr>ss_sha = sha256 token, ss_account = snk_AccountID key, ss_principal = snk_PrincipalARN key, ss_csrf = csrf,
            ss_created = unixMilli (w_now w1), ss_expires = unixMilli (w_now w1 + ttl)\<rparr>"
          "w_db w' = (w_db w)\<lparr>d_sessions := d_sessions (w_db w) @ [row]\<rparr>"
          "r = Inr (token, \<lparr>sn_AccountID = snk_AccountID key, sn_PrincipalARN = snk_PrincipalARN key, sn_CSRFToken = csrf,
            sn_ExpiresAt = w_now w1 + ttl\<rparr>)"
      unfolding db1 by (elim disjE exE conjE) assumption+
    then show ?thesis
    proof cases
      case new: 2
      have "sessionBySha (sha256 token) (w_db w') = Some row"
        using sessionBySha_append [of row "w_db w"] new(2) by (simp add: new(3,4))
      then show ?thesis using 2(1,2) new(1,2) by (simp add: new(3,5) Resolve_result sessionTruth_def)
    qed simp
  qed simp
qed

text \<open>Signing out is immediate and the sweep is invisible: after a sign-out the token resolves to nothing and
  every other token as before; a sweep removes only sessions that had expired, so whatever
  token still resolved resolves to the same session, and no other.\<close>
theorem sign_out_and_sweep:
  assumes "wf_db (w_db w)" "token \<noteq> []" "run (SignOut token) w = (None, v)" "run SweepExpired w = (Inr n, u)"
  shows "sessionTruth (w_db v) t token = Inl ErrNoSession \<and>
    (sha256 other \<noteq> sha256 token \<longrightarrow> sessionTruth (w_db v) t other = sessionTruth (w_db w) t other) \<and>
    (w_now w \<le> t \<longrightarrow> (\<forall>s. sessionTruth (w_db u) t other = Inr s \<longleftrightarrow> sessionTruth (w_db w) t other = Inr s)) \<and>
    n + length (d_sessions (w_db u)) = length (d_sessions (w_db w))"
proof -
  note ds = wf_sessions [OF assms(1)]
  have v: "w_db v = (w_db w)\<lparr>d_sessions := filter (\<lambda>r. ss_sha r \<noteq> sha256 token) (d_sessions (w_db w))\<rparr>"
    using assms(2,3) by (auto simp: SignOut_run split: option.splits)
  have u: "w_db u = (w_db w)\<lparr>d_sessions := filter (\<lambda>r. \<not> ss_expires r < unixMilli (w_now w)) (d_sessions (w_db w))\<rparr>"
    and n: "n = length (filter (\<lambda>r. ss_expires r < unixMilli (w_now w)) (d_sessions (w_db w)))"
    using assms(4) by (auto simp: SweepExpired_run split: option.splits)
  have sv: "sessionBySha h (w_db v) = (if h = sha256 token then None else sessionBySha h (w_db w))" for h
  proof (cases "h = sha256 token")
    case True
    then show ?thesis by (simp add: v sessionBySha_def find_None)
  next
    case False
    then show ?thesis by (simp add: v sessionBySha_def find_filter_other)
  qed
  have su: "sessionBySha h (w_db u) = (case sessionBySha h (w_db w) of None \<Rightarrow> None
      | Some r \<Rightarrow> if \<not> ss_expires r < unixMilli (w_now w) then Some r else None)" for h
    using find_filter_key [OF ds, of h "\<lambda>r. \<not> ss_expires r < unixMilli (w_now w)"] by (simp add: u sessionBySha_def)
  have "ss_expires r * 1000000 < t" if "w_now w \<le> t" "ss_expires r < unixMilli (w_now w)" for r :: session_row
    using swept_is_expired [OF that(2)] that(1) by simp
  then have "\<forall>s. sessionTruth (w_db u) t other = Inr s \<longleftrightarrow> sessionTruth (w_db w) t other = Inr s" if "w_now w \<le> t"
    using that by (auto simp: sessionTruth_def su split: option.splits if_splits)
  moreover have "sessionTruth (w_db v) t token = Inl ErrNoSession" by (simp add: sessionTruth_def sv)
  moreover have "sha256 other \<noteq> sha256 token \<longrightarrow> sessionTruth (w_db v) t other = sessionTruth (w_db w) t other"
    by (simp add: sessionTruth_def sv)
  moreover have "n + length (d_sessions (w_db u)) = length (d_sessions (w_db w))"
    using sum_length_filter_compl [of "\<lambda>r. ss_expires r < unixMilli (w_now w)" "d_sessions (w_db w)"] by (simp add: n u)
  ultimately show ?thesis by blast
qed

subsection \<open>Witnesses\<close>

definition sampleSessionKey :: SessionKey where
  "sampleSessionKey = \<lparr>snk_AccountID = ''111111111111'', snk_PrincipalARN = ''arn:dariya:iam:hind-1:111111111111:user/root'',
     snk_Secret = ''open sesame''\<rparr>"

definition sampleCred :: SignInCredentials where
  "sampleCred = \<lparr>sic_AccessKeyID = ''K'', sic_SecretAccessKey = ''open sesame''\<rparr>"

text \<open>The token that the sample process issues is the encoding of thirty-two bytes \<open>x\<close>.\<close>

definition sampleSessionToken :: string where "sampleSessionToken = rawURLEncode (replicate 32 CHR ''x'')"

definition sampleSessionRow :: session_row where
  "sampleSessionRow = \<lparr>ss_sha = sha256 sampleSessionToken, ss_account = ''111111111111'',
     ss_principal = ''arn:dariya:iam:hind-1:111111111111:user/root'', ss_csrf = sampleSessionToken,
     ss_created = unixMilli (w_now sampleProcess), ss_expires = unixMilli (w_now sampleProcess + SessionTTL)\<rparr>"

definition signedIn :: process where
  "signedIn = sampleProcess\<lparr>w_db := (w_db sampleProcess)\<lparr>d_sessions := [sampleSessionRow]\<rparr>, w_entropy := replicate 136 CHR ''x''\<rparr>"

definition sampleSession :: Session where
  "sampleSession = \<lparr>sn_AccountID = ''111111111111'', sn_PrincipalARN = ''arn:dariya:iam:hind-1:111111111111:user/root'',
     sn_CSRFToken = sampleSessionToken, sn_ExpiresAt = w_now sampleProcess + SessionTTL\<rparr>"

lemma sampleProcess_facts:
  "w_faults sampleProcess = []" "d_sessions (w_db sampleProcess) = []" "accountById ''111111111111'' (w_db sampleProcess) \<noteq> None"
  "wf_db (w_db sampleProcess)" "w_now sampleProcess = 1700000000000000000"
  by code_simp+

lemma sampleSignIn:
  "run (SignIn SessionTTL (\<lambda>_. ret (Inr sampleSessionKey)) sampleCred) sampleProcess = (Inr (sampleSessionToken, sampleSession), signedIn)"
proof -
  have e: "w_entropy sampleProcess = replicate 200 CHR ''x''" by (simp add: sampleProcess_def)
  have n: "nextFault sampleProcess = None" by (simp add: nextFault_def sampleProcess_facts)
  have p: "popFault w = w" if "w_faults w = []" for w :: process using that by (cases w) (simp add: popFault_def)
  have t: "take 32 (replicate 200 CHR ''x'') = replicate 32 CHR ''x''"
    "drop 32 (replicate 200 CHR ''x'') = replicate 168 CHR ''x''" "drop 32 (replicate 168 CHR ''x'') = replicate 136 CHR ''x''"
    "take 32 (replicate 168 CHR ''x'') = replicate 32 CHR ''x''"
    by (simp_all only: take_replicate drop_replicate) simp_all
  show ?thesis
    by (simp add: SignIn_def issueSession_def sampleCred_def sampleSessionKey_def run_randRead run_db insertSession_def tokenBytes_def e n t p
        sampleProcess_facts sessionBySha_def signedIn_def sampleSessionToken_def sampleSession_def sampleSessionRow_def Let_def)
qed

lemma session_roundtrip_witness:
  "\<exists>s. result_of (session_Resolve sampleSessionToken) signedIn = Inr s \<and> sn_AccountID s = ''111111111111''"
proof -
  have k: "run (ret (Inr sampleSessionKey)) sampleProcess = (Inr sampleSessionKey :: err + SessionKey, sampleProcess)" by simp
  have n: "nextFault signedIn = None" by (simp add: nextFault_def sampleProcess_facts signedIn_def)
  have t: "w_now signedIn \<le> unixMilli (sn_ExpiresAt sampleSession) * 1000000"
    by (simp add: signedIn_def sampleSession_def sampleProcess_facts unixMilli_def SessionTTL_def)
  have "\<And>k v. w_db (final_of (ret (Inr sampleSessionKey :: err + SessionKey)) (v :: process)) = w_db v" by simp
  from session_roundtrip [OF sampleSignIn this k, unfolded sum.case prod.case, THEN conjunct2, THEN conjunct2, rule_format, OF n refl] t
  show ?thesis by (simp add: sampleSession_def)
qed

lemma sign_out_and_sweep_witness:
  "\<exists>v u. run (SignOut sampleSessionToken) signedIn = (None, v) \<and> run SweepExpired signedIn = (Inr 0, u) \<and>
     sessionTruth (w_db v) 0 sampleSessionToken = Inl ErrNoSession \<and> length (d_sessions (w_db u)) = length (d_sessions (w_db signedIn))"
proof -
  have c: "sampleSessionToken \<noteq> []" by (simp add: sampleSessionToken_def numeral_eq_Suc)
  have n: "nextFault signedIn = None" by (simp add: nextFault_def sampleProcess_facts signedIn_def)
  have "wf_db ((w_db sampleProcess)\<lparr>d_sessions := d_sessions (w_db sampleProcess) @ [sampleSessionRow]\<rparr>)"
    by (rule wf_session_append) (simp_all add: sampleProcess_facts sessionBySha_def sampleSessionRow_def)
  then have d: "wf_db (w_db signedIn)" by (simp add: signedIn_def sampleProcess_facts)
  obtain v where v: "run (SignOut sampleSessionToken) signedIn = (None, v)" using c n by (simp add: SignOut_run)
  have "\<not> ss_expires sampleSessionRow < unixMilli (w_now signedIn)"
    by (simp add: signedIn_def sampleSessionRow_def sampleProcess_facts unixMilli_def SessionTTL_def)
  then obtain u where u: "run SweepExpired signedIn = (Inr 0, u)" using n by (simp add: SweepExpired_run signedIn_def)
  from sign_out_and_sweep [OF d c v u, of 0 "[]"] v u show ?thesis by simp
qed

end
