(* ===== verification/Authn.thy ===== *)
theory Authn
  imports Session
begin

text \<open>
  Authentication (\<open>internal/authn/authn.go\<close>): a signature when one is offered, else a console session cookie with its
  CSRF check, and the middleware that hands the caller and the bytes that were verified to the next handler. Cookies are read
  by the rules of \<open>net/http\<close>.
\<close>

definition MaxBodyBytes :: nat where "MaxBodyBytes = 6 * 2 ^ 20"

subsection \<open>Reading a cookie\<close>

definition isASCIISpace :: "char \<Rightarrow> bool" where
  "isASCIISpace c \<longleftrightarrow> c = CHR '' '' \<or> c = CHR 0x09 \<or> c = CHR 0x0A \<or> c = CHR 0x0D"

definition trimString :: "string \<Rightarrow> string" where
  "trimString s = rev (dropWhile isASCIISpace (rev (dropWhile isASCIISpace s)))"

definition validCookieValueByte :: "char \<Rightarrow> bool" where
  "validCookieValueByte b \<longleftrightarrow> CHR '' '' \<le> b \<and> b < CHR 0x7F \<and> b \<noteq> CHR 0x22 \<and> b \<noteq> CHR '';'' \<and> b \<noteq> CHR 0x5C"

definition parseCookieValue :: "string \<Rightarrow> string option" where
  "parseCookieValue raw =
     (let v = (if length raw > 1 \<and> hd raw = CHR 0x22 \<and> last raw = CHR 0x22 then butlast (tl raw) else raw)
      in if list_all validCookieValueByte v then Some v else None)"

text \<open>One \<open>name=value\<close> part: its value when it is the cookie asked for.\<close>

definition cookiePart :: "string \<Rightarrow> string \<Rightarrow> string option" where
  "cookiePart name part =
     (let p = trimString part;
          (n, v) = (case cut CHR ''='' p of None \<Rightarrow> (p, []) | Some nv \<Rightarrow> nv)
      in if p = [] \<or> trimString n \<noteq> name then None else parseCookieValue v)"

definition readCookie :: "headers \<Rightarrow> string \<Rightarrow> string option" where
  "readCookie h name =
     (case List.map_filter (cookiePart name) (concat (map (\<lambda>line. splitOn CHR '';'' (trimString line)) (getOr [] h ''Cookie''))) of
        [] \<Rightarrow> None | v # _ \<Rightarrow> Some v)"

subsection \<open>Configuration\<close>

text \<open>\<open>fmt.Sprintf\<close> of a message and the \<open>Error()\<close> text of an error: rendering is left to the library.\<close>

record fmtLib =
  fl_Sprintf :: "message \<Rightarrow> string"
  fl_Error :: "err \<Rightarrow> string"

record 's AuthnConfig =
  au_Keys :: "string \<Rightarrow> ('s, err + SigningKey) state"
  au_Region :: string
  au_Service :: "request \<Rightarrow> string"
  au_Sessions :: "(string \<Rightarrow> ('s, err + Session) state) option"
  au_Dev :: bool
  au_Now :: "'s \<Rightarrow> time"

subsection \<open>The two schemes\<close>

definition authn_denied :: "string \<Rightarrow> string \<Rightarrow> err" where
  "authn_denied failure detail =
     ApiErr CodeInvalidSig (''the request signature is invalid, or the credentials are unknown'', []) []
       [(''check'', failure), (''detail'', detail)] None"

definition logAndDeny :: "fmtLib \<Rightarrow> err \<Rightarrow> err" where
  "logAndDeny fl e =
     (case e of
        SignErr failure f as \<Rightarrow> authn_denied failure (fl_Sprintf fl (f, as))
      | _ \<Rightarrow> authn_denied ''malformed_request'' (fl_Error fl e))"

definition isSafeMethod :: "string \<Rightarrow> bool" where
  "isSafeMethod method \<longleftrightarrow> method = ''GET'' \<or> method = ''HEAD'' \<or> method = ''OPTIONS''"

definition bodyUnreadable :: err where
  "bodyUnreadable = ApiErr CodeValidation (''request body could not be read, or exceeds the size limit'', []) [] [] None"

definition readLimited :: "request \<Rightarrow> bytes option" where
  "readLimited r = (if hr_BodyFails r \<or> length (hr_Body r) > MaxBodyBytes then None else Some (hr_Body r))"

text \<open>A panic inside the verification would be \<^const>\<open>None\<close>; there is none, see \<open>authenticate_returns\<close>.\<close>

type_synonym authResult = "(err + Principal \<times> bytes option) option"

definition authenticateSession :: "'s AuthnConfig \<Rightarrow> (string \<Rightarrow> ('s, err + Session) state) \<Rightarrow> request \<Rightarrow> string \<Rightarrow> ('s, authResult) state" where
  "authenticateSession cfg resolve r token = do {
     s \<leftarrow> resolve token;
     case s of
       Inl e \<Rightarrow> ret (Some (Inl (authn_denied ''unknown_or_expired_session'' ''see the server log'')))
     | Inr s \<Rightarrow>
         let presented = header_Get (hr_Header r) CSRFHeader in
         if \<not> isSafeMethod (hr_Method r) \<and> (presented = [] \<or> presented \<noteq> sn_CSRFToken s) then
           ret (Some (Inl (authn_denied ''missing_or_wrong_csrf_token''
             (''a '' @ CSRFHeader @ '' header matching the one issued at sign-in is required''))))
         else ret (Some (Inr (\<lparr>pr_AccountId = sn_AccountID s, pr_PrincipalArn = sn_PrincipalARN s\<rparr>, None)))
   }"

definition authenticateSignature :: "fmtLib \<Rightarrow> 's AuthnConfig \<Rightarrow> request \<Rightarrow> ('s, authResult) state" where
  "authenticateSignature fl cfg r =
     (case ParseAuthorization (header_Get (hr_Header r) ''Authorization'') of
        Inl e \<Rightarrow> ret (Some (Inl (logAndDeny fl e)))
      | Inr sig \<Rightarrow>
     (case readLimited r of
        None \<Rightarrow> ret (Some (Inl bodyUnreadable))
      | Some body \<Rightarrow> do {
          key \<leftarrow> au_Keys cfg (sc_AccessKeyID (sig_Scope sig));
          case key of
            Inl e \<Rightarrow> ret (Some (Inl (authn_denied ''unknown_or_unusable_credentials'' ''see the server log'')))
          | Inr key \<Rightarrow> do {
              now \<leftarrow> gets (au_Now cfg);
              case sg_Verify \<lparr>vi_Request = RequestFromHTTP r body, vi_Signature = sig,
                  vi_DateHeaderValue = header_Get (hr_Header r) DateHeader,
                  vi_ContentSHA256Header = header_Get (hr_Header r) ContentSHA256Header,
                  vi_Secret = sk_Secret key, vi_Region = au_Region cfg, vi_Service = au_Service cfg r, vi_Now = now\<rparr> of
                None \<Rightarrow> ret None
              | Some (Some e) \<Rightarrow> ret (Some (Inl (logAndDeny fl e)))
              | Some None \<Rightarrow>
                  ret (Some (Inr (\<lparr>pr_AccountId = sk_AccountID key, pr_PrincipalArn = sk_PrincipalARN key\<rparr>, Some body)))
            }
        }))"

definition authenticationRequired :: err where
  "authenticationRequired = ApiErr CodeInvalidSig (''an Authorization header or a session cookie is required'', []) [] [] None"

definition authenticate :: "fmtLib \<Rightarrow> 's AuthnConfig \<Rightarrow> request \<Rightarrow> ('s, authResult) state" where
  "authenticate fl cfg r =
     (if header_Get (hr_Header r) ''Authorization'' \<noteq> [] then authenticateSignature fl cfg r
      else case (au_Sessions cfg, readCookie (hr_Header r) CookieName) of
        (Some resolve, Some value) \<Rightarrow>
          if value \<noteq> [] then authenticateSession cfg resolve r value else ret (Some (Inl authenticationRequired))
      | _ \<Rightarrow> ret (Some (Inl authenticationRequired)))"

text \<open>The verified bytes become the body of the request that is passed on.\<close>

definition withBody :: "bytes option \<Rightarrow> request \<Rightarrow> request" where
  "withBody body r = (case body of None \<Rightarrow> r | Some b \<Rightarrow> r\<lparr>hr_Body := b, hr_BodyFails := False\<rparr>)"

definition authnMiddleware :: "fmtLib \<Rightarrow> 's AuthnConfig \<Rightarrow> ('m, 's) middleware" where
  "authnMiddleware fl cfg next r = do {
     res \<leftarrow> inState (authenticate fl cfg r);
     case res of
       None \<Rightarrow> ret (Panicked ''slice bounds out of range'')
     | Some (Inl e) \<Rightarrow> WriteError r e (au_Dev cfg)
     | Some (Inr (pr, body)) \<Rightarrow> do {
         r' \<leftarrow> WithPrincipal pr (withBody body r);
         next r'
       }
   }"

subsection \<open>What authentication decides\<close>

lemma authenticate_returns: "result_of (authenticate fl cfg r) s \<noteq> None"
  by (auto simp: authenticate_def authenticateSignature_def authenticateSession_def sg_Verify_no_panic Let_def
      split: sum.split option.split prod.split)

text \<open>The two ways to be authenticated, as a predicate on the request and the state it runs in.\<close>

definition signedBy :: "'s AuthnConfig \<Rightarrow> request \<Rightarrow> 's \<Rightarrow> 's \<Rightarrow> SigningKey \<Rightarrow> bool" where
  "signedBy cfg r s s' key \<longleftrightarrow>
     (\<exists>sig. header_Get (hr_Header r) ''Authorization'' \<noteq> [] \<and>
       ParseAuthorization (header_Get (hr_Header r) ''Authorization'') = Inr sig \<and>
       \<not> hr_BodyFails r \<and> length (hr_Body r) \<le> MaxBodyBytes \<and>
       run (au_Keys cfg (sc_AccessKeyID (sig_Scope sig))) s = (Inr key, s') \<and>
       sg_Verify \<lparr>vi_Request = RequestFromHTTP r (hr_Body r), vi_Signature = sig,
         vi_DateHeaderValue = header_Get (hr_Header r) DateHeader,
         vi_ContentSHA256Header = header_Get (hr_Header r) ContentSHA256Header,
         vi_Secret = sk_Secret key, vi_Region = au_Region cfg, vi_Service = au_Service cfg r, vi_Now = au_Now cfg s'\<rparr> = Some None)"

definition inSession :: "'s AuthnConfig \<Rightarrow> request \<Rightarrow> 's \<Rightarrow> 's \<Rightarrow> Session \<Rightarrow> bool" where
  "inSession cfg r s s' sess \<longleftrightarrow>
     (\<exists>resolve token. header_Get (hr_Header r) ''Authorization'' = [] \<and> au_Sessions cfg = Some resolve \<and>
       readCookie (hr_Header r) CookieName = Some token \<and> token \<noteq> [] \<and> run (resolve token) s = (Inr sess, s') \<and>
       (isSafeMethod (hr_Method r) \<or>
        header_Get (hr_Header r) CSRFHeader \<noteq> [] \<and> header_Get (hr_Header r) CSRFHeader = sn_CSRFToken sess))"

lemma authenticateSignature_pass:
  "run (authenticateSignature fl cfg r) s = (Some (Inr (pr, body)), s') \<longleftrightarrow>
     (\<exists>sig key. ParseAuthorization (header_Get (hr_Header r) ''Authorization'') = Inr sig \<and>
       \<not> hr_BodyFails r \<and> length (hr_Body r) \<le> MaxBodyBytes \<and>
       run (au_Keys cfg (sc_AccessKeyID (sig_Scope sig))) s = (Inr key, s') \<and>
       sg_Verify \<lparr>vi_Request = RequestFromHTTP r (hr_Body r), vi_Signature = sig,
         vi_DateHeaderValue = header_Get (hr_Header r) DateHeader,
         vi_ContentSHA256Header = header_Get (hr_Header r) ContentSHA256Header,
         vi_Secret = sk_Secret key, vi_Region = au_Region cfg, vi_Service = au_Service cfg r, vi_Now = au_Now cfg s'\<rparr> = Some None \<and>
       pr = \<lparr>pr_AccountId = sk_AccountID key, pr_PrincipalArn = sk_PrincipalARN key\<rparr> \<and> body = Some (hr_Body r))"
  by (auto simp: authenticateSignature_def readLimited_def split: sum.splits option.splits prod.splits if_splits)

lemma authenticateSession_pass:
  "run (authenticateSession cfg resolve r token) s = (Some (Inr (pr, body)), s') \<longleftrightarrow>
     (\<exists>sess. run (resolve token) s = (Inr sess, s') \<and>
       (isSafeMethod (hr_Method r) \<or>
        header_Get (hr_Header r) CSRFHeader \<noteq> [] \<and> header_Get (hr_Header r) CSRFHeader = sn_CSRFToken sess) \<and>
       pr = \<lparr>pr_AccountId = sn_AccountID sess, pr_PrincipalArn = sn_PrincipalARN sess\<rparr> \<and> body = None)"
  by (auto simp: authenticateSession_def Let_def split: sum.splits prod.splits if_splits)

lemma authenticate_pass:
  "run (authenticate fl cfg r) s = (Some (Inr (pr, body)), s') \<longleftrightarrow>
     (\<exists>key. signedBy cfg r s s' key \<and> pr = \<lparr>pr_AccountId = sk_AccountID key, pr_PrincipalArn = sk_PrincipalARN key\<rparr> \<and>
        body = Some (hr_Body r)) \<or>
     (\<exists>sess. inSession cfg r s s' sess \<and> pr = \<lparr>pr_AccountId = sn_AccountID sess, pr_PrincipalArn = sn_PrincipalARN sess\<rparr> \<and>
        body = None)"
proof (cases "header_Get (hr_Header r) ''Authorization'' = []")
  case False
  then show ?thesis
    by (simp add: authenticate_def authenticateSignature_pass signedBy_def inSession_def) blast
next
  case True
  then show ?thesis
    by (auto simp: authenticate_def authenticateSession_pass signedBy_def inSession_def split: option.splits)
qed

text \<open>Every refusal after the body was read is the same error but for the details.\<close>

definition isDenied :: "err \<Rightarrow> bool" where
  "isDenied e \<longleftrightarrow> (\<exists>f d. e = authn_denied f d)"

lemma isDenied_intros [simp]: "isDenied (authn_denied f d)" "isDenied (logAndDeny fl x)"
  by (auto simp: isDenied_def logAndDeny_def split: err.split)

lemma authenticateSignature_err:
  "run (authenticateSignature fl cfg r) s = (Some (Inl e), s') \<Longrightarrow> readLimited r \<noteq> None \<Longrightarrow> isDenied e"
  by (auto simp: authenticateSignature_def split: sum.splits option.splits prod.splits)

lemma authenticateSession_err:
  "run (authenticateSession cfg resolve r token) s = (Some (Inl e), s') \<Longrightarrow> isDenied e"
  by (auto simp: authenticateSession_def Let_def split: sum.splits prod.splits if_splits)

lemma isDenied_wire: "isDenied e \<Longrightarrow> HTTPStatus e = 401 \<and> From e = e \<and> eCode e = CodeInvalidSig \<and>
    eMessage e = (''the request signature is invalid, or the credentials are unknown'', [])"
  by (auto simp: isDenied_def authn_denied_def)

text \<open>A client's signed request, and the headers it needs.\<close>

lemma signed_request_authenticates:
  assumes "wf_civil now" "plainField (cr_AccessKeyID cred)" "plainField (au_Region cfg)" "plainField (au_Service cfg r)" "au_Service cfg r \<noteq> []"
    "sg_Sign (RequestFromHTTP r (hr_Body r)) cred (au_Region cfg) (au_Service cfg r) now = (auth, headers)"
    "header_Get (hr_Header r) ''Authorization'' = auth" "lookup headers DateHeader = Some (header_Get (hr_Header r) DateHeader)"
    "lookup headers ContentSHA256Header = Some (header_Get (hr_Header r) ContentSHA256Header)"
    "\<not> hr_BodyFails r" "length (hr_Body r) \<le> MaxBodyBytes"
    "run (au_Keys cfg (cr_AccessKeyID cred)) s = (Inr key, s')" "sk_Secret key = cr_Secret cred"
    "\<bar>au_Now cfg s' - unixNano (now\<lparr>cv_nsec := 0\<rparr>)\<bar> \<le> MaxSkew"
  shows "signedBy cfg r s s' key"
proof -
  from signed_request_verifies [OF assms(1-5,14) refl refl refl refl assms(6)] obtain sig where
    sig: "ParseAuthorization auth = Inr sig" "sc_AccessKeyID (sig_Scope sig) = cr_AccessKeyID cred"
    "sg_Verify \<lparr>vi_Request = RequestFromHTTP r (hr_Body r), vi_Signature = sig, vi_DateHeaderValue = header_Get (hr_Header r) DateHeader,
      vi_ContentSHA256Header = header_Get (hr_Header r) ContentSHA256Header,
      vi_Secret = cr_Secret cred, vi_Region = au_Region cfg, vi_Service = au_Service cfg r, vi_Now = au_Now cfg s'\<rparr> = Some None"
    using assms(8,9) by auto
  have "auth \<noteq> []" using assms(6) by (auto simp: sg_Sign_def Let_def Algorithm_def)
  with sig show ?thesis using assms(7,10-13) unfolding signedBy_def by auto
qed

subsection \<open>Properties\<close>

text \<open>C13: there are two ways in and no third: authentication never panics, and it succeeds exactly for a request whose
  signature verifies under the resolved key over the very bytes that are passed on, or, when no
  signature is offered, for one whose session cookie resolves and that is safe or carries the CSRF token
  of that session; the caller is then that key's or that session's, never what the request says.\<close>
theorem authentication_accepts_exactly:
  "result_of (authenticate fl cfg r) s \<noteq> None \<and>
   (run (authenticate fl cfg r) s = (Some (Inr (pr, body)), s') \<longleftrightarrow>
     (\<exists>key. signedBy cfg r s s' key \<and> pr = \<lparr>pr_AccountId = sk_AccountID key, pr_PrincipalArn = sk_PrincipalARN key\<rparr> \<and>
        body = Some (hr_Body r)) \<or>
     (\<exists>sess. inSession cfg r s s' sess \<and> pr = \<lparr>pr_AccountId = sn_AccountID sess, pr_PrincipalArn = sn_PrincipalARN sess\<rparr> \<and>
        body = None))"
  by (intro conjI authenticate_returns authenticate_pass)

text \<open>A request that a client signs as \<open>Sign\<close> does, with the secret that its key id resolves to and a clock within five
  minutes, is let in as that key's principal, with its body intact.\<close>
theorem signed_request_gets_in:
  assumes "wf_civil now" "plainField (cr_AccessKeyID cred)" "plainField (au_Region cfg)" "plainField (au_Service cfg r)" "au_Service cfg r \<noteq> []"
    "sg_Sign (RequestFromHTTP r (hr_Body r)) cred (au_Region cfg) (au_Service cfg r) now = (auth, headers)"
    "header_Get (hr_Header r) ''Authorization'' = auth" "lookup headers DateHeader = Some (header_Get (hr_Header r) DateHeader)"
    "lookup headers ContentSHA256Header = Some (header_Get (hr_Header r) ContentSHA256Header)"
    "\<not> hr_BodyFails r" "length (hr_Body r) \<le> MaxBodyBytes"
    "run (au_Keys cfg (cr_AccessKeyID cred)) s = (Inr key, s')" "sk_Secret key = cr_Secret cred"
    "\<bar>au_Now cfg s' - unixNano (now\<lparr>cv_nsec := 0\<rparr>)\<bar> \<le> MaxSkew"
  shows "run (authenticate fl cfg r) s =
    (Some (Inr (\<lparr>pr_AccountId = sk_AccountID key, pr_PrincipalArn = sk_PrincipalARN key\<rparr>, Some (hr_Body r))), s')"
  unfolding authenticate_pass using signed_request_authenticates [OF assms] by blast

text \<open>What a failed authentication is answered with outside development: status, code and message. It depends on the request alone,
  and on whether there are console sessions at all.\<close>

definition failureAnswer :: "bool \<Rightarrow> request \<Rightarrow> nat \<times> string \<times> string" where
  "failureAnswer sessions r =
     (let auth = header_Get (hr_Header r) ''Authorization'' in
      if auth = [] \<and> (\<not> sessions \<or> readCookie (hr_Header r) CookieName \<in> {None, Some []}) then
        (401, CodeInvalidSig, ''an Authorization header or a session cookie is required'')
      else if auth \<noteq> [] \<and> \<not> isl (ParseAuthorization auth) \<and> (hr_BodyFails r \<or> length (hr_Body r) > MaxBodyBytes) then
        (400, CodeValidation, ''request body could not be read, or exceeds the size limit'')
      else (401, CodeInvalidSig, ''the request signature is invalid, or the credentials are unknown''))"

lemma authenticate_err:
  assumes "run (authenticate fl cfg r) s = (Some (Inl e), s')"
  shows "case failureAnswer (au_Sessions cfg \<noteq> None) r of (st, code, msg) \<Rightarrow>
    HTTPStatus (From e) = st \<and> eCode (From e) = code \<and> eMessage (From e) = (msg, [])"
proof (cases "header_Get (hr_Header r) ''Authorization'' = []")
  case True
  show ?thesis
  proof (cases "au_Sessions cfg = None \<or> readCookie (hr_Header r) CookieName \<in> {None, Some []}")
    case no: True
    then have "e = authenticationRequired" using assms True by (auto simp: authenticate_def split: option.splits)
    then show ?thesis using True no by (auto simp: failureAnswer_def authenticationRequired_def)
  next
    case False
    then obtain resolve t where t: "run (authenticateSession cfg resolve r t) s = (Some (Inl e), s')"
      using assms True by (auto simp: authenticate_def)
    from isDenied_wire [OF authenticateSession_err [OF t]] show ?thesis using True False by (auto simp: failureAnswer_def)
  qed
next
  case False
  then have a: "run (authenticateSignature fl cfg r) s = (Some (Inl e), s')" using assms by (simp add: authenticate_def)
  show ?thesis
  proof (cases "\<not> isl (ParseAuthorization (header_Get (hr_Header r) ''Authorization'')) \<and> readLimited r = None")
    case True
    then have "e = bodyUnreadable" using a by (auto simp: authenticateSignature_def split: sum.splits)
    moreover have "hr_BodyFails r \<or> length (hr_Body r) > MaxBodyBytes" using True by (simp add: readLimited_def split: if_split_asm)
    ultimately show ?thesis using False True by (auto simp: failureAnswer_def bodyUnreadable_def)
  next
    case ok: False
    have "isDenied e"
    proof (cases "readLimited r = None")
      case True
      then obtain pe where "ParseAuthorization (header_Get (hr_Header r) ''Authorization'') = Inl pe" using ok by (auto simp: isl_def)
      then have "e = logAndDeny fl pe" using a by (simp add: authenticateSignature_def)
      then show ?thesis by simp
    qed (rule authenticateSignature_err [OF a])
    moreover have "\<not> (\<not> isl (ParseAuthorization (header_Get (hr_Header r) ''Authorization'')) \<and> (hr_BodyFails r \<or> length (hr_Body r) > MaxBodyBytes))"
      using ok by (auto simp: readLimited_def)
    ultimately show ?thesis using False isDenied_wire by (auto simp: failureAnswer_def)
  qed
qed

text \<open>C37: a failed authentication tells nothing of keys, secrets, clocks or sessions: outside development mode the answer to every
  request that fails to authenticate is a function of the request. One that offers no credentials at all is told so (401); one whose
  signature is well formed but whose body cannot be read, or is too large, is told that (400), before any key is looked up; and every
  other gets the same 401, the same headers and the same body up to its request id, whether the signature header is malformed, the key
  unknown, the secret wrong, the clock off, the session expired or the CSRF token missing.\<close>
theorem authentication_failure_is_opaque:
  fixes rw :: "'m rw"
  assumes "run (authenticate fl cfg r) s = (Some (Inl e), s')" "au_Dev cfg = False" "rw_status rw = 0" "rw_body rw = []"
    "failureAnswer (au_Sessions cfg \<noteq> None) r = (st, code, msg)"
  shows "\<exists>rw'. run (authnMiddleware fl cfg next r) (rw, s) = (Done, (rw', s')) \<and> rw_status rw' = st \<and>
    rw_sent rw' = header_Set ''Content-Type'' jsonType (rw_header rw) \<and>
    rw_body rw' = [ErrBody \<lparr>we_code = code, we_message = (msg, []), we_request_id = RequestID r, we_details = []\<rparr>]"
proof -
  have st: "HTTPStatus (From e) = st" "eCode (From e) = code" "eMessage (From e) = (msg, [])" "st \<noteq> 0"
    using authenticate_err [OF assms(1)] assms(5) HTTPStatus_error [of "From e"] by auto
  have "run (authnMiddleware fl cfg next r) (rw, s) = run (WriteError r e (au_Dev cfg)) (rw, s')"
    using assms(1) by (simp add: authnMiddleware_def)
  then show ?thesis using assms(2-4) st
    by (simp add: run_WriteError errorBody_def Let_def Write_def WriteHeader_def)
qed

subsection \<open>Witnesses\<close>

definition sampleSigningKey :: SigningKey where
  "sampleSigningKey = \<lparr>sk_AccessKeyID = ''DKIAEXAMPLE'', sk_AccountID = ''000000000001'',
     sk_PrincipalARN = ''arn:dariya:iam:hind-1:000000000001:user/root'', sk_Secret = ''s3cret''\<rparr>"

definition sampleAuthn :: "unit AuthnConfig" where
  "sampleAuthn = \<lparr>au_Keys = (\<lambda>_. ret (Inr sampleSigningKey)), au_Region = ''hind-1'', au_Service = (\<lambda>_. ''ws''), au_Sessions = None,
     au_Dev = False, au_Now = (\<lambda>_. unixNano \<lparr>cv_year = 2025, cv_month = 1, cv_day = 2, cv_hour = 3, cv_min = 4, cv_sec = 9, cv_nsec = 0\<rparr>)\<rparr>"

definition plainFmt :: fmtLib where
  "plainFmt = \<lparr>fl_Sprintf = fst, fl_Error = (\<lambda>_. ''error'')\<rparr>"

lemma signed_request_gets_in_witness:
  "\<exists>auth date hash. run (authenticate plainFmt sampleAuthn
      (sampleHttpRequest\<lparr>hr_Header := [(''Authorization'', [auth]), (DateHeader, [date]), (ContentSHA256Header, [hash])]\<rparr>)) () =
    (Some (Inr (\<lparr>pr_AccountId = ''000000000001'', pr_PrincipalArn = ''arn:dariya:iam:hind-1:000000000001:user/root''\<rparr>,
       Some (hr_Body sampleHttpRequest))), ())"
proof -
  let ?now = "\<lparr>cv_year = 2025, cv_month = 1, cv_day = 2, cv_hour = 3, cv_min = 4, cv_sec = 5, cv_nsec = 6\<rparr>"
  let ?cred = "\<lparr>cr_AccessKeyID = ''DKIAEXAMPLE'', cr_Secret = ''s3cret''\<rparr>"
  obtain auth headers where s: "sg_Sign (RequestFromHTTP sampleHttpRequest (hr_Body sampleHttpRequest)) ?cred ''hind-1'' ''ws'' ?now = (auth, headers)"
    by fastforce
  then obtain date hash where h: "headers = [(DateHeader, date), (ContentSHA256Header, hash)]"
    by (auto simp: sg_Sign_def Let_def)
  let ?r = "sampleHttpRequest\<lparr>hr_Header := [(''Authorization'', [auth]), (DateHeader, [date]), (ContentSHA256Header, [hash])]\<rparr>"
  have g: "header_Get (hr_Header ?r) ''Authorization'' = auth" "header_Get (hr_Header ?r) DateHeader = date"
    "header_Get (hr_Header ?r) ContentSHA256Header = hash"
    by (simp_all add: header_Get_def DateHeader_def ContentSHA256Header_def)
  have s': "sg_Sign (RequestFromHTTP ?r (hr_Body ?r)) ?cred (au_Region sampleAuthn) (au_Service sampleAuthn ?r) ?now = (auth, headers)"
    using s by (simp add: RequestFromHTTP_def sampleAuthn_def)
  have "run (authenticate plainFmt sampleAuthn ?r) () =
      (Some (Inr (\<lparr>pr_AccountId = sk_AccountID sampleSigningKey, pr_PrincipalArn = sk_PrincipalARN sampleSigningKey\<rparr>, Some (hr_Body ?r))), ())"
  proof (rule signed_request_gets_in [OF _ _ _ _ _ s' g(1)])
    show "\<bar>au_Now sampleAuthn () - unixNano (?now\<lparr>cv_nsec := 0\<rparr>)\<bar> \<le> MaxSkew"
      unfolding sampleAuthn_def MaxSkew_def by code_simp
    show "lookup headers DateHeader = Some (header_Get (hr_Header ?r) DateHeader)"
      "lookup headers ContentSHA256Header = Some (header_Get (hr_Header ?r) ContentSHA256Header)"
      unfolding g(2,3) h by (simp_all add: DateHeader_def ContentSHA256Header_def)
  qed (simp_all add: wf_civil_def daysIn_def plainField_def char_class_defs sampleAuthn_def sampleSigningKey_def sampleHttpRequest_def MaxBodyBytes_def)
  then show ?thesis by (auto simp: sampleSigningKey_def)
qed

text \<open>A malformed signature, and no credentials.\<close>

lemma authentication_failure_is_opaque_witness:
  "(\<exists>rw'. run (authnMiddleware plainFmt sampleAuthn (\<lambda>_. ret Done)
      (sampleHttpRequest\<lparr>hr_Header := [(''Authorization'', [''Bearer x''])]\<rparr>)) (emptyRw :: unit rw, ()) = (Done, (rw', ())) \<and> rw_status rw' = 401) \<and>
   (\<exists>rw'. run (authnMiddleware plainFmt sampleAuthn (\<lambda>_. ret Done) sampleHttpRequest) (emptyRw :: unit rw, ()) = (Done, (rw', ())) \<and> rw_status rw' = 401)"
proof -
  let ?r = "sampleHttpRequest\<lparr>hr_Header := [(''Authorization'', [''Bearer x''])]\<rparr>"
  have "case result_of (authenticate plainFmt sampleAuthn ?r) () of Some (Inl e) \<Rightarrow> True | _ \<Rightarrow> False"
    "case result_of (authenticate plainFmt sampleAuthn sampleHttpRequest) () of Some (Inl e) \<Rightarrow> True | _ \<Rightarrow> False" by code_simp+
  then obtain e e' where e: "run (authenticate plainFmt sampleAuthn ?r) () = (Some (Inl e), ())"
    "run (authenticate plainFmt sampleAuthn sampleHttpRequest) () = (Some (Inl e'), ())"
    by (auto split: option.splits sum.splits simp: prod_eq_iff)
  have f: "failureAnswer (au_Sessions sampleAuthn \<noteq> None) ?r =
      (401, CodeInvalidSig, ''the request signature is invalid, or the credentials are unknown'')"
    "failureAnswer (au_Sessions sampleAuthn \<noteq> None) sampleHttpRequest =
      (401, CodeInvalidSig, ''an Authorization header or a session cookie is required'')"
    by code_simp+
  have w: "au_Dev sampleAuthn = False" "rw_status (emptyRw :: unit rw) = 0" "rw_body (emptyRw :: unit rw) = []"
    by (simp_all add: sampleAuthn_def emptyRw_def)
  from authentication_failure_is_opaque [OF e(1) w f(1), of "\<lambda>_. ret Done"] authentication_failure_is_opaque [OF e(2) w f(2), of "\<lambda>_. ret Done"]
  show ?thesis by blast
qed

end
