(* ===== verification/Proxy.thy ===== *)
theory Proxy
  imports Authn
begin

text \<open>
  The reverse proxy (\<open>internal/proxy/proxy.go\<close>): what of a request is forwarded to the service that owns the route, what
  of the answer comes back, and how the failures of the hop are told apart. The network is a
  parameter: a function from the outbound request to a response or an error, in the rest of the
  program's state; so is \<open>url.Parse\<close>.
\<close>

definition MaxResponseBytes :: nat where "MaxResponseBytes = 6 * 2 ^ 20"

definition hopByHopHeaders :: "string list" where
  "hopByHopHeaders = [''Connection'', ''Keep-Alive'', ''Proxy-Authenticate'', ''Proxy-Authorization'', ''Te'', ''Trailer'',
     ''Transfer-Encoding'', ''Upgrade'']"

definition signingDateHeader :: string where "signingDateHeader = ''X-Dariya-Date''"
definition signingContentHeader :: string where "signingContentHeader = ''X-Dariya-Content-Sha256''"

definition ErrDeadlineExceeded :: err where "ErrDeadlineExceeded = Sentinel ''context deadline exceeded''"
definition ErrCanceled :: err where "ErrCanceled = Sentinel ''context canceled''"

record upstreamURL =
  up_Scheme :: string
  up_Host :: string
  up_Path :: string

record outbound =
  ob_Method :: string
  ob_Scheme :: string
  ob_Host :: string
  ob_Path :: string
  ob_Query :: urlValues
  ob_Header :: headers
  ob_Body :: bytes
  ob_BodyFails :: bool

record response =
  rp_StatusCode :: nat
  rp_Header :: headers
  rp_Body :: bytes

record ('m, 's) Proxy =
  px_table :: "('m, 's) handler Table"
  px_timeout :: duration
  px_dev :: bool

definition proxy_New :: "('m, 's) handler Table \<Rightarrow> duration \<Rightarrow> bool \<Rightarrow> ('m, 's) Proxy" where
  "proxy_New table timeout dev =
     \<lparr>px_table = table, px_timeout = (if timeout \<le> 0 then 15 * second else timeout), px_dev = dev\<rparr>"

fun addAll :: "string \<Rightarrow> string list \<Rightarrow> headers \<Rightarrow> headers" where
  "addAll name [] dst = dst"
| "addAll name (v # vs) dst = addAll name vs (header_Add name v dst)"

fun copyHeaders :: "headers \<Rightarrow> headers \<Rightarrow> headers" where
  "copyHeaders dst [] = dst"
| "copyHeaders dst ((name, values) # src) = copyHeaders (addAll name values dst) src"

definition isTokenChar :: "char \<Rightarrow> bool" where
  "isTokenChar c \<longleftrightarrow> isAlnum c \<or> c \<in> set (''!#$%&*+-.^_`|~'' @ [CHR 0x27])"

definition validMethod :: "string \<Rightarrow> bool" where
  "validMethod m \<longleftrightarrow> m \<noteq> [] \<and> list_all isTokenChar m"

definition ErrInvalidMethod :: "string \<Rightarrow> err" where
  "ErrInvalidMethod m = Errorf ''net/http: invalid method %q'' [AStr m] None"

text \<open>\<open>http.NewRequest\<close> reads an empty method as \<open>GET\<close>.\<close>

definition buildRequest :: "request \<Rightarrow> upstreamURL \<Rightarrow> err + outbound" where
  "buildRequest r upstream =
     (let path = trimSuffix (up_Path upstream) ''/'' @ hr_Path r;
          method = (if hr_Method r = [] then ''GET'' else hr_Method r)
      in if \<not> validMethod method then Inl (ErrInvalidMethod method)
         else
           let h = copyHeaders [] (hr_Header r);
               h = header_Del ''Authorization'' h;
               h = header_Del signingDateHeader h;
               h = header_Del signingContentHeader h;
               h = foldl (\<lambda>h n. header_Del n h) h hopByHopHeaders;
               h = header_Set RequestIDHeader (RequestID r) h
           in Inr \<lparr>ob_Method = method, ob_Scheme = up_Scheme upstream, ob_Host = up_Host upstream, ob_Path = path,
                   ob_Query = hr_Query r, ob_Header = h, ob_Body = hr_Body r, ob_BodyFails = hr_BodyFails r\<rparr>)"

definition writeUpstreamError ::
  "fmtLib \<Rightarrow> ('m, 's) Proxy \<Rightarrow> request \<Rightarrow> 'h Route \<Rightarrow> err \<Rightarrow> ('m rw \<times> 's, outcome) state" where
  "writeUpstreamError fl p r route e =
     (let details = [(''service'', rt_Service route), (''upstream_error'', fl_Error fl e)] in
      if errorsIs e ErrDeadlineExceeded then
        WriteError r (ApiErr CodeInternal (''the '' @ rt_Service route @ '' service did not respond in time'', []) [] details (Some e)) (px_dev p)
      else if errorsIs e ErrCanceled then ret Done
      else
        WriteError r (ApiErr CodeInternal (''the '' @ rt_Service route @ '' service is unavailable'', []) [] details (Some e)) (px_dev p))"

definition proxy_ServeHTTP ::
  "fmtLib \<Rightarrow> (string \<Rightarrow> err + upstreamURL) \<Rightarrow> (duration \<Rightarrow> outbound \<Rightarrow> ('s, err + response) state) \<Rightarrow> ('m, 's) Proxy \<Rightarrow>
   ('m, 's) handler" where
  "proxy_ServeHTTP fl urlParse client p r =
     (case table_Match (px_table p) r of
        None \<Rightarrow> WriteError r (NotFound ''no route for %s %s'' [AStr (hr_Method r), AStr (hr_Path r)]) (px_dev p)
      | Some route \<Rightarrow>
     if rt_Upstream route = [] then WriteError r (Internal None ''internal failure'' []) (px_dev p)
     else case urlParse (rt_Upstream route) of
        Inl e \<Rightarrow> WriteError r (Internal (Some e) ''internal failure'' []) (px_dev p)
      | Inr upstream \<Rightarrow>
     (case buildRequest r upstream of
        Inl e \<Rightarrow> WriteError r (Internal (Some e) ''internal failure'' []) (px_dev p)
      | Inr outbound \<Rightarrow> do {
          resp \<leftarrow> inState (client (px_timeout p) outbound);
          case resp of
            Inl e \<Rightarrow> writeUpstreamError fl p r route e
          | Inr resp \<Rightarrow> do {
              onRw (\<lambda>w. w\<lparr>rw_header := copyHeaders (rw_header w) (rp_Header resp)\<rparr>);
              setHeader RequestIDHeader (RequestID r);
              onRw (WriteHeader (rp_StatusCode resp));
              (let body = take MaxResponseBytes (rp_Body resp) in
               onRw (\<lambda>w. if body = [] then w else Write (Bytes body) w));
              ret Done
            }
        }))"

subsection \<open>What travels\<close>

lemma lookup_addAll: "lookup (addAll n vs h) k =
    (if k = n \<and> vs \<noteq> [] then Some (getOr [] h n @ vs) else lookup h k)"
  by (induction n vs h rule: addAll.induct) (auto simp: header_Add_def)

lemma lookup_copyHeaders:
  "distinct (map fst src) \<Longrightarrow> lookup (copyHeaders dst src) k =
     (case lookup src k of None \<Rightarrow> lookup dst k | Some [] \<Rightarrow> lookup dst k | Some vs \<Rightarrow> Some (getOr [] dst k @ vs))"
proof (induction dst src rule: copyHeaders.induct)
  case (2 dst name vs src)
  have "lookup src name = None" using 2(2) by (simp add: map_of_eq_None_iff)
  moreover have "distinct (map fst src)" using 2(2) by simp
  ultimately show ?case using 2(1) by (auto simp: lookup_addAll getOr_def split: option.split list.split)
qed simp

lemma lookup_delAll: "lookup (foldl (\<lambda>h n. header_Del n h) h ns) k = (if k \<in> set ns then None else lookup h k)"
  by (induction ns arbitrary: h) auto

text \<open>The headers that the hop removes or replaces.\<close>

definition strippedHeaders :: "string list" where
  "strippedHeaders = [''Authorization'', signingDateHeader, signingContentHeader] @ hopByHopHeaders"

lemma buildRequest_Inr:
  assumes "buildRequest r up = Inr ob" "distinct (map fst (hr_Header r))"
  shows "lookup (ob_Header ob) k =
      (if k = RequestIDHeader then Some [RequestID r] else if k \<in> set strippedHeaders then None
       else case lookup (hr_Header r) k of None \<Rightarrow> None | Some [] \<Rightarrow> None | Some vs \<Rightarrow> Some vs)"
    "ob_Path ob = trimSuffix (up_Path up) ''/'' @ hr_Path r" "ob_Query ob = hr_Query r" "ob_Body ob = hr_Body r"
    "ob_Host ob = up_Host up"
  using assms
  by (auto simp: buildRequest_def Let_def lookup_delAll lookup_copyHeaders getOr_def strippedHeaders_def
      split: if_splits option.splits list.splits)

lemma readCookie_cong: "getOr [] h ''Cookie'' = getOr [] h' ''Cookie'' \<Longrightarrow> readCookie h name = readCookie h' name"
  by (simp add: readCookie_def)

subsection \<open>Properties\<close>


text \<open>The console's credentials do travel: a request that was authenticated by a session reaches the service with the very
  session cookie and CSRF token that let it in, so the service holds a credential for the caller that
  is good for any route until the session expires, which the capability was meant to replace.\<close>
theorem session_credentials_reach_the_service:
  assumes "buildRequest r up = Inr ob" "distinct (map fst (hr_Header r))" "inSession cfg r s s' sess"
    "hr_Header replay = ob_Header ob"
  shows "inSession cfg (replay\<lparr>hr_Method := hr_Method r\<rparr>) s s' sess"
proof -
  note b = buildRequest_Inr(1) [OF assms(1,2)]
  have g: "getOr [] (ob_Header ob) k = getOr [] (hr_Header r) k \<and> header_Get (ob_Header ob) k = header_Get (hr_Header r) k"
    if "k \<notin> set strippedHeaders" "k \<noteq> RequestIDHeader" for k
    using that by (simp add: getOr_def header_Get_def b split: option.split list.split)
  have "''Cookie'' \<notin> set strippedHeaders" "''Cookie'' \<noteq> RequestIDHeader" "CSRFHeader \<notin> set strippedHeaders" "CSRFHeader \<noteq> RequestIDHeader"
    by (simp_all add: strippedHeaders_def hopByHopHeaders_def RequestIDHeader_def signingDateHeader_def signingContentHeader_def CSRFHeader_def)
  with g have "readCookie (ob_Header ob) CookieName = readCookie (hr_Header r) CookieName"
    "header_Get (ob_Header ob) CSRFHeader = header_Get (hr_Header r) CSRFHeader"
    by (auto intro: readCookie_cong)
  moreover have "header_Get (ob_Header ob) ''Authorization'' = []"
    by (simp add: header_Get_def b strippedHeaders_def RequestIDHeader_def)
  ultimately show ?thesis using assms(3,4) by (simp add: inSession_def)
qed

text \<open>Whatever a service answers, the client sees the front door's request id, the service's status and at most six
  megabytes of its body; a refused or broken connection and a late answer become a 500 that names the
  service and nothing else, and a client that hung up gets nothing.\<close>
theorem upstream_answers:
  fixes rw :: "'m rw"
  assumes "table_Match (px_table p) r = Some route" "rt_Upstream route \<noteq> []" "urlParse (rt_Upstream route) = Inr up"
    "buildRequest r up = Inr ob" "run (client (px_timeout p) ob) s = (resp, s')" "rw_status rw = 0" "rw_body rw = []" "\<not> px_dev p"
  shows "\<exists>rw'. run (proxy_ServeHTTP fl urlParse client p r) (rw, s) = (Done, (rw', s')) \<and>
    (case resp of
       Inr a \<Rightarrow> rp_StatusCode a \<noteq> 0 \<longrightarrow> rw_status rw' = rp_StatusCode a \<and> lookup (rw_sent rw') RequestIDHeader = Some [RequestID r] \<and>
         rw_body rw' = (if rp_Body a = [] then [] else [Bytes (take MaxResponseBytes (rp_Body a))])
     | Inl e \<Rightarrow>
         if \<not> errorsIs e ErrDeadlineExceeded \<and> errorsIs e ErrCanceled then rw' = rw
         else rw_status rw' = 500 \<and> (\<exists>m. rw_body rw' = [ErrBody \<lparr>we_code = CodeInternal, we_message = (''the '' @ rt_Service route @ m, []),
           we_request_id = RequestID r, we_details = []\<rparr>]))"
proof -
  have run: "run (proxy_ServeHTTP fl urlParse client p r) (rw, s) =
    (case resp of
       Inl e \<Rightarrow> run (writeUpstreamError fl p r route e) (rw, s')
     | Inr a \<Rightarrow> (Done, (let w = WriteHeader (rp_StatusCode a)
          (rw\<lparr>rw_header := header_Set RequestIDHeader (RequestID r) (copyHeaders (rw_header rw) (rp_Header a))\<rparr>)
        in if take MaxResponseBytes (rp_Body a) = [] then w else Write (Bytes (take MaxResponseBytes (rp_Body a))) w, s')))"
    using assms(1-5) by (simp add: proxy_ServeHTTP_def Let_def split: sum.split)
  show ?thesis
  proof (cases resp)
    case (Inl e)
    then show ?thesis using assms(6-8)
      by (auto simp: run writeUpstreamError_def Let_def run_WriteError errorBody_def)
  next
    case (Inr a)
    then show ?thesis using assms(6,7)
      by (auto simp: run Let_def WriteHeader_def Write_def MaxResponseBytes_def)
  qed
qed

subsection \<open>Witnesses\<close>

definition sampleUpstream :: upstreamURL where
  "sampleUpstream = \<lparr>up_Scheme = ''http'', up_Host = ''127.0.0.1:9300'', up_Path = []\<rparr>"

definition sampleForward :: request where
  "sampleForward = sampleHttpRequest\<lparr>hr_Path := ''/v1/instances'', hr_Header :=
     [(''Authorization'', [''secret'']), (''Cookie'', [''dariya_session=tok'']), (''Accept'', [''*/*''])]\<rparr>"

lemma sampleForward_builds: "\<exists>ob. buildRequest sampleForward sampleUpstream = Inr ob"
  by (simp add: buildRequest_def sampleForward_def sampleHttpRequest_def validMethod_def isTokenChar_def char_class_defs Let_def)


definition sampleSessions :: "unit AuthnConfig" where
  "sampleSessions = sampleAuthn\<lparr>au_Sessions := Some (\<lambda>_. ret (Inr \<lparr>sn_AccountID = ''000000000001'', sn_PrincipalARN = [],
     sn_CSRFToken = ''c'', sn_ExpiresAt = 0\<rparr>))\<rparr>"

lemma session_credentials_reach_the_service_witness:
  "\<exists>ob sess. buildRequest (sampleForward\<lparr>hr_Header := [(''Cookie'', [''dariya_session=tok''])]\<rparr>) sampleUpstream = Inr ob \<and>
     inSession sampleSessions (sampleForward\<lparr>hr_Header := ob_Header ob\<rparr>) () () sess"
proof -
  let ?r = "sampleForward\<lparr>hr_Header := [(''Cookie'', [''dariya_session=tok''])]\<rparr>"
  have "\<exists>ob. buildRequest ?r sampleUpstream = Inr ob"
    by (simp add: buildRequest_def sampleForward_def sampleHttpRequest_def validMethod_def isTokenChar_def char_class_defs Let_def)
  then obtain ob where ob: "buildRequest ?r sampleUpstream = Inr ob" by blast
  have "readCookie (hr_Header ?r) CookieName = Some ''tok''" by code_simp
  then have i: "inSession sampleSessions ?r () () \<lparr>sn_AccountID = ''000000000001'', sn_PrincipalARN = [], sn_CSRFToken = ''c'', sn_ExpiresAt = 0\<rparr>"
    by (simp add: inSession_def sampleSessions_def isSafeMethod_def sampleForward_def sampleHttpRequest_def header_Get_def)
  have "inSession sampleSessions ((sampleForward\<lparr>hr_Header := ob_Header ob\<rparr>)\<lparr>hr_Method := hr_Method ?r\<rparr>) () ()
      \<lparr>sn_AccountID = ''000000000001'', sn_PrincipalARN = [], sn_CSRFToken = ''c'', sn_ExpiresAt = 0\<rparr>"
    by (rule session_credentials_reach_the_service [OF ob _ i]) simp_all
  moreover have "(sampleForward\<lparr>hr_Header := ob_Header ob\<rparr>)\<lparr>hr_Method := hr_Method ?r\<rparr> = sampleForward\<lparr>hr_Header := ob_Header ob\<rparr>"
    by (simp add: sampleForward_def sampleHttpRequest_def)
  ultimately show ?thesis using ob by metis
qed

lemma upstream_answers_witness:
  "\<exists>rw'. run (proxy_ServeHTTP plainFmt (\<lambda>_. Inr sampleUpstream) (\<lambda>_ _. ret (Inl ErrDeadlineExceeded))
      (proxy_New \<lparr>tb_routes = [\<lparr>rt_Service = ''chala'', rt_Method = [], rt_Prefix = ''/v1'', rt_Action = ''a'', rt_Resource = None,
         rt_Upstream = ''u'', rt_Handler = None\<rparr>], tb_region = []\<rparr> 0 False) sampleForward) (emptyRw :: unit rw, ()) =
    (Done, (rw', ())) \<and> rw_status rw' = 500"
proof -
  let ?rt = "\<lparr>rt_Service = ''chala'', rt_Method = [], rt_Prefix = ''/v1'', rt_Action = ''a'', rt_Resource = None,
         rt_Upstream = ''u'', rt_Handler = None\<rparr> :: (unit, unit) handler Route"
  let ?p = "proxy_New \<lparr>tb_routes = [?rt], tb_region = []\<rparr> 0 False"
  obtain ob where ob: "buildRequest sampleForward sampleUpstream = Inr ob" using sampleForward_builds by blast
  have m: "table_Match (px_table ?p) sampleForward = Some ?rt"
    by (simp add: proxy_New_def table_Match_def sampleForward_def sampleHttpRequest_def matchesPrefix_def)
  show ?thesis
    using upstream_answers [OF m _ _ ob, of "\<lambda>_. Inr sampleUpstream" "\<lambda>_ _. ret (Inl ErrDeadlineExceeded)" "()" "Inl ErrDeadlineExceeded" "()" "emptyRw :: unit rw" plainFmt]
    by (auto simp: proxy_New_def emptyRw_def)
qed

end
