(* ===== verification/Controlapi.thy ===== *)
theory Controlapi
  imports Iam_Server Proxy
begin

text \<open>
  The control plane over HTTP (\<open>internal/controlapi/controlapi.go\<close>, \<open>session.go\<close>, \<open>routes.go\<close>): the handlers of the
  console and of the signed API, the one unauthenticated sign-in route, and the routes with the action and
  the resource each is authorized for. Parsing request bodies and encoding messages as JSON are left to the
  libraries, as functions of the API's configuration.
\<close>

subsection \<open>The API and its messages\<close>

datatype apiMsg =
    MAccount Account
  | MAccessKey AccessKey
  | MAccessKeys "AccessKey list" string
  | MPolicy Policy
  | MPolicies "Policy list" string
  | MStrings "(string \<times> string) list"
  | MSignIn string string string int

text \<open>
  \<open>api_DecodeSignIn\<close> gets the bytes that can be read and whether the stream then ends in an error. \<open>api_Encodable\<close>
  tells whether protojson can encode a message.
\<close>

record 'c API =
  api_Region :: string
  api_Dev :: bool
  api_Aead :: aead
  api_Keyring :: Keyring
  api_Docs :: docCodec
  api_Collation :: "string \<Rightarrow> 'c"
  api_SessionTTL :: duration
  api_SessionKeys :: "string \<Rightarrow> (process, err + SessionKey) state"
  api_OnKeyDeleted :: "(string \<Rightarrow> (process, unit) state) option"
  api_OnPrincipalChanged :: "(string \<Rightarrow> (process, unit) state) option"
  api_Encodable :: "apiMsg \<Rightarrow> bool"
  api_DecodeKey :: "bytes \<Rightarrow> err + CreateAccessKeyRequest"
  api_DecodePolicy :: "bytes \<Rightarrow> err + CreatePolicyRequest"
  api_DecodeAttach :: "bytes \<Rightarrow> err + string \<times> string"
  api_DecodeSignIn :: "bytes \<Rightarrow> bool \<Rightarrow> SignInCredentials option"
  api_HTTPTime :: "time \<Rightarrow> string"

type_synonym apiHandler = "(apiMsg, process) handler"

definition APIVersion :: string where "APIVersion = ''2026-09-01''"
definition ApiService :: string where "ApiService = ''iam''"

definition api_prefix :: "string \<Rightarrow> string" where "api_prefix suffix = ''/'' @ APIVersion @ suffix"

definition SignInPath :: string where "SignInPath = ''/'' @ APIVersion @ ''/session/sign-in''"

subsection \<open>Helpers of the handlers\<close>

definition api_principal :: "request \<Rightarrow> err + Principal" where
  "api_principal r = (case PrincipalFrom r of None \<Rightarrow> Inl (Internal None ''internal failure'' []) | Some p \<Rightarrow> Inr p)"

definition decodeJSON :: "(bytes \<Rightarrow> err + 'a) \<Rightarrow> request \<Rightarrow> err + 'a" where
  "decodeJSON dec r =
     (if hr_BodyFails r then Inl (Validation ''could not read the request body'' [])
      else if hr_Body r = [] then Inl (Validation ''a request body is required'' [])
      else case dec (hr_Body r) of
        Inl e \<Rightarrow> Inl (Validation ''the request body is not valid JSON for this operation: %v'' [AErr e])
      | Inr a \<Rightarrow> Inr a)"

definition writeProto :: "'c API \<Rightarrow> request \<Rightarrow> nat \<Rightarrow> apiMsg \<Rightarrow> (apiMsg rw \<times> 's, outcome) state" where
  "writeProto a r status msg =
     (if \<not> api_Encodable a msg then WriteError r (Internal (Some ErrProtojson) ''could not encode the response'' []) False
      else do {
        setHeader ''Content-Type'' jsonType;
        onRw (WriteHeader status);
        onRw (Write (Msg msg));
        ret Done
      })"

definition query_Get :: "urlValues \<Rightarrow> string \<Rightarrow> string" where
  "query_Get q k = (case lookup q k of Some (v # _) \<Rightarrow> v | _ \<Rightarrow> [])"

text \<open>\<open>strconv.Atoi\<close>: a sign and digits, within the range of \<open>int\<close>; then the conversion to \<open>int32\<close>, which keeps the low 32 bits.\<close>

fun digitsValue :: "string \<Rightarrow> int \<Rightarrow> int option" where
  "digitsValue [] acc = Some acc"
| "digitsValue (c # cs) acc = (if isDigit c then digitsValue cs (acc * 10 + (of_char c - 48)) else None)"

definition atoi :: "string \<Rightarrow> int option" where
  "atoi s =
     (let (neg, ds) = (case s of c # cs \<Rightarrow> if c = CHR ''-'' then (True, cs) else if c = CHR ''+'' then (False, cs) else (False, s) | [] \<Rightarrow> (False, []))
      in if ds = [] then None
         else case digitsValue ds 0 of
           None \<Rightarrow> None
         | Some n \<Rightarrow> let v = (if neg then - n else n) in if - (2 ^ 63) \<le> v \<and> v < 2 ^ 63 then Some v else None)"

definition int32 :: "int \<Rightarrow> int" where "int32 n = sint (word_of_int n :: 32 word)"

definition pageParams :: "request \<Rightarrow> err + int \<times> string" where
  "pageParams r =
     (let tok = query_Get (hr_Query r) ''next_token''; raw = query_Get (hr_Query r) ''max_results'' in
      if raw = [] then Inr (0, tok)
      else case atoi raw of
        None \<Rightarrow> Inl (Validation ''max_results must be a number, got %q'' [AStr raw])
      | Some n \<Rightarrow> Inr (int32 n, tok))"

definition pathSegment :: "string \<Rightarrow> string \<Rightarrow> nat \<Rightarrow> string" where
  "pathSegment path pre n =
     (let parts = splitOn CHR ''/'' (trimPrefix path pre) in if n \<ge> length parts then [] else parts ! n)"

text \<open>\<open>w.WriteHeader(http.StatusNoContent)\<close>.\<close>

definition noContent :: "('m rw \<times> 's, outcome) state" where
  "noContent = do { onRw (WriteHeader 204); ret Done }"

subsection \<open>Accounts and access keys\<close>

definition api_getAccount :: "'c API \<Rightarrow> apiHandler" where
  "api_getAccount a r =
     (case api_principal r of
        Inl e \<Rightarrow> WriteError r e (api_Dev a)
      | Inr p \<Rightarrow> do {
          resp \<leftarrow> inState (GetAccount (pr_AccountId p));
          case resp of Inl e \<Rightarrow> WriteError r e (api_Dev a) | Inr acct \<Rightarrow> writeProto a r 200 (MAccount acct)
        })"

definition api_createAccessKey :: "'c API \<Rightarrow> apiHandler" where
  "api_createAccessKey a r =
     (case api_principal r of
        Inl e \<Rightarrow> WriteError r e (api_Dev a)
      | Inr p \<Rightarrow>
     (case decodeJSON (api_DecodeKey a) r of
        Inl e \<Rightarrow> WriteError r e (api_Dev a)
      | Inr req \<Rightarrow> do {
          resp \<leftarrow> inState (CreateAccessKey (api_Aead a) (api_Keyring a) (api_Region a) (req\<lparr>ckr_AccountId := pr_AccountId p\<rparr>));
          case resp of Inl e \<Rightarrow> WriteError r e (api_Dev a) | Inr key \<Rightarrow> writeProto a r 201 (MAccessKey key)
        }))"

definition api_listAccessKeys :: "'c::linorder API \<Rightarrow> apiHandler" where
  "api_listAccessKeys a r =
     (case api_principal r of
        Inl e \<Rightarrow> WriteError r e (api_Dev a)
      | Inr p \<Rightarrow>
     (case pageParams r of
        Inl e \<Rightarrow> WriteError r e (api_Dev a)
      | Inr (maxResults, tok) \<Rightarrow> do {
          resp \<leftarrow> inState (ListAccessKeys (api_Collation a) (pr_AccountId p) maxResults tok);
          case resp of Inl e \<Rightarrow> WriteError r e (api_Dev a) | Inr (ks, next) \<Rightarrow> writeProto a r 200 (MAccessKeys ks next)
        }))"

text \<open>The caller is not read at all here.\<close>

definition api_deleteAccessKey :: "'c API \<Rightarrow> apiHandler" where
  "api_deleteAccessKey a r =
     (let keyID = pathSegment (hr_Path r) (api_prefix ''/access-keys/'') 0 in
      if keyID = [] then WriteError r (Validation ''the path does not name an access key'' []) (api_Dev a)
      else do {
        resp \<leftarrow> inState (DeleteAccessKey (api_OnKeyDeleted a) keyID);
        case resp of Inl e \<Rightarrow> WriteError r e (api_Dev a) | Inr _ \<Rightarrow> noContent
      })"

subsection \<open>Policies\<close>

definition api_createPolicy :: "'c API \<Rightarrow> apiHandler" where
  "api_createPolicy a r =
     (case api_principal r of
        Inl e \<Rightarrow> WriteError r e (api_Dev a)
      | Inr p \<Rightarrow>
     (let name = pathSegment (hr_Path r) (api_prefix ''/policies/'') 0 in
      if name = [] then WriteError r (Validation ''the path does not name a policy'' []) (api_Dev a)
      else case decodeJSON (api_DecodePolicy a) r of
        Inl e \<Rightarrow> WriteError r e (api_Dev a)
      | Inr req \<Rightarrow> do {
          resp \<leftarrow> inState (CreatePolicy (api_Docs a) (api_Region a) (req\<lparr>cpr_AccountId := pr_AccountId p, cpr_Name := name\<rparr>));
          case resp of Inl e \<Rightarrow> WriteError r e (api_Dev a) | Inr pol \<Rightarrow> writeProto a r 201 (MPolicy pol)
        }))"

definition api_getPolicy :: "'c API \<Rightarrow> apiHandler" where
  "api_getPolicy a r =
     (case api_principal r of
        Inl e \<Rightarrow> WriteError r e (api_Dev a)
      | Inr p \<Rightarrow> do {
          let name = pathSegment (hr_Path r) (api_prefix ''/policies/'') 0;
          resp \<leftarrow> inState (GetPolicy (api_Docs a) (PolicyARN (api_Region a) (pr_AccountId p) name));
          case resp of Inl e \<Rightarrow> WriteError r e (api_Dev a) | Inr pol \<Rightarrow> writeProto a r 200 (MPolicy pol)
        })"

definition api_listPolicies :: "'c::linorder API \<Rightarrow> apiHandler" where
  "api_listPolicies a r =
     (case api_principal r of
        Inl e \<Rightarrow> WriteError r e (api_Dev a)
      | Inr p \<Rightarrow>
     (case pageParams r of
        Inl e \<Rightarrow> WriteError r e (api_Dev a)
      | Inr (maxResults, tok) \<Rightarrow> do {
          resp \<leftarrow> inState (ListPolicies (api_Docs a) (api_Collation a) (pr_AccountId p) maxResults tok);
          case resp of Inl e \<Rightarrow> WriteError r e (api_Dev a) | Inr (ps, next) \<Rightarrow> writeProto a r 200 (MPolicies ps next)
        }))"

definition api_deletePolicy :: "'c API \<Rightarrow> apiHandler" where
  "api_deletePolicy a r =
     (case api_principal r of
        Inl e \<Rightarrow> WriteError r e (api_Dev a)
      | Inr p \<Rightarrow> do {
          let name = pathSegment (hr_Path r) (api_prefix ''/policies/'') 0;
          resp \<leftarrow> inState (DeletePolicy (api_OnPrincipalChanged a) (PolicyARN (api_Region a) (pr_AccountId p) name));
          case resp of Inl e \<Rightarrow> WriteError r e (api_Dev a) | Inr _ \<Rightarrow> noContent
        })"

definition api_attachOrDetach :: "'c API \<Rightarrow> apiHandler" where
  "api_attachOrDetach a r =
     (case api_principal r of
        Inl e \<Rightarrow> WriteError r e (api_Dev a)
      | Inr p \<Rightarrow>
     (let name = pathSegment (hr_Path r) (api_prefix ''/policies/'') 0;
          action = pathSegment (hr_Path r) (api_prefix ''/policies/'') 1;
          policyARN = PolicyARN (api_Region a) (pr_AccountId p) name
      in case decodeJSON (api_DecodeAttach a) r of
        Inl e \<Rightarrow> WriteError r e (api_Dev a)
      | Inr (_, principalARN) \<Rightarrow>
          if principalARN = [] then WriteError r (Validation ''principal_arn is required'' []) (api_Dev a)
          else if action = ''attachments'' then do {
            resp \<leftarrow> inState (AttachPolicy (api_Docs a) (api_OnPrincipalChanged a) policyARN principalARN);
            case resp of Inl e \<Rightarrow> WriteError r e (api_Dev a) | Inr _ \<Rightarrow> noContent
          }
          else if action = ''detachments'' then do {
            resp \<leftarrow> inState (DetachPolicy (api_OnPrincipalChanged a) policyARN principalARN);
            case resp of Inl e \<Rightarrow> WriteError r e (api_Dev a) | Inr _ \<Rightarrow> noContent
          }
          else WriteError r (NotFound ''no such operation on a policy: %q'' [AStr action]) (api_Dev a)))"

subsection \<open>Sessions\<close>

record Cookie =
  ck_Name :: string
  ck_Value :: string
  ck_Path :: string
  ck_Expires :: time
  ck_MaxAge :: int
  ck_HttpOnly :: bool
  ck_Secure :: bool
  ck_SameSiteStrict :: bool

text \<open>The text of a cookie, as \<open>net/http\<close> writes it; the date format is the library's.\<close>

definition cookieValue :: "string \<Rightarrow> string" where
  "cookieValue v =
     (let s = filter validCookieValueByte v
      in if CHR '' '' \<in> set s \<or> CHR '','' \<in> set s then [CHR 0x22] @ s @ [CHR 0x22] else s)"

definition cookie_String :: "(time \<Rightarrow> string) \<Rightarrow> Cookie \<Rightarrow> string" where
  "cookie_String httpTime c =
     ck_Name c @ ''='' @ cookieValue (ck_Value c) @ ''; Path='' @ ck_Path c @ ''; Expires='' @ httpTime (ck_Expires c) @
     (if ck_MaxAge c < 0 then ''; Max-Age=0'' else []) @
     (if ck_HttpOnly c then ''; HttpOnly'' else []) @ (if ck_Secure c then ''; Secure'' else []) @
     (if ck_SameSiteStrict c then ''; SameSite=Strict'' else [])"

definition sessionCookie :: "'c API \<Rightarrow> string \<Rightarrow> time \<Rightarrow> Cookie" where
  "sessionCookie a token expires =
     \<lparr>ck_Name = CookieName, ck_Value = token, ck_Path = ''/'', ck_Expires = expires, ck_MaxAge = 0, ck_HttpOnly = True,
      ck_Secure = \<not> api_Dev a, ck_SameSiteStrict = True\<rparr>"

definition clearedCookie :: "'c API \<Rightarrow> Cookie" where
  "clearedCookie a = (sessionCookie a [] 0)\<lparr>ck_MaxAge := -1\<rparr>"

definition SetCookie :: "'c API \<Rightarrow> Cookie \<Rightarrow> ('m rw \<times> 's, unit) state" where
  "SetCookie a c = onRw (\<lambda>w. w\<lparr>rw_header := header_Add ''Set-Cookie'' (cookie_String (api_HTTPTime a) c) (rw_header w)\<rparr>)"

definition writeJSONValue :: "nat \<Rightarrow> apiMsg \<Rightarrow> (apiMsg rw \<times> 's, outcome) state" where
  "writeJSONValue status msg = do {
     setHeader ''Content-Type'' jsonType;
     onRw (WriteHeader status);
     onRw (Write (Msg msg));
     ret Done
   }"

definition signInLimit :: nat where "signInLimit = 4 * 2 ^ 10"

definition SignInHandler :: "'c API \<Rightarrow> apiHandler" where
  "SignInHandler a r =
     (if hr_Method r \<noteq> ''POST'' then WriteError r (Validation ''sign-in is a POST'' []) (api_Dev a)
      else case api_DecodeSignIn a (take signInLimit (hr_Body r)) (hr_BodyFails r \<or> length (hr_Body r) > signInLimit) of
        None \<Rightarrow> WriteError r (Validation ''the request body is not valid JSON'' []) (api_Dev a)
      | Some cred \<Rightarrow> do {
          res \<leftarrow> inState (SignIn (api_SessionTTL a) (api_SessionKeys a) cred);
          case res of
            Inl e \<Rightarrow> WriteError r (ApiErr CodeInvalidSig (''the access key id or secret access key is incorrect'', []) [] [] None) (api_Dev a)
          | Inr (token, s) \<Rightarrow> do {
              SetCookie a (sessionCookie a token (sn_ExpiresAt s));
              writeJSONValue 200 (MSignIn (sn_AccountID s) (sn_PrincipalARN s) (sn_CSRFToken s) (unixMilli (sn_ExpiresAt s)))
            }
        })"

definition api_getSession :: "'c API \<Rightarrow> apiHandler" where
  "api_getSession a r =
     (case api_principal r of
        Inl e \<Rightarrow> WriteError r e (api_Dev a)
      | Inr p \<Rightarrow> writeJSONValue 200 (MStrings [(''accountId'', pr_AccountId p), (''principalArn'', pr_PrincipalArn p)]))"

definition clearSession :: "'c API \<Rightarrow> (apiMsg rw \<times> process, outcome) state" where
  "clearSession a = do { SetCookie a (clearedCookie a); noContent }"

definition api_signOut :: "'c API \<Rightarrow> apiHandler" where
  "api_signOut a r =
     (case readCookie (hr_Header r) CookieName of
        None \<Rightarrow> clearSession a
      | Some value \<Rightarrow> do {
          res \<leftarrow> inState (SignOut value);
          case res of Some e \<Rightarrow> WriteError r e (api_Dev a) | None \<Rightarrow> clearSession a
        })"

subsection \<open>The routes\<close>

definition selfResource :: "'c API \<Rightarrow> request \<Rightarrow> Principal \<Rightarrow> err + string" where
  "selfResource a r p =
     Inr (''arn:dariya:iam:'' @ api_Region a @ '':'' @ pr_AccountId p @ '':account/'' @ pr_AccountId p)"

definition sessionRoutes :: "'c API \<Rightarrow> apiHandler Route list" where
  "sessionRoutes a =
     [\<lparr>rt_Service = ApiService, rt_Method = ''GET'', rt_Prefix = api_prefix ''/session'', rt_Action = ''iam:GetSession'',
       rt_Resource = Some (selfResource a), rt_Upstream = [], rt_Handler = Some (api_getSession a)\<rparr>,
      \<lparr>rt_Service = ApiService, rt_Method = ''DELETE'', rt_Prefix = api_prefix ''/session'', rt_Action = ''iam:DeleteSession'',
       rt_Resource = Some (selfResource a), rt_Upstream = [], rt_Handler = Some (api_signOut a)\<rparr>]"

definition controlRoute ::
  "string \<Rightarrow> string \<Rightarrow> string \<Rightarrow> (request \<Rightarrow> Principal \<Rightarrow> err + string) \<Rightarrow> apiHandler \<Rightarrow> apiHandler Route" where
  "controlRoute method suffix action resource h =
     \<lparr>rt_Service = ApiService, rt_Method = method, rt_Prefix = api_prefix suffix, rt_Action = action,
      rt_Resource = Some resource, rt_Upstream = [], rt_Handler = Some h\<rparr>"

definition api_Routes :: "'c::linorder API \<Rightarrow> apiHandler Route list" where
  "api_Routes a =
     (let selfAccount = SelfAccountResource (api_Region a) ApiService;
          policy = PathResource (api_Region a) ''iam'' ''policy'' (api_prefix ''/policies/'')
      in [controlRoute ''GET'' ''/account'' ''iam:GetAccount'' selfAccount (api_getAccount a),
          controlRoute ''POST'' ''/access-keys'' ''iam:CreateAccessKey'' selfAccount (api_createAccessKey a),
          controlRoute ''GET'' ''/access-keys'' ''iam:ListAccessKeys'' selfAccount (api_listAccessKeys a),
          controlRoute ''DELETE'' ''/access-keys/'' ''iam:DeleteAccessKey''
            (PathResource (api_Region a) ''iam'' ''access-key'' (api_prefix ''/access-keys/'')) (api_deleteAccessKey a),
          controlRoute ''GET'' ''/policies'' ''iam:ListPolicies'' selfAccount (api_listPolicies a),
          controlRoute ''PUT'' ''/policies/'' ''iam:CreatePolicy'' policy (api_createPolicy a),
          controlRoute ''GET'' ''/policies/'' ''iam:GetPolicy'' policy (api_getPolicy a),
          controlRoute ''DELETE'' ''/policies/'' ''iam:DeletePolicy'' policy (api_deletePolicy a),
          controlRoute ''POST'' ''/policies/'' ''iam:AttachPolicy'' policy (api_attachOrDetach a)]
         @ sessionRoutes a)"

subsection \<open>The resource that is authorized is the one that is acted on\<close>

lemma PolicyARN_formatArn: "formatArn ''iam'' region acct ''policy'' name = PolicyARN region acct name"
  by (simp add: formatArn_def arn_String_append PolicyARN_def Partition_def)

lemma pathSegment_0: "pathSegment path pre 0 = (case cut CHR ''/'' (trimPrefix path pre) of None \<Rightarrow> trimPrefix path pre | Some (a, _) \<Rightarrow> a)"
proof (cases "cut CHR ''/'' (trimPrefix path pre)")
  case None
  moreover from None have "CHR ''/'' \<notin> set (trimPrefix path pre)" by (simp add: cut_None)
  ultimately show ?thesis by (simp add: pathSegment_def)
next
  case (Some ab)
  obtain a b where ab: "ab = (a, b)" by fastforce
  with Some have "trimPrefix path pre = a @ CHR ''/'' # b" "CHR ''/'' \<notin> set a" by (simp_all add: cut_Some)
  then show ?thesis using Some ab by (simp add: pathSegment_def)
qed

lemma PathResource_segment:
  "PathResource region service ty pre r p = Inr a \<longleftrightarrow>
     (let i = pathSegment (hr_Path r) pre 0 in
      i \<noteq> [] \<and> \<not> containsAny i '':*'' \<and> a = formatArn service region (pr_AccountId p) ty i)"
  by (auto simp: PathResource_def pathSegment_0 Let_def)

lemma selfResource_SelfAccount: "selfResource a = SelfAccountResource (api_Region a) ''iam''"
  by (rule ext, rule ext) (simp add: selfResource_def SelfAccountResource_def formatArn_def arn_String_append Partition_def)

lemma api_Routes_scoped:
  "\<forall>rt \<in> set (api_Routes a). \<exists>f. rt_Resource rt = Some f \<and> scoped_resource f (okSegments (api_Region a) ''iam'')"
  using self_account_resource.scoped_resource_axioms [of "api_Region a" "''iam''"]
    scoped_resource_mono [OF path_resource.scoped_resource_axioms [of "api_Region a" "''iam''" "''policy''" "api_prefix ''/policies/''"],
      of "okSegments (api_Region a) ''iam''"]
    scoped_resource_mono [OF path_resource.scoped_resource_axioms [of "api_Region a" "''iam''" "''access-key''" "api_prefix ''/access-keys/''"],
      of "okSegments (api_Region a) ''iam''"]
  by (auto simp: api_Routes_def controlRoute_def sessionRoutes_def Let_def selfResource_SelfAccount okType_def ApiService_def)

lemma api_Routes_wf: "rt \<in> set (api_Routes a) \<Longrightarrow> wf_route rt"
  by (auto simp: api_Routes_def controlRoute_def sessionRoutes_def Let_def wf_route_def ApiService_def api_prefix_def)

subsection \<open>What an account can change\<close>

text \<open>Every policy row has the ARN derived from its account and name, in an account whose id has twelve digits.\<close>

definition arnsDerived :: "string \<Rightarrow> db \<Rightarrow> bool" where
  "arnsDerived region d \<longleftrightarrow> (\<forall>r \<in> set (d_policies d). po_arn r = PolicyARN region (po_account r) (po_name r) \<and> is_account_id (po_account r))"

text \<open>Everything that belongs to accounts other than \<open>acct\<close>: the accounts, their keys and policies, and the attachments of their policies.\<close>

definition othersView :: "string \<Rightarrow> string \<Rightarrow> db \<Rightarrow> account_row list \<times> key_row list \<times> policy_row list \<times> attach_row list" where
  "othersView region acct d =
     (d_accounts d, filter (\<lambda>r. ak_account r \<noteq> acct) (d_keys d), filter (\<lambda>r. po_account r \<noteq> acct) (d_policies d),
      filter (\<lambda>t. \<not> hasPrefix (at_policy t) (PolicyARN region acct [])) (d_attach d))"

text \<open>The sessions after a request that carries a cookie: as before, or without the session whose token the cookie holds.\<close>

definition sessionsAfter :: "string option \<Rightarrow> db \<Rightarrow> db \<Rightarrow> bool" where
  "sessionsAfter cookie d d' \<longleftrightarrow> d_sessions d' = d_sessions d \<or>
     (\<exists>token. cookie = Some token \<and> token \<noteq> [] \<and> d_sessions d' = filter (\<lambda>r. ss_sha r \<noteq> sha256 token) (d_sessions d))"

text \<open>A row of the idempotency table that remembers a key or a policy of the account.\<close>

definition ownResult :: "string \<Rightarrow> db \<Rightarrow> idem_row \<Rightarrow> bool" where
  "ownResult acct d i \<longleftrightarrow>
     id_operation i = ''CreateAccessKey'' \<and> (\<exists>k \<in> set (d_keys d). ak_id k = id_result i \<and> ak_account k = acct) \<or>
     id_operation i = ''CreatePolicy'' \<and> (\<exists>k \<in> set (d_policies d). po_arn k = id_result i \<and> po_account k = acct)"

definition tokensAfter :: "string \<Rightarrow> db \<Rightarrow> db \<Rightarrow> bool" where
  "tokensAfter acct d d' \<longleftrightarrow> (\<exists>new. d_idem d' = d_idem d @ new \<and> (\<forall>i \<in> set new. ownResult acct d' i))"

definition confined :: "string \<Rightarrow> string \<Rightarrow> string option \<Rightarrow> db \<Rightarrow> db \<Rightarrow> bool" where
  "confined region acct cookie d d' \<longleftrightarrow> othersView region acct d' = othersView region acct d \<and>
     sessionsAfter cookie d d' \<and> tokensAfter acct d d' \<and> (arnsDerived region d \<longrightarrow> arnsDerived region d')"

lemma after_same [simp]:
  "d_sessions d' = d_sessions d \<Longrightarrow> sessionsAfter cookie d d'" "d_idem d' = d_idem d \<Longrightarrow> tokensAfter acct d d'"
  by (simp_all add: sessionsAfter_def tokensAfter_def)

lemma confined_refl [simp]: "confined region acct cookie d d"
  by (simp add: confined_def)

lemma PolicyARN_prefix [simp]: "hasPrefix (PolicyARN region acct name) (PolicyARN region acct [])"
  by (auto simp: PolicyARN_def hasPrefix_iff)

lemma PolicyARN_account:
  "PolicyARN region a n = PolicyARN region b m \<Longrightarrow> is_account_id a \<Longrightarrow> is_account_id b \<Longrightarrow> a = b"
  by (auto simp: PolicyARN_def is_account_id_def)

lemma confined_withKey: "ak_account row = acct \<Longrightarrow> confined region acct cookie d (withKey row tok d)"
  by (auto simp: confined_def othersView_def withKey_def arnsDerived_def tokensAfter_def ownResult_def newIdemRow_def)

lemma confined_withPolicy:
  "po_account row = acct \<Longrightarrow> is_account_id acct \<Longrightarrow> po_arn row = PolicyARN region acct (po_name row) \<Longrightarrow>
   confined region acct cookie d (withPolicy row tok d)"
  by (auto simp: confined_def othersView_def withPolicy_def arnsDerived_def tokensAfter_def ownResult_def newIdemRow_def)

lemma confined_withAttachment:
  "at_policy t = PolicyARN region acct name \<Longrightarrow> confined region acct cookie d (withAttachment t d)"
  by (simp add: confined_def othersView_def withAttachment_def arnsDerived_def)

lemma filter_weaker: "(\<And>x. x \<in> set xs \<Longrightarrow> P x \<Longrightarrow> Q x) \<Longrightarrow> filter P (filter Q xs) = filter P xs"
  by (induction xs) auto

lemma confined_withoutAttachment: "confined region acct cookie d (withoutAttachment (PolicyARN region acct name) pr d)"
proof -
  have "filter (\<lambda>t. \<not> hasPrefix (at_policy t) (PolicyARN region acct []))
      (filter (\<lambda>r. \<not> (at_policy r = PolicyARN region acct name \<and> at_principal r = pr)) (d_attach d)) =
    filter (\<lambda>t. \<not> hasPrefix (at_policy t) (PolicyARN region acct [])) (d_attach d)"
    by (rule filter_weaker) auto
  then show ?thesis by (simp add: confined_def othersView_def withoutAttachment_def arnsDerived_def)
qed

lemma confined_withoutPolicy:
  assumes "arnsDerived region d" "is_account_id acct"
  shows "confined region acct cookie d (withoutPolicy (PolicyARN region acct name) d)"
proof -
  have a: "filter (\<lambda>t. \<not> hasPrefix (at_policy t) (PolicyARN region acct [])) (filter (\<lambda>r. at_policy r \<noteq> PolicyARN region acct name) (d_attach d)) =
      filter (\<lambda>t. \<not> hasPrefix (at_policy t) (PolicyARN region acct [])) (d_attach d)"
    by (rule filter_weaker) auto
  have "filter (\<lambda>r. po_account r \<noteq> acct) (filter (\<lambda>r. po_arn r \<noteq> PolicyARN region acct name) (d_policies d)) =
      filter (\<lambda>r. po_account r \<noteq> acct) (d_policies d)"
    using assms by (intro filter_weaker) (metis PolicyARN_account arnsDerived_def)
  with a show ?thesis by (auto simp: confined_def othersView_def withoutPolicy_def arnsDerived_def)
qed

subsection \<open>What each operation may change\<close>

lemma final_eq: "run m w = (r, w') \<Longrightarrow> final_of m w = w'"
  by simp

lemma CreateAccessKey_confined:
  assumes "gcm_ok g" "wf_keyring kr" "ckr_AccountId req = acct"
  shows "confined region' acct cookie (w_db w) (w_db (final_of (CreateAccessKey g kr region req) w))"
proof -
  obtain r w' where run: "run (CreateAccessKey g kr region req) w = (r, w')" by fastforce
  from CreateAccessKey_outcome [OF assms(1,2) run] have "confined region' acct cookie (w_db w) (w_db w')"
    using assms(3) by (auto simp: keyOutcome_def confined_withKey)
  then show ?thesis using run by simp
qed

lemma CreatePolicy_confined:
  assumes "cpr_AccountId req = acct"
  shows "confined region acct cookie (w_db w) (w_db (final_of (CreatePolicy dj region req) w))"
proof -
  obtain r w' where run: "run (CreatePolicy dj region req) w = (r, w')" by fastforce
  from CreatePolicy_stores [OF run] have "confined region acct cookie (w_db w) (w_db w')"
  proof (elim disjE exE conjE)
    fix doc encoded
    assume acc: "is_account_id (cpr_AccountId req)"
      and st: "run (storePolicy dj \<lparr>po_arn = PolicyARN region (cpr_AccountId req) (cpr_Name req), po_account = cpr_AccountId req,
         po_name = cpr_Name req, po_document = encoded, po_created = unixMilli (w_now w)\<rparr> (withVersion doc) (cpr_ClientToken req)) w = (r, w')"
    from storePolicy_cases [OF st] show ?thesis
      by (elim disjE exE conjE) (use acc assms in \<open>simp_all add: confined_withPolicy\<close>)
  qed simp
  then show ?thesis using run by simp
qed

lemma read_only:
  "w_db (final_of (GetAccount i) w) = w_db w"
  "w_db (final_of (ListAccessKeys ck i m tok) w) = w_db w"
  "w_db (final_of (ListPolicies dj ck i m tok) w) = w_db w"
  "w_db (final_of (GetPolicy dj a) w) = w_db w"
proof -
  show "w_db (final_of (GetAccount i) w) = w_db w" by (simp add: GetAccount_def split: option.split)
  show "w_db (final_of (ListAccessKeys ck i m tok) w) = w_db w"
    by (simp add: ListAccessKeys_def run_db queryRows_def Let_def split: option.split sum.split)
  show "w_db (final_of (ListPolicies dj ck i m tok) w) = w_db w"
    by (simp add: ListPolicies_def run_db queryRows_def split: option.split sum.split)
  show "w_db (final_of (GetPolicy dj a) w) = w_db w" by (simp add: GetPolicy_def getPolicy_run split: option.split)
qed

lemma AttachPolicy_confined:
  fixes p :: process
  assumes "a = PolicyARN region acct name"
  shows "confined region acct cookie (w_db p) (w_db (final_of (AttachPolicy dj (Some InvalidatePrincipal) a pr) p))"
proof -
  obtain r q where run: "run (AttachPolicy dj (Some InvalidatePrincipal) a pr) p = (r, q)" by fastforce
  from AttachPolicy_cases [OF run] have "w_db q = w_db p \<or>
      w_db q = withAttachment \<lparr>at_policy = a, at_principal = pr, at_created = unixMilli (w_now p)\<rparr> (w_db p)"
    using faultsOnly_process by (fastforce simp: InvalidatePrincipal_run)
  then have "confined region acct cookie (w_db p) (w_db q)" using assms by (auto simp: confined_withAttachment)
  then show ?thesis using run by simp
qed

lemma DetachPolicy_confined:
  fixes p :: process
  assumes "a = PolicyARN region acct name"
  shows "confined region acct cookie (w_db p) (w_db (final_of (DetachPolicy (Some InvalidatePrincipal) a pr) p))"
proof -
  obtain r q where run: "run (DetachPolicy (Some InvalidatePrincipal) a pr) p = (r, q)" by fastforce
  from DetachPolicy_cases [OF run] have "w_db q = w_db p \<or> w_db q = withoutAttachment a pr (w_db p)"
    using faultsOnly_process by (fastforce simp: InvalidatePrincipal_run)
  then have "confined region acct cookie (w_db p) (w_db q)" using assms by (auto simp: confined_withoutAttachment)
  then show ?thesis using run by simp
qed

lemma DeletePolicy_confined:
  fixes p :: process
  assumes "a = PolicyARN region acct name" "arnsDerived region (w_db p)" "is_account_id acct" "wf_db (w_db p)"
  shows "confined region acct cookie (w_db p) (w_db (final_of (DeletePolicy (Some InvalidatePrincipal) a) p))"
proof -
  obtain r q where run: "run (DeletePolicy (Some InvalidatePrincipal) a) p = (r, q)" by fastforce
  from DeletePolicy_cases [OF run assms(4)] have "w_db q = w_db p \<or> w_db q = withoutPolicy a (w_db p)"
    using faultsOnly_process by (fastforce simp: principalsChanged_run)
  then have "confined region acct cookie (w_db p) (w_db q)" using confined_withoutPolicy [OF assms(2,3)] assms(1) by auto
  then show ?thesis using run by simp
qed

subsection \<open>The handlers\<close>

lemma snd_WriteError [simp]: "snd (snd (run (WriteError r e dev) (w, s))) = s"
  by (simp add: run_WriteError)

lemma snd_writeProto [simp]: "snd (snd (run (writeProto a r st m) (w, s))) = s"
  by (simp add: writeProto_def)

lemma snd_small [simp]:
  "snd (snd (run noContent (w, s))) = s" "snd (snd (run (writeJSONValue st m) (w, s))) = s"
  by (simp_all add: noContent_def writeJSONValue_def)

text \<open>A handler confined to the caller's account, with the callbacks that the front door registers.\<close>

definition wiredAPI :: "'c API \<Rightarrow> bool" where
  "wiredAPI a \<longleftrightarrow> api_OnKeyDeleted a = Some resolver_Invalidate \<and> api_OnPrincipalChanged a = Some InvalidatePrincipal \<and>
     gcm_ok (api_Aead a) \<and> wf_keyring (api_Keyring a)"

definition handlerConfined :: "'c API \<Rightarrow> (request \<Rightarrow> string option) \<Rightarrow> apiHandler \<Rightarrow> bool" where
  "handlerConfined a c h \<longleftrightarrow> (\<forall>r p w s. PrincipalFrom r = Some p \<longrightarrow> is_account_id (pr_AccountId p) \<longrightarrow> wf_db (w_db s) \<longrightarrow>
     arnsDerived (api_Region a) (w_db s) \<longrightarrow> confined (api_Region a) (pr_AccountId p) (c r) (w_db s) (w_db (snd (snd (run (h r) (w, s))))))"

lemma handlerConfined_reads:
  "handlerConfined a (\<lambda>_. None) (api_getAccount a)" "handlerConfined a (\<lambda>_. None) (api_listAccessKeys a)" "handlerConfined a (\<lambda>_. None) (api_listPolicies a)"
  "handlerConfined a (\<lambda>_. None) (api_getPolicy a)" "handlerConfined a (\<lambda>_. None) (api_getSession a)"
  unfolding handlerConfined_def
  by (auto simp: api_getAccount_def api_listAccessKeys_def api_listPolicies_def api_getPolicy_def api_getSession_def api_principal_def
      read_only split: sum.split prod.split)

lemma handlerConfined_createAccessKey:
  assumes "wiredAPI a" shows "handlerConfined a (\<lambda>_. None) (api_createAccessKey a)"
  unfolding handlerConfined_def
proof (intro allI impI)
  fix r p w and s :: process
  assume p: "PrincipalFrom r = Some p"
  have "confined (api_Region a) (pr_AccountId p) None (w_db s)
      (w_db (final_of (CreateAccessKey (api_Aead a) (api_Keyring a) (api_Region a) (req\<lparr>ckr_AccountId := pr_AccountId p\<rparr>)) s))" for req
    by (rule CreateAccessKey_confined) (use assms in \<open>simp_all add: wiredAPI_def\<close>)
  then show "confined (api_Region a) (pr_AccountId p) None (w_db s) (w_db (snd (snd (run (api_createAccessKey a r) (w, s)))))"
    using p by (auto simp: api_createAccessKey_def api_principal_def split: sum.split)
qed

lemma handlerConfined_createPolicy: "handlerConfined a (\<lambda>_. None) (api_createPolicy a)"
  unfolding handlerConfined_def
proof (intro allI impI)
  fix r p w and s :: process
  assume p: "PrincipalFrom r = Some p"
  have "confined (api_Region a) (pr_AccountId p) None (w_db s)
      (w_db (final_of (CreatePolicy (api_Docs a) (api_Region a) (req\<lparr>cpr_AccountId := pr_AccountId p, cpr_Name := n\<rparr>)) s))" for req n
    by (rule CreatePolicy_confined) simp
  then show "confined (api_Region a) (pr_AccountId p) None (w_db s) (w_db (snd (snd (run (api_createPolicy a r) (w, s)))))"
    using p by (auto simp: api_createPolicy_def api_principal_def Let_def split: sum.split)
qed

lemma handlerConfined_deletePolicy:
  assumes "wiredAPI a" shows "handlerConfined a (\<lambda>_. None) (api_deletePolicy a)"
  unfolding handlerConfined_def
proof (intro allI impI)
  fix r p w and s :: process
  assume p: "PrincipalFrom r = Some p" "is_account_id (pr_AccountId p)" "wf_db (w_db s)" "arnsDerived (api_Region a) (w_db s)"
  have "confined (api_Region a) (pr_AccountId p) None (w_db s)
      (w_db (final_of (DeletePolicy (api_OnPrincipalChanged a) (PolicyARN (api_Region a) (pr_AccountId p) n)) s))" for n
    using DeletePolicy_confined [OF refl p(4,2,3)] assms by (simp add: wiredAPI_def)
  then show "confined (api_Region a) (pr_AccountId p) None (w_db s) (w_db (snd (snd (run (api_deletePolicy a r) (w, s)))))"
    using p by (auto simp: api_deletePolicy_def api_principal_def Let_def split: sum.split)
qed

lemma handlerConfined_attachOrDetach:
  assumes "wiredAPI a" shows "handlerConfined a (\<lambda>_. None) (api_attachOrDetach a)"
  unfolding handlerConfined_def
proof (intro allI impI)
  fix r p w and s :: process
  assume p: "PrincipalFrom r = Some p"
  have "confined (api_Region a) (pr_AccountId p) None (w_db s)
      (w_db (final_of (AttachPolicy (api_Docs a) (api_OnPrincipalChanged a) (PolicyARN (api_Region a) (pr_AccountId p) n) k) s))"
    "confined (api_Region a) (pr_AccountId p) None (w_db s)
      (w_db (final_of (DetachPolicy (api_OnPrincipalChanged a) (PolicyARN (api_Region a) (pr_AccountId p) n) k) s))" for n k
    using AttachPolicy_confined [OF refl] DetachPolicy_confined [OF refl] assms by (simp_all add: wiredAPI_def)
  then show "confined (api_Region a) (pr_AccountId p) None (w_db s) (w_db (snd (snd (run (api_attachOrDetach a r) (w, s)))))"
    using p by (auto simp: api_attachOrDetach_def api_principal_def Let_def split: sum.split)
qed

text \<open>The cookie that a route may end the session of.\<close>

definition signOutCookie :: "'h Route \<Rightarrow> request \<Rightarrow> string option" where
  "signOutCookie rt r = (if rt_Action rt = ''iam:DeleteSession'' then readCookie (hr_Header r) CookieName else None)"

lemma handlerConfined_signOut: "handlerConfined a (\<lambda>r. readCookie (hr_Header r) CookieName) (api_signOut a)"
proof -
  have "confined region acct (Some v) (w_db s) (w_db (final_of (SignOut v) s))" for region acct v and s :: process
    by (auto simp: SignOut_run confined_def othersView_def arnsDerived_def sessionsAfter_def split: option.split)
  then show ?thesis
    by (auto simp: handlerConfined_def api_signOut_def clearSession_def SetCookie_def split: option.split)
qed

lemma api_Routes_confined:
  assumes "wiredAPI a" "rt \<in> set (api_Routes a)" "rt_Handler rt = Some h" "rt_Action rt \<noteq> ''iam:DeleteAccessKey''"
  shows "handlerConfined a (signOutCookie rt) h"
proof (cases "rt_Action rt = ''iam:DeleteSession''")
  case True
  then have "signOutCookie rt = (\<lambda>r. readCookie (hr_Header r) CookieName)" by (simp add: signOutCookie_def fun_eq_iff)
  moreover have "h = api_signOut a"
    using assms(2,3) True unfolding api_Routes_def controlRoute_def sessionRoutes_def Let_def by auto
  ultimately show ?thesis using handlerConfined_signOut by simp
next
  case False
  then have "signOutCookie rt = (\<lambda>_. None)" by (simp add: signOutCookie_def fun_eq_iff)
  then show ?thesis
    using assms(2-4) False handlerConfined_reads [of a] handlerConfined_createAccessKey [OF assms(1)] handlerConfined_createPolicy [of a]
      handlerConfined_deletePolicy [OF assms(1)] handlerConfined_attachOrDetach [OF assms(1)]
    unfolding api_Routes_def controlRoute_def sessionRoutes_def Let_def by auto
qed

lemma int32_shift: "int32 n = (n + 2147483648) mod 4294967296 - 2147483648"
proof -
  have "int32 n = signed_take_bit 31 n" unfolding int32_def by transfer simp
  then show ?thesis by (simp add: signed_take_bit_eq_take_bit_shift take_bit_eq_mod)
qed

lemma int32_id: "int32 n = n \<longleftrightarrow> - 2147483648 \<le> n \<and> n < 2147483648"
proof
  assume "int32 n = n"
  then have "(n + 2147483648) mod 4294967296 = n + 2147483648" by (simp add: int32_shift)
  then show "- 2147483648 \<le> n \<and> n < 2147483648"
    using pos_mod_sign [of 4294967296 "n + 2147483648"] pos_mod_bound [of 4294967296 "n + 2147483648"] by linarith
next
  assume "- 2147483648 \<le> n \<and> n < 2147483648"
  then show "int32 n = n" by (simp add: int32_shift mod_pos_pos_trivial)
qed

lemma int32_mod: "int32 n mod 4294967296 = n mod 4294967296"
proof -
  have "int32 n mod 4294967296 = (n + 2147483648 - 2147483648) mod 4294967296"
    unfolding int32_shift by (rule mod_diff_left_eq)
  then show ?thesis by simp
qed

subsection \<open>Properties\<close>

text \<open>C28: what a caller can change through any route of the console API but the deletion of an access key: no account, and no
  access key, policy or policy attachment of another account; of the sessions none, but that a sign-out ends the one session whose
  token the request's own cookie holds; of the idempotency tokens none that is stored, and a new one only for a key or a policy of the
  caller's account (the tokens of all accounts share one name space, so that it is then taken for the others too). Every policy keeps
  the ARN of its own account.\<close>
theorem console_requests_are_confined:
  assumes "wiredAPI a" "rt \<in> set (api_Routes a)" "rt_Handler rt = Some h" "rt_Action rt \<noteq> ''iam:DeleteAccessKey''"
    "PrincipalFrom r = Some p" "is_account_id (pr_AccountId p)" "wf_db (w_db s)" "arnsDerived (api_Region a) (w_db s)"
    "run (h r) (w, s) = (out, (w', s'))"
  shows "othersView (api_Region a) (pr_AccountId p) (w_db s') = othersView (api_Region a) (pr_AccountId p) (w_db s) \<and>
    sessionsAfter (if rt_Action rt = ''iam:DeleteSession'' then readCookie (hr_Header r) CookieName else None) (w_db s) (w_db s') \<and>
    tokensAfter (pr_AccountId p) (w_db s) (w_db s') \<and> arnsDerived (api_Region a) (w_db s')"
proof -
  have "confined (api_Region a) (pr_AccountId p) (signOutCookie rt r) (w_db s) (w_db (snd (snd (run (h r) (w, s)))))"
    using api_Routes_confined [OF assms(1-4)] assms(5-8) unfolding handlerConfined_def by blast
  then show ?thesis using assms(8,9) by (simp add: confined_def signOutCookie_def)
qed

text \<open>C38: the exception: deleting an access key reads no principal and checks no owner. A caller who may delete keys in an account of
  his own is authorized for a key id of any other account as if it were his, since the resource is built from his account
  and the id in the path, and the handler then deletes the other account's key and answers 204.\<close>
theorem access_key_deletion_crosses_accounts:
  assumes "keyById kid (w_db s) = Some theirs" "ak_account theirs \<noteq> pr_AccountId p" "kid \<noteq> []" "\<not> containsAny kid ''/:*''"
    "hr_Path r = api_prefix ''/access-keys/'' @ kid" "nextFault s = None" "wiredAPI a" "rw_status w = 0"
  shows "PathResource (api_Region a) ''iam'' ''access-key'' (api_prefix ''/access-keys/'') r p =
      Inr (formatArn ''iam'' (api_Region a) (pr_AccountId p) ''access-key'' kid) \<and>
    (\<exists>w' s'. run (api_deleteAccessKey a r) (w, s) = (Done, (w', s')) \<and> rw_status w' = 204 \<and> keyById kid (w_db s') = None)"
proof
  have c: "CHR ''/'' \<notin> set kid" "\<not> containsAny kid '':*''" using assms(4) by (auto simp: containsAny_def)
  have seg: "pathSegment (hr_Path r) (api_prefix ''/access-keys/'') 0 = kid"
    using c(1) by (simp add: assms(5) pathSegment_def)
  then show "PathResource (api_Region a) ''iam'' ''access-key'' (api_prefix ''/access-keys/'') r p =
      Inr (formatArn ''iam'' (api_Region a) (pr_AccountId p) ''access-key'' kid)"
    using c(2) assms(3) by (simp add: PathResource_segment Let_def)
  have "keyById kid ((w_db s)\<lparr>d_keys := filter (\<lambda>r. ak_id r \<noteq> kid) (d_keys (w_db s))\<rparr>) = None"
    by (simp add: keyById_def find_None)
  then show "\<exists>w' s'. run (api_deleteAccessKey a r) (w, s) = (Done, (w', s')) \<and> rw_status w' = 204 \<and> keyById kid (w_db s') = None"
    using assms(1,3,6-8) by (simp add: api_deleteAccessKey_def seg DeleteAccessKey_run wiredAPI_def noContent_def resolver_Invalidate_def)
qed

text \<open>On the policy routes the handler acts on exactly the policy the request was authorized for: the ARN that the route's resource
  builder produces, when it produces one, is the ARN of the path's name in the caller's account.\<close>
theorem authorized_policy_is_the_one_acted_on:
  "PathResource region ''iam'' ''policy'' pre r p = Inr arn \<longleftrightarrow>
     pathSegment (hr_Path r) pre 0 \<noteq> [] \<and> \<not> containsAny (pathSegment (hr_Path r) pre 0) '':*'' \<and>
     arn = PolicyARN region (pr_AccountId p) (pathSegment (hr_Path r) pre 0)"
  by (simp add: PathResource_segment PolicyARN_formatArn Let_def)

text \<open>The page size a client asks for is cut to its low 32 bits: it is passed on unchanged exactly when it fits
  \<open>int32\<close>, and any other number that \<open>Atoi\<close> accepts becomes another number, so an absurdly large page size can be
  accepted as a small one, or as the default, instead of being refused.\<close>
theorem page_size_is_truncated:
  assumes "query_Get (hr_Query r) ''max_results'' \<noteq> []" "atoi (query_Get (hr_Query r) ''max_results'') = Some n"
  shows "\<exists>m. pageParams r = Inr (m, query_Get (hr_Query r) ''next_token'') \<and> m mod 2 ^ 32 = n mod 2 ^ 32 \<and>
    (m = n \<longleftrightarrow> - (2 ^ 31) \<le> n \<and> n < 2 ^ 31)"
  using assms int32_id [of n] int32_mod [of n] by (simp add: pageParams_def Let_def)

subsection \<open>Cookies\<close>

lemma trimString_id: "s \<noteq> [] \<Longrightarrow> \<not> isASCIISpace (hd s) \<Longrightarrow> \<not> isASCIISpace (last s) \<Longrightarrow> trimString s = s"
proof -
  assume a: "s \<noteq> []" "\<not> isASCIISpace (hd s)" "\<not> isASCIISpace (last s)"
  then have "dropWhile isASCIISpace s = s" by (cases s) auto
  moreover have "dropWhile isASCIISpace (rev s) = rev s" using a by (cases "rev s") (auto simp: hd_rev [symmetric])
  ultimately show ?thesis by (simp add: trimString_def)
qed

lemma trimString_Cons_space: "trimString (CHR '' '' # s) = trimString s"
  by (simp add: trimString_def isASCIISpace_def)

text \<open>A token in the base64url alphabet survives a cookie.\<close>

definition urlToken :: "string \<Rightarrow> bool" where "urlToken t \<longleftrightarrow> set t \<subseteq> set urlAlphabet"

lemma urlAlphabet_cookie: "c \<in> set urlAlphabet \<Longrightarrow>
    validCookieValueByte c \<and> c \<noteq> CHR '';'' \<and> c \<noteq> CHR '' '' \<and> c \<noteq> CHR '','' \<and> \<not> isASCIISpace c"
proof -
  have "list_all (\<lambda>c. validCookieValueByte c \<and> c \<noteq> CHR '';'' \<and> c \<noteq> CHR '' '' \<and> c \<noteq> CHR '','' \<and> \<not> isASCIISpace c) urlAlphabet" by code_simp
  then show "c \<in> set urlAlphabet \<Longrightarrow> ?thesis" by (simp add: list_all_iff)
qed

lemma urlToken_cookieValue: "urlToken t \<Longrightarrow> cookieValue t = t"
proof -
  assume t: "urlToken t"
  then have "filter validCookieValueByte t = t" using urlAlphabet_cookie by (auto simp: filter_id_conv urlToken_def)
  moreover have "CHR '' '' \<notin> set t" "CHR '','' \<notin> set t" using urlAlphabet_cookie t by (auto simp: urlToken_def)
  ultimately show ?thesis by (simp add: cookieValue_def Let_def)
qed

lemma urlToken_parse: "urlToken t \<Longrightarrow> parseCookieValue t = Some t"
proof -
  assume t: "urlToken t"
  then have v: "list_all validCookieValueByte t" using urlAlphabet_cookie by (auto simp: list_all_iff urlToken_def)
  then have "CHR 0x22 \<notin> set t" by (auto simp: list_all_iff validCookieValueByte_def)
  then have "\<not> (length t > 1 \<and> hd t = CHR 0x22 \<and> last t = CHR 0x22)" by (cases t) auto
  then show ?thesis using v by (auto simp: parseCookieValue_def Let_def)
qed

text \<open>The part of a cookie header that carries the session.\<close>

definition sessionPart :: "string \<Rightarrow> string" where "sessionPart t = CookieName @ ''='' @ t"

lemma sessionPart_facts:
  assumes "urlToken t"
  shows "sessionPart t \<noteq> []" "\<not> isASCIISpace (hd (sessionPart t))" "\<not> isASCIISpace (last (sessionPart t))" "CHR '';'' \<notin> set (sessionPart t)"
proof -
  have "\<not> isASCIISpace (last t)" if "t \<noteq> []" using urlAlphabet_cookie last_in_set [OF that] assms by (auto simp: urlToken_def)
  then show "\<not> isASCIISpace (last (sessionPart t))" by (cases "t = []") (simp_all add: sessionPart_def CookieName_def isASCIISpace_def)
  show "CHR '';'' \<notin> set (sessionPart t)" using urlAlphabet_cookie assms by (auto simp: sessionPart_def CookieName_def urlToken_def)
qed (simp_all add: sessionPart_def CookieName_def isASCIISpace_def)

lemma cookiePart_session:
  assumes "urlToken t" "trimString x = sessionPart t"
  shows "cookiePart CookieName x = Some t"
proof -
  have c: "cut CHR ''='' (sessionPart t) = Some (CookieName, t)"
    using cut_append [of "CHR ''=''" CookieName t] by (simp add: CookieName_def sessionPart_def)
  have "trimString CookieName = CookieName" by code_simp
  then show ?thesis
    using sessionPart_facts(1) [OF assms(1)] urlToken_parse [OF assms(1)] by (simp add: cookiePart_def assms(2) c Let_def)
qed

lemma readCookie_alone:
  assumes "urlToken t" "lookup h ''Cookie'' = Some [sessionPart t]"
  shows "readCookie h CookieName = Some t"
proof -
  note f = sessionPart_facts [OF assms(1)]
  have t: "trimString (sessionPart t) = sessionPart t" by (rule trimString_id [OF f(1-3)])
  then show ?thesis
    using assms(2) f(4) cookiePart_session [OF assms(1) t] by (simp add: readCookie_def getOr_def List.map_filter_def)
qed

lemma readCookie_second:
  assumes "urlToken t" "CHR '';'' \<notin> set other" "cookiePart CookieName other = None" "other \<noteq> []" "\<not> isASCIISpace (hd other)"
    "lookup h ''Cookie'' = Some [other @ CHR '';'' # CHR '' '' # sessionPart t]"
  shows "readCookie h CookieName = Some t"
proof -
  note f = sessionPart_facts [OF assms(1)]
  have t: "trimString (CHR '' '' # sessionPart t) = sessionPart t"
    unfolding trimString_Cons_space by (rule trimString_id [OF f(1-3)])
  let ?l = "other @ CHR '';'' # CHR '' '' # sessionPart t"
  have "trimString ?l = ?l" by (rule trimString_id) (use assms(4,5) f in simp_all)
  moreover have "splitOn CHR '';'' ?l = [other, CHR '' '' # sessionPart t]"
    unfolding splitOn_append [OF assms(2)] using f(4) by simp
  ultimately show ?thesis
    using assms(3,6) cookiePart_session [OF assms(1) t] by (simp add: readCookie_def getOr_def List.map_filter_def)
qed

subsection \<open>The session cookie\<close>

text \<open>The browser brings back what sign-in handed out: a session token, which is unpadded base64url, is written into the cookie as it
  is, marked out of reach of scripts and of other sites, and from a \<open>Cookie\<close> header that carries it, alone or after any other
  cookies with names of their own, the server reads exactly that token.\<close>
theorem session_cookie_roundtrip:
  assumes "set token \<subseteq> set urlAlphabet" "CHR '';'' \<notin> set other" "cookiePart CookieName other = None" "lookup h ''Cookie'' = Some [hline]"
    "hline = CookieName @ ''='' @ cookieValue (ck_Value (sessionCookie a token t)) \<or>
     hline = other @ ''; '' @ CookieName @ ''='' @ cookieValue (ck_Value (sessionCookie a token t))"
    "other \<noteq> [] \<and> \<not> isASCIISpace (hd other)"
  shows "readCookie h CookieName = Some token \<and> ck_HttpOnly (sessionCookie a token t) \<and> ck_SameSiteStrict (sessionCookie a token t) \<and>
    hasPrefix (cookie_String f (sessionCookie a token t)) (CookieName @ ''='' @ token @ '';'')"
proof -
  have u: "urlToken token" using assms(1) by (simp add: urlToken_def)
  then have v: "cookieValue (ck_Value (sessionCookie a token t)) = token" by (simp add: sessionCookie_def urlToken_cookieValue)
  have "readCookie h CookieName = Some token"
    using assms(5) readCookie_alone [OF u] readCookie_second [OF u assms(2,3)] assms(4,6) unfolding v
    by (auto simp: sessionPart_def)
  moreover have "hasPrefix (cookie_String f (sessionCookie a token t)) (CookieName @ ''='' @ token @ '';'')"
    using v by (auto simp: cookie_String_def sessionCookie_def hasPrefix_iff)
  ultimately show ?thesis by (simp add: sessionCookie_def)
qed

subsection \<open>Witnesses\<close>

definition sampleAPI :: "string API" where
  "sampleAPI = \<lparr>api_Region = ''hind-1'', api_Dev = False, api_Aead = sampleAead, api_Keyring = sampleKeyring, api_Docs = sampleCodec,
     api_Collation = (\<lambda>k. k), api_SessionTTL = SessionTTL, api_SessionKeys = (\<lambda>_. ret (Inr sampleSessionKey)),
     api_OnKeyDeleted = Some resolver_Invalidate, api_OnPrincipalChanged = Some InvalidatePrincipal, api_Encodable = (\<lambda>_. True),
     api_DecodeKey = (\<lambda>_. Inr sampleKeyRequest), api_DecodePolicy = (\<lambda>_. Inr samplePolicyRequest), api_DecodeAttach = (\<lambda>_. Inr ([], sampleUser)),
     api_DecodeSignIn = (\<lambda>_ _. Some sampleCred), api_HTTPTime = (\<lambda>_. [])\<rparr>"

lemma sampleAPI_wired: "wiredAPI sampleAPI"
  by (simp add: wiredAPI_def sampleAPI_def sampleAead_ok sampleKeyring_wf)

lemma sampleProcess_arns: "arnsDerived region (w_db sampleProcess)"
proof -
  have "d_policies (w_db sampleProcess) = []" by code_simp
  then show ?thesis by (simp add: arnsDerived_def)
qed

lemma console_requests_are_confined_witness:
  "\<exists>out w' s'. run (api_createAccessKey sampleAPI (sampleHttpRequest\<lparr>hr_Ctx := emptyCtx\<lparr>cx_Principal := Some samplePrincipal\<rparr>\<rparr>))
       (emptyRw, sampleProcess) = (out, (w', s')) \<and>
     othersView ''hind-1'' ''000000000001'' (w_db s') = othersView ''hind-1'' ''000000000001'' (w_db sampleProcess) \<and>
     d_sessions (w_db s') = d_sessions (w_db sampleProcess) \<and> tokensAfter ''000000000001'' (w_db sampleProcess) (w_db s')"
proof -
  let ?r = "sampleHttpRequest\<lparr>hr_Ctx := emptyCtx\<lparr>cx_Principal := Some samplePrincipal\<rparr>\<rparr>"
  obtain out w' s' where run: "run (api_createAccessKey sampleAPI ?r) (emptyRw, sampleProcess) = (out, (w', s'))" by (metis prod.exhaust)
  let ?rt = "api_Routes sampleAPI ! 1"
  have "?rt \<in> set (api_Routes sampleAPI)" "rt_Handler ?rt = Some (api_createAccessKey sampleAPI)" "rt_Action ?rt \<noteq> ''iam:DeleteAccessKey''"
    by (simp_all add: api_Routes_def controlRoute_def sessionRoutes_def Let_def)
  note c = console_requests_are_confined [OF sampleAPI_wired this _ _ sampleProcess_wf sampleProcess_arns run]
  have "PrincipalFrom ?r = Some samplePrincipal" "is_account_id (pr_AccountId samplePrincipal)"
    by (simp_all add: PrincipalFrom_def samplePrincipal_def is_account_id_def isDigit_def)
  from c [OF this] \<open>?rt \<in> set (api_Routes sampleAPI)\<close>
  have "othersView ''hind-1'' ''000000000001'' (w_db s') = othersView ''hind-1'' ''000000000001'' (w_db sampleProcess) \<and>
      d_sessions (w_db s') = d_sessions (w_db sampleProcess) \<and> tokensAfter ''000000000001'' (w_db sampleProcess) (w_db s')"
    by (simp add: sampleAPI_def samplePrincipal_def sessionsAfter_def api_Routes_def controlRoute_def Let_def)
  with run show ?thesis by blast
qed

lemma access_key_deletion_crosses_accounts_witness:
  "\<exists>w' s'. run (api_deleteAccessKey sampleAPI (sampleHttpRequest\<lparr>hr_Path := api_prefix ''/access-keys/'' @ sampleKeyID\<rparr>))
      (emptyRw, sampleProcess) = (Done, (w', s')) \<and> keyById sampleKeyID (w_db s') = None \<and> keyById sampleKeyID (w_db sampleProcess) \<noteq> None"
proof -
  have "(case keyById sampleKeyID (w_db sampleProcess) of None \<Rightarrow> False | Some k \<Rightarrow> ak_account k = ''111111111111'')" by code_simp
  then obtain k where k: "keyById sampleKeyID (w_db sampleProcess) = Some k" "ak_account k = ''111111111111''"
    by (auto split: option.splits)
  have f: "sampleKeyID \<noteq> []" "\<not> containsAny sampleKeyID ''/:*''" "nextFault sampleProcess = None"
    by (simp_all add: sampleKeyID_def containsAny_def nextFault_def sampleProcess_def)
  have "\<exists>w' s'. run (api_deleteAccessKey sampleAPI (sampleHttpRequest\<lparr>hr_Path := api_prefix ''/access-keys/'' @ sampleKeyID\<rparr>))
      (emptyRw, sampleProcess) = (Done, (w', s')) \<and> rw_status w' = 204 \<and> keyById sampleKeyID (w_db s') = None"
    by (rule access_key_deletion_crosses_accounts [OF k(1) _ f(1,2) _ f(3) sampleAPI_wired, of samplePrincipal, THEN conjunct2])
      (simp_all add: k(2) samplePrincipal_def emptyRw_def)
  then show ?thesis using k(1) by blast
qed

lemma page_size_is_truncated_witness:
  "pageParams (sampleHttpRequest\<lparr>hr_Query := [(''max_results'', [''4294967346''])]\<rparr>) = Inr (50, []) \<and>
   (\<exists>m. pageParams (sampleHttpRequest\<lparr>hr_Query := [(''max_results'', [''4294967346''])]\<rparr>) = Inr (m, []) \<and> m \<noteq> 4294967346)"
proof -
  let ?r = "sampleHttpRequest\<lparr>hr_Query := [(''max_results'', [''4294967346''])]\<rparr>"
  have a: "atoi (query_Get (hr_Query ?r) ''max_results'') = Some 4294967346" "query_Get (hr_Query ?r) ''max_results'' \<noteq> []"
    "query_Get (hr_Query ?r) ''next_token'' = []" by code_simp+
  have "pageParams ?r = Inr (50, [])" using a by (simp add: pageParams_def Let_def int32_shift)
  with page_size_is_truncated [OF a(2,1)] a(3) show ?thesis by auto
qed

lemma session_cookie_roundtrip_witness:
  "readCookie [(''Cookie'', [''theme=dark; dariya_session=QUJD''])] CookieName = Some ''QUJD''"
proof -
  have p: "set ''QUJD'' \<subseteq> set urlAlphabet" "CHR '';'' \<notin> set ''theme=dark''" "cookiePart CookieName ''theme=dark'' = None"
    "cookieValue ''QUJD'' = ''QUJD''" by code_simp+
  have l: "lookup [(''Cookie'', [''theme=dark; dariya_session=QUJD''])] ''Cookie'' = Some [''theme=dark; dariya_session=QUJD'']" by simp
  show ?thesis
    by (rule session_cookie_roundtrip [OF p(1-3) l, of sampleAPI 0, THEN conjunct1])
      (simp_all add: sessionCookie_def p(4) CookieName_def isASCIISpace_def)
qed

end
