(* ===== verification/Mux.thy ===== *)
theory Mux
  imports Httpx "HOL-Library.List_Lexorder"
begin

text \<open>
  The request multiplexer of \<open>net/http\<close>, as far as the servers of the region use it: the cleaning of paths and the redirect
  of an unclean one, the comparison of a path with a pattern segment by segment, and the patterns
  \<open>METHOD /literal/{wildcard}\<close> of the services. The escaped path of a request and the text of a redirect page are what \<open>net/url\<close>
  makes of them, and are given as functions.
\<close>

subsection \<open>Paths\<close>

text \<open>\<open>cleanPath\<close>: the path that a rooted path cleans to, with the slash at its end kept.\<close>

fun cleanSegments :: "string list \<Rightarrow> string list \<Rightarrow> string list" where
  "cleanSegments acc [] = rev acc"
| "cleanSegments acc (s # ss) =
     (if s = [] \<or> s = ''.'' then cleanSegments acc ss
      else if s = ''..'' then cleanSegments (tl acc) ss
      else cleanSegments (s # acc) ss)"

definition cleanPath :: "string \<Rightarrow> string" where
  "cleanPath p =
     (if p = [] then ''/''
      else let p = (if hd p = CHR ''/'' then p else CHR ''/'' # p);
               np = CHR ''/'' # joinWith ''/'' (cleanSegments [] (splitOn CHR ''/'' p))
           in if last p = CHR ''/'' \<and> np \<noteq> ''/'' then np @ ''/'' else np)"

text \<open>\<open>url.PathUnescape\<close>, and the segments that a pattern is compared with: one that cannot be unescaped stays as it is.\<close>

fun pathUnescape :: "string \<Rightarrow> string option" where
  "pathUnescape [] = Some []"
| "pathUnescape (c # cs) =
     (if c \<noteq> CHR ''%'' then map_option ((#) c) (pathUnescape cs)
      else case hexDecode (take 2 cs) of
        Some [x] \<Rightarrow> map_option ((#) x) (pathUnescape (drop 2 cs))
      | _ \<Rightarrow> None)"

definition muxSegments :: "string \<Rightarrow> string list" where
  "muxSegments p = map (\<lambda>s. case pathUnescape s of None \<Rightarrow> s | Some u \<Rightarrow> u) (splitOn CHR ''/'' p)"

text \<open>\<open>http.RedirectHandler\<close> for a page that moved permanently, and \<open>http.Error\<close>.\<close>

definition muxRedirect :: "string \<Rightarrow> bytes \<Rightarrow> ('m, 's) handler" where
  "muxRedirect location page r = do {
     hadCT \<leftarrow> gets (\<lambda>(w, s). lookup (rw_header w) ''Content-Type'' \<noteq> None);
     setHeader ''Location'' location;
     (if \<not> hadCT \<and> (hr_Method r = ''GET'' \<or> hr_Method r = ''HEAD'') then setHeader ''Content-Type'' ''text/html; charset=utf-8''
      else ret ());
     onRw (WriteHeader 301);
     (if \<not> hadCT \<and> hr_Method r = ''GET'' then onRw (Write (Bytes page)) else ret ());
     ret Done
   }"

definition plainError :: "nat \<Rightarrow> string \<Rightarrow> ('m, 's) handler" where
  "plainError code msg r = do {
     setHeader ''Content-Type'' ''text/plain; charset=utf-8'';
     setHeader ''X-Content-Type-Options'' ''nosniff'';
     onRw (WriteHeader code);
     onRw (Write (Bytes (msg @ [CHR 0x0A])));
     ret Done
   }"

definition muxBadRequest :: "('m, 's) handler" where
  "muxBadRequest r = do { setHeader ''Connection'' ''close''; onRw (WriteHeader 400); ret Done }"

subsection \<open>Patterns with a method and wildcards\<close>

datatype muxSegment = Lit string | Wild

record ('m, 's) muxRoute =
  mr_Method :: string
  mr_Pattern :: "muxSegment list"
  mr_Handler :: "string list \<Rightarrow> ('m, 's) handler"

text \<open>The values of the wildcards, when the path is of the pattern's shape. A wildcard does not stand for an empty segment.\<close>

fun matchSegments :: "muxSegment list \<Rightarrow> string list \<Rightarrow> string list option" where
  "matchSegments [] [] = Some []"
| "matchSegments (Lit l # ps) (s # ss) = (if s = l then matchSegments ps ss else None)"
| "matchSegments (Wild # ps) (s # ss) = (if s = [] then None else map_option ((#) s) (matchSegments ps ss))"
| "matchSegments _ _ = None"

definition litPattern :: "string \<Rightarrow> muxSegment list" where
  "litPattern path = map Lit (splitOn CHR ''/'' path)"

definition methodMatches :: "string \<Rightarrow> string \<Rightarrow> bool" where
  "methodMatches pattern method \<longleftrightarrow> pattern = method \<or> pattern = ''GET'' \<and> method = ''HEAD''"

fun muxLookup :: "('m, 's) muxRoute list \<Rightarrow> string \<Rightarrow> string list \<Rightarrow> ('m, 's) handler option" where
  "muxLookup [] method segs = None"
| "muxLookup (rt # rts) method segs =
     (case (if methodMatches (mr_Method rt) method then matchSegments (mr_Pattern rt) segs else None) of
        Some vs \<Rightarrow> Some (mr_Handler rt vs)
      | None \<Rightarrow> muxLookup rts method segs)"

definition allowedMethods :: "('m, 's) muxRoute list \<Rightarrow> string list \<Rightarrow> string list" where
  "allowedMethods rts segs =
     concat (map (\<lambda>rt. if matchSegments (mr_Pattern rt) segs = None then [] else if mr_Method rt = ''GET'' then [''GET'', ''HEAD''] else [mr_Method rt]) rts)"

text \<open>What \<open>net/url\<close> provides: the escaped path, and the location and page of a redirect to the cleaned one.\<close>

record muxLib =
  ml_EscapedPath :: "request \<Rightarrow> string"
  ml_Redirect :: "request \<Rightarrow> string \<times> bytes"

definition muxUnclean :: "muxLib \<Rightarrow> request \<Rightarrow> bool" where
  "muxUnclean lib r \<longleftrightarrow> hr_Method r \<noteq> ''CONNECT'' \<and> cleanPath (ml_EscapedPath lib r) \<noteq> ml_EscapedPath lib r"

definition serviceMux :: "muxLib \<Rightarrow> ('m, 's) muxRoute list \<Rightarrow> ('m, 's) handler" where
  "serviceMux lib rts r =
     (let segs = muxSegments (ml_EscapedPath lib r) in
      if hr_Path r = ''*'' then muxBadRequest r
      else if muxUnclean lib r then muxRedirect (fst (ml_Redirect lib r)) (snd (ml_Redirect lib r)) r
      else case muxLookup rts (hr_Method r) segs of
        Some h \<Rightarrow> h r
      | None \<Rightarrow>
          if allowedMethods rts segs = [] then plainError 404 ''404 page not found'' r
          else do {
            setHeader ''Allow'' (joinWith '', '' (sort_key (\<lambda>m. map of_char m :: nat list) (remdups (allowedMethods rts segs))));
            plainError 405 ''Method Not Allowed'' r
          })"

text \<open>Nothing of this but a handler of the table touches the rest of the state.\<close>

lemma mux_plain [simp]:
  "snd (snd (run (muxRedirect l p r) (w, s))) = s" "snd (snd (run (plainError c m r) (w, s))) = s"
  "snd (snd (run (muxBadRequest r) (w, s))) = s"
  by (simp_all add: muxRedirect_def plainError_def muxBadRequest_def)

lemma serviceMux_cases:
  "(\<exists>h. muxLookup rts (hr_Method r) (muxSegments (ml_EscapedPath lib r)) = Some h \<and> run (serviceMux lib rts r) (w, s) = run (h r) (w, s)) \<or>
   snd (snd (run (serviceMux lib rts r) (w, s))) = s"
  by (auto simp: serviceMux_def Let_def split: option.split)

end
