(* ===== verification/Frontdoor.thy ===== *)
theory Frontdoor
  imports Controlapi Mux
begin

text \<open>
  The front door (\<open>internal/frontdoor/server.go\<close>): one dispatcher behind authentication and authorization, the
  unauthenticated sign-in and probes beside it on a \<open>http.ServeMux\<close>, and the edge chain around everything.

  \<open>Backend\<close> holds what \<open>NewHandler\<close> is given (the servers' encryption and their codecs) and the functions of
  libraries: the JSON codecs, \<open>url.Parse\<close>, the HTTP client, protobuf, the rendering of errors, and what \<open>net/url\<close> makes of
  a request's path.
\<close>

definition ServiceName :: string where "ServiceName = ''ws''"
definition ActionPing :: string where "ActionPing = ''ws:Ping''"

definition PingResourceARN :: "string \<Rightarrow> string \<Rightarrow> string" where
  "PingResourceARN region accountID = ''arn:dariya:ws:'' @ region @ '':'' @ accountID @ '':endpoint/ping''"

subsection \<open>Configuration\<close>

record Options =
  fd_Region :: string
  fd_KeyCacheTTL :: duration
  fd_Routes :: "apiHandler Route list"
  fd_ProxyTimeout :: duration
  fd_Mint :: "(Claims \<Rightarrow> (process, err + SignedCapability) state) option"
  fd_CapabilityTTL :: duration
  fd_SessionTTL :: duration
  fd_PolicyCacheTTL :: duration
  fd_DisableKeyCache :: bool
  fd_Dev :: bool

record 'c Backend =
  be_Aead :: aead
  be_Keyring :: Keyring
  be_Docs :: docCodec
  be_Collation :: "string \<Rightarrow> 'c"
  be_Encodable :: "apiMsg \<Rightarrow> bool"
  be_DecodeKey :: "bytes \<Rightarrow> err + CreateAccessKeyRequest"
  be_DecodePolicy :: "bytes \<Rightarrow> err + CreatePolicyRequest"
  be_DecodeAttach :: "bytes \<Rightarrow> err + string \<times> string"
  be_DecodeSignIn :: "bytes \<Rightarrow> bool \<Rightarrow> SignInCredentials option"
  be_HTTPTime :: "time \<Rightarrow> string"
  be_Fmt :: fmtLib
  be_URLParse :: "string \<Rightarrow> err + upstreamURL"
  be_Client :: "duration \<Rightarrow> outbound \<Rightarrow> (process, err + response) state"
  be_Wire :: wire
  be_Mux :: muxLib

text \<open>The adapter that lets the session manager use the credential resolver.\<close>

definition signingKeyAdapter :: "(string \<Rightarrow> ('s, err + SigningKey) state) \<Rightarrow> string \<Rightarrow> ('s, err + SessionKey) state" where
  "signingKeyAdapter keys accessKeyID = do {
     key \<leftarrow> keys accessKeyID;
     case key of
       Inl e \<Rightarrow> ret (Inl e)
     | Inr key \<Rightarrow> ret (Inr \<lparr>snk_AccountID = sk_AccountID key, snk_PrincipalARN = sk_PrincipalARN key, snk_Secret = sk_Secret key\<rparr>)
   }"

definition edgeKeys :: "'c Backend \<Rightarrow> Options \<Rightarrow> string \<Rightarrow> (process, err + SigningKey) state" where
  "edgeKeys b opts =
     (if fd_DisableKeyCache opts then ResolveSigningKey (be_Aead b) (be_Keyring b) else cachedResolve (be_Aead b) (be_Keyring b))"

definition edgeAPI :: "'c Backend \<Rightarrow> Options \<Rightarrow> 'c API" where
  "edgeAPI b opts = \<lparr>api_Region = fd_Region opts, api_Dev = fd_Dev opts, api_Aead = be_Aead b, api_Keyring = be_Keyring b,
     api_Docs = be_Docs b, api_Collation = be_Collation b, api_SessionTTL = NewManager (fd_SessionTTL opts),
     api_SessionKeys = signingKeyAdapter (edgeKeys b opts),
     api_OnKeyDeleted = (if fd_DisableKeyCache opts then None else Some resolver_Invalidate),
     api_OnPrincipalChanged = Some InvalidatePrincipal, api_Encodable = be_Encodable b,
     api_DecodeKey = be_DecodeKey b, api_DecodePolicy = be_DecodePolicy b, api_DecodeAttach = be_DecodeAttach b,
     api_DecodeSignIn = be_DecodeSignIn b, api_HTTPTime = be_HTTPTime b\<rparr>"

subsection \<open>Handlers of the front door itself\<close>

definition handlePing :: apiHandler where
  "handlePing r =
     (case PrincipalFrom r of
        None \<Rightarrow> WriteError r (Internal None ''internal failure'' []) False
      | Some p \<Rightarrow>
          WriteJSON r 200 (Some (MStrings
            ([(''account_id'', pr_AccountId p), (''principal_arn'', pr_PrincipalArn p), (''request_id'', RequestID r)] @
             (case CapabilityFrom r of None \<Rightarrow> [] | Some token \<Rightarrow> [(''capability_key_id'', tk_KeyId token)])))))"

definition handleHealthz :: apiHandler where
  "handleHealthz r = WriteJSON r 200 (Some (MStrings [(''status'', ''ok'')]))"

definition pingDb :: "db \<Rightarrow> err + unit \<times> db" where "pingDb d = Inr ((), d)"

definition handleReadyz :: "bool \<Rightarrow> apiHandler" where
  "handleReadyz dev r = do {
     res \<leftarrow> inState (sql pingDb);
     case res of
       Inl e \<Rightarrow> WriteError r (Internal (Some e) ''the control-plane store is unreachable'' []) dev
     | Inr _ \<Rightarrow> WriteJSON r 200 (Some (MStrings [(''status'', ''ready'')]))
   }"

subsection \<open>The chain\<close>

definition pingRoute :: "Options \<Rightarrow> apiHandler Route" where
  "pingRoute opts =
     \<lparr>rt_Service = ServiceName, rt_Method = [], rt_Prefix = ''/ping'', rt_Action = ActionPing,
      rt_Resource = Some (\<lambda>_ p. Inr (PingResourceARN (fd_Region opts) (pr_AccountId p))), rt_Upstream = [],
      rt_Handler = Some handlePing\<rparr>"

definition edgeRoutes :: "'c::linorder Backend \<Rightarrow> Options \<Rightarrow> apiHandler Route list" where
  "edgeRoutes b opts = [pingRoute opts] @ api_Routes (edgeAPI b opts) @ fd_Routes opts"

definition forward :: "'c Backend \<Rightarrow> Options \<Rightarrow> apiHandler Table \<Rightarrow> apiHandler" where
  "forward b opts t = proxy_ServeHTTP (be_Fmt b) (be_URLParse b) (be_Client b) (proxy_New t (fd_ProxyTimeout opts) (fd_Dev opts))"

definition dispatch :: "'c Backend \<Rightarrow> Options \<Rightarrow> apiHandler Table \<Rightarrow> apiHandler" where
  "dispatch b opts t r =
     (case table_Match t r of
        Some rt \<Rightarrow> (case rt_Handler rt of Some h \<Rightarrow> h r | None \<Rightarrow> forward b opts t r)
      | None \<Rightarrow> forward b opts t r)"

definition edgeAuthn :: "'c Backend \<Rightarrow> Options \<Rightarrow> apiHandler Table \<Rightarrow> process AuthnConfig" where
  "edgeAuthn b opts t = \<lparr>au_Keys = edgeKeys b opts, au_Region = fd_Region opts, au_Service = ServiceFor t ServiceName,
     au_Sessions = Some session_Resolve, au_Dev = fd_Dev opts, au_Now = w_now\<rparr>"

definition edgeAuthz :: "'c::linorder Backend \<Rightarrow> Options \<Rightarrow> apiHandler Table \<Rightarrow> process AuthzConfig" where
  "edgeAuthz b opts t = \<lparr>az_Decide = authorizer_Authorize (be_Docs b) (be_Collation b) (fd_Dev opts), az_Target = TargetFor t,
     az_Mint = fd_Mint opts, az_Dev = fd_Dev opts\<rparr>"

definition guarded :: "'c::linorder Backend \<Rightarrow> Options \<Rightarrow> apiHandler Table \<Rightarrow> apiHandler" where
  "guarded b opts t =
     Chain (dispatch b opts t) [authnMiddleware (be_Fmt b) (edgeAuthn b opts t), authzMiddleware (be_Wire b) (edgeAuthz b opts t)]"

subsection \<open>The request multiplexer\<close>

datatype muxTarget = MuxRoot | MuxSignIn | MuxHealthz | MuxReadyz | MuxRedirect | MuxBadRequest

definition muxPattern :: "string \<Rightarrow> muxTarget" where
  "muxPattern p =
     (if muxSegments p = splitOn CHR ''/'' SignInPath then MuxSignIn
      else if muxSegments p = splitOn CHR ''/'' ''/healthz'' then MuxHealthz
      else if muxSegments p = splitOn CHR ''/'' ''/readyz'' then MuxReadyz
      else MuxRoot)"

text \<open>A path that is not clean is redirected before any handler sees it, but for \<open>CONNECT\<close>.\<close>

definition muxTarget :: "'c Backend \<Rightarrow> request \<Rightarrow> muxTarget" where
  "muxTarget b r =
     (let p = ml_EscapedPath (be_Mux b) r in
      if hr_Path r = ''*'' then MuxBadRequest
      else if hr_Method r = ''CONNECT'' then (if p = [] then MuxRedirect else muxPattern p)
      else if muxUnclean (be_Mux b) r then MuxRedirect
      else muxPattern p)"

definition mux :: "'c::linorder Backend \<Rightarrow> Options \<Rightarrow> apiHandler Table \<Rightarrow> apiHandler" where
  "mux b opts t r =
     (case muxTarget b r of
        MuxBadRequest \<Rightarrow> muxBadRequest r
      | MuxRedirect \<Rightarrow> muxRedirect (fst (ml_Redirect (be_Mux b) r)) (snd (ml_Redirect (be_Mux b) r)) r
      | MuxSignIn \<Rightarrow> SignInHandler (edgeAPI b opts) r
      | MuxHealthz \<Rightarrow> handleHealthz r
      | MuxReadyz \<Rightarrow> handleReadyz (fd_Dev opts) r
      | MuxRoot \<Rightarrow> guarded b opts t r)"

text \<open>\<open>NewHandler\<close> creates the two caches of the process, then the table, and wraps everything in the edge chain.\<close>

definition NewHandler :: "'c::linorder Backend \<Rightarrow> Options \<Rightarrow> (process, err + apiHandler) state" where
  "NewHandler b opts = do {
     (if fd_DisableKeyCache opts then ret ()
      else modify (\<lambda>p. p\<lparr>p_keyCache := NewCachingResolver \<lparr>co_TTL = fd_KeyCacheTTL opts, co_NegativeTTL = 0, co_MaxEntries = 0\<rparr>\<rparr>));
     modify (\<lambda>p. p\<lparr>p_policyCache := NewAuthorizer \<lparr>ao_TTL = fd_PolicyCacheTTL opts, ao_MaxEntries = 0, ao_Dev = fd_Dev opts\<rparr>\<rparr>);
     case NewTable (fd_Region opts) (edgeRoutes b opts) of
       Inl e \<Rightarrow> ret (Inl e)
     | Inr t \<Rightarrow> ret (Inr (edgeChain randRead (fd_Dev opts) (mux b opts t)))
   }"

subsection \<open>The lifetime of capabilities is not an option\<close>

lemma edge_ignores_capability_ttl [simp]:
  "edgeAPI b (opts\<lparr>fd_CapabilityTTL := ttl\<rparr>) = edgeAPI b opts"
  "edgeRoutes b (opts\<lparr>fd_CapabilityTTL := ttl\<rparr>) = edgeRoutes b opts"
  "guarded b (opts\<lparr>fd_CapabilityTTL := ttl\<rparr>) t = guarded b opts t"
  "mux b (opts\<lparr>fd_CapabilityTTL := ttl\<rparr>) t = mux b opts t"
proof -
  let ?o = "opts\<lparr>fd_CapabilityTTL := ttl\<rparr>"
  show api: "edgeAPI b ?o = edgeAPI b opts" by (simp add: edgeAPI_def edgeKeys_def)
  show "edgeRoutes b ?o = edgeRoutes b opts" by (simp add: edgeRoutes_def api pingRoute_def)
  have "forward b ?o t = forward b opts t" by (simp add: forward_def)
  then have "dispatch b ?o t = dispatch b opts t" by (intro ext) (simp add: dispatch_def split: option.split)
  then show g: "guarded b ?o t = guarded b opts t"
    by (simp add: guarded_def edgeAuthn_def edgeAuthz_def edgeKeys_def)
  show "mux b ?o t = mux b opts t" by (intro ext) (simp add: mux_def api g split: muxTarget.split)
qed

lemma capability_lifetime_is_not_an_option:
  "NewHandler b (opts\<lparr>fd_CapabilityTTL := ttl\<rparr>) = NewHandler b opts"
  by (simp add: NewHandler_def cong: sum.case_cong)

subsection \<open>What reaches a handler\<close>

lemma table_Match_cong:
  assumes "hr_Method r' = hr_Method r" "hr_Path r' = hr_Path r"
  shows "table_Match t r' = table_Match t r"
proof -
  have "bestRoute r' rts best = bestRoute r rts best" for rts and best :: "'h Route option"
    using assms by (induction r rts best rule: bestRoute.induct) simp_all
  then show ?thesis by (simp add: table_Match_def)
qed

lemma run_authnMiddleware:
  "run (authnMiddleware fl cfg next r) (w, s) =
     (case run (authenticate fl cfg r) s of
        (None, s') \<Rightarrow> (Panicked ''slice bounds out of range'', (w, s'))
      | (Some (Inl e), s') \<Rightarrow> run (WriteError r e (au_Dev cfg)) (w, s')
      | (Some (Inr (pr, body)), s') \<Rightarrow>
          (case run (WithPrincipal pr (withBody body r)) (w, s') of (r', (w', _)) \<Rightarrow> run (next r') (w', s')))"
  by (auto simp: authnMiddleware_def WithPrincipal_def split: prod.split option.split sum.split)

lemma edgeKeys_db [simp]: "w_db (final_of (edgeKeys b opts i) s) = w_db s"
  "p_policyCache (final_of (edgeKeys b opts i) s) = p_policyCache s"
  "w_now (final_of (edgeKeys b opts i) s) = w_now s"
proof -
  obtain c q r where g: "run (cache_Get w_now (ResolveSigningKey (be_Aead b) (be_Keyring b)) i) (p_keyCache s, s) = (r, (c, q))"
    by (metis prod.exhaust)
  have "q = s \<or> q = popFault s"
    using cache_Get_keeps_process [OF _ g] by (simp add: ResolveSigningKey_final)
  then have "w_db q = w_db s" "p_policyCache q = p_policyCache s" "w_now q = w_now s" by auto
  then show "w_db (final_of (edgeKeys b opts i) s) = w_db s" "p_policyCache (final_of (edgeKeys b opts i) s) = p_policyCache s"
    "w_now (final_of (edgeKeys b opts i) s) = w_now s"
    using g by (simp_all add: edgeKeys_def cachedResolve_def run_withKeyCache ResolveSigningKey_final)
qed

lemma Resolve_final: "final_of (session_Resolve token) s = s \<or> final_of (session_Resolve token) s = popFault s"
  by (simp add: Resolve_run split: option.split)

lemma authenticateSession_final: "final_of (authenticateSession cfg resolve r token) s = final_of (resolve token) s"
proof -
  obtain k s1 where "run (resolve token) s = (k, s1)" by fastforce
  then show ?thesis by (cases k) (simp_all add: authenticateSession_def Let_def)
qed

lemma authenticateSignature_final:
  "final_of (authenticateSignature fl cfg r) s = s \<or> (\<exists>i. final_of (authenticateSignature fl cfg r) s = final_of (au_Keys cfg i) s)"
proof (cases "ParseAuthorization (header_Get (hr_Header r) ''Authorization'')")
  case (Inr sig)
  then show ?thesis
  proof (cases "readLimited r")
    case (Some body)
    obtain k s1 where "run (au_Keys cfg (sc_AccessKeyID (sig_Scope sig))) s = (k, s1)" by fastforce
    then have "final_of (authenticateSignature fl cfg r) s = final_of (au_Keys cfg (sc_AccessKeyID (sig_Scope sig))) s"
      by (cases k) (simp_all add: authenticateSignature_def Inr Some split: option.split)
    then show ?thesis by blast
  qed (simp add: authenticateSignature_def)
qed (simp add: authenticateSignature_def)

lemma authenticate_final:
  "final_of (authenticate fl cfg r) s = s \<or> (\<exists>i. final_of (authenticate fl cfg r) s = final_of (au_Keys cfg i) s) \<or>
   (\<exists>resolve token. au_Sessions cfg = Some resolve \<and> final_of (authenticate fl cfg r) s = final_of (resolve token) s)"
  using authenticateSignature_final [of fl cfg r s]
  by (auto simp: authenticate_def authenticateSession_final split: option.split)

lemma authenticate_db:
  assumes "run (authenticate fl (edgeAuthn b opts t) r) s = (res, s')"
  shows "w_db s' = w_db s" "p_policyCache s' = p_policyCache s"
proof -
  have "s' = s \<or> (\<exists>i. s' = final_of (edgeKeys b opts i) s) \<or> (\<exists>token. s' = final_of (session_Resolve token) s)"
    using authenticate_final [of fl "edgeAuthn b opts t" r s] assms by (auto simp: edgeAuthn_def)
  moreover have "w_db (final_of (session_Resolve token) s) = w_db s" "p_policyCache (final_of (session_Resolve token) s) = p_policyCache s" for token
    using Resolve_final [of token s] by auto
  ultimately show "w_db s' = w_db s" "p_policyCache s' = p_policyCache s" by auto
qed

lemma authorizer_db:
  assumes "policiesCoherent dj ck s"
  shows "w_db (final_of (authorizer_Authorize dj ck dev req) s) = w_db s"
proof -
  obtain v where v: "final_of (authorizer_Authorize dj ck dev req) s = v" "v = s \<or> v = final_of (cachedPolicies dj ck (aq_PrincipalArn req)) s"
    using authorize_final [of dev "cachedPolicies dj ck" req s] by (auto simp: authorizer_Authorize_def)
  obtain r p' where "run (cachedPolicies dj ck (aq_PrincipalArn req)) s = (r, p')" by fastforce
  with v cachedPolicies_run(3) [OF assms this] show ?thesis by auto
qed

text \<open>What the tables say of a caller, an action and a resource.\<close>

definition granted :: "'c::linorder Backend \<Rightarrow> db \<Rightarrow> Principal \<Rightarrow> string \<Rightarrow> string \<Rightarrow> bool" where
  "granted b d p action resource \<longleftrightarrow>
     (\<exists>ident res policies. arn_Parse (pr_PrincipalArn p) = Inr ident \<and> arn_Parse resource = Inr res \<and> a_Account ident = a_Account res \<and>
        decodePolicies (be_Docs b) (attachedRows (be_Collation b) (pr_PrincipalArn p) d) = Inr policies \<and>
        dc_Allowed (Evaluate policies \<lparr>rq_Action = action, rq_ResourceARN = resource\<rparr>))"

lemma authorizer_grants:
  assumes "policiesCoherent (be_Docs b) (be_Collation b) s"
    "run (authorizer_Authorize (be_Docs b) (be_Collation b) dev (authorizeRequestFor r p tg)) s = (Inr resp, s')"
    "as_Decision resp = DECISION_ALLOW"
  shows "granted b (w_db s) p (tg_Action tg) (tg_ResourceARN tg)"
proof -
  let ?q = "authorizeRequestFor r p tg"
  have "\<exists>ident res policies. arn_Parse (aq_PrincipalArn ?q) = Inr ident \<and> arn_Parse (aq_ResourceArn ?q) = Inr res \<and>
    a_Account ident = a_Account res \<and> run (cachedPolicies (be_Docs b) (be_Collation b) (aq_PrincipalArn ?q)) s = (Inr policies, s') \<and>
    dc_Allowed (Evaluate policies \<lparr>rq_Action = aq_Action ?q, rq_ResourceARN = aq_ResourceArn ?q\<rparr>)"
    using assms(2,3) by (auto simp: authorizer_Authorize_def authorize_def Let_def dc_Allowed_def split: if_splits sum.splits prod.splits)
  then obtain ident res policies where a: "arn_Parse (aq_PrincipalArn ?q) = Inr ident" "arn_Parse (aq_ResourceArn ?q) = Inr res"
    "a_Account ident = a_Account res" "run (cachedPolicies (be_Docs b) (be_Collation b) (aq_PrincipalArn ?q)) s = (Inr policies, s')"
    "dc_Allowed (Evaluate policies \<lparr>rq_Action = aq_Action ?q, rq_ResourceARN = aq_ResourceArn ?q\<rparr>)" by blast
  have "policiesTruth (be_Docs b) (be_Collation b) (w_db s) (aq_PrincipalArn ?q) = Inr policies"
    using cachedPolicies_run(1) [OF assms(1) a(4)] by auto
  with a show ?thesis by (auto simp: granted_def authorizeRequestFor_def policiesTruth_def)
qed

definition authenticatedAs :: "process AuthnConfig \<Rightarrow> request \<Rightarrow> process \<Rightarrow> process \<Rightarrow> Principal \<Rightarrow> bool" where
  "authenticatedAs cfg r s s1 p \<longleftrightarrow>
     (\<exists>key. signedBy cfg r s s1 key \<and> p = \<lparr>pr_AccountId = sk_AccountID key, pr_PrincipalArn = sk_PrincipalARN key\<rparr>) \<or>
     (\<exists>sess. inSession cfg r s s1 sess \<and> p = \<lparr>pr_AccountId = sn_AccountID sess, pr_PrincipalArn = sn_PrincipalARN sess\<rparr>)"

text \<open>A minter that leaves the tables alone, as one that only signs does.\<close>

definition mintKeepsTables :: "Options \<Rightarrow> bool" where
  "mintKeepsTables opts \<longleftrightarrow> (case fd_Mint opts of None \<Rightarrow> True | Some m \<Rightarrow> \<forall>c s. w_db (final_of (m c) s) = w_db s)"

text \<open>The answer is one error of the contract, and no success status went out.\<close>

definition refused :: "'m rw \<Rightarrow> 'm rw \<Rightarrow> bool" where
  "refused w w' \<longleftrightarrow> (\<exists>we. rw_body w' = rw_body w @ [ErrBody we]) \<and> (rw_status w = 0 \<longrightarrow> 400 \<le> rw_status w')"

lemma WriteError_refuses:
  assumes "run (WriteError r e dev) (w1, s1) = (out, (w', s'))" "rw_body w1 = rw_body w" "rw_status w1 = rw_status w"
  shows "out = Done \<and> refused w w' \<and> s' = s1"
  using assms HTTPStatus_error [of "From e"] by (auto simp: run_WriteError refused_def)

definition servedBy :: "'c Backend \<Rightarrow> Options \<Rightarrow> apiHandler Table \<Rightarrow> apiHandler Route \<Rightarrow> apiHandler" where
  "servedBy b opts t rt = (case rt_Handler rt of Some h \<Rightarrow> h | None \<Rightarrow> forward b opts t)"

lemma dispatch_served: "table_Match t r = Some rt \<Longrightarrow> dispatch b opts t r = servedBy b opts t rt r"
  by (simp add: dispatch_def servedBy_def split: option.split)

lemma WithPrincipal_run:
  "run (WithPrincipal p (withBody body r)) (w, s) = (r', (w', s')) \<Longrightarrow>
   PrincipalFrom r' = Some p \<and> hr_Method r' = hr_Method r \<and> hr_Path r' = hr_Path r \<and> hr_Header r' = hr_Header r \<and> s' = s \<and>
   rw_body w' = rw_body w \<and> rw_status w' = rw_status w"
  by (auto simp: WithPrincipal_def PrincipalFrom_def withBody_def split: option.splits if_splits)

lemma readCookie_capability: "readCookie (header_Set CapabilityHeader v h) n = readCookie h n"
  by (simp add: readCookie_def getOr_def CapabilityHeader_def)

lemma authorized_cases:
  assumes co: "policiesCoherent (be_Docs b) (be_Collation b) s" and mk: "mintKeepsTables opts"
    and p: "PrincipalFrom r = Some p"
    and run: "run (authzMiddleware (be_Wire b) (edgeAuthz b opts t) (dispatch b opts t) r) (w, s) = (out, (w', s'))"
  shows "(out = Done \<and> refused w w' \<and> w_db s' = w_db s) \<or>
    (\<exists>rt resource r2 s2. table_Match t r = Some rt \<and> the (rt_Resource rt) r p = Inr resource \<and> granted b (w_db s) p (rt_Action rt) resource \<and>
       PrincipalFrom r2 = Some p \<and> hr_Method r2 = hr_Method r \<and> hr_Path r2 = hr_Path r \<and> readCookie (hr_Header r2) CookieName = readCookie (hr_Header r) CookieName \<and> w_db s2 = w_db s \<and>
       run (servedBy b opts t rt r2) (w, s2) = (out, (w', s')))"
proof -
  obtain v s2 where v: "run (authzVerdict (be_Wire b) (edgeAuthz b opts t) r) s = (v, s2)" by fastforce
  have db: "w_db s2 = w_db s"
  proof -
    have mint: "w_db (final_of (m c) q) = w_db q" if "fd_Mint opts = Some m" for m c q
      using mk that by (simp add: mintKeepsTables_def)
    have dec: "w_db (final_of (authorizer_Authorize (be_Docs b) (be_Collation b) (fd_Dev opts) q) s) = w_db s" for q
      by (rule authorizer_db [OF co])
    show ?thesis
      using v p mint dec
      by (auto simp: authzVerdict_def edgeAuthz_def prod_eq_iff split: sum.splits option.splits prod.splits if_splits)
  qed
  show ?thesis
  proof (cases v)
    case (Inl e)
    then have "run (WriteError r e (az_Dev (edgeAuthz b opts t))) (w, s2) = (out, (w', s'))"
      using run v by (simp add: run_authz)
    from WriteError_refuses [OF this refl refl] db show ?thesis by simp
  next
    case (Inr r2)
    then have v2: "run (authzVerdict (be_Wire b) (edgeAuthz b opts t) r) s = (Inr r2, s2)" using v by simp
    have d: "run (dispatch b opts t r2) (w, s2) = (out, (w', s'))" using run v2 by (simp add: run_authz)
    obtain tg resp s1 where a: "TargetFor t r p = Inr tg"
      "run (authorizer_Authorize (be_Docs b) (be_Collation b) (fd_Dev opts) (authorizeRequestFor r p tg)) s = (Inr resp, s1)"
      "as_Decision resp = DECISION_ALLOW" "PrincipalFrom r2 = Some p" "hr_Method r2 = hr_Method r" "hr_Path r2 = hr_Path r" "readCookie (hr_Header r2) CookieName = readCookie (hr_Header r) CookieName"
      using v2 [unfolded authzVerdict_pass] p
      by (auto simp: edgeAuthz_def WithCapability_def PrincipalFrom_def readCookie_capability split: option.splits)
    obtain rt resource where rt: "table_Match t r = Some rt" "the (rt_Resource rt) r p = Inr resource"
      "tg_Action tg = rt_Action rt" "tg_ResourceARN tg = resource"
      using a(1) by (auto simp: TargetFor_def split: option.splits sum.splits)
    have g: "granted b (w_db s) p (rt_Action rt) resource"
      using authorizer_grants [OF co a(2,3)] rt(3,4) by simp
    have "table_Match t r2 = Some rt" by (simp add: table_Match_cong [OF a(5,6)] rt(1))
    from d [unfolded dispatch_served [OF this]] rt(1,2) g a(4-7) db show ?thesis by blast
  qed
qed

lemma guarded_cases:
  assumes co: "policiesCoherent (be_Docs b) (be_Collation b) s" and mk: "mintKeepsTables opts"
    and run: "run (guarded b opts t r) (w, s) = (out, (w', s'))"
  shows "(out = Done \<and> refused w w' \<and> w_db s' = w_db s) \<or>
    (\<exists>p rt r1 r2 resource s1 s2 w2. authenticatedAs (edgeAuthn b opts t) r s s1 p \<and>
       table_Match t r = Some rt \<and> hr_Path r1 = hr_Path r \<and> the (rt_Resource rt) r1 p = Inr resource \<and>
       granted b (w_db s) p (rt_Action rt) resource \<and>
       PrincipalFrom r2 = Some p \<and> hr_Method r2 = hr_Method r \<and> hr_Path r2 = hr_Path r \<and> readCookie (hr_Header r2) CookieName = readCookie (hr_Header r) CookieName \<and> w_db s2 = w_db s \<and>
       run (servedBy b opts t rt r2) (w2, s2) = (out, (w', s')))"
proof -
  obtain res s1 where res: "run (authenticate (be_Fmt b) (edgeAuthn b opts t) r) s = (res, s1)" by fastforce
  note db = authenticate_db [OF res]
  have rt: "res \<noteq> None" using authenticate_returns [of "be_Fmt b" "edgeAuthn b opts t" r s] res by simp
  note run' = run [unfolded guarded_def Chain_simps run_authnMiddleware]
  show ?thesis
  proof (cases "the res")
    case (Inl e)
    then have "res = Some (Inl e)" using rt by auto
    then have "run (WriteError r e (au_Dev (edgeAuthn b opts t))) (w, s1) = (out, (w', s'))" using run' res by simp
    from WriteError_refuses [OF this refl refl] db show ?thesis by simp
  next
    case (Inr pb)
    obtain p body where pb: "pb = (p, body)" by fastforce
    then have "res = Some (Inr (p, body))" using rt Inr by auto
    note res = res [unfolded this]
    obtain r1 w1 s2 where w: "run (WithPrincipal p (withBody body r)) (w, s1) = (r1, (w1, s2))" by (metis prod.exhaust)
    note wp = WithPrincipal_run [OF w]
    have az: "run (authzMiddleware (be_Wire b) (edgeAuthz b opts t) (dispatch b opts t) r1) (w1, s1) = (out, (w', s'))"
      using run' res w by simp
    have co1: "policiesCoherent (be_Docs b) (be_Collation b) s1" by (rule policiesCoherent_cong [OF co db(2)]) (simp add: db(1))
    have au: "authenticatedAs (edgeAuthn b opts t) r s s1 p"
      using res unfolding authenticate_pass authenticatedAs_def by blast
    have m: "table_Match t r1 = table_Match t r" using wp by (intro table_Match_cong) simp_all
    from authorized_cases [OF co1 mk conjunct1 [OF wp] az] show ?thesis
    proof (elim disjE)
      assume "out = Done \<and> refused w1 w' \<and> w_db s' = w_db s1"
      then show ?thesis using wp db(1) by (simp add: refused_def)
    next
      assume "\<exists>rt resource r2 s2. table_Match t r1 = Some rt \<and> the (rt_Resource rt) r1 p = Inr resource \<and>
         granted b (w_db s1) p (rt_Action rt) resource \<and> PrincipalFrom r2 = Some p \<and> hr_Method r2 = hr_Method r1 \<and> hr_Path r2 = hr_Path r1 \<and> readCookie (hr_Header r2) CookieName = readCookie (hr_Header r1) CookieName \<and>
         w_db s2 = w_db s1 \<and> run (servedBy b opts t rt r2) (w1, s2) = (out, (w', s'))"
      then show ?thesis using au m wp db(1) by (elim exE conjE) (intro disjI2 exI conjI, assumption, simp_all)
    qed
  qed
qed

subsection \<open>Who the caller can be\<close>

lemma account_row_id: "wf_db d \<Longrightarrow> a \<in> ac_id ` set (d_accounts d) \<Longrightarrow> is_account_id a"
  by (auto simp: wf_db_def)

lemma signingTruth_account:
  assumes "wf_db d" "signingTruth g kr d i = Inr key"
  shows "is_account_id (sk_AccountID key)"
proof -
  obtain row where "keyById i d = Some row" "sk_AccountID key = ak_account row"
    using assms(2) by (auto simp: signingTruth_def split: option.splits sum.splits)
  moreover from this have "row \<in> set (d_keys d)" by (auto simp: keyById_def dest: find_SomeD)
  ultimately show ?thesis using assms(1) account_row_id [OF assms(1)] by (auto simp: wf_db_def)
qed

lemma sessionTruth_account:
  assumes "wf_db d" "sessionTruth d now token = Inr sess"
  shows "is_account_id (sn_AccountID sess)"
proof -
  obtain row where "sessionBySha (sha256 token) d = Some row" "sn_AccountID sess = ss_account row"
    using assms(2) by (auto simp: sessionTruth_def split: option.splits if_splits)
  moreover from this have "row \<in> set (d_sessions d)" by (auto simp: sessionBySha_def dest: find_SomeD)
  ultimately show ?thesis using assms(1) account_row_id [OF assms(1)] by (auto simp: wf_db_def)
qed

lemma authenticated_account:
  assumes "wf_db (w_db s)" "keysCoherent (be_Aead b) (be_Keyring b) s" "\<not> fd_DisableKeyCache opts"
    "authenticatedAs (edgeAuthn b opts t) r s s1 p"
  shows "is_account_id (pr_AccountId p)"
  using assms(4) unfolding authenticatedAs_def
proof (elim disjE exE conjE)
  fix key assume k: "signedBy (edgeAuthn b opts t) r s s1 key" "p = \<lparr>pr_AccountId = sk_AccountID key, pr_PrincipalArn = sk_PrincipalARN key\<rparr>"
  then obtain i where "run (edgeKeys b opts i) s = (Inr key, s1)" by (auto simp: signedBy_def edgeAuthn_def)
  then have "run (cachedResolve (be_Aead b) (be_Keyring b) i) s = (Inr key, s1)" using assms(3) by (simp add: edgeKeys_def)
  from cachedResolve_run(1) [OF assms(2) this] have "signingTruth (be_Aead b) (be_Keyring b) (w_db s) i = Inr key" by auto
  with signingTruth_account [OF assms(1)] k(2) show ?thesis by simp
next
  fix sess assume k: "inSession (edgeAuthn b opts t) r s s1 sess" "p = \<lparr>pr_AccountId = sn_AccountID sess, pr_PrincipalArn = sn_PrincipalARN sess\<rparr>"
  then obtain token where "run (session_Resolve token) s = (Inr sess, s1)" by (auto simp: inSession_def edgeAuthn_def)
  then have "sessionTruth (w_db s) (w_now s) token = Inr sess" by (auto simp: Resolve_run split: if_splits option.splits)
  with sessionTruth_account [OF assms(1)] k(2) show ?thesis by simp
qed

subsection \<open>What a request can change\<close>

text \<open>A sign-in: the request holds the id and the secret of a stored access key, and one session opens for that key's principal.\<close>

definition opensSession :: "'c Backend \<Rightarrow> request \<Rightarrow> db \<Rightarrow> db \<Rightarrow> bool" where
  "opensSession b r d d' \<longleftrightarrow>
     (\<exists>cred key row. be_DecodeSignIn b (take signInLimit (hr_Body r)) (hr_BodyFails r \<or> length (hr_Body r) > signInLimit) = Some cred \<and>
        signingTruth (be_Aead b) (be_Keyring b) d (sic_AccessKeyID cred) = Inr key \<and> sk_Secret key = sic_SecretAccessKey cred \<and>
        ss_account row = sk_AccountID key \<and> ss_principal row = sk_PrincipalARN key \<and> sessionBySha (ss_sha row) d = None \<and>
        d' = d\<lparr>d_sessions := d_sessions d @ [row]\<rparr>)"

text \<open>The network does not write the control plane's tables.\<close>

definition clientKeepsTables :: "'c Backend \<Rightarrow> bool" where
  "clientKeepsTables b \<longleftrightarrow> (\<forall>d o' s. w_db (final_of (be_Client b d o') s) = w_db s)"

lemma run_WriteError_db [simp]: "w_db (snd (snd (run (WriteError r e dev) (w, s)))) = w_db s"
  by (simp add: run_WriteError)

lemma forward_db:
  assumes "clientKeepsTables b"
  shows "w_db (snd (snd (run (forward b opts t r) (w, s)))) = w_db s"
  using assms
  by (auto simp: forward_def proxy_ServeHTTP_def clientKeepsTables_def writeUpstreamError_def Let_def
      split: option.split sum.split)

lemma ping_db: "w_db (snd (snd (run (handlePing r) (w, s)))) = w_db s"
  by (simp add: handlePing_def run_WriteJSON split: option.split)

lemma SignIn_opens:
  assumes "keysCoherent (be_Aead b) (be_Keyring b) s" "\<not> fd_DisableKeyCache opts"
    and "run (SignIn ttl (signingKeyAdapter (edgeKeys b opts)) cred) s = (res, s')"
    and "be_DecodeSignIn b (take signInLimit (hr_Body r)) (hr_BodyFails r \<or> length (hr_Body r) > signInLimit) = Some cred"
  shows "w_db s' = w_db s \<or> opensSession b r (w_db s) (w_db s')"
proof -
  obtain k s1 where k: "run (edgeKeys b opts (sic_AccessKeyID cred)) s = (k, s1)" by fastforce
  then have s1: "w_db s1 = w_db s" using edgeKeys_db(1) [of b opts "sic_AccessKeyID cred" s] by simp
  obtain k' where a: "run (signingKeyAdapter (edgeKeys b opts) (sic_AccessKeyID cred)) s = (k', s1)"
    and k': "\<forall>key. k' = Inr key \<longrightarrow> (\<exists>sk. k = Inr sk \<and> key = \<lparr>snk_AccountID = sk_AccountID sk, snk_PrincipalARN = sk_PrincipalARN sk, snk_Secret = sk_Secret sk\<rparr>)"
    using k by (cases k) (simp_all add: signingKeyAdapter_def)
  from SignIn_cases [OF assms(3) refl a] show ?thesis
  proof (elim disjE conjE exE)
    fix key assume key: "k' = Inr key" "snk_Secret key = sic_SecretAccessKey cred" "run (issueSession ttl key) s1 = (res, s')"
    then obtain sk where sk: "k = Inr sk" "key = \<lparr>snk_AccountID = sk_AccountID sk, snk_PrincipalARN = sk_PrincipalARN sk, snk_Secret = sk_Secret sk\<rparr>"
      using k' by blast
    have "run (cachedResolve (be_Aead b) (be_Keyring b) (sic_AccessKeyID cred)) s = (Inr sk, s1)"
      using k sk(1) assms(2) by (simp add: edgeKeys_def)
    from cachedResolve_run(1) [OF assms(1) this]
    have t: "signingTruth (be_Aead b) (be_Keyring b) (w_db s) (sic_AccessKeyID cred) = Inr sk" by auto
    from issueSession_cases [OF key(3)] show ?thesis
    proof (elim disjE conjE exE)
      fix token csrf row
      assume "sessionBySha (sha256 token) (w_db s1) = None" "w_db s' = (w_db s1)\<lparr>d_sessions := d_sessions (w_db s1) @ [row]\<rparr>"
        "row = \<lparr>ss_sha = sha256 token, ss_account = snk_AccountID key, ss_principal = snk_PrincipalARN key, ss_csrf = csrf,
         ss_created = unixMilli (w_now s1), ss_expires = unixMilli (w_now s1 + ttl)\<rparr>"
      then have "opensSession b r (w_db s) (w_db s')"
        unfolding opensSession_def using assms(4) t key(2) sk(2)
        by (intro exI [of _ cred] exI [of _ sk] exI [of _ row]) (simp add: s1)
      then show ?thesis by simp
    qed (simp add: s1)
  qed (simp_all add: s1)
qed

lemma signIn_opens:
  assumes "keysCoherent (be_Aead b) (be_Keyring b) s" "\<not> fd_DisableKeyCache opts"
  shows "w_db (snd (snd (run (SignInHandler (edgeAPI b opts) r) (w, s)))) = w_db s \<or>
    opensSession b r (w_db s) (w_db (snd (snd (run (SignInHandler (edgeAPI b opts) r) (w, s)))))"
proof -
  have e: "api_DecodeSignIn (edgeAPI b opts) = be_DecodeSignIn b" "api_SessionKeys (edgeAPI b opts) = signingKeyAdapter (edgeKeys b opts)"
    by (simp_all add: edgeAPI_def)
  have "w_db (final_of (SignIn ttl (signingKeyAdapter (edgeKeys b opts)) cred) s) = w_db s \<or>
      opensSession b r (w_db s) (w_db (final_of (SignIn ttl (signingKeyAdapter (edgeKeys b opts)) cred) s))"
    if "be_DecodeSignIn b (take signInLimit (hr_Body r)) (hr_BodyFails r \<or> length (hr_Body r) > signInLimit) = Some cred" for ttl cred
    using SignIn_opens [OF assms _ that] by (metis prod.collapse)
  then show ?thesis
    unfolding SignInHandler_def e
    by (cases "be_DecodeSignIn b (take signInLimit (hr_Body r)) (hr_BodyFails r \<or> length (hr_Body r) > signInLimit)")
      (auto simp: SetCookie_def writeJSONValue_def split: sum.split)
qed

lemma unguarded_changes:
  assumes "muxTarget b r \<noteq> MuxRoot" "keysCoherent (be_Aead b) (be_Keyring b) s" "\<not> fd_DisableKeyCache opts"
    "run (mux b opts t r) (w, s) = (out, (w', s'))"
  shows "w_db s' = w_db s \<or> muxTarget b r = MuxSignIn \<and> opensSession b r (w_db s) (w_db s')"
proof -
  have "w_db (final_of (sql pingDb) s) = w_db s" by (auto simp: run_db pingDb_def split: option.split)
  then have "w_db (snd (snd (run (handleReadyz d r) (w, s)))) = w_db s" for d
    by (simp add: handleReadyz_def run_WriteJSON split: sum.split)
  moreover have "w_db (snd (snd (run (handleHealthz r) (w, s)))) = w_db s" by (simp add: handleHealthz_def run_WriteJSON)
  ultimately have "w_db (snd (snd (run (mux b opts t r) (w, s)))) = w_db s \<or>
      muxTarget b r = MuxSignIn \<and> opensSession b r (w_db s) (w_db (snd (snd (run (mux b opts t r) (w, s)))))"
    using assms(1) signIn_opens [OF assms(2,3), of r w] by (simp add: mux_def split: muxTarget.split)
  then show ?thesis by (simp only: assms(4) snd_conv)
qed

lemma edge_wired:
  assumes "gcm_ok (be_Aead b)" "wf_keyring (be_Keyring b)" "\<not> fd_DisableKeyCache opts"
  shows "wiredAPI (edgeAPI b opts)"
  using assms by (simp add: wiredAPI_def edgeAPI_def)

text \<open>What an authenticated caller can change through a route. Only the deletion of an access key is not confined to the caller's account:
  it removes the key whose id the path holds, and nothing else.\<close>

definition changesOwn :: "string \<Rightarrow> string \<Rightarrow> 'h Route \<Rightarrow> request \<Rightarrow> db \<Rightarrow> db \<Rightarrow> bool" where
  "changesOwn region acct rt r d d' \<longleftrightarrow>
     (if rt_Action rt = ''iam:DeleteAccessKey'' then
        d' = d \<or> d' = d\<lparr>d_keys := filter (\<lambda>k. ak_id k \<noteq> pathSegment (hr_Path r) (api_prefix ''/access-keys/'') 0) (d_keys d)\<rparr>
      else othersView region acct d' = othersView region acct d \<and>
        sessionsAfter (if rt_Action rt = ''iam:DeleteSession'' then readCookie (hr_Header r) CookieName else None) d d' \<and>
        tokensAfter acct d d')"

lemma deleteAccessKey_changes:
  fixes s :: process
  assumes "wiredAPI a"
  shows "w_db (snd (snd (run (api_deleteAccessKey a r) (w, s)))) = w_db s \<or>
    w_db (snd (snd (run (api_deleteAccessKey a r) (w, s)))) =
      (w_db s)\<lparr>d_keys := filter (\<lambda>k. ak_id k \<noteq> pathSegment (hr_Path r) (api_prefix ''/access-keys/'') 0) (d_keys (w_db s))\<rparr>"
proof -
  let ?i = "pathSegment (hr_Path r) (api_prefix ''/access-keys/'') 0"
  have "w_db (final_of (DeleteAccessKey (api_OnKeyDeleted a) ?i) s) = w_db s \<or>
      w_db (final_of (DeleteAccessKey (api_OnKeyDeleted a) ?i) s) = (w_db s)\<lparr>d_keys := filter (\<lambda>k. ak_id k \<noteq> ?i) (d_keys (w_db s))\<rparr>"
    using assms by (simp add: DeleteAccessKey_run wiredAPI_def resolver_Invalidate_def split: option.split)
  then show ?thesis by (auto simp: api_deleteAccessKey_def Let_def split: sum.split)
qed

lemma served_confined:
  assumes "wiredAPI (edgeAPI b opts)" "clientKeepsTables b" "list_all (\<lambda>rt. rt_Handler rt = None) (fd_Routes opts)"
    "NewTable (fd_Region opts) (edgeRoutes b opts) = Inr t" "table_Match t r = Some rt"
    "PrincipalFrom r2 = Some p" "is_account_id (pr_AccountId p)" "wf_db (w_db s)" "arnsDerived (fd_Region opts) (w_db s)"
  shows "changesOwn (fd_Region opts) (pr_AccountId p) rt r2 (w_db s) (w_db (snd (snd (run (servedBy b opts t rt r2) (w, s)))))"
proof -
  have "rt \<in> set (edgeRoutes b opts)" using assms(4,5) table_Match_Some [of t r rt] by (simp add: NewTable_Inr)
  then consider "rt = pingRoute opts" | h where "rt \<in> set (api_Routes (edgeAPI b opts))" "rt_Handler rt = Some h" | "rt_Handler rt = None"
    using assms(3) by (auto simp: edgeRoutes_def list_all_iff)
  then show ?thesis
  proof cases
    case 1
    then show ?thesis by (simp add: servedBy_def pingRoute_def ping_db changesOwn_def)
  next
    case (2 h)
    have reg: "api_Region (edgeAPI b opts) = fd_Region opts" by (simp add: edgeAPI_def)
    show ?thesis
    proof (cases "rt_Action rt = ''iam:DeleteAccessKey''")
      case True
      then have "h = api_deleteAccessKey (edgeAPI b opts)"
        using 2 unfolding api_Routes_def controlRoute_def sessionRoutes_def Let_def by auto
      then show ?thesis using deleteAccessKey_changes [OF assms(1)] True 2(2) by (simp add: servedBy_def changesOwn_def)
    next
      case False
      have "handlerConfined (edgeAPI b opts) (signOutCookie rt) h" by (rule api_Routes_confined [OF assms(1) 2 False])
      then show ?thesis using assms(6-9) 2(2) False unfolding handlerConfined_def reg
        by (simp add: servedBy_def confined_def changesOwn_def signOutCookie_def)
    qed
  next
    case 3
    then show ?thesis by (simp add: servedBy_def forward_db [OF assms(2)] changesOwn_def)
  qed
qed

subsection \<open>Properties\<close>

text \<open>C1: nothing is served unauthorized: whatever request reaches the guarded part of the front door, either it is
  answered with one error and the tables are untouched, or its caller was authenticated (by a signature
  under a live key or by a live session), some route of the table covers it, the policies
  attached to the caller in the tables allow that route's action on the resource built from the route in the caller's own
  account, and the handler that runs is that very route's, told who the caller is.\<close>
theorem nothing_is_served_unauthorized:
  assumes "policiesCoherent (be_Docs b) (be_Collation b) s" "mintKeepsTables opts" "muxTarget b r = MuxRoot"
    "run (mux b opts t r) (w, s) = (out, (w', s'))"
  shows "(out = Done \<and> refused w w' \<and> w_db s' = w_db s) \<or>
    (\<exists>p rt r1 r2 resource s1 s2 w2. authenticatedAs (edgeAuthn b opts t) r s s1 p \<and>
       table_Match t r = Some rt \<and> hr_Path r1 = hr_Path r \<and> the (rt_Resource rt) r1 p = Inr resource \<and>
       granted b (w_db s) p (rt_Action rt) resource \<and>
       PrincipalFrom r2 = Some p \<and> hr_Method r2 = hr_Method r \<and> hr_Path r2 = hr_Path r \<and> w_db s2 = w_db s \<and>
       run (servedBy b opts t rt r2) (w2, s2) = (out, (w', s')))"
proof -
  have "run (guarded b opts t r) (w, s) = (out, (w', s'))" using assms(3,4) by (simp add: mux_def)
  from guarded_cases [OF assms(1,2) this] show ?thesis by blast
qed

text \<open>What a caller without credentials can do: outside the sign-in path, a request with neither an \<open>Authorization\<close> header
  nor a session cookie changes nothing and is answered 401, whether or not a route exists for it,
  except that a path that is not clean is redirected, and that the two probes answer.\<close>
theorem unauthenticated_surface:
  fixes w :: "apiMsg rw"
  assumes "header_Get (hr_Header r) ''Authorization'' = []" "readCookie (hr_Header r) CookieName \<in> {None, Some []}"
    "muxTarget b r \<noteq> MuxSignIn" "rw_status w = 0" "rw_body w = []"
  shows "\<exists>w' s'. run (mux b opts t r) (w, s) = (Done, (w', s')) \<and> w_db s' = w_db s \<and>
    (case muxTarget b r of
       MuxRoot \<Rightarrow> rw_status w' = 401 \<and> rw_body w' = [ErrBody \<lparr>we_code = CodeInvalidSig,
         we_message = (''an Authorization header or a session cookie is required'', []), we_request_id = RequestID r, we_details = []\<rparr>]
     | MuxHealthz \<Rightarrow> rw_status w' = 200 \<and> s' = s | MuxReadyz \<Rightarrow> rw_status w' = (if nextFault s = None then 200 else 500)
     | MuxRedirect \<Rightarrow> rw_status w' = 301 \<and> s' = s | MuxBadRequest \<Rightarrow> rw_status w' = 400 \<and> s' = s | MuxSignIn \<Rightarrow> False)"
proof (cases "muxTarget b r")
  case MuxRoot
  have "authenticate (be_Fmt b) (edgeAuthn b opts t) r = ret (Some (Inl authenticationRequired))"
    using assms(1,2) by (auto simp: authenticate_def edgeAuthn_def)
  then have "run (guarded b opts t r) (w, s) = run (WriteError r authenticationRequired (fd_Dev opts)) (w, s)"
    by (simp add: guarded_def run_authnMiddleware) (simp add: edgeAuthn_def)
  then show ?thesis using MuxRoot assms(4,5)
    by (simp add: mux_def run_WriteError errorBody_def) (simp add: authenticationRequired_def HTTPStatus_def Let_def code_defs)
next
  case MuxReadyz
  have "w_db (popFault s) = w_db s" by simp
  then show ?thesis using MuxReadyz assms(4,5)
    by (auto simp: mux_def handleReadyz_def run_db pingDb_def run_WriteJSON run_WriteError Let_def HTTPStatus_def Internal_def code_defs
        split: option.split)
qed (use assms(3-5) in \<open>simp_all add: mux_def handleHealthz_def run_WriteJSON muxRedirect_def muxBadRequest_def Let_def\<close>)

lemma edge_table: "(\<exists>t. NewTable (fd_Region opts) (edgeRoutes b opts) = Inr t) \<longleftrightarrow> list_all wf_route (fd_Routes opts)"
proof -
  have "wf_route (pingRoute opts)" by (simp add: wf_route_def pingRoute_def ServiceName_def ActionPing_def)
  then have "(\<forall>rt \<in> set (edgeRoutes b opts). wf_route rt) \<longleftrightarrow> list_all wf_route (fd_Routes opts)"
    using api_Routes_wf [of _ "edgeAPI b opts"] by (auto simp: edgeRoutes_def list_all_iff)
  then show ?thesis
    by (simp add: NewTable_Inr)
qed

text \<open>C39: the front door boots exactly with well-formed routes: its own routes always pass the table's checks, so
  \<open>NewHandler\<close> fails exactly when one of the routes it is given is malformed, and the caches it creates agree with any tables.\<close>
theorem front_door_boots:
  "(\<not> isl (result_of (NewHandler b opts) s) \<longleftrightarrow> list_all wf_route (fd_Routes opts)) \<and>
   w_db (final_of (NewHandler b opts) s) = w_db s \<and>
   policiesCoherent (be_Docs b) (be_Collation b) (final_of (NewHandler b opts) s) \<and>
   (fd_DisableKeyCache opts \<or> keysCoherent (be_Aead b) (be_Keyring b) (final_of (NewHandler b opts) s))"
proof -
  have "(\<exists>t. NewTable (fd_Region opts) (edgeRoutes b opts) = Inr t) \<longleftrightarrow> list_all wf_route (fd_Routes opts)" by (rule edge_table)
  then have a: "\<not> isl (result_of (NewHandler b opts) s) \<longleftrightarrow> list_all wf_route (fd_Routes opts)"
    by (cases "NewTable (fd_Region opts) (edgeRoutes b opts)") (auto simp: NewHandler_def)
  have s': "final_of (NewHandler b opts) s = (if fd_DisableKeyCache opts then s
      else s\<lparr>p_keyCache := NewCachingResolver \<lparr>co_TTL = fd_KeyCacheTTL opts, co_NegativeTTL = 0, co_MaxEntries = 0\<rparr>\<rparr>)
      \<lparr>p_policyCache := NewAuthorizer \<lparr>ao_TTL = fd_PolicyCacheTTL opts, ao_MaxEntries = 0, ao_Dev = fd_Dev opts\<rparr>\<rparr>"
    by (simp add: NewHandler_def split: sum.split)
  have "policiesCoherent (be_Docs b) (be_Collation b) (final_of (NewHandler b opts) s)"
    by (rule policiesCoherent_New) (simp add: s')
  moreover have "fd_DisableKeyCache opts \<or> keysCoherent (be_Aead b) (be_Keyring b) (final_of (NewHandler b opts) s)"
    using keysCoherent_New [of "final_of (NewHandler b opts) s"] by (auto simp: s')
  ultimately show ?thesis using a by (simp add: s')
qed

text \<open>C2: tenants are isolated end to end. Whatever request the front door gets, on any path, either no table changes; or it is a
  sign-in with the id and the secret of a stored access key, and all that changes is one new session for that key's own principal;
  or its caller was authenticated, and then the accounts, the access keys, policies and attachments of all other accounts are as
  before, no session ends but the one whose token the request's own cookie holds (on the sign-out route), and the only new
  idempotency tokens stand for keys and policies of the caller. The one exception is the route that deletes access keys,
  which removes the key whose id the path holds, whoever owns it, and nothing else.\<close>
theorem front_door_isolates_tenants:
  assumes "policiesCoherent (be_Docs b) (be_Collation b) s" "keysCoherent (be_Aead b) (be_Keyring b) s" "wf_db (w_db s)"
    "arnsDerived (fd_Region opts) (w_db s)" "gcm_ok (be_Aead b)" "wf_keyring (be_Keyring b)" "\<not> fd_DisableKeyCache opts"
    "mintKeepsTables opts" "clientKeepsTables b" "list_all (\<lambda>rt. rt_Handler rt = None) (fd_Routes opts)"
    "NewTable (fd_Region opts) (edgeRoutes b opts) = Inr t" "run (mux b opts t r) (w, s) = (out, (w', s'))"
  shows "w_db s' = w_db s \<or>
    muxTarget b r = MuxSignIn \<and> opensSession b r (w_db s) (w_db s') \<or>
    (\<exists>p rt s1. authenticatedAs (edgeAuthn b opts t) r s s1 p \<and> table_Match t r = Some rt \<and>
       changesOwn (fd_Region opts) (pr_AccountId p) rt r (w_db s) (w_db s'))"
proof (cases "muxTarget b r = MuxRoot")
  case False
  then show ?thesis using unguarded_changes [OF False assms(2,7,12)] by blast
next
  case True
  then have "run (guarded b opts t r) (w, s) = (out, (w', s'))" using assms(12) by (simp add: mux_def)
  from guarded_cases [OF assms(1,8) this] show ?thesis
  proof (elim disjE exE conjE)
    fix p rt r1 r2 resource s1 s2 w2
    assume a: "authenticatedAs (edgeAuthn b opts t) r s s1 p" "table_Match t r = Some rt" "PrincipalFrom r2 = Some p" "w_db s2 = w_db s"
      "run (servedBy b opts t rt r2) (w2, s2) = (out, (w', s'))" and h: "hr_Path r2 = hr_Path r" "readCookie (hr_Header r2) CookieName = readCookie (hr_Header r) CookieName"
    have i: "is_account_id (pr_AccountId p)" by (rule authenticated_account [OF assms(3,2,7) a(1)])
    have "changesOwn (fd_Region opts) (pr_AccountId p) rt r2 (w_db s) (w_db s')"
      using served_confined [OF edge_wired [OF assms(5-7)] assms(9-11) a(2,3) i, of s2 w2] assms(3,4) a(4,5) by simp
    then have "changesOwn (fd_Region opts) (pr_AccountId p) rt r (w_db s) (w_db s')" by (simp only: changesOwn_def h)
    with a(1,2) show ?thesis by blast
  qed simp
qed

text \<open>Revoking a key does not end the sessions it opened: after an access key is deleted it no longer resolves, yet
  every session, also one that was signed in with it, still resolves until its own expiry.\<close>
theorem sessions_survive_key_deletion:
  assumes "run (DeleteAccessKey (Some resolver_Invalidate) k) s = (Inr (), s')" "nextFault s' = None"
    "sessionTruth (w_db s) (w_now s) token = Inr sess"
  shows "result_of (session_Resolve token) s' = Inr sess \<and> keyById k (w_db s') = None"
proof -
  have s': "s' = popFault (s\<lparr>w_db := (w_db s)\<lparr>d_keys := filter (\<lambda>r. ak_id r \<noteq> k) (d_keys (w_db s))\<rparr>\<rparr>)\<lparr>p_keyCache := cache_Invalidate k (p_keyCache s)\<rparr>"
    using assms(1) by (auto simp: DeleteAccessKey_run resolver_Invalidate_def popFault_def split: if_splits option.splits)
  have "sessionTruth (w_db s') (w_now s') token = sessionTruth (w_db s) (w_now s) token"
    by (simp add: s' sessionTruth_def sessionBySha_def)
  then show ?thesis using Resolve_result [OF assms(2)] assms(3) by (simp add: s' keyById_def find_None)
qed

subsection \<open>Witnesses\<close>

definition sampleBackend :: "string Backend" where
  "sampleBackend = \<lparr>be_Aead = sampleAead, be_Keyring = sampleKeyring, be_Docs = sampleCodec, be_Collation = (\<lambda>k. k),
     be_Encodable = (\<lambda>_. True), be_DecodeKey = (\<lambda>_. Inr sampleKeyRequest), be_DecodePolicy = (\<lambda>_. Inr samplePolicyRequest),
     be_DecodeAttach = (\<lambda>_. Inr ([], sampleUser)), be_DecodeSignIn = (\<lambda>_ _. Some sampleCred), be_HTTPTime = (\<lambda>_. []),
     be_Fmt = plainFmt, be_URLParse = (\<lambda>_. Inr sampleUpstream), be_Client = (\<lambda>_ _. ret (Inl ErrDeadlineExceeded)),
     be_Wire = sampleWire, be_Mux = \<lparr>ml_EscapedPath = hr_Path, ml_Redirect = (\<lambda>r. (cleanPath (hr_Path r), []))\<rparr>\<rparr>"

definition sampleEdge :: Options where
  "sampleEdge = \<lparr>fd_Region = ''hind-1'', fd_KeyCacheTTL = 0,
     fd_Routes = [\<lparr>rt_Service = ''chala'', rt_Method = ''GET'', rt_Prefix = ''/v1/instances'', rt_Action = ''chala:DescribeInstances'',
       rt_Resource = Some (SelfAccountResource ''hind-1'' ''chala''), rt_Upstream = ''http://127.0.0.1:9300'', rt_Handler = None\<rparr>],
     fd_ProxyTimeout = 0, fd_Mint = None, fd_CapabilityTTL = 0, fd_SessionTTL = 0, fd_PolicyCacheTTL = 0, fd_DisableKeyCache = False,
     fd_Dev = False\<rparr>"

definition sampleEdgeTable :: "apiHandler Table" where
  "sampleEdgeTable = \<lparr>tb_routes = edgeRoutes sampleBackend sampleEdge, tb_region = ''hind-1''\<rparr>"

lemma sampleEdge_facts:
  "policiesCoherent (be_Docs sampleBackend) (be_Collation sampleBackend) sampleProcess"
  "keysCoherent (be_Aead sampleBackend) (be_Keyring sampleBackend) sampleProcess" "mintKeepsTables sampleEdge" "clientKeepsTables sampleBackend"
  "gcm_ok (be_Aead sampleBackend)" "wf_keyring (be_Keyring sampleBackend)" "\<not> fd_DisableKeyCache sampleEdge"
  "NewTable (fd_Region sampleEdge) (edgeRoutes sampleBackend sampleEdge) = Inr sampleEdgeTable"
  "list_all (\<lambda>rt. rt_Handler rt = None) (fd_Routes sampleEdge)"
proof -
  show "keysCoherent (be_Aead sampleBackend) (be_Keyring sampleBackend) sampleProcess"
    by (rule keysCoherent_New) (simp add: sampleProcess_def)
  have "wf_route (pingRoute sampleEdge)" by (simp add: wf_route_def pingRoute_def ServiceName_def ActionPing_def)
  moreover have "wf_route rt" if "rt \<in> set (fd_Routes sampleEdge)" for rt
    using that by (simp add: sampleEdge_def wf_route_def)
  ultimately show "NewTable (fd_Region sampleEdge) (edgeRoutes sampleBackend sampleEdge) = Inr sampleEdgeTable"
    unfolding NewTable_Inr sampleEdgeTable_def edgeRoutes_def using api_Routes_wf by (auto simp: sampleEdge_def)
qed (simp_all add: sampleBackend_def sampleEdge_def sampleProcess_coherent mintKeepsTables_def clientKeepsTables_def sampleAead_ok sampleKeyring_wf)

lemma samplePing_unauthenticated: "\<not> authenticatedAs (edgeAuthn b opts t) sampleHttpRequest s s1 p"
  by (simp add: authenticatedAs_def signedBy_def inSession_def sampleHttpRequest_def header_Get_def readCookie_def getOr_def List.map_filter_def)

lemma samplePing_root: "muxTarget sampleBackend sampleHttpRequest = MuxRoot" by code_simp

lemma nothing_is_served_unauthorized_witness:
  "\<exists>out w' s'. run (mux sampleBackend sampleEdge sampleEdgeTable sampleHttpRequest) (emptyRw, sampleProcess) = (out, (w', s')) \<and>
     refused emptyRw w' \<and> w_db s' = w_db sampleProcess"
proof -
  obtain out w' s' where run: "run (mux sampleBackend sampleEdge sampleEdgeTable sampleHttpRequest) (emptyRw, sampleProcess) = (out, (w', s'))"
    by (metis prod.exhaust)
  from nothing_is_served_unauthorized [OF sampleEdge_facts(1,3) samplePing_root run] samplePing_unauthenticated run
  show ?thesis by blast
qed

lemma unauthenticated_surface_witness:
  "\<exists>w' s'. run (mux sampleBackend sampleEdge sampleEdgeTable sampleHttpRequest) (emptyRw, sampleProcess) = (Done, (w', s')) \<and> rw_status w' = 401"
proof -
  have "header_Get (hr_Header sampleHttpRequest) ''Authorization'' = []" "readCookie (hr_Header sampleHttpRequest) CookieName \<in> {None, Some []}"
    "muxTarget sampleBackend sampleHttpRequest \<noteq> MuxSignIn" "rw_status (emptyRw :: apiMsg rw) = 0" "rw_body (emptyRw :: apiMsg rw) = []"
    by (simp_all add: samplePing_root) (simp_all add: sampleHttpRequest_def header_Get_def readCookie_def getOr_def List.map_filter_def emptyRw_def)
  from unauthenticated_surface [OF this, of sampleEdge sampleEdgeTable sampleProcess] samplePing_root show ?thesis by auto
qed

lemma front_door_isolates_tenants_witness:
  "\<exists>out w' s'. run (mux sampleBackend sampleEdge sampleEdgeTable sampleHttpRequest) (emptyRw, sampleProcess) = (out, (w', s')) \<and>
     w_db s' = w_db sampleProcess"
proof -
  obtain out w' s' where run: "run (mux sampleBackend sampleEdge sampleEdgeTable sampleHttpRequest) (emptyRw, sampleProcess) = (out, (w', s'))"
    by (metis prod.exhaust)
  from front_door_isolates_tenants [OF sampleEdge_facts(1,2) sampleProcess_wf sampleProcess_arns sampleEdge_facts(5,6,7,3,4,9,8) run]
    run show ?thesis by (auto simp: samplePing_unauthenticated samplePing_root)
qed

lemma sessions_survive_key_deletion_witness:
  "\<exists>s'. run (DeleteAccessKey (Some resolver_Invalidate) sampleKeyID) signedIn = (Inr (), s') \<and>
     result_of (session_Resolve sampleSessionToken) s' = Inr sampleSession"
proof -
  have "keyById sampleKeyID (w_db sampleProcess) \<noteq> None" by code_simp
  then have k: "keyById sampleKeyID (w_db signedIn) \<noteq> None" by (simp add: signedIn_def keyById_def)
  have n: "nextFault signedIn = None" "w_faults signedIn = []" by (simp_all add: nextFault_def sampleProcess_facts signedIn_def)
  have "sampleKeyID \<noteq> []" by (simp add: sampleKeyID_def)
  with k n obtain s' where s': "run (DeleteAccessKey (Some resolver_Invalidate) sampleKeyID) signedIn = (Inr (), s')" "w_faults s' = []"
    by (simp add: DeleteAccessKey_run resolver_Invalidate_def popFault_def)
  have "sampleSessionToken \<noteq> []" by (simp add: sampleSessionToken_def numeral_eq_Suc)
  then have "sessionTruth (w_db signedIn) (w_now signedIn) sampleSessionToken = Inr sampleSession"
    by (simp add: sessionTruth_def signedIn_def sessionBySha_def sampleSessionRow_def sampleSession_def sampleProcess_facts unixMilli_def SessionTTL_def)
  from sessions_survive_key_deletion [OF s'(1) _ this] s' show ?thesis by (simp add: nextFault_def)
qed

end
