(* ===== verification/Nache_Store.thy ===== *)
theory Nache_Store
  imports Servicekit Db
begin

text \<open>
  The cache service's record of the clusters that should exist (\<open>internal/nache/store/store.go\<close>, \<open>schema.sql\<close>).

  The service has a database of its own, so its world is its own: the rows, the faults of the coming
  statements, the server's clock, its entropy, and the compute service that its reconciler drives, whose state
  is left open. The state of a row is one of the three words that the schema's check admits. A row keeps its
  nodes as JSON, which \<open>encoding/json\<close> writes and reads.
\<close>

datatype clusterState = Creating | Active | Deleting

record node =
  nd_ID :: string
  nd_Status :: string
  nd_ObservedAt :: time

record Cluster =
  cu_account :: string
  cu_Name :: string
  cu_State :: clusterState
  cu_Nodes :: "node list"
  cu_CreatedAt :: time
  cu_UpdatedAt :: time

record cluster_row =
  cr_account :: string
  cr_name :: string
  cr_state :: clusterState
  cr_nodes :: string
  cr_created :: time
  cr_updated :: time

record 'f nworld =
  nw_rows :: "cluster_row list"
  nw_faults :: "fault option list"
  nw_now :: time
  nw_entropy :: bytes
  nw_fleet :: 'f

record 'c clusterStore =
  cs_Marshal :: "node list \<Rightarrow> err + string"
  cs_Unmarshal :: "string \<Rightarrow> err + node list"
  cs_Collation :: "string \<Rightarrow> 'c"

definition ErrClusterNotFound :: err where "ErrClusterNotFound = Sentinel ''store: no such cluster''"
definition ErrDeleting :: err where "ErrDeleting = Sentinel ''store: a cluster with this name is being deleted''"

definition cluster_Account :: "Cluster \<Rightarrow> string" where "cluster_Account c = cu_account c"

text \<open>A statement, which sees the server's clock and the rows.\<close>

definition nsql :: "(time \<Rightarrow> cluster_row list \<Rightarrow> 'a \<times> cluster_row list) \<Rightarrow> ('f nworld, err + 'a) state" where
  "nsql f = State (\<lambda>w.
     let w' = w\<lparr>nw_faults := tl (nw_faults w)\<rparr> in
     case nw_faults w of
       Some e # _ \<Rightarrow> (Inl (faultErr e), w')
     | _ \<Rightarrow> (case f (nw_now w) (nw_rows w) of (a, rows) \<Rightarrow> (Inr a, w'\<lparr>nw_rows := rows\<rparr>)))"

subsection \<open>Queries\<close>

fun scanClusters :: "'c clusterStore \<Rightarrow> cluster_row list \<Rightarrow> err + Cluster list" where
  "scanClusters st [] = Inr []"
| "scanClusters st (r # rs) =
     (case cs_Unmarshal st (cr_nodes r) of
        Inl e \<Rightarrow> Inl (Errorf ''nache store: nodes of %s/%s: %w'' [AStr (cr_account r), AStr (cr_name r), AErr e] (Some e))
      | Inr ns \<Rightarrow>
          (case scanClusters st rs of
             Inl e \<Rightarrow> Inl e
           | Inr cs \<Rightarrow> Inr (\<lparr>cu_account = cr_account r, cu_Name = cr_name r, cu_State = cr_state r, cu_Nodes = ns,
               cu_CreatedAt = cr_created r, cu_UpdatedAt = cr_updated r\<rparr> # cs)))"

definition store_query :: "'c clusterStore \<Rightarrow> (cluster_row list \<Rightarrow> cluster_row list) \<Rightarrow> ('f nworld, err + Cluster list) state" where
  "store_query st sel = do {
     rows \<leftarrow> nsql (\<lambda>_ rs. (sel rs, rs));
     case rows of Inl e \<Rightarrow> ret (Inl e) | Inr rs \<Rightarrow> ret (scanClusters st rs)
   }"

definition isRow :: "string \<Rightarrow> string \<Rightarrow> cluster_row \<Rightarrow> bool" where
  "isRow account name r \<longleftrightarrow> cr_account r = account \<and> cr_name r = name"

definition store_get :: "'c clusterStore \<Rightarrow> string \<Rightarrow> string \<Rightarrow> ('f nworld, err + Cluster) state" where
  "store_get st account name = do {
     rows \<leftarrow> store_query st (filter (isRow account name));
     case rows of
       Inl e \<Rightarrow> ret (Inl e)
     | Inr [] \<Rightarrow> ret (Inl ErrClusterNotFound)
     | Inr (c # _) \<Rightarrow> ret (Inr c)
   }"

subsection \<open>Operations\<close>

text \<open>\<open>INSERT ... ON CONFLICT DO NOTHING\<close>, with the defaults of the schema: the number of rows inserted.\<close>

definition insertCluster :: "string \<Rightarrow> string \<Rightarrow> time \<Rightarrow> cluster_row list \<Rightarrow> nat \<times> cluster_row list" where
  "insertCluster account name now rows =
     (if find (isRow account name) rows \<noteq> None then (0, rows)
      else (1, rows @ [\<lparr>cr_account = account, cr_name = name, cr_state = Creating, cr_nodes = ''[]'', cr_created = now, cr_updated = now\<rparr>]))"

definition store_Create :: "'c clusterStore \<Rightarrow> Capability \<Rightarrow> string \<Rightarrow> ('f nworld, err + Cluster \<times> bool) state" where
  "store_Create st cap name =
     (let account = cp_AccountId cap in
      if account = [] then ret (Inl (Sentinel ''nache store: a capability with no account''))
      else do {
        tag \<leftarrow> nsql (insertCluster account name);
        case tag of
          Inl e \<Rightarrow> ret (Inl e)
        | Inr n \<Rightarrow> do {
            c \<leftarrow> store_get st account name;
            case c of
              Inl e \<Rightarrow> ret (Inl e)
            | Inr c \<Rightarrow>
                let created = (n = 1) in
                if \<not> created \<and> cu_State c = Deleting then ret (Inl ErrDeleting) else ret (Inr (c, created))
          }
      })"

definition store_Get :: "'c clusterStore \<Rightarrow> Capability \<Rightarrow> string \<Rightarrow> ('f nworld, err + Cluster) state" where
  "store_Get st cap name = store_get st (cp_AccountId cap) name"

definition countClusters :: "string \<Rightarrow> time \<Rightarrow> cluster_row list \<Rightarrow> nat \<times> cluster_row list" where
  "countClusters account now rows = (length (filter (\<lambda>r. cr_account r = account) rows), rows)"

definition store_Count :: "Capability \<Rightarrow> ('f nworld, err + nat) state" where
  "store_Count cap = nsql (countClusters (cp_AccountId cap))"

definition store_List :: "'c::linorder clusterStore \<Rightarrow> Capability \<Rightarrow> ('f nworld, err + Cluster list) state" where
  "store_List st cap = store_query st (\<lambda>rs. sort_key (\<lambda>r. cs_Collation st (cr_name r)) (filter (\<lambda>r. cr_account r = cp_AccountId cap) rs))"

definition markDeleting :: "string \<Rightarrow> string \<Rightarrow> time \<Rightarrow> cluster_row list \<Rightarrow> nat \<times> cluster_row list" where
  "markDeleting account name now rows =
     (length (filter (isRow account name) rows),
      map (\<lambda>r. if isRow account name r then r\<lparr>cr_state := Deleting, cr_updated := now\<rparr> else r) rows)"

definition store_MarkDeleting :: "'c clusterStore \<Rightarrow> Capability \<Rightarrow> string \<Rightarrow> ('f nworld, err + Cluster) state" where
  "store_MarkDeleting st cap name = do {
     tag \<leftarrow> nsql (markDeleting (cp_AccountId cap) name);
     case tag of
       Inl e \<Rightarrow> ret (Inl e)
     | Inr n \<Rightarrow> (if n = 0 then ret (Inl ErrClusterNotFound) else store_get st (cp_AccountId cap) name)
   }"

definition store_All :: "'c::linorder clusterStore \<Rightarrow> ('f nworld, err + Cluster list) state" where
  "store_All st = store_query st
     (\<lambda>rs. sort_key (\<lambda>r. cs_Collation st (cr_account r)) (sort_key (\<lambda>r. cs_Collation st (cr_name r)) rs))"

definition setObserved :: "string \<Rightarrow> string \<Rightarrow> string \<Rightarrow> bool \<Rightarrow> time \<Rightarrow> cluster_row list \<Rightarrow> unit \<times> cluster_row list" where
  "setObserved account name raw active now rows =
     ((), map (\<lambda>r. if isRow account name r \<and> cr_state r \<noteq> Deleting
       then r\<lparr>cr_nodes := raw, cr_state := (if active then Active else cr_state r), cr_updated := now\<rparr> else r) rows)"

definition store_SetObserved :: "'c clusterStore \<Rightarrow> Cluster \<Rightarrow> node list \<Rightarrow> bool \<Rightarrow> ('f nworld, err option) state" where
  "store_SetObserved st c nodes active =
     (case cs_Marshal st nodes of
        Inl e \<Rightarrow> ret (Some e)
      | Inr raw \<Rightarrow> do {
          r \<leftarrow> nsql (setObserved (cu_account c) (cu_Name c) raw active);
          case r of Inl e \<Rightarrow> ret (Some e) | Inr _ \<Rightarrow> ret None
        })"

definition forgetCluster :: "string \<Rightarrow> string \<Rightarrow> time \<Rightarrow> cluster_row list \<Rightarrow> unit \<times> cluster_row list" where
  "forgetCluster account name now rows = ((), filter (\<lambda>r. \<not> (isRow account name r \<and> cr_state r = Deleting)) rows)"

definition store_Forget :: "Cluster \<Rightarrow> ('f nworld, err option) state" where
  "store_Forget c = do {
     r \<leftarrow> nsql (forgetCluster (cu_account c) (cu_Name c));
     case r of Inl e \<Rightarrow> ret (Some e) | Inr _ \<Rightarrow> ret None
   }"

subsection \<open>The life of a cluster\<close>

text \<open>The state of the cluster with a key, and the steps that one statement may make it take.\<close>

definition stateOf :: "string \<Rightarrow> string \<Rightarrow> cluster_row list \<Rightarrow> clusterState option" where
  "stateOf account name rows = map_option cr_state (find (isRow account name) rows)"

inductive lifecycle :: "clusterState option \<Rightarrow> clusterState option \<Rightarrow> bool" where
  stays: "lifecycle s s"
| created: "lifecycle None (Some Creating)"
| activated: "lifecycle (Some Creating) (Some Active)"
| deleted: "lifecycle (Some s) (Some Deleting)"
| forgotten: "lifecycle (Some Deleting) None"

inductive_simps lifecycle_simps: "lifecycle s t"
inductive_cases lifecycle_Deleting: "lifecycle (Some Deleting) t"

definition uniqueRows :: "cluster_row list \<Rightarrow> bool" where
  "uniqueRows rows \<longleftrightarrow> distinct (map (\<lambda>r. (cr_account r, cr_name r)) rows)"

lemma find_map_same: "(\<And>r. P (f r) \<longleftrightarrow> P r) \<Longrightarrow> find P (map f rows) = map_option f (find P rows)"
  by (induction rows) auto

lemma find_filter_drop:
  "distinct (map g rows) \<Longrightarrow>
   find (\<lambda>r. g r = k) (filter Q rows) = (case find (\<lambda>r. g r = k) rows of Some r \<Rightarrow> if Q r then Some r else None | None \<Rightarrow> None)"
proof (induction rows)
  case (Cons r rows)
  have "find (\<lambda>r. g r = k) rows = None" if "g r = k" using Cons.prems that by (auto simp: find_None) (metis image_eqI)
  with Cons show ?case by (auto split: option.splits)
qed simp

lemma isRow_key: "isRow account name = (\<lambda>r. (cr_account r, cr_name r) = (account, name))"
  by (rule ext) (simp add: isRow_def)

lemma insertCluster_steps:
  assumes "uniqueRows rows" "insertCluster a n now rows = (k, rows')"
  shows "uniqueRows rows'" "lifecycle (stateOf b m rows) (stateOf b m rows')"
    "filter (\<lambda>r. cr_account r \<noteq> a) rows' = filter (\<lambda>r. cr_account r \<noteq> a) rows"
  using assms unfolding insertCluster_def
  by (auto simp: uniqueRows_def stateOf_def find_append find_None isRow_def lifecycle_simps split: if_splits option.splits)

lemma uniqueRows_map: "(\<And>r. cr_account (f r) = cr_account r) \<Longrightarrow> (\<And>r. cr_name (f r) = cr_name r) \<Longrightarrow> uniqueRows (map f rows) = uniqueRows rows"
  by (simp add: uniqueRows_def comp_def)

lemma filter_others_map:
  "(\<And>r. cr_account (f r) = cr_account r) \<Longrightarrow> (\<And>r. cr_account r \<noteq> a \<Longrightarrow> f r = r) \<Longrightarrow>
   filter (\<lambda>r. cr_account r \<noteq> a) (map f rows) = filter (\<lambda>r. cr_account r \<noteq> a) rows"
  by (induction rows) auto

lemma markDeleting_steps:
  assumes "uniqueRows rows" "markDeleting a n now rows = (k, rows')"
  shows "uniqueRows rows'" "lifecycle (stateOf b m rows) (stateOf b m rows')"
    "filter (\<lambda>r. cr_account r \<noteq> a) rows' = filter (\<lambda>r. cr_account r \<noteq> a) rows"
proof -
  let ?f = "\<lambda>r. if isRow a n r then r\<lparr>cr_state := Deleting, cr_updated := now\<rparr> else r"
  have r: "rows' = map ?f rows" using assms(2) by (simp add: markDeleting_def)
  show "uniqueRows rows'" unfolding r using assms(1) by (subst uniqueRows_map) simp_all
  have "find (isRow b m) (map ?f rows) = map_option ?f (find (isRow b m) rows)" by (rule find_map_same) (simp add: isRow_def)
  then show "lifecycle (stateOf b m rows) (stateOf b m rows')"
    unfolding r by (cases "find (isRow b m) rows") (auto simp: stateOf_def lifecycle_simps)
  show "filter (\<lambda>r. cr_account r \<noteq> a) rows' = filter (\<lambda>r. cr_account r \<noteq> a) rows"
    unfolding r by (rule filter_others_map) (simp_all add: isRow_def)
qed

lemma setObserved_steps:
  assumes "uniqueRows rows" "setObserved a n raw act now rows = (k, rows')"
  shows "uniqueRows rows'" "lifecycle (stateOf b m rows) (stateOf b m rows')"
    "filter (\<lambda>r. cr_account r \<noteq> a) rows' = filter (\<lambda>r. cr_account r \<noteq> a) rows"
proof -
  let ?f = "\<lambda>r. if isRow a n r \<and> cr_state r \<noteq> Deleting
       then r\<lparr>cr_nodes := raw, cr_state := (if act then Active else cr_state r), cr_updated := now\<rparr> else r"
  have r: "rows' = map ?f rows" using assms(2) by (simp add: setObserved_def)
  show "uniqueRows rows'" unfolding r using assms(1) by (subst uniqueRows_map) simp_all
  have "find (isRow b m) (map ?f rows) = map_option ?f (find (isRow b m) rows)" by (rule find_map_same) (simp add: isRow_def)
  moreover have "s \<noteq> Deleting \<Longrightarrow> s \<noteq> Creating \<Longrightarrow> Active = s" for s by (cases s) simp_all
  ultimately show "lifecycle (stateOf b m rows) (stateOf b m rows')"
    unfolding r by (cases "find (isRow b m) rows") (auto simp: stateOf_def lifecycle_simps)
  show "filter (\<lambda>r. cr_account r \<noteq> a) rows' = filter (\<lambda>r. cr_account r \<noteq> a) rows"
    unfolding r by (rule filter_others_map) (simp_all add: isRow_def)
qed

lemma forgetCluster_steps:
  assumes "uniqueRows rows" "forgetCluster a n now rows = (k, rows')"
  shows "uniqueRows rows'" "lifecycle (stateOf b m rows) (stateOf b m rows')"
    "filter (\<lambda>r. cr_account r \<noteq> a) rows' = filter (\<lambda>r. cr_account r \<noteq> a) rows"
proof -
  let ?Q = "\<lambda>r. \<not> (isRow a n r \<and> cr_state r = Deleting)"
  have r: "rows' = filter ?Q rows" using assms(2) by (simp add: forgetCluster_def)
  have d: "distinct (map (\<lambda>r. (cr_account r, cr_name r)) rows)" using assms(1) by (simp add: uniqueRows_def)
  show "uniqueRows rows'" unfolding r uniqueRows_def using d by (rule distinct_map_filter)
  have "find (isRow b m) (filter ?Q rows) = (case find (isRow b m) rows of Some r \<Rightarrow> if ?Q r then Some r else None | None \<Rightarrow> None)"
    unfolding isRow_key [of b m] by (rule find_filter_drop [OF d])
  then show "lifecycle (stateOf b m rows) (stateOf b m rows')"
    unfolding r by (cases "find (isRow b m) rows") (auto simp: stateOf_def lifecycle_simps)
  show "filter (\<lambda>r. cr_account r \<noteq> a) rows' = filter (\<lambda>r. cr_account r \<noteq> a) rows"
    unfolding r filter_filter by (rule filter_cong) (auto simp: isRow_def)
qed

subsection \<open>What a sequence of operations can do\<close>

text \<open>Every call that the API and the reconciler make on the store. The reconciler's calls carry a cluster that was
  read earlier and may be out of date.\<close>

datatype storeOp =
    DoCreate Capability string | DoGet Capability string | DoCount Capability | DoList Capability
  | DoMarkDeleting Capability string | DoAll | DoSetObserved Cluster "node list" bool | DoForget Cluster

fun runStore :: "'c::linorder clusterStore \<Rightarrow> storeOp \<Rightarrow> 'f nworld \<Rightarrow> 'f nworld" where
  "runStore st (DoCreate cap n) w = final_of (store_Create st cap n) w"
| "runStore st (DoGet cap n) w = final_of (store_Get st cap n) w"
| "runStore st (DoCount cap) w = final_of (store_Count cap) w"
| "runStore st (DoList cap) w = final_of (store_List st cap) w"
| "runStore st (DoMarkDeleting cap n) w = final_of (store_MarkDeleting st cap n) w"
| "runStore st DoAll w = final_of (store_All st) w"
| "runStore st (DoSetObserved c ns act) w = final_of (store_SetObserved st c ns act) w"
| "runStore st (DoForget c) w = final_of (store_Forget c) w"

text \<open>The account an operation is for.\<close>

fun opAccount :: "storeOp \<Rightarrow> string option" where
  "opAccount (DoCreate cap n) = Some (cp_AccountId cap)"
| "opAccount (DoGet cap n) = Some (cp_AccountId cap)"
| "opAccount (DoCount cap) = Some (cp_AccountId cap)"
| "opAccount (DoList cap) = Some (cp_AccountId cap)"
| "opAccount (DoMarkDeleting cap n) = Some (cp_AccountId cap)"
| "opAccount DoAll = None"
| "opAccount (DoSetObserved c ns act) = Some (cu_account c)"
| "opAccount (DoForget c) = Some (cu_account c)"

lemma nsql_rows:
  "nw_rows (final_of (nsql f) w) = nw_rows w \<or> nw_rows (final_of (nsql f) w) = snd (f (nw_now w) (nw_rows w))"
  by (auto simp: nsql_def Let_def split: list.split option.split prod.split)

lemma store_query_rows [simp]: "nw_rows (final_of (store_query st sel) w) = nw_rows w"
proof -
  obtain r w' where "run (nsql (\<lambda>_ rs. (sel rs, rs))) w = (r, w')" by fastforce
  moreover from this have "nw_rows w' = nw_rows w" using nsql_rows [of "\<lambda>_ rs. (sel rs, rs)" w] by auto
  ultimately show ?thesis by (cases r) (simp_all add: store_query_def)
qed

lemma store_get_rows [simp]: "nw_rows (final_of (store_get st a n) w) = nw_rows w"
proof -
  obtain r w' where "run (store_query st (filter (isRow a n))) w = (r, w')" by fastforce
  moreover from this have "nw_rows w' = nw_rows w" using store_query_rows [of st "filter (isRow a n)" w] by simp
  ultimately show ?thesis by (cases r) (auto simp: store_get_def split: list.split)
qed

text \<open>An operation leaves the rows alone or has the effect of its one writing statement.\<close>

fun opEffect :: "string \<Rightarrow> storeOp \<Rightarrow> time \<Rightarrow> cluster_row list \<Rightarrow> cluster_row list" where
  "opEffect raw (DoCreate cap n) now rows = snd (insertCluster (cp_AccountId cap) n now rows)"
| "opEffect raw (DoMarkDeleting cap n) now rows = snd (markDeleting (cp_AccountId cap) n now rows)"
| "opEffect raw (DoSetObserved c ns act) now rows = snd (setObserved (cu_account c) (cu_Name c) raw act now rows)"
| "opEffect raw (DoForget c) now rows = snd (forgetCluster (cu_account c) (cu_Name c) now rows)"
| "opEffect raw op now rows = rows"

lemma runStore_rows:
  "nw_rows (runStore st op w) = nw_rows w \<or> (\<exists>raw. nw_rows (runStore st op w) = opEffect raw op (nw_now w) (nw_rows w))"
proof (cases op)
  case (DoCreate cap n)
  obtain r w' where r: "run (nsql (insertCluster (cp_AccountId cap) n)) w = (r, w')" by fastforce
  obtain c w2 where g: "run (store_get st (cp_AccountId cap) n) w' = (c, w2)" by fastforce
  have "nw_rows w2 = nw_rows w'" using g store_get_rows [of st "cp_AccountId cap" n w'] by simp
  then have "nw_rows (runStore st op w) = nw_rows w \<or> nw_rows (runStore st op w) = nw_rows w'"
    using r g by (cases r) (auto simp: DoCreate store_Create_def Let_def split: sum.split prod.split)
  then show ?thesis using nsql_rows [of "insertCluster (cp_AccountId cap) n" w] r by (auto simp: DoCreate)
next
  case (DoMarkDeleting cap n)
  obtain r w' where r: "run (nsql (markDeleting (cp_AccountId cap) n)) w = (r, w')" by fastforce
  have "nw_rows (runStore st op w) = nw_rows w'"
    using r store_get_rows [of st "cp_AccountId cap" n w']
    by (cases r) (auto simp: DoMarkDeleting store_MarkDeleting_def)
  then show ?thesis using nsql_rows [of "markDeleting (cp_AccountId cap) n" w] r by (auto simp: DoMarkDeleting)
next
  case (DoSetObserved c ns act)
  show ?thesis
  proof (cases "cs_Marshal st ns")
    case (Inr raw)
    obtain r w' where r: "run (nsql (setObserved (cu_account c) (cu_Name c) raw act)) w = (r, w')" by fastforce
    have "nw_rows (runStore st op w) = nw_rows w'" using r by (cases r) (auto simp: DoSetObserved store_SetObserved_def Inr)
    then show ?thesis using nsql_rows [of "setObserved (cu_account c) (cu_Name c) raw act" w] r by (auto simp: DoSetObserved)
  qed (simp add: DoSetObserved store_SetObserved_def)
next
  case (DoForget c)
  obtain r w' where r: "run (nsql (forgetCluster (cu_account c) (cu_Name c))) w = (r, w')" by fastforce
  have "nw_rows (runStore st op w) = nw_rows w'" using r by (cases r) (auto simp: DoForget store_Forget_def)
  then show ?thesis using nsql_rows [of "forgetCluster (cu_account c) (cu_Name c)" w] r by (auto simp: DoForget)
next
  case (DoCount cap)
  then show ?thesis using nsql_rows [of "countClusters (cp_AccountId cap)" w] by (auto simp: store_Count_def countClusters_def)
qed (simp_all add: store_Get_def store_List_def store_All_def)

lemma opEffect_steps:
  assumes "uniqueRows rows"
  shows "uniqueRows (opEffect raw op now rows) \<and> lifecycle (stateOf b m rows) (stateOf b m (opEffect raw op now rows)) \<and>
    (\<forall>a. opAccount op = Some a \<longrightarrow> filter (\<lambda>r. cr_account r \<noteq> a) (opEffect raw op now rows) = filter (\<lambda>r. cr_account r \<noteq> a) rows) \<and>
    (opAccount op = None \<longrightarrow> opEffect raw op now rows = rows)"
proof (cases op)
  case (DoCreate cap n)
  note s = insertCluster_steps [OF assms surjective_pairing]
  show ?thesis unfolding DoCreate by (simp add: s)
next
  case (DoMarkDeleting cap n)
  note s = markDeleting_steps [OF assms surjective_pairing]
  show ?thesis unfolding DoMarkDeleting by (simp add: s)
next
  case (DoSetObserved c ns act)
  note s = setObserved_steps [OF assms surjective_pairing]
  show ?thesis unfolding DoSetObserved by (simp add: s)
next
  case (DoForget c)
  note s = forgetCluster_steps [OF assms surjective_pairing]
  show ?thesis unfolding DoForget by (simp add: s)
qed (use assms in \<open>simp_all add: lifecycle.stays\<close>)

lemma runStore_steps:
  assumes "uniqueRows (nw_rows w)"
  shows "uniqueRows (nw_rows (runStore st op w))"
    "lifecycle (stateOf b m (nw_rows w)) (stateOf b m (nw_rows (runStore st op w)))"
    "opAccount op \<noteq> Some b \<Longrightarrow> filter (\<lambda>r. cr_account r = b) (nw_rows (runStore st op w)) = filter (\<lambda>r. cr_account r = b) (nw_rows w)"
proof -
  let ?r = "nw_rows w" and ?r' = "nw_rows (runStore st op w)"
  have s: "uniqueRows ?r' \<and> lifecycle (stateOf b m ?r) (stateOf b m ?r') \<and>
      (\<forall>a. opAccount op = Some a \<longrightarrow> filter (\<lambda>r. cr_account r \<noteq> a) ?r' = filter (\<lambda>r. cr_account r \<noteq> a) ?r) \<and>
      (opAccount op = None \<longrightarrow> ?r' = ?r)"
    using runStore_rows [of st op w] opEffect_steps [OF assms, of _ op "nw_now w" b m] assms by (elim disjE exE) (simp_all add: lifecycle.stays)
  show "uniqueRows ?r'" "lifecycle (stateOf b m ?r) (stateOf b m ?r')" using s by simp_all
  assume ne: "opAccount op \<noteq> Some b"
  show "filter (\<lambda>r. cr_account r = b) ?r' = filter (\<lambda>r. cr_account r = b) ?r"
  proof (cases "opAccount op")
    case (Some a)
    with ne have "a \<noteq> b" by simp
    then have f: "filter (\<lambda>r. cr_account r = b) xs = filter (\<lambda>r. cr_account r = b) (filter (\<lambda>r. cr_account r \<noteq> a) xs)" for xs
      unfolding filter_filter by (intro filter_cong) auto
    have "filter (\<lambda>r. cr_account r \<noteq> a) ?r' = filter (\<lambda>r. cr_account r \<noteq> a) ?r" using s Some by simp
    then show ?thesis by (subst (1 2) f) (simp only:)
  qed (use s in simp)
qed

text \<open>Only a creation for its own account and name brings a row into being.\<close>

definition creates :: "string \<Rightarrow> string \<Rightarrow> storeOp \<Rightarrow> bool" where
  "creates b m op \<longleftrightarrow> (case op of DoCreate cap n \<Rightarrow> cp_AccountId cap = b \<and> n = m | _ \<Rightarrow> False)"

lemma stateOf_None: "stateOf b m rows = None \<longleftrightarrow> (\<forall>r \<in> set rows. \<not> isRow b m r)"
  by (simp add: stateOf_def find_None)

lemma runStore_absent:
  assumes "stateOf b m (nw_rows w) = None" "\<not> creates b m op"
  shows "stateOf b m (nw_rows (runStore st op w)) = None"
proof -
  have "stateOf b m (opEffect raw op (nw_now w) (nw_rows w)) = None" for raw
    using assms by (cases op) (auto simp: stateOf_None insertCluster_def markDeleting_def setObserved_def forgetCluster_def isRow_def creates_def)
  then show ?thesis using runStore_rows [of st op w] assms(1) by auto
qed

lemma runStore_deleting:
  assumes "uniqueRows (nw_rows w)" "stateOf b m (nw_rows w) \<in> {None, Some Deleting}" "\<not> creates b m op"
  shows "stateOf b m (nw_rows (runStore st op w)) \<in> {None, Some Deleting}"
proof (cases "stateOf b m (nw_rows w)")
  case None
  show ?thesis by (simp add: runStore_absent [OF None assms(3)])
next
  case (Some s)
  then have "lifecycle (Some Deleting) (stateOf b m (nw_rows (runStore st op w)))"
    using runStore_steps(2) [OF assms(1), of b m st op] assms(2) by simp
  then show ?thesis by (auto elim: lifecycle_Deleting)
qed

lemma runs_invariant:
  assumes "uniqueRows (nw_rows w)" "stateOf b m (nw_rows w) \<in> {None, Some Deleting}" "list_all (\<lambda>op. \<not> creates b m op) ops"
  shows "uniqueRows (nw_rows (fold (runStore st) ops w)) \<and> stateOf b m (nw_rows (fold (runStore st) ops w)) \<in> {None, Some Deleting}"
  using assms
proof (induction ops arbitrary: w)
  case (Cons op ops)
  then show ?case
    using Cons.IH [of "runStore st op w"] runStore_steps(1) [of w st op] runStore_deleting [of w b m op st] by simp
qed simp

subsection \<open>Properties\<close>

text \<open>C18: the rows of the cache service are a state machine: whatever call of the API or of the reconciler runs, with
  whatever stale snapshot and whatever statement failing, the key of every row stays unique, each cluster takes at most one
  step of its life (absent, creating, active, deleting, absent again), and nothing changes for an account other
  than that of the capability or snapshot the call carries.\<close>
theorem cluster_rows_follow_their_life:
  assumes "uniqueRows (nw_rows w)"
  shows "uniqueRows (nw_rows (runStore st op w)) \<and>
    lifecycle (stateOf b m (nw_rows w)) (stateOf b m (nw_rows (runStore st op w))) \<and>
    (opAccount op = Some b \<or> filter (\<lambda>r. cr_account r = b) (nw_rows (runStore st op w)) = filter (\<lambda>r. cr_account r = b) (nw_rows w))"
  using runStore_steps [OF assms] by blast

text \<open>C19: deletion is one-way: once a cluster is being deleted, no sequence of calls brings it back, not even a pass of the
  reconciler that read the row before the deletion and writes its observation after it; only a new creation by its
  own account makes the name live again, and while the old row stands \<open>Create\<close> refuses the name.\<close>
theorem deletion_is_one_way:
  assumes "uniqueRows (nw_rows w)" "stateOf b m (nw_rows w) = Some Deleting" "list_all (\<lambda>op. \<not> creates b m op) ops"
  shows "stateOf b m (nw_rows (fold (runStore st) ops w)) \<in> {None, Some Deleting} \<and>
    (\<exists>e. cp_AccountId cap \<noteq> b \<or> result_of (store_Create st cap m) w = Inl e)"
proof -
  have "stateOf b m (nw_rows (fold (runStore st) ops w)) \<in> {None, Some Deleting}"
    using runs_invariant [OF assms(1) _ assms(3), of st] assms(2) by simp
  moreover have "\<exists>e. result_of (store_Create st cap m) w = Inl e" if b: "cp_AccountId cap = b"
  proof -
    obtain row where row: "find (isRow b m) (nw_rows w) = Some row" "cr_state row = Deleting"
      using assms(2) by (auto simp: stateOf_def)
    obtain r w1 where r: "run (nsql (insertCluster b m)) w = (r, w1)" by fastforce
    have w1: "r = Inr n \<Longrightarrow> n = 0 \<and> nw_rows w1 = nw_rows w" for n
      using r row(1) by (auto simp: nsql_def insertCluster_def Let_def split: list.splits option.splits)
    obtain c w2 where c: "run (store_get st b m) w1 = (c, w2)" by fastforce
    have "cu_State cl = Deleting" if cl: "c = Inr cl" "nw_rows w1 = nw_rows w" for cl
    proof -
      obtain rs w3 where q: "run (nsql (\<lambda>_ rows. (filter (isRow b m) rows, rows))) w1 = (rs, w3)" by fastforce
      have "rs = Inr x \<Longrightarrow> x = filter (isRow b m) (nw_rows w)" for x
        using q cl(2) by (auto simp: nsql_def Let_def split: list.splits option.splits)
      moreover obtain x where "rs = Inr x" using c q cl(1) by (cases rs) (auto simp: store_get_def store_query_def)
      ultimately have rs: "rs = Inr (filter (isRow b m) (nw_rows w))" by simp
      have ne: "\<exists>rest. filter (isRow b m) xs = y # rest" if "find (isRow b m) xs = Some y" for xs y
        using that by (induction xs) (auto split: if_splits)
      obtain rest where "filter (isRow b m) (nw_rows w) = row # rest" using ne [OF row(1)] by blast
      then show ?thesis using c q rs cl(1) row(2) by (auto simp: store_get_def store_query_def split: sum.splits)
    qed
    then show ?thesis using r c w1 b by (cases r; cases c) (auto simp: store_Create_def Let_def)
  qed
  ultimately show ?thesis by blast
qed

subsection \<open>Witnesses\<close>

text \<open>A store that keeps no nodes, which is enough to see rows change.\<close>

definition plainClusterStore :: "string clusterStore" where
  "plainClusterStore = \<lparr>cs_Marshal = (\<lambda>_. Inr ''[]''), cs_Unmarshal = (\<lambda>_. Inr []), cs_Collation = (\<lambda>k. k)\<rparr>"

definition clusterCap :: Capability where
  "clusterCap = \<lparr>cp_AccountId = ''111111111111'', cp_CallerAccountId = [], cp_PrincipalArn = [], cp_Action = [], cp_ResourceArn = [],
     cp_RequestId = [], cp_IssuedAtUnixMs = 0, cp_ExpiresAtUnixMs = 0\<rparr>"

definition deletingWorld :: "unit nworld" where
  "deletingWorld = \<lparr>nw_rows = [\<lparr>cr_account = ''111111111111'', cr_name = ''web'', cr_state = Deleting, cr_nodes = ''[]'', cr_created = 0, cr_updated = 0\<rparr>],
     nw_faults = [], nw_now = 1, nw_entropy = [], nw_fleet = ()\<rparr>"

definition staleSnapshot :: Cluster where
  "staleSnapshot = \<lparr>cu_account = ''111111111111'', cu_Name = ''web'', cu_State = Creating, cu_Nodes = [], cu_CreatedAt = 0, cu_UpdatedAt = 0\<rparr>"

lemma deletingWorld_facts: "uniqueRows (nw_rows deletingWorld)" "stateOf ''111111111111'' ''web'' (nw_rows deletingWorld) = Some Deleting"
  by (simp_all add: uniqueRows_def deletingWorld_def stateOf_def isRow_def)

lemma cluster_rows_follow_their_life_witness:
  "lifecycle (Some Deleting) (stateOf ''111111111111'' ''web'' (nw_rows (runStore plainClusterStore (DoForget staleSnapshot) deletingWorld)))"
  using cluster_rows_follow_their_life [OF deletingWorld_facts(1), of plainClusterStore "DoForget staleSnapshot" "''111111111111''" "''web''"]
  by (simp only: deletingWorld_facts)

lemma deletion_is_one_way_witness:
  "stateOf ''111111111111'' ''web'' (nw_rows (fold (runStore plainClusterStore) [DoSetObserved staleSnapshot [] True, DoAll] deletingWorld))
     \<in> {None, Some Deleting} \<and> (\<exists>e. result_of (store_Create plainClusterStore clusterCap ''web'') deletingWorld = Inl e)"
proof -
  have "list_all (\<lambda>op. \<not> creates ''111111111111'' ''web'' op) [DoSetObserved staleSnapshot [] True, DoAll]" by (simp add: creates_def)
  from deletion_is_one_way [OF deletingWorld_facts this, of plainClusterStore clusterCap] show ?thesis by (auto simp: clusterCap_def)
qed

end
