(* ===== verification/Docker.thy ===== *)
theory Docker
  imports Apierr
begin

text \<open>
  The client of the Docker daemon (\<open>internal/chala/docker/docker.go\<close>). The daemon itself is a function from requests to
  responses over a state of its own; so are the decoding of JSON and of timestamps and the encoding of the
  one JSON text that travels in a query: an object it decodes has each key once, spelled as the struct field
  that takes it. What the client builds and what it reads is translated field by field.
\<close>

datatype json = JNull | JBool bool | JNum int | JStr string | JArr "json list" | JObj "json strmap"

record dockerRequest =
  dq_Method :: string
  dq_Path :: string
  dq_Query :: "string strmap"
  dq_Body :: "json option"

record dockerResponse =
  dr_Status :: nat
  dr_Body :: bytes

text \<open>\<open>dm_Do\<close> fails when the daemon cannot be reached or the request was cancelled.\<close>

record 's daemon =
  dm_Do :: "dockerRequest \<Rightarrow> ('s, err + dockerResponse) state"
  dm_ParseJSON :: "bytes \<Rightarrow> err + json"
  dm_EncodeJSON :: "json \<Rightarrow> string"
  dm_ParseTime :: "string \<Rightarrow> time option"

definition DockerAPIVersion :: string where "DockerAPIVersion = ''v1.44''"

definition ErrDockerNotFound :: err where "ErrDockerNotFound = Sentinel ''docker: not found''"
definition ErrDockerConflict :: err where "ErrDockerConflict = Sentinel ''docker: conflict''"

text \<open>The text of a daemon's error, and \<open>errors.As\<close> with it as the target.\<close>

definition dockerErrorString :: "nat \<Rightarrow> string \<Rightarrow> message" where
  "dockerErrorString status msg = (''docker: %d: %s'', [ANum (int status), AStr msg])"

fun asDocker :: "err \<Rightarrow> (nat \<times> string) option" where
  "asDocker (DockerErr st m k) = Some (st, m)"
| "asDocker (ApiErr c m r d k) = (case k of None \<Rightarrow> None | Some e \<Rightarrow> asDocker e)"
| "asDocker (Errorf f a k) = (case k of None \<Rightarrow> None | Some e \<Rightarrow> asDocker e)"
| "asDocker e = None"

definition DefaultSocket :: "string \<Rightarrow> string" where
  "DefaultSocket dockerHost =
     (if hasPrefix dockerHost ''unix://'' then trimPrefix dockerHost ''unix://'' else ''/var/run/docker.sock'')"

subsection \<open>Reading JSON into the client's structs\<close>

text \<open>A field that is absent or null is zero; one of another type is an error of the decoder.\<close>

definition jfield :: "string \<Rightarrow> json \<Rightarrow> json" where
  "jfield k j = (case j of JObj kvs \<Rightarrow> getOr JNull kvs k | _ \<Rightarrow> JNull)"

definition jstring :: "json \<Rightarrow> string option" where
  "jstring j = (case j of JNull \<Rightarrow> Some [] | JStr s \<Rightarrow> Some s | _ \<Rightarrow> None)"

definition jint :: "json \<Rightarrow> int option" where
  "jint j = (case j of JNull \<Rightarrow> Some 0 | JNum n \<Rightarrow> Some n | _ \<Rightarrow> None)"

definition jobject :: "json \<Rightarrow> bool" where
  "jobject j \<longleftrightarrow> (case j of JNull \<Rightarrow> True | JObj _ \<Rightarrow> True | _ \<Rightarrow> False)"

fun jentries :: "(json \<Rightarrow> 'a option) \<Rightarrow> (string \<times> json) list \<Rightarrow> 'a strmap option" where
  "jentries f [] = Some []"
| "jentries f ((k, v) # kvs) =
     (case f v of None \<Rightarrow> None
      | Some a \<Rightarrow> (case jentries f kvs of None \<Rightarrow> None | Some r \<Rightarrow> Some ((k, a) # r)))"

definition jmap :: "(json \<Rightarrow> 'a option) \<Rightarrow> json \<Rightarrow> 'a strmap option" where
  "jmap f j = (case j of JNull \<Rightarrow> Some [] | JObj kvs \<Rightarrow> jentries f kvs | _ \<Rightarrow> None)"

fun jlist :: "(json \<Rightarrow> 'a option) \<Rightarrow> json list \<Rightarrow> 'a list option" where
  "jlist f [] = Some []"
| "jlist f (j # js) =
     (case f j of None \<Rightarrow> None | Some a \<Rightarrow> (case jlist f js of None \<Rightarrow> None | Some r \<Rightarrow> Some (a # r)))"

subsection \<open>One request\<close>

definition daemonMessage :: "'s daemon \<Rightarrow> bytes \<Rightarrow> string" where
  "daemonMessage d raw =
     (let msg = (case dm_ParseJSON d raw of
                   Inl _ \<Rightarrow> []
                 | Inr j \<Rightarrow> (case jstring (jfield ''message'' j) of None \<Rightarrow> [] | Some m \<Rightarrow> m))
      in if msg = [] then trimSpace raw else msg)"

definition docker_do ::
  "'s daemon \<Rightarrow> string \<Rightarrow> string \<Rightarrow> string strmap \<Rightarrow> json option \<Rightarrow> (json \<Rightarrow> 'a option) option \<Rightarrow> ('s, err + 'a option) state" where
  "docker_do d method path query body into = do {
     resp \<leftarrow> dm_Do d \<lparr>dq_Method = method, dq_Path = ''/'' @ DockerAPIVersion @ path, dq_Query = query, dq_Body = body\<rparr>;
     case resp of
       Inl e \<Rightarrow> ret (Inl (Errorf ''docker: %s %s: %w'' [AStr method, AStr path, AErr e] (Some e)))
     | Inr resp \<Rightarrow>
         if dr_Status resp \<ge> 300 \<and> dr_Status resp \<noteq> 304 then
           ret (Inl (DockerErr (dr_Status resp) (daemonMessage d (take 65536 (dr_Body resp)))
             (if dr_Status resp = 404 then Some ErrDockerNotFound
              else if dr_Status resp = 409 then Some ErrDockerConflict else None)))
         else (case into of
           None \<Rightarrow> ret (Inr None)
         | Some decode \<Rightarrow>
             (case dm_ParseJSON d (dr_Body resp) of
                Inl e \<Rightarrow> ret (Inl (Errorf ''docker: decoding %s %s: %w'' [AStr method, AStr path, AErr e] (Some e)))
              | Inr j \<Rightarrow> (case decode j of
                  None \<Rightarrow> ret (let e = Sentinel ''json: cannot unmarshal'' in Inl (Errorf ''docker: decoding %s %s: %w'' [AStr method, AStr path, AErr e] (Some e)))
                | Some a \<Rightarrow> ret (Inr (Some a)))))
   }"

text \<open>A request whose answer is only whether it failed.\<close>

definition docker_call :: "'s daemon \<Rightarrow> string \<Rightarrow> string \<Rightarrow> string strmap \<Rightarrow> json option \<Rightarrow> ('s, err option) state" where
  "docker_call d method path query body = do {
     r \<leftarrow> docker_do d method path query body (None :: (json \<Rightarrow> unit option) option);
     case r of Inl e \<Rightarrow> ret (Some e) | Inr _ \<Rightarrow> ret None
   }"

definition docker_Ping :: "'s daemon \<Rightarrow> ('s, err option) state" where
  "docker_Ping d = docker_call d ''GET'' ''/_ping'' [] None"

subsection \<open>Images\<close>

definition ImageExists :: "'s daemon \<Rightarrow> string \<Rightarrow> ('s, err + bool) state" where
  "ImageExists d ref = do {
     r \<leftarrow> docker_call d ''GET'' (''/images/'' @ ref @ ''/json'') [] None;
     case r of
       None \<Rightarrow> ret (Inr True)
     | Some e \<Rightarrow> (if errorsIs e ErrDockerNotFound then ret (Inr False) else ret (Inl e))
   }"

text \<open>\<open>strings.LastIndex\<close> of a character, minus one when it is absent.\<close>

definition lastIndex :: "char \<Rightarrow> string \<Rightarrow> int" where
  "lastIndex c s = (if c \<in> set s then int (length s) - 1 - int (length (takeWhile (\<lambda>x. x \<noteq> c) (rev s))) else -1)"

definition splitRef :: "string \<Rightarrow> string \<times> string" where
  "splitRef ref =
     (let i = lastIndex CHR '':'' ref in
      if i > lastIndex CHR ''/'' ref then (take (nat i) ref, drop (nat i + 1) ref) else (ref, ''latest''))"

definition PullImage :: "'s daemon \<Rightarrow> string \<Rightarrow> ('s, err option) state" where
  "PullImage d ref = do {
     let (name, tag) = splitRef ref;
     r \<leftarrow> docker_call d ''POST'' ''/images/create'' [(''fromImage'', name), (''tag'', tag)] None;
     case r of
       Some e \<Rightarrow> ret (Some e)
     | None \<Rightarrow> do {
         ok \<leftarrow> ImageExists d ref;
         case ok of
           Inl e \<Rightarrow> ret (Some e)
         | Inr ok \<Rightarrow> (if ok then ret None
             else ret (Some (Errorf ''docker: pulled %s but it is not present: check the name and the registry'' [AStr ref] None)))
       }
   }"

subsection \<open>Networks\<close>

record NetworkSpec =
  nt_Name :: string
  nt_Labels :: "string strmap"
  nt_Internal :: bool

definition labelsJSON :: "string strmap \<Rightarrow> json" where
  "labelsJSON labels = JObj (map (\<lambda>(k, v). (k, JStr v)) labels)"

definition EnsureNetwork :: "'s daemon \<Rightarrow> NetworkSpec \<Rightarrow> ('s, err option) state" where
  "EnsureNetwork d spec = do {
     r \<leftarrow> docker_call d ''GET'' (''/networks/'' @ nt_Name spec) [] None;
     case r of
       None \<Rightarrow> ret None
     | Some e \<Rightarrow>
         if \<not> errorsIs e ErrDockerNotFound then ret (Some e)
         else do {
           c \<leftarrow> docker_call d ''POST'' ''/networks/create'' []
             (Some (JObj [(''Name'', JStr (nt_Name spec)), (''Driver'', JStr ''bridge''), (''Internal'', JBool (nt_Internal spec)),
                          (''Labels'', labelsJSON (nt_Labels spec))]));
           case c of
             None \<Rightarrow> ret None
           | Some e \<Rightarrow> (if errorsIs e ErrDockerConflict then ret None else ret (Some e))
         }
   }"

text \<open>A slice of strings is null in JSON when it is nil.\<close>

definition strings :: "string list \<Rightarrow> json" where "strings ss = (if ss = [] then JNull else JArr (map JStr ss))"

text \<open>\<open>strings.Contains\<close>.\<close>

fun containsStr :: "string \<Rightarrow> string \<Rightarrow> bool" where
  "containsStr [] t \<longleftrightarrow> t = []"
| "containsStr (c # cs) t \<longleftrightarrow> hasPrefix (c # cs) t \<or> containsStr cs t"

definition ConnectNetwork :: "'s daemon \<Rightarrow> string \<Rightarrow> string \<Rightarrow> string list \<Rightarrow> ('s, err option) state" where
  "ConnectNetwork d network containerID aliases = do {
     r \<leftarrow> docker_call d ''POST'' (''/networks/'' @ network @ ''/connect'') []
       (Some (JObj [(''Container'', JStr containerID), (''EndpointConfig'', JObj [(''Aliases'', strings aliases)])]));
     case r of
       None \<Rightarrow> ret None
     | Some e \<Rightarrow>
         (case asDocker e of
            Some (status, msg) \<Rightarrow> if status = 403 \<and> containsStr msg ''already exists'' then ret None else ret (Some e)
          | None \<Rightarrow> ret (Some e))
   }"

definition RemoveNetwork :: "'s daemon \<Rightarrow> string \<Rightarrow> ('s, err option) state" where
  "RemoveNetwork d name = do {
     r \<leftarrow> docker_call d ''DELETE'' (''/networks/'' @ name) [] None;
     case r of
       None \<Rightarrow> ret None
     | Some e \<Rightarrow> (if errorsIs e ErrDockerNotFound then ret None else ret (Some e))
   }"

subsection \<open>Containers\<close>

record Healthcheck =
  hc_Shell :: string
  hc_Interval :: duration
  hc_Timeout :: duration
  hc_StartPeriod :: duration
  hc_Retries :: int

record ContainerSpec =
  sp_Image :: string
  sp_Cmd :: "string list"
  sp_Env :: "string list"
  sp_Labels :: "string strmap"
  sp_Network :: string
  sp_Aliases :: "string list"
  sp_MemoryBytes :: int
  sp_PidsLimit :: int
  sp_Healthcheck :: "Healthcheck option"

definition containerBody :: "ContainerSpec \<Rightarrow> json" where
  "containerBody spec = JObj (
     [(''Image'', JStr (sp_Image spec)), (''Cmd'', strings (sp_Cmd spec)), (''Env'', strings (sp_Env spec)),
      (''Labels'', labelsJSON (sp_Labels spec)),
      (''HostConfig'', JObj
         [(''NetworkMode'', JStr (sp_Network spec)), (''Memory'', JNum (sp_MemoryBytes spec)), (''PidsLimit'', JNum (sp_PidsLimit spec)),
          (''Privileged'', JBool False), (''CapDrop'', JArr [JStr ''ALL'']), (''SecurityOpt'', JArr [JStr ''no-new-privileges'']),
          (''RestartPolicy'', JObj [(''Name'', JStr ''no'')])]),
      (''NetworkingConfig'', JObj [(''EndpointsConfig'', JObj [(sp_Network spec, JObj [(''Aliases'', strings (sp_Aliases spec))])])])]
     @ (case sp_Healthcheck spec of None \<Rightarrow> [] | Some hc \<Rightarrow>
          [(''Healthcheck'', JObj [(''Test'', JArr [JStr ''CMD-SHELL'', JStr (hc_Shell hc)]), (''Interval'', JNum (hc_Interval hc)),
             (''Timeout'', JNum (hc_Timeout hc)), (''StartPeriod'', JNum (hc_StartPeriod hc)), (''Retries'', JNum (hc_Retries hc))])]))"

definition decodeID :: "json \<Rightarrow> string option" where
  "decodeID j = (if jobject j then jstring (jfield ''Id'' j) else None)"

definition CreateContainer :: "'s daemon \<Rightarrow> string \<Rightarrow> ContainerSpec \<Rightarrow> ('s, err + string) state" where
  "CreateContainer d name spec = do {
     r \<leftarrow> docker_do d ''POST'' ''/containers/create'' [(''name'', name)] (Some (containerBody spec)) (Some decodeID);
     case r of Inl e \<Rightarrow> ret (Inl e) | Inr i \<Rightarrow> ret (Inr (case i of None \<Rightarrow> [] | Some i \<Rightarrow> i))
   }"

definition StartContainer :: "'s daemon \<Rightarrow> string \<Rightarrow> ('s, err option) state" where
  "StartContainer d ident = docker_call d ''POST'' (''/containers/'' @ ident @ ''/start'') [] None"

definition RemoveContainer :: "'s daemon \<Rightarrow> string \<Rightarrow> ('s, err option) state" where
  "RemoveContainer d ident = do {
     r \<leftarrow> docker_call d ''DELETE'' (''/containers/'' @ ident) [(''force'', ''true''), (''v'', ''true'')] None;
     case r of
       None \<Rightarrow> ret None
     | Some e \<Rightarrow> (if errorsIs e ErrDockerNotFound then ret None else ret (Some e))
   }"

record Container =
  ct_ID :: string
  ct_Name :: string
  ct_Image :: string
  ct_Labels :: "string strmap"
  ct_Created :: time
  ct_Status :: string
  ct_ExitCode :: int
  ct_Health :: string
  ct_Networks :: "string strmap"

definition decodeContainer :: "'s daemon \<Rightarrow> json \<Rightarrow> Container option" where
  "decodeContainer d j =
     (let st = jfield ''State'' j; hl = jfield ''Health'' st; cf = jfield ''Config'' j; ns = jfield ''NetworkSettings'' j in
      if \<not> (jobject j \<and> jobject st \<and> jobject hl \<and> jobject cf \<and> jobject ns) then None
      else case (jstring (jfield ''Id'' j), jstring (jfield ''Name'' j), jstring (jfield ''Image'' cf), jmap jstring (jfield ''Labels'' cf)) of
        (Some i, Some n, Some img, Some labels) \<Rightarrow>
          (case (jstring (jfield ''Status'' st), jint (jfield ''ExitCode'' st), jstring (jfield ''Status'' hl),
                 jmap (\<lambda>ep. if jobject ep then jstring (jfield ''IPAddress'' ep) else None) (jfield ''Networks'' ns)) of
             (Some status, Some exit, Some health, Some nets) \<Rightarrow>
               (case (case jfield ''Created'' j of JNull \<Rightarrow> Some 0 | JStr s \<Rightarrow> dm_ParseTime d s | _ \<Rightarrow> None) of
                  None \<Rightarrow> None
                | Some t \<Rightarrow> Some \<lparr>ct_ID = i, ct_Name = trimPrefix n ''/'', ct_Image = img, ct_Labels = labels, ct_Created = t,
                    ct_Status = status, ct_ExitCode = exit, ct_Health = health, ct_Networks = nets\<rparr>)
           | _ \<Rightarrow> None)
      | _ \<Rightarrow> None)"

definition InspectContainer :: "'s daemon \<Rightarrow> string \<Rightarrow> ('s, err + Container) state" where
  "InspectContainer d nameOrID = do {
     r \<leftarrow> docker_do d ''GET'' (''/containers/'' @ nameOrID @ ''/json'') [] None (Some (decodeContainer d));
     case r of
       Inl e \<Rightarrow> ret (Inl e)
     | Inr None \<Rightarrow> ret (Inl (Sentinel ''unreachable''))
     | Inr (Some c) \<Rightarrow> ret (Inr c)
   }"

definition decodeIDs :: "json \<Rightarrow> string list option" where
  "decodeIDs j = (case j of JNull \<Rightarrow> Some [] | JArr js \<Rightarrow> jlist decodeID js | _ \<Rightarrow> None)"

definition ListContainers :: "'s daemon \<Rightarrow> string list \<Rightarrow> ('s, err + string list) state" where
  "ListContainers d labels = do {
     r \<leftarrow> docker_do d ''GET'' ''/containers/json''
       [(''all'', ''true''), (''filters'', dm_EncodeJSON d (JObj [(''label'', JArr (map JStr labels))]))] None (Some decodeIDs);
     case r of Inl e \<Rightarrow> ret (Inl e) | Inr ids \<Rightarrow> ret (Inr (case ids of None \<Rightarrow> [] | Some ids \<Rightarrow> ids))
   }"

definition docker_Kill :: "'s daemon \<Rightarrow> string \<Rightarrow> ('s, err option) state" where
  "docker_Kill d ident = docker_call d ''POST'' (''/containers/'' @ ident @ ''/kill'') [(''signal'', ''KILL'')] None"

subsection \<open>Logs\<close>

record LogLine =
  ll_Time :: time
  ll_Text :: string

definition frameLength :: "bytes \<Rightarrow> nat" where
  "frameLength raw = ((of_char (raw ! 4) * 256 + of_char (raw ! 5)) * 256 + of_char (raw ! 6)) * 256 + of_char (raw ! 7)"

text \<open>The multiplexed stream: every frame shortens what is left, and a frame that is cut off ends the text.\<close>

function demuxFrames :: "bytes \<Rightarrow> bytes" where
  "demuxFrames raw =
     (if length raw < 8 then []
      else let n = frameLength raw in
        if 8 + n > length raw then [] else take n (drop 8 raw) @ demuxFrames (drop (8 + n) raw))"
  by pat_completeness auto
termination by (relation "measure length") auto

declare demuxFrames.simps [simp del]

definition logLine :: "'s daemon \<Rightarrow> string \<Rightarrow> LogLine option" where
  "logLine d l =
     (case cut CHR '' '' l of
        None \<Rightarrow> None
      | Some (ts, rest) \<Rightarrow> (case dm_ParseTime d ts of None \<Rightarrow> None | Some t \<Rightarrow> Some \<lparr>ll_Time = t, ll_Text = trimSpace rest\<rparr>))"

definition docker_Logs :: "'s daemon \<Rightarrow> string \<Rightarrow> ('s, err + LogLine list) state" where
  "docker_Logs d ident = do {
     resp \<leftarrow> dm_Do d \<lparr>dq_Method = ''GET'', dq_Path = ''/'' @ DockerAPIVersion @ ''/containers/'' @ ident @ ''/logs'',
       dq_Query = [(''stdout'', ''1''), (''timestamps'', ''1'')], dq_Body = None\<rparr>;
     case resp of
       Inl e \<Rightarrow> ret (Inl e)
     | Inr resp \<Rightarrow>
         if dr_Status resp \<noteq> 200 then ret (Inl (Errorf ''docker: logs of %s: %d'' [AStr ident, ANum (int (dr_Status resp))] None))
         else ret (Inr (List.map_filter (logLine d) (splitOn CHR 0x0A (demuxFrames (dr_Body resp)))))
   }"

text \<open>A frame as the daemon writes it, and the text of a sequence of frames.\<close>

definition frameOf :: "nat \<times> bytes \<Rightarrow> bytes" where
  "frameOf f = (case f of (stream, text) \<Rightarrow>
     let n = length text in
     [char_of stream, CHR 0x00, CHR 0x00, CHR 0x00, char_of (n div 16777216 mod 256), char_of (n div 65536 mod 256),
      char_of (n div 256 mod 256), char_of (n mod 256)] @ text)"

lemma frameLength_frame:
  assumes "length text < 4294967296"
  shows "frameLength (frameOf (stream, text) @ rest) = length text"
proof -
  have c: "of_char (char_of (m mod 256)) = (m mod 256 :: nat)" for m by simp
  have q: "n div 65536 = n div 256 div 256" "n div 16777216 = n div 256 div 256 div 256" for n :: nat
    by (simp_all add: div_mult2_eq [symmetric])
  have "((n div 16777216 * 256 + n div 65536 mod 256) * 256 + n div 256 mod 256) * 256 + n mod 256 = n" for n :: nat
    unfolding q by (simp only: div_mult_mod_eq)
  moreover have "n div 16777216 < 256" if "n < 4294967296" for n :: nat
    using that by (simp add: less_mult_imp_div_less)
  ultimately show ?thesis using assms by (simp add: frameLength_def frameOf_def Let_def c)
qed

lemma length_frameOf [simp]: "length (frameOf (stream, text)) = 8 + length text"
  by (simp add: frameOf_def Let_def)

lemma drop_frameOf: "drop 8 (frameOf (stream, text) @ rest) = text @ rest"
  by (simp add: frameOf_def Let_def)

lemma demux_frame:
  assumes "length text < 4294967296"
  shows "demuxFrames (frameOf (stream, text) @ rest) = text @ demuxFrames rest"
proof -
  have "drop (8 + length text) (frameOf (stream, text) @ rest) = drop (length text) (text @ rest)"
    by (metis drop_drop drop_frameOf add.commute)
  then show ?thesis
    by (subst demuxFrames.simps) (simp add: frameLength_frame [OF assms] drop_frameOf [where rest = "[]", simplified])
qed

lemma demux_cut_off: "8 \<le> length raw \<Longrightarrow> length raw < 8 + frameLength raw \<Longrightarrow> demuxFrames raw = []"
  by (subst demuxFrames.simps) simp

text \<open>C40: the log stream is read to its end and no further: the demultiplexer terminates on every input, a sequence of frames yields the
  concatenation of their texts whatever the streams they belong to, and a last frame of which only a part arrived adds nothing.\<close>
theorem log_frames_roundtrip:
  assumes "list_all (\<lambda>f. length (snd f) < 4294967296) frames" "rest = [] \<or> length rest < 8 \<or> length rest < 8 + frameLength rest"
  shows "demuxFrames (concat (map frameOf frames) @ rest) = concat (map snd frames)"
  using assms(1)
proof (induction frames)
  case Nil
  then show ?case using assms(2) demux_cut_off [of rest] by (cases "length rest < 8") (auto simp: demuxFrames.simps)
next
  case (Cons f frames)
  then show ?case by (cases f) (simp add: demux_frame)
qed

lemma log_frames_roundtrip_witness:
  "demuxFrames (concat (map frameOf [(1, ''ready''), (2, ''warn''), (1, '' now'')]) @ take 3 (frameOf (1, ''cut''))) = ''readywarn now''"
proof -
  have "list_all (\<lambda>f. length (snd f) < 4294967296) [(1, ''ready''), (2, ''warn''), (1, '' now'')]" by simp
  moreover have "length (take 3 (frameOf (1, ''cut''))) < 8" by simp
  ultimately have "demuxFrames (concat (map frameOf [(1, ''ready''), (2, ''warn''), (1, '' now'')]) @ take 3 (frameOf (1, ''cut''))) =
      concat (map snd [(1 :: nat, ''ready''), (2, ''warn''), (1, '' now'')])"
    by (intro log_frames_roundtrip) simp_all
  then show ?thesis by simp
qed

end
