(* ===== verification/Chala.thy ===== *)
theory Chala
  imports Docker Servicekit Mux "HOL-Library.List_Lexorder"
begin

text \<open>
  The compute service (\<open>internal/chala/names.go\<close>, \<open>catalog.go\<close>, \<open>server.go\<close>): the names it derives from an account and an
  instance name, the catalog of images, and the handlers, which keep no state of their own: the daemon's
  containers are the table of instances. A handler runs over the state of the daemon and of the process around it.
\<close>

section \<open>Names\<close>

definition labelKind :: string where "labelKind = ''dariya.chala''"
definition labelAccount :: string where "labelAccount = ''dariya.account''"
definition labelInstance :: string where "labelInstance = ''dariya.instance''"
definition labelImage :: string where "labelImage = ''dariya.image''"
definition labelTag :: string where "labelTag = ''dariya.tag.''"
definition labelAttachAccount :: string where "labelAttachAccount = ''dariya.attach.account''"
definition labelAttachAliases :: string where "labelAttachAliases = ''dariya.attach.aliases''"
definition kindInstance :: string where "kindInstance = ''instance''"
definition kindNetwork :: string where "kindNetwork = ''network''"
definition DNSSuffix :: string where "DNSSuffix = ''chala.dariya.internal''"
definition maxTags :: nat where "maxTags = 16"
definition maxTagValueLen :: nat where "maxTagValueLen = 255"
definition maxAliases :: nat where "maxAliases = 4"

lemmas label_defs = labelKind_def labelAccount_def labelInstance_def labelImage_def labelTag_def labelAttachAccount_def labelAttachAliases_def

text \<open>The three regular expressions.\<close>

definition labelEnd :: "char \<Rightarrow> bool" where "labelEnd c \<longleftrightarrow> isLower c \<or> isDigit c"
definition labelChar :: "char \<Rightarrow> bool" where "labelChar c \<longleftrightarrow> labelEnd c \<or> c = CHR ''-''"

text \<open>\<open>[a-z0-9]([a-z0-9-]{0,n}[a-z0-9])?\<close> is a text of at most \<open>n + 2\<close> of these characters that neither starts nor ends with a dash.\<close>

definition dnsLabel :: "nat \<Rightarrow> string \<Rightarrow> bool" where
  "dnsLabel n s \<longleftrightarrow> s \<noteq> [] \<and> length s \<le> n + 2 \<and> list_all labelChar s \<and> labelEnd (hd s) \<and> labelEnd (last s)"

definition instanceName :: "string \<Rightarrow> bool" where "instanceName s \<longleftrightarrow> dnsLabel 61 s"

definition tagKey :: "string \<Rightarrow> bool" where
  "tagKey s \<longleftrightarrow> s \<noteq> [] \<and> length s \<le> 63 \<and>
     list_all (\<lambda>c. isUpper c \<or> isLower c \<or> isDigit c \<or> c = CHR ''.'' \<or> c = CHR ''_'' \<or> c = CHR ''-'') s"

definition twelveDigits :: "string \<Rightarrow> bool" where
  "twelveDigits s \<longleftrightarrow> length s = 12 \<and> list_all isDigit s"

definition chala_validateName :: "string \<Rightarrow> err option" where
  "chala_validateName name =
     (if instanceName name then None
      else Some (Validation (''an instance name is 1-63 of [a-z0-9-], not starting or ending with '' @ [CHR 0x27] @ ''-'' @ [CHR 0x27] @ '': %q'')
        [AStr name]))"

fun validateTagList :: "string strmap \<Rightarrow> err option" where
  "validateTagList [] = None"
| "validateTagList ((k, v) # tags) =
     (if \<not> tagKey k then Some (Validation ''a tag key is 1-63 of [A-Za-z0-9._-]: %q'' [AStr k])
      else if length v > maxTagValueLen then Some (Validation ''tag %q: a value is at most %d bytes'' [AStr k, ANum (int maxTagValueLen)])
      else validateTagList tags)"

definition validateTags :: "string strmap \<Rightarrow> err option" where
  "validateTags tags =
     (if length tags > maxTags then Some (Validation ''at most %d tags, got %d'' [ANum (int maxTags), ANum (int (length tags))])
      else validateTagList tags)"

definition containerName :: "string \<Rightarrow> string \<Rightarrow> string" where
  "containerName account name = ''chala-'' @ account @ ''-'' @ name"

definition NetworkName :: "string \<Rightarrow> string" where "NetworkName account = ''dariya-acct-'' @ account"

definition DNSName :: "string \<Rightarrow> string \<Rightarrow> string" where
  "DNSName account name = name @ ''.'' @ account @ ''.'' @ DNSSuffix"

definition chala_ARN :: "string \<Rightarrow> string \<Rightarrow> string \<Rightarrow> string" where
  "chala_ARN region account name = ''arn:dariya:chala:'' @ region @ '':'' @ account @ '':instance/'' @ name"

definition setLabel :: "string \<Rightarrow> string \<Rightarrow> string strmap \<Rightarrow> string strmap" where
  "setLabel k v labels = AList.update k v labels"

definition instanceLabels :: "string \<Rightarrow> string \<Rightarrow> string \<Rightarrow> string strmap \<Rightarrow> string strmap" where
  "instanceLabels account name imageID tags =
     foldl (\<lambda>labels (k, v). setLabel (labelTag @ k) v labels)
       [(labelKind, kindInstance), (labelAccount, account), (labelInstance, name), (labelImage, imageID)] tags"

definition tagsFrom :: "string strmap \<Rightarrow> string strmap" where
  "tagsFrom labels = List.map_filter (\<lambda>(k, v). map_option (\<lambda>key. (key, v)) (cutPrefix k labelTag)) labels"

definition accountFilter :: "string \<Rightarrow> string list" where
  "accountFilter account = [labelKind @ ''='' @ kindInstance, labelAccount @ ''='' @ account]"

definition aliasSuffix :: "string \<Rightarrow> string \<Rightarrow> string" where
  "aliasSuffix attach service = ''.'' @ attach @ ''.'' @ service @ ''.dariya.internal''"

fun validateAliases :: "string \<Rightarrow> string list \<Rightarrow> err option" where
  "validateAliases suffix [] = None"
| "validateAliases suffix (a # as) =
     (case cutSuffix a suffix of
        Some l \<Rightarrow> (if instanceName l then validateAliases suffix as
            else Some (Validation ''an alias is <label>%s, with a DNS label: %q'' [AStr suffix, AStr a]))
      | None \<Rightarrow> Some (Validation ''an alias is <label>%s, with a DNS label: %q'' [AStr suffix, AStr a]))"

definition validateAttach :: "string \<Rightarrow> string \<Rightarrow> string \<Rightarrow> string list \<Rightarrow> err option" where
  "validateAttach caller service attach aliases =
     (if attach = [] then
        (if aliases \<noteq> [] then Some (Validation ''attachDnsAliases needs attachAccountId'' []) else None)
      else if service = [] then
        Some (ApiErr CodeAccessDenied (''only a service account may attach an instance to another account'' @ [CHR 0x27] @ ''s network'', []) [] [] None)
      else if \<not> twelveDigits attach then Some (Validation ''attachAccountId is twelve digits: %q'' [AStr attach])
      else if attach = caller then Some (Validation (''an instance is already on its own account'' @ [CHR 0x27] @ ''s network'') [])
      else if length aliases > maxAliases then
        Some (Validation ''at most %d aliases, got %d'' [ANum (int maxAliases), ANum (int (length aliases))])
      else validateAliases (aliasSuffix attach service) aliases)"

section \<open>The catalog\<close>

record Image =
  im_ID :: string
  im_Description :: string
  im_Ref :: string
  im_Cmd :: "string list"
  im_MemoryBytes :: int
  im_PidsLimit :: int
  im_Healthcheck :: "Healthcheck option"
  im_Local :: bool

definition EngineImage :: string where "EngineImage = ''img-nache-engine''"

definition healthShell :: string where
  "healthShell =
     (let crlf = [CHR 0x5C, CHR ''r'', CHR 0x5C, CHR ''n'']
      in ''printf '' @ [CHR 0x27] @ ''*1'' @ crlf @ ''$4'' @ crlf @ ''PING'' @ crlf @ [CHR 0x27] @
         '' | nc -w 1 127.0.0.1 6379 | grep -q PONG'')"

definition DefaultCatalog :: "Image list" where
  "DefaultCatalog =
     [\<lparr>im_ID = EngineImage, im_Description = ''The dariyanache engine, listening on 6379. Run by nache, not by hand.'',
       im_Ref = ''dariya/nache-engine:dev'', im_Cmd = [], im_MemoryBytes = 256 * 2 ^ 20, im_PidsLimit = 256,
       im_Healthcheck = Some \<lparr>hc_Shell = healthShell, hc_Interval = second, hc_Timeout = second, hc_StartPeriod = 5 * second, hc_Retries = 3\<rparr>,
       im_Local = True\<rparr>,
      \<lparr>im_ID = ''img-shell'', im_Description = ''A shell on the account network: the client, the bastion, the thing that runs `nc`.'',
       im_Ref = ''busybox:1.36'', im_Cmd = [''sh'', ''-c'', ''while :; do sleep 3600; done''], im_MemoryBytes = 64 * 2 ^ 20, im_PidsLimit = 64,
       im_Healthcheck = None, im_Local = False\<rparr>]"

type_synonym catalog = "Image strmap"

fun addImages :: "catalog \<Rightarrow> Image list \<Rightarrow> err + catalog" where
  "addImages c [] = Inr c"
| "addImages c (img # imgs) =
     (if im_ID img = [] \<or> im_Ref img = [] then
        Inl (Errorf ''chala: catalog entry %+v needs an id and a ref'' [AStr (im_ID img), AStr (im_Ref img)] None)
      else if lookup c (im_ID img) \<noteq> None then Inl (Errorf ''chala: catalog lists %s twice'' [AStr (im_ID img)] None)
      else addImages (c @ [(im_ID img, img)]) imgs)"

definition newCatalog :: "Image list \<Rightarrow> err + catalog" where "newCatalog images = addImages [] images"

section \<open>The server\<close>

definition ChalaService :: string where "ChalaService = ''chala''"
definition ChalaAPIVersion :: string where "ChalaAPIVersion = ''2026-09-30''"
definition ChalaPrefix :: string where "ChalaPrefix = ''/chala/'' @ ChalaAPIVersion"

record ChalaConfig =
  cc_Region :: string
  cc_Catalog :: "Image list"
  cc_MaxInstances :: int
  cc_ServiceAccounts :: "string strmap"
  cc_Dev :: bool

datatype instanceState = INSTANCE_UNSPECIFIED | INSTANCE_PENDING | INSTANCE_RUNNING | INSTANCE_STOPPED | INSTANCE_TERMINATING
datatype instanceHealth = HEALTH_UNSPECIFIED | HEALTH_NONE | HEALTH_STARTING | HEALTH_HEALTHY | HEALTH_UNHEALTHY

record Instance =
  it_Name :: string
  it_Arn :: string
  it_AccountId :: string
  it_ImageId :: string
  it_State :: instanceState
  it_Health :: instanceHealth
  it_ExitCode :: int
  it_Tags :: "string strmap"
  it_PrivateDnsName :: string
  it_PrivateIp :: string
  it_CreatedAtUnixMs :: int
  it_AttachedAccountId :: string
  it_AttachedPrivateIp :: string
  it_AttachedDnsAliases :: "string list"

record RunInstanceRequest =
  ri_Name :: string
  ri_ImageId :: string
  ri_Tags :: "string strmap"
  ri_AttachAccountId :: string
  ri_AttachDnsAliases :: "string list"

datatype chalaMsg =
    MRun Instance | MDescribe Instance | MTerminated | MInstances "Instance list" | MImages "(string \<times> string) list" | MStatus "string strmap"

text \<open>The server, with the daemon it owns, its guard and the libraries it calls.\<close>

record 's ChalaServer =
  sv_Docker :: "'s daemon"
  sv_Guard :: Guard
  sv_Wire :: wire
  sv_Now :: "'s \<Rightarrow> time"
  sv_Rand :: "nat \<Rightarrow> ('s, bytes option) state"
  sv_Mux :: muxLib
  sv_DecodeRun :: "bytes \<Rightarrow> err + RunInstanceRequest"
  sv_Encodable :: "chalaMsg \<Rightarrow> bool"
  sv_Catalog :: catalog
  sv_Config :: ChalaConfig
  sv_Unavailable :: "string list"

definition chala_New :: "'s ChalaServer \<Rightarrow> ChalaConfig \<Rightarrow> err + 's ChalaServer" where
  "chala_New base cfg =
     (case newCatalog (cc_Catalog cfg) of
        Inl e \<Rightarrow> Inl e
      | Inr cat \<Rightarrow>
          (case find (\<lambda>(acct, svc). \<not> twelveDigits acct \<or> \<not> instanceName svc \<or> svc = ChalaService) (cc_ServiceAccounts cfg) of
             Some (acct, svc) \<Rightarrow>
               Inl (Errorf ''chala: service account %q=%q is not <12 digits>=<service>, and the service may not be chala'' [AStr acct, AStr svc] None)
           | None \<Rightarrow>
               Inr (base\<lparr>sv_Catalog := cat, sv_Unavailable := [],
                 sv_Config := cfg\<lparr>cc_MaxInstances := (if cc_MaxInstances cfg \<le> 0 then 20 else cc_MaxInstances cfg)\<rparr>\<rparr>)))"

text \<open>\<open>PrepareImages\<close> goes through the catalog; an error leaves what was found unavailable so far.\<close>

fun prepareImages :: "'s daemon \<Rightarrow> catalog \<Rightarrow> string list \<Rightarrow> ('s, err option \<times> string list) state" where
  "prepareImages d [] gone = ret (None, gone)"
| "prepareImages d ((i, img) # c) gone = do {
     ok \<leftarrow> ImageExists d (im_Ref img);
     case ok of
       Inl e \<Rightarrow> ret (Some e, gone)
     | Inr True \<Rightarrow> prepareImages d c gone
     | Inr False \<Rightarrow>
         if im_Local img then prepareImages d c (im_ID img # gone)
         else do {
           r \<leftarrow> PullImage d (im_Ref img);
           case r of
             Some e \<Rightarrow> ret (Some (Errorf ''chala: pulling %s (%s): %w'' [AStr (im_ID img), AStr (im_Ref img), AErr e] (Some e)), gone)
           | None \<Rightarrow> prepareImages d c gone
         }
   }"

definition PrepareImages :: "'s ChalaServer \<Rightarrow> ('s, err option \<times> 's ChalaServer) state" where
  "PrepareImages s = do {
     r \<leftarrow> prepareImages (sv_Docker s) (sv_Catalog s) (sv_Unavailable s);
     let (e, gone) = r;
     ret (e, s\<lparr>sv_Unavailable := gone\<rparr>)
   }"

subsection \<open>Helpers of the handlers\<close>

definition chala_denied :: "err \<Rightarrow> err" where
  "chala_denied e = ApiErr CodeAccessDenied (''the capability does not authorise this request'', []) [] [] (Some e)"

definition chala_fail :: "'s ChalaServer \<Rightarrow> request \<Rightarrow> err \<Rightarrow> ('m rw \<times> 's, outcome) state" where
  "chala_fail s r e = WriteError r e (cc_Dev (sv_Config s))"

definition bodyLimit :: nat where "bodyLimit = 64 * 2 ^ 10"

text \<open>\<open>io.LimitReader\<close> ends the body at the limit without an error.\<close>

definition limitedBody :: "request \<Rightarrow> bytes option" where
  "limitedBody r = (if hr_BodyFails r \<and> length (hr_Body r) < bodyLimit then None else Some (take bodyLimit (hr_Body r)))"

definition chala_decodeJSON :: "(bytes \<Rightarrow> err + 'a) \<Rightarrow> request \<Rightarrow> err + 'a" where
  "chala_decodeJSON dec r =
     (case limitedBody r of
        None \<Rightarrow> Inl (Validation ''could not read the request body'' [])
      | Some body \<Rightarrow>
          if body = [] then Inl (Validation ''a request body is required'' [])
          else case dec body of
            Inl e \<Rightarrow> Inl (Validation ''the request body is not valid JSON for this operation: %v'' [AErr e])
          | Inr a \<Rightarrow> Inr a)"

definition chala_writeProto :: "'s ChalaServer \<Rightarrow> request \<Rightarrow> nat \<Rightarrow> chalaMsg \<Rightarrow> (chalaMsg rw \<times> 's, outcome) state" where
  "chala_writeProto s r status msg =
     (if \<not> sv_Encodable s msg then WriteError r (Internal (Some (Sentinel ''proto: encoding failed'')) ''could not encode the response'' []) False
      else do {
        setHeader ''Content-Type'' jsonType;
        onRw (WriteHeader status);
        onRw (Write (Msg msg));
        ret Done
      })"

definition chala_authorize :: "'s ChalaServer \<Rightarrow> request \<Rightarrow> string \<Rightarrow> string \<Rightarrow> ('s, err + Capability) state" where
  "chala_authorize s r action name = do {
     now \<leftarrow> gets (sv_Now s);
     case chala_validateName name of
       Some e \<Rightarrow> ret (Inl e)
     | None \<Rightarrow>
         (case guard_Authorize (sv_Wire s) (sv_Guard s) now r \<lparr>in_Action = action, in_ResourceType = ''instance'', in_ResourceID = name\<rparr> of
            Inl e \<Rightarrow> ret (Inl (chala_denied e))
          | Inr cap \<Rightarrow> ret (Inr cap))
   }"

definition chala_find :: "'s ChalaServer \<Rightarrow> string \<Rightarrow> string \<Rightarrow> ('s, err + Container) state" where
  "chala_find s account name = do {
     c \<leftarrow> InspectContainer (sv_Docker s) (containerName account name);
     case c of
       Inl e \<Rightarrow> (if errorsIs e ErrDockerNotFound then ret (Inl (NotFound ''no instance %q'' [AStr name]))
                 else ret (Inl (Internal (Some e) ''could not look up the instance'' [])))
     | Inr c \<Rightarrow> (if getOr [] (ct_Labels c) labelAccount \<noteq> account then ret (Inl (NotFound ''no instance %q'' [AStr name])) else ret (Inr c))
   }"

definition chala_state :: "string \<Rightarrow> instanceState" where
  "chala_state status =
     (if status = ''created'' then INSTANCE_PENDING
      else if status \<in> {''running'', ''restarting'', ''paused''} then INSTANCE_RUNNING
      else if status \<in> {''exited'', ''dead''} then INSTANCE_STOPPED
      else if status = ''removing'' then INSTANCE_TERMINATING
      else INSTANCE_UNSPECIFIED)"

definition chala_health :: "string \<Rightarrow> instanceHealth" where
  "chala_health h =
     (if h = [] then HEALTH_NONE else if h = ''starting'' then HEALTH_STARTING else if h = ''healthy'' then HEALTH_HEALTHY
      else if h = ''unhealthy'' then HEALTH_UNHEALTHY else HEALTH_UNSPECIFIED)"

definition sameTags :: "string strmap \<Rightarrow> string strmap \<Rightarrow> bool" where
  "sameTags a b \<longleftrightarrow> length a = length b \<and> list_all (\<lambda>(k, v). lookup b k = Some v) a"

definition chala_instance :: "'s ChalaServer \<Rightarrow> Container \<Rightarrow> Instance" where
  "chala_instance s c =
     (let account = getOr [] (ct_Labels c) labelAccount; name = getOr [] (ct_Labels c) labelInstance;
          a = getOr [] (ct_Labels c) labelAttachAliases; attach = getOr [] (ct_Labels c) labelAttachAccount
      in \<lparr>it_Name = name, it_Arn = chala_ARN (cc_Region (sv_Config s)) account name, it_AccountId = account,
          it_ImageId = getOr [] (ct_Labels c) labelImage, it_State = chala_state (ct_Status c), it_Health = chala_health (ct_Health c),
          it_ExitCode = sint (word_of_int (ct_ExitCode c) :: 32 word), it_Tags = tagsFrom (ct_Labels c),
          it_PrivateDnsName = DNSName account name, it_PrivateIp = getOr [] (ct_Networks c) (NetworkName account),
          it_CreatedAtUnixMs = unixMilli (ct_Created c), it_AttachedAccountId = attach,
          it_AttachedPrivateIp = (if attach = [] then [] else getOr [] (ct_Networks c) (NetworkName attach)),
          it_AttachedDnsAliases = (if a = [] then [] else splitOn CHR '','' a)\<rparr>)"

definition respondWith :: "'s ChalaServer \<Rightarrow> request \<Rightarrow> nat \<Rightarrow> string \<Rightarrow> (chalaMsg rw \<times> 's, outcome) state" where
  "respondWith s r status ident = do {
     c \<leftarrow> inState (InspectContainer (sv_Docker s) ident);
     case c of
       Inl e \<Rightarrow> chala_fail s r (Internal (Some e) ''the instance was started but could not be described'' [])
     | Inr c \<Rightarrow> chala_writeProto s r status (MRun (chala_instance s c))
   }"

subsection \<open>Running an instance\<close>

definition accountNetwork :: "string \<Rightarrow> NetworkSpec" where
  "accountNetwork account =
     \<lparr>nt_Name = NetworkName account, nt_Labels = [(labelKind, kindNetwork), (labelAccount, account)], nt_Internal = True\<rparr>"

definition startCreated :: "'s ChalaServer \<Rightarrow> Container \<Rightarrow> ('s, err option) state" where
  "startCreated s c =
     (if ct_Status c = ''created'' then do {
        r \<leftarrow> StartContainer (sv_Docker s) (ct_ID c);
        case r of Some e \<Rightarrow> ret (Some (Internal (Some e) ''the instance was created but did not start'' [])) | None \<Rightarrow> ret None
      }
      else ret None)"

definition finish :: "'s ChalaServer \<Rightarrow> Container \<Rightarrow> RunInstanceRequest \<Rightarrow> ('s, err option) state" where
  "finish s c req =
     (let attach = ri_AttachAccountId req; net = NetworkName attach in
      if attach \<noteq> [] \<and> lookup (ct_Networks c) net = None then do {
        r \<leftarrow> EnsureNetwork (sv_Docker s) (accountNetwork attach);
        case r of
          Some e \<Rightarrow> ret (Some (Internal (Some e) (''could not prepare the attached account'' @ [CHR 0x27] @ ''s network'') []))
        | None \<Rightarrow> do {
            r \<leftarrow> ConnectNetwork (sv_Docker s) net (ct_ID c) (ri_AttachDnsAliases req);
            case r of
              Some e \<Rightarrow> ret (Some (Internal (Some e) ''the instance was created but could not be attached'' []))
            | None \<Rightarrow> startCreated s c
          }
      }
      else startCreated s c)"

definition sameRequest :: "Container \<Rightarrow> RunInstanceRequest \<Rightarrow> bool" where
  "sameRequest c req \<longleftrightarrow> getOr [] (ct_Labels c) labelImage = ri_ImageId req \<and> sameTags (tagsFrom (ct_Labels c)) (ri_Tags req) \<and>
     getOr [] (ct_Labels c) labelAttachAccount = ri_AttachAccountId req \<and>
     getOr [] (ct_Labels c) labelAttachAliases = joinWith '','' (ri_AttachDnsAliases req)"

definition adopt :: "'s ChalaServer \<Rightarrow> request \<Rightarrow> Container \<Rightarrow> RunInstanceRequest \<Rightarrow> (chalaMsg rw \<times> 's, outcome) state" where
  "adopt s r c req =
     (if \<not> sameRequest c req then
        chala_fail s r (ApiErr CodeIdempotencyMis (''instance %q exists with a different image, tags or attachment'', [AStr (ri_Name req)]) [] [] None)
      else do {
        res \<leftarrow> inState (finish s c req);
        case res of Some e \<Rightarrow> chala_fail s r e | None \<Rightarrow> respondWith s r 200 (ct_ID c)
      })"

definition runLabels :: "string \<Rightarrow> string \<Rightarrow> Image \<Rightarrow> RunInstanceRequest \<Rightarrow> string strmap" where
  "runLabels account name img req =
     (let labels = instanceLabels account name (im_ID img) (ri_Tags req) in
      if ri_AttachAccountId req \<noteq> [] then
        setLabel labelAttachAliases (joinWith '','' (ri_AttachDnsAliases req)) (setLabel labelAttachAccount (ri_AttachAccountId req) labels)
      else labels)"

definition runSpec :: "string \<Rightarrow> string \<Rightarrow> Image \<Rightarrow> RunInstanceRequest \<Rightarrow> ContainerSpec" where
  "runSpec account name img req =
     \<lparr>sp_Image = im_Ref img, sp_Cmd = im_Cmd img, sp_Env = [], sp_Labels = runLabels account name img req, sp_Network = NetworkName account,
      sp_Aliases = [DNSName account name], sp_MemoryBytes = im_MemoryBytes img, sp_PidsLimit = im_PidsLimit img,
      sp_Healthcheck = im_Healthcheck img\<rparr>"

text \<open>From the lookup of the quota on: a name that has no container yet.\<close>

definition createInstance :: "'s ChalaServer \<Rightarrow> request \<Rightarrow> string \<Rightarrow> string \<Rightarrow> Image \<Rightarrow> RunInstanceRequest \<Rightarrow> (chalaMsg rw \<times> 's, outcome) state" where
  "createInstance s r account name img req = do {
     ids \<leftarrow> inState (ListContainers (sv_Docker s) (accountFilter account));
     case ids of
       Inl e \<Rightarrow> chala_fail s r (Internal (Some e) (''could not count the account'' @ [CHR 0x27] @ ''s instances'') [])
     | Inr ids \<Rightarrow>
         if int (length ids) \<ge> cc_MaxInstances (sv_Config s) then
           chala_fail s r (ApiErr CodeLimitExceeded (''the account already has %d instances, the most it may have'', [ANum (int (length ids))]) [] [] None)
         else do {
           net \<leftarrow> inState (EnsureNetwork (sv_Docker s) (accountNetwork account));
           case net of
             Some e \<Rightarrow> chala_fail s r (Internal (Some e) ''could not prepare the account network'' [])
           | None \<Rightarrow> do {
               i \<leftarrow> inState (CreateContainer (sv_Docker s) (containerName account name) (runSpec account name img req));
               case i of
                 Inl e \<Rightarrow>
                   if errorsIs e ErrDockerConflict then do {
                     existing \<leftarrow> inState (InspectContainer (sv_Docker s) (containerName account name));
                     case existing of
                       Inl e \<Rightarrow> chala_fail s r (Internal (Some e) ''could not look up the instance'' [])
                     | Inr c \<Rightarrow> adopt s r c req
                   }
                   else chala_fail s r (Internal (Some e) ''could not create the instance'' [])
               | Inr i \<Rightarrow> do {
                   c \<leftarrow> inState (InspectContainer (sv_Docker s) i);
                   case c of
                     Inl e \<Rightarrow> chala_fail s r (Internal (Some e) ''the instance was created but could not be described'' [])
                   | Inr c \<Rightarrow> do {
                       res \<leftarrow> inState (finish s c req);
                       case res of Some e \<Rightarrow> chala_fail s r e | None \<Rightarrow> respondWith s r 200 i
                     }
                 }
             }
         }
   }"

text \<open>The checks on a request before the daemon is asked anything, in their order.\<close>

definition runRequest :: "'s ChalaServer \<Rightarrow> request \<Rightarrow> string \<Rightarrow> string \<Rightarrow> err + RunInstanceRequest \<times> Image" where
  "runRequest s r account name =
     (case chala_decodeJSON (sv_DecodeRun s) r of
        Inl e \<Rightarrow> Inl e
      | Inr req \<Rightarrow>
          let req = req\<lparr>ri_Name := name\<rparr> in
          (case lookup (sv_Catalog s) (ri_ImageId req) of
             None \<Rightarrow> Inl (Validation ''no image %q in the catalog: see DescribeImages'' [AStr (ri_ImageId req)])
           | Some img \<Rightarrow>
               if im_ID img \<in> set (sv_Unavailable s) then Inl (Validation ''image %q is not built in this region yet'' [AStr (im_ID img)])
               else case validateTags (ri_Tags req) of
                 Some e \<Rightarrow> Inl e
               | None \<Rightarrow>
                   (case validateAttach account (getOr [] (cc_ServiceAccounts (sv_Config s)) account) (ri_AttachAccountId req) (ri_AttachDnsAliases req) of
                      Some e \<Rightarrow> Inl e
                    | None \<Rightarrow> Inr (req, img))))"

definition runInstance :: "'s ChalaServer \<Rightarrow> string \<Rightarrow> (chalaMsg, 's) handler" where
  "runInstance s name r = do {
     cap \<leftarrow> inState (chala_authorize s r ''chala:RunInstance'' name);
     case cap of
       Inl e \<Rightarrow> chala_fail s r e
     | Inr cap \<Rightarrow>
         let account = cp_AccountId cap in
         (case runRequest s r account name of
            Inl e \<Rightarrow> chala_fail s r e
          | Inr (req, img) \<Rightarrow> do {
              existing \<leftarrow> inState (InspectContainer (sv_Docker s) (containerName account name));
              case existing of
                Inr c \<Rightarrow> adopt s r c req
              | Inl e \<Rightarrow>
                  if \<not> errorsIs e ErrDockerNotFound then chala_fail s r (Internal (Some e) ''could not look up the instance'' [])
                  else createInstance s r account name img req
            })
   }"

subsection \<open>The other handlers\<close>

definition describeInstance :: "'s ChalaServer \<Rightarrow> string \<Rightarrow> (chalaMsg, 's) handler" where
  "describeInstance s name r = do {
     cap \<leftarrow> inState (chala_authorize s r ''chala:DescribeInstance'' name);
     case cap of
       Inl e \<Rightarrow> chala_fail s r e
     | Inr cap \<Rightarrow> do {
         c \<leftarrow> inState (chala_find s (cp_AccountId cap) name);
         case c of Inl e \<Rightarrow> chala_fail s r e | Inr c \<Rightarrow> chala_writeProto s r 200 (MDescribe (chala_instance s c))
       }
   }"

definition terminateInstance :: "'s ChalaServer \<Rightarrow> string \<Rightarrow> (chalaMsg, 's) handler" where
  "terminateInstance s name r = do {
     cap \<leftarrow> inState (chala_authorize s r ''chala:TerminateInstance'' name);
     case cap of
       Inl e \<Rightarrow> chala_fail s r e
     | Inr cap \<Rightarrow> do {
         c \<leftarrow> inState (chala_find s (cp_AccountId cap) name);
         case c of
           Inl e \<Rightarrow> chala_fail s r e
         | Inr c \<Rightarrow> do {
             res \<leftarrow> inState (RemoveContainer (sv_Docker s) (ct_ID c));
             case res of
               Some e \<Rightarrow> chala_fail s r (Internal (Some e) ''could not terminate the instance'' [])
             | None \<Rightarrow> chala_writeProto s r 200 MTerminated
           }
       }
   }"

fun tagFilters :: "urlValues \<Rightarrow> err + string list" where
  "tagFilters [] = Inr []"
| "tagFilters ((key, values) # q) =
     (case cutPrefix key ''tag.'' of
        None \<Rightarrow> tagFilters q
      | Some tag \<Rightarrow>
          if \<not> tagKey tag \<or> length values \<noteq> 1 then Inl (Validation ''a tag filter is tag.<key>=<value>, once per key: %q'' [AStr key])
          else (case tagFilters q of Inl e \<Rightarrow> Inl e | Inr fs \<Rightarrow> Inr ((labelTag @ tag @ ''='' @ hd values) # fs)))"

text \<open>The instances of a list of ids that still exist and are the account's.\<close>

fun describeAll :: "'s ChalaServer \<Rightarrow> string \<Rightarrow> string list \<Rightarrow> ('s, err + Instance list) state" where
  "describeAll s account [] = ret (Inr [])"
| "describeAll s account (i # ids) = do {
     c \<leftarrow> InspectContainer (sv_Docker s) i;
     case c of
       Inl e \<Rightarrow> (if errorsIs e ErrDockerNotFound then describeAll s account ids
                 else ret (Inl (Internal (Some e) ''could not describe an instance'' [])))
     | Inr c \<Rightarrow>
         if getOr [] (ct_Labels c) labelAccount \<noteq> account then describeAll s account ids
         else do {
           r \<leftarrow> describeAll s account ids;
           case r of Inl e \<Rightarrow> ret (Inl e) | Inr is \<Rightarrow> ret (Inr (chala_instance s c # is))
         }
   }"

text \<open>Go compares strings byte by byte.\<close>

definition byteOrder :: "string \<Rightarrow> nat list" where "byteOrder s = map of_char s"

definition describeInstances :: "'s ChalaServer \<Rightarrow> (chalaMsg, 's) handler" where
  "describeInstances s r = do {
     now \<leftarrow> inState (gets (sv_Now s));
     case guard_AuthorizeAccount (sv_Wire s) (sv_Guard s) now r ''chala:DescribeInstances'' of
       Inl e \<Rightarrow> chala_fail s r (chala_denied e)
     | Inr cap \<Rightarrow>
         (case tagFilters (hr_Query r) of
            Inl e \<Rightarrow> chala_fail s r e
          | Inr fs \<Rightarrow> do {
              ids \<leftarrow> inState (ListContainers (sv_Docker s) (accountFilter (cp_AccountId cap) @ fs));
              case ids of
                Inl e \<Rightarrow> chala_fail s r (Internal (Some e) ''could not list instances'' [])
              | Inr ids \<Rightarrow> do {
                  is \<leftarrow> inState (describeAll s (cp_AccountId cap) ids);
                  case is of
                    Inl e \<Rightarrow> chala_fail s r e
                  | Inr is \<Rightarrow> chala_writeProto s r 200 (MInstances (sort_key (\<lambda>i. byteOrder (it_Name i)) is))
                }
            })
   }"

definition availableImages :: "'s ChalaServer \<Rightarrow> (string \<times> string) list" where
  "availableImages s =
     sort_key (\<lambda>(i, d). byteOrder i)
       (List.map_filter (\<lambda>(i, img). if im_ID img \<in> set (sv_Unavailable s) then None else Some (im_ID img, im_Description img)) (sv_Catalog s))"

definition describeImages :: "'s ChalaServer \<Rightarrow> (chalaMsg, 's) handler" where
  "describeImages s r = do {
     now \<leftarrow> inState (gets (sv_Now s));
     case guard_AuthorizeAccount (sv_Wire s) (sv_Guard s) now r ''chala:DescribeImages'' of
       Inl e \<Rightarrow> chala_fail s r (chala_denied e)
     | Inr cap \<Rightarrow> chala_writeProto s r 200 (MImages (availableImages s))
   }"

definition chala_healthz :: "'s ChalaServer \<Rightarrow> (chalaMsg, 's) handler" where
  "chala_healthz s r = do {
     res \<leftarrow> inState (docker_Ping (sv_Docker s));
     case res of
       Some e \<Rightarrow> WriteJSON r 503 (Some (MStatus [(''status'', ''no daemon'')]))
     | None \<Rightarrow> WriteJSON r 200 (Some (MStatus [(''status'', ''ok'')]))
   }"

definition instancePattern :: "muxSegment list" where "instancePattern = litPattern (ChalaPrefix @ ''/instances'') @ [Wild]"

definition chalaRoutes :: "'s ChalaServer \<Rightarrow> (chalaMsg, 's) muxRoute list" where
  "chalaRoutes s =
     [\<lparr>mr_Method = ''PUT'', mr_Pattern = instancePattern, mr_Handler = (\<lambda>vs. runInstance s (hd vs))\<rparr>,
      \<lparr>mr_Method = ''GET'', mr_Pattern = instancePattern, mr_Handler = (\<lambda>vs. describeInstance s (hd vs))\<rparr>,
      \<lparr>mr_Method = ''DELETE'', mr_Pattern = instancePattern, mr_Handler = (\<lambda>vs. terminateInstance s (hd vs))\<rparr>,
      \<lparr>mr_Method = ''GET'', mr_Pattern = litPattern (ChalaPrefix @ ''/instances''), mr_Handler = (\<lambda>_. describeInstances s)\<rparr>,
      \<lparr>mr_Method = ''GET'', mr_Pattern = litPattern (ChalaPrefix @ ''/images''), mr_Handler = (\<lambda>_. describeImages s)\<rparr>,
      \<lparr>mr_Method = ''GET'', mr_Pattern = litPattern ''/healthz'', mr_Handler = (\<lambda>_. chala_healthz s)\<rparr>]"

definition chala_Handler :: "'s ChalaServer \<Rightarrow> (chalaMsg, 's) handler" where
  "chala_Handler s = Chain (serviceMux (sv_Mux s) (chalaRoutes s)) [AdoptRequestID (sv_Rand s), Recover (cc_Dev (sv_Config s)), AccessLog]"

end
