(* ===== verification/Nache_Compute.thy ===== *)
theory Nache_Compute
  imports Nache_Store Chala Signing
begin

text \<open>
  What the cache service needs of the compute service (\<open>internal/nache/compute.go\<close>): the interface that the reconciler
  is written against, and the client that implements it with signed requests to the front door. The transport
  is a function over the state of whatever answers; protojson and \<open>encoding/json\<close> are parameters.
\<close>

section \<open>The interface\<close>

record 'f Compute =
  cm_Nodes :: "('f, err + Instance list) state"
  cm_RunNode :: "Cluster \<Rightarrow> ('f, err + Instance) state"
  cm_Terminate :: "string \<Rightarrow> ('f, err option) state"

definition NacheService :: string where "NacheService = ''nache''"
definition tagManagedBy :: string where "tagManagedBy = ''managed-by''"
definition tagClusterAccount :: string where "tagClusterAccount = ''cluster-account''"
definition tagCluster :: string where "tagCluster = ''cluster''"

definition NodeName :: "string \<Rightarrow> string \<Rightarrow> string" where
  "NodeName account cluster = ''n-'' @ account @ ''-'' @ cluster"

text \<open>The stable name of a cluster (\<open>internal/nache/api.go\<close>).\<close>

definition Endpoint :: "string \<Rightarrow> string \<Rightarrow> string" where
  "Endpoint account name = name @ ''.'' @ account @ ''.nache.dariya.internal''"

definition clusterName :: "string \<Rightarrow> bool" where "clusterName s \<longleftrightarrow> dnsLabel 38 s"

section \<open>The client\<close>

record outRequest =
  or_Method :: string
  or_URL :: string
  or_Path :: string
  or_Query :: urlValues
  or_Header :: "(string \<times> string) list"
  or_Body :: bytes

text \<open>
  \<open>cl_HTTP\<close> answers with a status and a body, where \<^const>\<open>None\<close> is a body that breaks off before \<open>maxAnswer\<close> bytes
  have been read, which is as far as the client reads; \<open>cl_NewRequest\<close> is whether \<open>net/http\<close> accepts the
  method and the URL. \<open>cl_Shape\<close> reads code, message and request id of an error, leaving empty what it cannot read.
\<close>

record 'f ChalaClient =
  cl_FrontDoor :: string
  cl_Region :: string
  cl_Credentials :: Credentials
  cl_HTTP :: "outRequest \<Rightarrow> ('f, err + nat \<times> bytes option) state"
  cl_Now :: "'f \<Rightarrow> civil"
  cl_NewRequest :: "string \<Rightarrow> string \<Rightarrow> err option"
  cl_EncodeQuery :: "urlValues \<Rightarrow> string"
  cl_MarshalRun :: "RunInstanceRequest \<Rightarrow> err + bytes"
  cl_Shape :: "bytes \<Rightarrow> string \<times> string \<times> string"
  cl_ParseRun :: "bytes \<Rightarrow> err + Instance"
  cl_ParseInstances :: "bytes \<Rightarrow> err + Instance list"

definition chalaErrorString :: "nat \<Rightarrow> string \<Rightarrow> string \<Rightarrow> string \<Rightarrow> message" where
  "chalaErrorString status code msg reqid = (''chala: %d %s: %s (request %s)'', [ANum (int status), AStr code, AStr msg, AStr reqid])"

definition chalaPrefix :: string where "chalaPrefix = ''/chala/2026-09-30''"

definition maxAnswer :: nat where "maxAnswer = 4 * 2 ^ 20"

definition chalaRequest :: "'f ChalaClient \<Rightarrow> civil \<Rightarrow> string \<Rightarrow> string \<Rightarrow> urlValues \<Rightarrow> bytes option \<Rightarrow> outRequest" where
  "chalaRequest cl now method path query raw =
     (let body = (case raw of None \<Rightarrow> [] | Some b \<Rightarrow> b);
          (auth, headers) = sg_Sign \<lparr>sr_Method = method, sr_Path = path, sr_Query = query, sr_Body = body\<rparr>
            (cl_Credentials cl) (cl_Region cl) ''chala'' now
      in \<lparr>or_Method = method, or_URL = cl_FrontDoor cl @ path @ (if query = [] then [] else ''?'' @ cl_EncodeQuery cl query),
          or_Path = path, or_Query = query,
          or_Header = (''Authorization'', auth) # headers @ (if raw = None then [] else [(''Content-Type'', ''application/json'')]),
          or_Body = body\<rparr>)"

definition chala_do :: "'f ChalaClient \<Rightarrow> string \<Rightarrow> string \<Rightarrow> urlValues \<Rightarrow> RunInstanceRequest option \<Rightarrow> (bytes \<Rightarrow> err + 'a) option \<Rightarrow> ('f, err + 'a option) state" where
  "chala_do cl method path query body into =
     (case (case body of None \<Rightarrow> Inr None | Some req \<Rightarrow> (case cl_MarshalRun cl req of Inl e \<Rightarrow> Inl e | Inr b \<Rightarrow> Inr (Some b))) of
        Inl e \<Rightarrow> ret (Inl e)
      | Inr raw \<Rightarrow> do {
          now \<leftarrow> gets (cl_Now cl);
          let req = chalaRequest cl now method path query raw;
          case cl_NewRequest cl method (or_URL req) of
            Some e \<Rightarrow> ret (Inl e)
          | None \<Rightarrow> do {
              resp \<leftarrow> cl_HTTP cl req;
              case resp of
                Inl e \<Rightarrow> ret (Inl (Errorf ''chala: %s %s: %w'' [AStr method, AStr path, AErr e] (Some e)))
              | Inr (status, out) \<Rightarrow>
                  (case out of
                     None \<Rightarrow> ret (Inl (Sentinel ''unexpected EOF''))
                   | Some out \<Rightarrow>
                       let out = take maxAnswer out in
                       if status \<ge> 300 then
                         (case cl_Shape cl out of (code, msg, reqid) \<Rightarrow> ret (Inl (ChalaErr status code msg reqid)))
                       else (case into of
                         None \<Rightarrow> ret (Inr None)
                       | Some parse \<Rightarrow>
                           (case parse out of
                              Inl e \<Rightarrow> ret (Inl (Errorf ''chala: decoding %s %s: %w'' [AStr method, AStr path, AErr e] (Some e)))
                            | Inr a \<Rightarrow> ret (Inr (Some a)))))
            }
        })"

definition client_Nodes :: "'f ChalaClient \<Rightarrow> ('f, err + Instance list) state" where
  "client_Nodes cl = do {
     r \<leftarrow> chala_do cl ''GET'' (chalaPrefix @ ''/instances'') [(''tag.'' @ tagManagedBy, [NacheService])] None (Some (cl_ParseInstances cl));
     case r of Inl e \<Rightarrow> ret (Inl e) | Inr is \<Rightarrow> ret (Inr (case is of None \<Rightarrow> [] | Some is \<Rightarrow> is))
   }"

definition nodeTags :: "string \<Rightarrow> string \<Rightarrow> string strmap" where
  "nodeTags account cluster = [(tagManagedBy, NacheService), (tagClusterAccount, account), (tagCluster, cluster)]"

text \<open>The name of the instance travels in the path only.\<close>

definition nodeRequest :: "string \<Rightarrow> string \<Rightarrow> RunInstanceRequest" where
  "nodeRequest account cluster =
     \<lparr>ri_Name = [], ri_ImageId = ''img-nache-engine'', ri_Tags = nodeTags account cluster, ri_AttachAccountId = account,
      ri_AttachDnsAliases = [Endpoint account cluster]\<rparr>"

definition emptyInstance :: Instance where
  "emptyInstance = \<lparr>it_Name = [], it_Arn = [], it_AccountId = [], it_ImageId = [], it_State = INSTANCE_UNSPECIFIED, it_Health = HEALTH_UNSPECIFIED,
     it_ExitCode = 0, it_Tags = [], it_PrivateDnsName = [], it_PrivateIp = [], it_CreatedAtUnixMs = 0, it_AttachedAccountId = [],
     it_AttachedPrivateIp = [], it_AttachedDnsAliases = []\<rparr>"

definition client_RunNode :: "'f ChalaClient \<Rightarrow> Cluster \<Rightarrow> ('f, err + Instance) state" where
  "client_RunNode cl c = (let account = cluster_Account c in do {
     r \<leftarrow> chala_do cl ''PUT'' (chalaPrefix @ ''/instances/'' @ NodeName account (cu_Name c)) [] (Some (nodeRequest account (cu_Name c))) (Some (cl_ParseRun cl));
     case r of Inl e \<Rightarrow> ret (Inl e) | Inr i \<Rightarrow> ret (Inr (case i of None \<Rightarrow> emptyInstance | Some i \<Rightarrow> i))
   })"

text \<open>\<open>errors.As\<close> with the client's error as the target.\<close>

fun asChala :: "err \<Rightarrow> (nat \<times> string) option" where
  "asChala (ChalaErr st code m q) = Some (st, code)"
| "asChala (ApiErr c m r d k) = (case k of None \<Rightarrow> None | Some e \<Rightarrow> asChala e)"
| "asChala (Errorf f a k) = (case k of None \<Rightarrow> None | Some e \<Rightarrow> asChala e)"
| "asChala e = None"

definition client_Terminate :: "'f ChalaClient \<Rightarrow> string \<Rightarrow> ('f, err option) state" where
  "client_Terminate cl n = do {
     r \<leftarrow> chala_do cl ''DELETE'' (chalaPrefix @ ''/instances/'' @ n) [] None (None :: (bytes \<Rightarrow> err + unit) option);
     case r of
       Inr _ \<Rightarrow> ret None
     | Inl e \<Rightarrow>
         (case asChala e of
            Some (status, code) \<Rightarrow> (if code = ''ResourceNotFound'' then ret None else ret (Some e))
          | None \<Rightarrow> ret (Some e))
   }"

definition chalaCompute :: "'f ChalaClient \<Rightarrow> 'f Compute" where
  "chalaCompute cl = \<lparr>cm_Nodes = client_Nodes cl, cm_RunNode = client_RunNode cl, cm_Terminate = client_Terminate cl\<rparr>"

end
