(* ===== verification/Nache_Api.thy ===== *)
theory Nache_Api
  imports Nache_Compute Control
begin

text \<open>
  The API of the cache service (\<open>internal/nache/api.go\<close>). Its handlers only record what should exist; the
  reconciler makes it so. A handler runs over the world of the store.
\<close>

section \<open>Names and answers\<close>

definition NacheAPIVersion :: string where "NacheAPIVersion = ''2026-09-30''"
definition NachePrefix :: string where "NachePrefix = ''/nache/'' @ NacheAPIVersion"
definition Port :: nat where "Port = 6379"

text \<open>Node statuses as stored.\<close>

definition nodeCreating :: string where "nodeCreating = ''creating''"
definition nodeAvailable :: string where "nodeAvailable = ''available''"
definition nodeImpaired :: string where "nodeImpaired = ''impaired''"

datatype cacheNodeStatus = NODE_UNSPECIFIED | NODE_CREATING | NODE_AVAILABLE | NODE_IMPAIRED

record CacheNode =
  cn_NodeId :: string
  cn_Status :: cacheNodeStatus
  cn_ObservedAtUnixMs :: int

record CacheCluster =
  nc_Name :: string
  nc_Arn :: string
  nc_AccountId :: string
  nc_State :: ResourceState
  nc_Endpoint :: string
  nc_CreatedAtUnixMs :: int
  nc_UpdatedAtUnixMs :: int
  nc_Nodes :: "CacheNode list"

datatype nacheMsg = NCreated CacheCluster | NDescribed CacheCluster | NDeleted CacheCluster | NListed "CacheCluster list" | NStatus "string strmap"

fun toResourceState :: "clusterState \<Rightarrow> ResourceState" where
  "toResourceState Creating = RS_CREATING"
| "toResourceState Active = RS_ACTIVE"
| "toResourceState Deleting = RS_DELETING"

definition nodeStatus :: "string \<Rightarrow> cacheNodeStatus" where
  "nodeStatus s =
     (if s = nodeCreating then NODE_CREATING else if s = nodeAvailable then NODE_AVAILABLE
      else if s = nodeImpaired then NODE_IMPAIRED else NODE_UNSPECIFIED)"

section \<open>The server\<close>

record APIConfig =
  ac_Region :: string
  ac_MaxClusters :: int
  ac_Dev :: bool

text \<open>The server, with the libraries it calls; \<open>na_DecodeCreate\<close> is whether protojson refuses a body.\<close>

record ('c, 'f) NacheAPI =
  na_Store :: "'c clusterStore"
  na_Guard :: Guard
  na_Config :: APIConfig
  na_Wire :: wire
  na_Now :: "'f nworld \<Rightarrow> time"
  na_Rand :: "nat \<Rightarrow> ('f nworld, bytes option) state"
  na_Mux :: muxLib
  na_DecodeCreate :: "bytes \<Rightarrow> err option"
  na_Encodable :: "nacheMsg \<Rightarrow> bool"

definition NewAPI :: "('c, 'f) NacheAPI \<Rightarrow> APIConfig \<Rightarrow> ('c, 'f) NacheAPI" where
  "NewAPI base cfg = base\<lparr>na_Config := (if ac_MaxClusters cfg \<le> 0 then cfg\<lparr>ac_MaxClusters := 5\<rparr> else cfg)\<rparr>"

definition nache_render :: "('c, 'f) NacheAPI \<Rightarrow> Cluster \<Rightarrow> CacheCluster" where
  "nache_render a c =
     \<lparr>nc_Name = cu_Name c, nc_Arn = ''arn:dariya:nache:'' @ ac_Region (na_Config a) @ '':'' @ cluster_Account c @ '':cluster/'' @ cu_Name c,
      nc_AccountId = cluster_Account c, nc_State = toResourceState (cu_State c),
      nc_Endpoint = Endpoint (cluster_Account c) (cu_Name c) @ '':'' @ decimal Port,
      nc_CreatedAtUnixMs = unixMilli (cu_CreatedAt c), nc_UpdatedAtUnixMs = unixMilli (cu_UpdatedAt c),
      nc_Nodes = map (\<lambda>n. \<lparr>cn_NodeId = nd_ID n, cn_Status = nodeStatus (nd_Status n), cn_ObservedAtUnixMs = unixMilli (nd_ObservedAt n)\<rparr>) (cu_Nodes c)\<rparr>"

definition nache_notFound :: "err \<Rightarrow> string \<Rightarrow> err" where
  "nache_notFound e name =
     (if errorsIs e ErrClusterNotFound then NotFound ''no cache cluster %q'' [AStr name]
      else Internal (Some e) ''could not look up the cluster'' [])"

definition nache_denied :: "err \<Rightarrow> err" where
  "nache_denied e = ApiErr CodeAccessDenied (''the capability does not authorise this request'', []) [] [] (Some e)"

definition nache_fail :: "('c, 'f) NacheAPI \<Rightarrow> request \<Rightarrow> err \<Rightarrow> ('m rw \<times> 'f nworld, outcome) state" where
  "nache_fail a r e = WriteError r e (ac_Dev (na_Config a))"

definition decodeOptionalJSON :: "(bytes \<Rightarrow> err option) \<Rightarrow> request \<Rightarrow> err option" where
  "decodeOptionalJSON dec r =
     (case limitedBody r of
        None \<Rightarrow> Some (Validation ''could not read the request body'' [])
      | Some body \<Rightarrow>
          if body = [] then None
          else (case dec body of
            Some e \<Rightarrow> Some (Validation ''the request body is not valid JSON for this operation: %v'' [AErr e])
          | None \<Rightarrow> None))"

definition nache_writeProto :: "('c, 'f) NacheAPI \<Rightarrow> request \<Rightarrow> nat \<Rightarrow> nacheMsg \<Rightarrow> (nacheMsg rw \<times> 'f nworld, outcome) state" where
  "nache_writeProto a r status msg =
     (if \<not> na_Encodable a msg then WriteError r (Internal (Some (Sentinel ''proto: encoding failed'')) ''could not encode the response'' []) False
      else do {
        setHeader ''Content-Type'' jsonType;
        onRw (WriteHeader status);
        onRw (Write (Msg msg));
        ret Done
      })"

definition nache_authorize :: "('c, 'f) NacheAPI \<Rightarrow> request \<Rightarrow> string \<Rightarrow> string \<Rightarrow> ('f nworld, err + Capability) state" where
  "nache_authorize a r action name = do {
     now \<leftarrow> gets (na_Now a);
     if \<not> clusterName name then
       ret (Inl (Validation (''a cluster name is 1-40 of [a-z0-9-], not starting or ending with '' @ [CHR 0x27] @ ''-'' @ [CHR 0x27] @ '': %q'')
         [AStr name]))
     else (case guard_Authorize (na_Wire a) (na_Guard a) now r \<lparr>in_Action = action, in_ResourceType = ''cluster'', in_ResourceID = name\<rparr> of
       Inl e \<Rightarrow> ret (Inl (nache_denied e))
     | Inr cap \<Rightarrow> ret (Inr cap))
   }"

subsection \<open>Handlers\<close>

text \<open>The quota, which is asked for only when the name is not taken.\<close>

definition underQuota :: "('c, 'f) NacheAPI \<Rightarrow> Capability \<Rightarrow> string \<Rightarrow> ('f nworld, err option) state" where
  "underQuota a cap name = do {
     c \<leftarrow> store_Get (na_Store a) cap name;
     case c of
       Inr _ \<Rightarrow> ret None
     | Inl e \<Rightarrow>
         if errorsIs e ErrClusterNotFound then do {
           n \<leftarrow> store_Count cap;
           case n of
             Inl e \<Rightarrow> ret (Some (Internal (Some e) ''could not count clusters'' []))
           | Inr n \<Rightarrow>
               if int n \<ge> ac_MaxClusters (na_Config a) then
                 ret (Some (ApiErr CodeLimitExceeded (''the account already has %d cache clusters, the most it may have'', [ANum (int n)]) [] [] None))
               else ret None
         }
         else ret (Some (Internal (Some e) ''could not look up the cluster'' []))
   }"

definition nache_create :: "('c, 'f) NacheAPI \<Rightarrow> string \<Rightarrow> request \<Rightarrow> (nacheMsg rw \<times> 'f nworld, outcome) state" where
  "nache_create a name r = do {
     cap \<leftarrow> inState (nache_authorize a r ''nache:CreateCacheCluster'' name);
     case cap of
       Inl e \<Rightarrow> nache_fail a r e
     | Inr cap \<Rightarrow>
         (case decodeOptionalJSON (na_DecodeCreate a) r of
            Some e \<Rightarrow> nache_fail a r e
          | None \<Rightarrow> do {
              full \<leftarrow> inState (underQuota a cap name);
              case full of
                Some e \<Rightarrow> nache_fail a r e
              | None \<Rightarrow> do {
                  res \<leftarrow> inState (store_Create (na_Store a) cap name);
                  case res of
                    Inl e \<Rightarrow>
                      if errorsIs e ErrDeleting then
                        nache_fail a r (AlreadyExists ''cluster %q is still being deleted; retry once it is gone'' [AStr name])
                      else nache_fail a r (Internal (Some e) ''could not record the cluster'' [])
                  | Inr (c, created) \<Rightarrow> nache_writeProto a r (if created then 202 else 200) (NCreated (nache_render a c))
                }
            })
   }"

definition nache_describe :: "('c, 'f) NacheAPI \<Rightarrow> string \<Rightarrow> request \<Rightarrow> (nacheMsg rw \<times> 'f nworld, outcome) state" where
  "nache_describe a name r = do {
     cap \<leftarrow> inState (nache_authorize a r ''nache:DescribeCacheCluster'' name);
     case cap of
       Inl e \<Rightarrow> nache_fail a r e
     | Inr cap \<Rightarrow> do {
         c \<leftarrow> inState (store_Get (na_Store a) cap name);
         case c of
           Inl e \<Rightarrow> nache_fail a r (nache_notFound e name)
         | Inr c \<Rightarrow> nache_writeProto a r 200 (NDescribed (nache_render a c))
       }
   }"

definition nache_delete :: "('c, 'f) NacheAPI \<Rightarrow> string \<Rightarrow> request \<Rightarrow> (nacheMsg rw \<times> 'f nworld, outcome) state" where
  "nache_delete a name r = do {
     cap \<leftarrow> inState (nache_authorize a r ''nache:DeleteCacheCluster'' name);
     case cap of
       Inl e \<Rightarrow> nache_fail a r e
     | Inr cap \<Rightarrow> do {
         c \<leftarrow> inState (store_MarkDeleting (na_Store a) cap name);
         case c of
           Inl e \<Rightarrow> nache_fail a r (nache_notFound e name)
         | Inr c \<Rightarrow> nache_writeProto a r 202 (NDeleted (nache_render a c))
       }
   }"

definition nache_list :: "('c::linorder, 'f) NacheAPI \<Rightarrow> request \<Rightarrow> (nacheMsg rw \<times> 'f nworld, outcome) state" where
  "nache_list a r = do {
     now \<leftarrow> inState (gets (na_Now a));
     case guard_AuthorizeAccount (na_Wire a) (na_Guard a) now r ''nache:ListCacheClusters'' of
       Inl e \<Rightarrow> nache_fail a r (nache_denied e)
     | Inr cap \<Rightarrow> do {
         cs \<leftarrow> inState (store_List (na_Store a) cap);
         case cs of
           Inl e \<Rightarrow> nache_fail a r (Internal (Some e) ''could not list clusters'' [])
         | Inr cs \<Rightarrow> nache_writeProto a r 200 (NListed (map (nache_render a) cs))
       }
   }"

definition nache_healthz :: "request \<Rightarrow> (nacheMsg rw \<times> 'f nworld, outcome) state" where
  "nache_healthz r = WriteJSON r 200 (Some (NStatus [(''status'', ''ok'')]))"

definition clusterPattern :: "muxSegment list" where "clusterPattern = litPattern (NachePrefix @ ''/clusters'') @ [Wild]"

definition nacheRoutes :: "('c::linorder, 'f) NacheAPI \<Rightarrow> (nacheMsg, 'f nworld) muxRoute list" where
  "nacheRoutes a =
     [\<lparr>mr_Method = ''PUT'', mr_Pattern = clusterPattern, mr_Handler = (\<lambda>vs. nache_create a (hd vs))\<rparr>,
      \<lparr>mr_Method = ''GET'', mr_Pattern = clusterPattern, mr_Handler = (\<lambda>vs. nache_describe a (hd vs))\<rparr>,
      \<lparr>mr_Method = ''DELETE'', mr_Pattern = clusterPattern, mr_Handler = (\<lambda>vs. nache_delete a (hd vs))\<rparr>,
      \<lparr>mr_Method = ''GET'', mr_Pattern = litPattern (NachePrefix @ ''/clusters''), mr_Handler = (\<lambda>_. nache_list a)\<rparr>,
      \<lparr>mr_Method = ''GET'', mr_Pattern = litPattern ''/healthz'', mr_Handler = (\<lambda>_. nache_healthz)\<rparr>]"

definition nache_Handler :: "('c::linorder, 'f) NacheAPI \<Rightarrow> (nacheMsg, 'f nworld) handler" where
  "nache_Handler a = Chain (serviceMux (na_Mux a) (nacheRoutes a)) [AdoptRequestID (na_Rand a), Recover (ac_Dev (na_Config a)), AccessLog]"

end
