(* ===== verification/Triple.thy ===== *)
theory Triple
  imports Httpx
begin

text \<open>
  Hoare triples over the state monad, for what holds of every state an operation passes through whatever the
  libraries it calls answer. The rules follow the constructs that the translated code is written with; a
  handler's steps on its writer leave the rest of the state alone.
\<close>

named_theorems triple_intros \<open>rules that take an operation apart\<close>

definition triple :: "('s \<Rightarrow> bool) \<Rightarrow> ('s, 'a) state \<Rightarrow> ('a \<Rightarrow> 's \<Rightarrow> bool) \<Rightarrow> bool" where
  "triple P m Q \<longleftrightarrow> (\<forall>s. P s \<longrightarrow> Q (result_of m s) (final_of m s))"

lemma tripleD: "triple P m Q \<Longrightarrow> P s \<Longrightarrow> run m s = (a, s') \<Longrightarrow> Q a s'"
  unfolding triple_def by fastforce

lemma triple_ret: "(\<And>s. P s \<Longrightarrow> Q a s) \<Longrightarrow> triple P (ret a) Q"
  by (simp add: triple_def)

lemma triple_bind:
  assumes "triple P m R" "\<And>a. triple (R a) (k a) Q"
  shows "triple P (m \<bind> k) Q"
  unfolding triple_def
proof (intro allI impI)
  fix s assume "P s"
  obtain a s' where m: "run m s = (a, s')" by fastforce
  with \<open>P s\<close> have "R a s'" using assms(1) by (blast dest: tripleD)
  with assms(2) [of a] show "Q (result_of (m \<bind> k) s) (final_of (m \<bind> k) s)" by (simp add: triple_def m)
qed

lemma triple_weaken:
  assumes "triple P' m Q'" "\<And>s. P s \<Longrightarrow> P' s" "\<And>a s. Q' a s \<Longrightarrow> Q a s"
  shows "triple P m Q"
  using assms unfolding triple_def by blast

lemma triple_pre: "triple P' m Q \<Longrightarrow> (\<And>s. P s \<Longrightarrow> P' s) \<Longrightarrow> triple P m Q"
  by (rule triple_weaken)

lemma triple_post: "triple P m Q' \<Longrightarrow> (\<And>a s. Q' a s \<Longrightarrow> Q a s) \<Longrightarrow> triple P m Q"
  by (rule triple_weaken)

lemma triple_if [triple_intros]: "(b \<Longrightarrow> triple P m Q) \<Longrightarrow> (\<not> b \<Longrightarrow> triple P n Q) \<Longrightarrow> triple P (if b then m else n) Q"
  by simp

lemma triple_sum [triple_intros]:
  "(\<And>e. x = Inl e \<Longrightarrow> triple P (f e) Q) \<Longrightarrow> (\<And>a. x = Inr a \<Longrightarrow> triple P (g a) Q) \<Longrightarrow>
   triple P (case x of Inl e \<Rightarrow> f e | Inr a \<Rightarrow> g a) Q"
  by (cases x) simp_all

lemma triple_option [triple_intros]:
  "(x = None \<Longrightarrow> triple P f Q) \<Longrightarrow> (\<And>a. x = Some a \<Longrightarrow> triple P (g a) Q) \<Longrightarrow>
   triple P (case x of None \<Rightarrow> f | Some a \<Rightarrow> g a) Q"
  by (cases x) simp_all

lemma triple_prod [triple_intros]:
  "(\<And>a b. x = (a, b) \<Longrightarrow> triple P (f a b) Q) \<Longrightarrow> triple P (case x of (a, b) \<Rightarrow> f a b) Q"
  by (cases x) simp_all

lemma triple_let [triple_intros]: "triple P (f x) Q \<Longrightarrow> triple P (Let x f) Q"
  by (simp add: Let_def)

lemma triple_gets: "(\<And>s. P s \<Longrightarrow> Q (f s) s) \<Longrightarrow> triple P (gets f) Q"
  by (simp add: triple_def)

lemma triple_inState: "triple P m Q \<Longrightarrow> triple (\<lambda>ws. P (snd ws)) (inState m) (\<lambda>a ws. Q a (snd ws))"
  by (simp add: triple_def split_paired_All)

lemma triple_WriteError: "triple (\<lambda>ws. P (snd ws)) (WriteError r e dev) (\<lambda>_ ws. P (snd ws))"
  by (simp add: triple_def WriteError_def split_paired_All)

lemma triple_WriteJSON: "triple (\<lambda>ws. P (snd ws)) (WriteJSON r st b) (\<lambda>_ ws. P (snd ws))"
  by (cases b) (simp_all add: triple_def WriteJSON_def split_paired_All)

end
