(* ===== verification/Service_Chain.thy ===== *)
theory Service_Chain
  imports Servicekit Mux Triple
begin

text \<open>
  What a service does behind its middleware: if every handler of its table takes the states of one property to
  those of another, so does the whole chain. The middleware changes the context of a request only, so that a
  handler sees the method, path, headers and body that the client sent.
\<close>

abbreviation onState :: "('s \<Rightarrow> bool) \<Rightarrow> 'm rw \<times> 's \<Rightarrow> bool" where
  "onState P ws \<equiv> P (snd ws)"

text \<open>The messages of an answer. A property that looks at nothing else of the writer survives the middleware.\<close>

definition messages :: "'m rw \<Rightarrow> 'm list" where
  "messages w = List.map_filter (\<lambda>b. case b of Msg m \<Rightarrow> Some m | _ \<Rightarrow> None) (rw_body w)"

lemma messages_simps [simp]:
  "messages (w\<lparr>rw_header := h\<rparr>) = messages w" "messages (w\<lparr>rw_logFields := l\<rparr>) = messages w" "messages (w\<lparr>rw_access := a\<rparr>) = messages w"
  "messages (WriteHeader st w) = messages w" "messages (Write (ErrBody e) w) = messages w" "messages (Write (Bytes b) w) = messages w"
  "messages (Write (Msg m) w) = messages w @ [m]"
  by (simp_all add: messages_def Write_def WriteHeader_def List.map_filter_def Let_def)

definition settled :: "('m rw \<times> 's \<Rightarrow> bool) \<Rightarrow> bool" where
  "settled P \<longleftrightarrow> (\<forall>w w' s. messages w' = messages w \<longrightarrow> P (w, s) \<longrightarrow> P (w', s))"

lemma settledD: "settled P \<Longrightarrow> P (w, s) \<Longrightarrow> messages w' = messages w \<Longrightarrow> P (w', s)"
  by (simp add: settled_def)

lemma settled_onState [simp]: "settled (onState P)"
  by (simp add: settled_def)

definition handles :: "('m rw \<times> 's \<Rightarrow> bool) \<Rightarrow> request \<Rightarrow> ('m, 's) handler \<Rightarrow> ('m rw \<times> 's \<Rightarrow> bool) \<Rightarrow> bool" where
  "handles P r h Q \<longleftrightarrow> (\<forall>ctx. triple P (h (r\<lparr>hr_Ctx := ctx\<rparr>)) (\<lambda>_. Q))"

lemma handlesI: "(\<And>ctx. triple P (h (r\<lparr>hr_Ctx := ctx\<rparr>)) (\<lambda>_. Q)) \<Longrightarrow> handles P r h Q"
  by (simp add: handles_def)

lemma handlesD: "handles P r h Q \<Longrightarrow> triple P (h (r\<lparr>hr_Ctx := ctx\<rparr>)) (\<lambda>_. Q)"
  by (simp add: handles_def)

lemma handles_here: "handles P r h Q \<Longrightarrow> triple P (h r) (\<lambda>_. Q)"
  using handlesD [of P r h Q "hr_Ctx r"] by simp

lemma triple_onRw: "settled P \<Longrightarrow> (\<And>w. messages (f w) = messages w) \<Longrightarrow> triple P (onRw f) (\<lambda>_. P)"
  by (auto simp: triple_def intro: settledD)

lemma triple_setHeader: "settled P \<Longrightarrow> triple P (setHeader k v) (\<lambda>_. P)"
  by (auto simp: triple_def intro: settledD)

lemma triple_errorEnd: "settled P \<Longrightarrow> triple P (WriteError r e dev) (\<lambda>_. P)"
  by (auto simp: triple_def WriteError_def intro: settledD)

lemma handles_AccessLog:
  assumes "settled P" "settled Q" "handles P r next Q"
  shows "handles P r (AccessLog next) Q"
proof (rule handlesI)
  fix ctx
  let ?r = "r\<lparr>hr_Ctx := ctx\<lparr>cx_hasLogFields := True\<rparr>\<rparr>"
  have "triple P (next ?r) (\<lambda>_. Q)" using assms(3) by (rule handlesD)
  then have n: "triple P (next (r\<lparr>hr_Ctx := ctx, hr_Ctx := ctx\<lparr>cx_hasLogFields := True\<rparr>\<rparr>)) (\<lambda>_. Q)" by simp
  show "triple P (AccessLog next (r\<lparr>hr_Ctx := ctx\<rparr>)) (\<lambda>_. Q)"
    unfolding AccessLog_def Let_def
  proof (rule triple_bind [OF triple_onRw [OF assms(1)]], simp, rule triple_bind)
    show "triple P (next (r\<lparr>hr_Ctx := ctx, hr_Ctx := hr_Ctx (r\<lparr>hr_Ctx := ctx\<rparr>)\<lparr>cx_hasLogFields := True\<rparr>\<rparr>)) (\<lambda>_. Q)"
      using n by simp
    show "triple Q (case res of Done \<Rightarrow> do {
          onRw (\<lambda>w. w\<lparr>rw_access := rw_access w @ [f w]\<rparr>);
          ret Done
        } | Panicked v \<Rightarrow> ret (Panicked v)) (\<lambda>_. Q)" for res f
      using assms(2) by (cases res) (auto simp: triple_def intro: settledD)
  qed
qed

lemma handles_Recover:
  assumes "settled Q" "handles P r next Q"
  shows "handles P r (Recover dev next) Q"
  unfolding handles_def Recover_def
proof (intro allI triple_bind [OF handlesD [OF assms(2)]])
  fix ctx res
  show "triple Q (case res of Done \<Rightarrow> ret Done | Panicked v \<Rightarrow> WriteError (r\<lparr>hr_Ctx := ctx\<rparr>) (Internal None ''internal failure'' []) dev) (\<lambda>_. Q)"
    by (cases res) (auto intro: triple_errorEnd [OF assms(1)] triple_ret)
qed

lemma handles_AdoptRequestID:
  assumes "settled P" "\<And>n. triple P (inState (rand n)) (\<lambda>_. P)" "handles P r next Q"
  shows "handles P r (AdoptRequestID rand next) Q"
proof (rule handlesI)
  fix ctx
  have "triple P (inState (NewRequestID rand)) (\<lambda>_. P)"
    using assms(2) [of 16] unfolding NewRequestID_def
    by (fastforce simp: triple_def split: option.split prod.split)
  then have i: "triple P (if b then inState (NewRequestID rand) else ret i) (\<lambda>_. P)" for b i
    by (auto intro!: triple_intros triple_ret)
  have "triple P (next (withRequestID i (r\<lparr>hr_Ctx := ctx\<rparr>))) (\<lambda>_. Q)" for i
    using handlesD [OF assms(3), of "ctx\<lparr>cx_RequestID := i\<rparr>"] by (simp add: withRequestID_def)
  then show "triple P (AdoptRequestID rand next (r\<lparr>hr_Ctx := ctx\<rparr>)) (\<lambda>_. Q)"
    unfolding AdoptRequestID_def Let_def
    by (intro triple_bind [OF i] triple_bind [OF triple_setHeader [OF assms(1)]])
qed

text \<open>A route is taken for the values that its pattern finds in the escaped path.\<close>

lemma muxLookup_route:
  "muxLookup rts m segs = Some h \<Longrightarrow> \<exists>rt \<in> set rts. \<exists>vs. methodMatches (mr_Method rt) m \<and> matchSegments (mr_Pattern rt) segs = Some vs \<and> h = mr_Handler rt vs"
proof (induction rts m segs rule: muxLookup.induct)
  case (2 rt rts m segs)
  then show ?case
    by (cases "if methodMatches (mr_Method rt) m then matchSegments (mr_Pattern rt) segs else None") (auto split: if_split_asm)
qed simp

definition routedTo :: "muxLib \<Rightarrow> request \<Rightarrow> ('m, 's) muxRoute \<Rightarrow> string list \<Rightarrow> bool" where
  "routedTo lib r rt vs \<longleftrightarrow> methodMatches (mr_Method rt) (hr_Method r) \<and>
     matchSegments (mr_Pattern rt) (muxSegments (ml_EscapedPath lib r)) = Some vs"

lemma serviceMux_unrouted:
  "(\<exists>h. muxLookup rts (hr_Method r) (muxSegments (ml_EscapedPath lib r)) = Some h \<and> run (serviceMux lib rts r) (w, s) = run (h r) (w, s)) \<or>
   (\<exists>w'. messages w' = messages w \<and> final_of (serviceMux lib rts r) (w, s) = (w', s))"
  by (auto simp: serviceMux_def muxBadRequest_def muxRedirect_def plainError_def Let_def split: option.split)

lemma handles_serviceMux:
  fixes rts :: "('m, 's) muxRoute list"
  assumes "settled Q" "\<And>ws. P ws \<Longrightarrow> Q ws"
    "\<And>ctx rt vs. rt \<in> set rts \<Longrightarrow> routedTo lib (r\<lparr>hr_Ctx := ctx\<rparr>) rt vs \<Longrightarrow> triple P (mr_Handler rt vs (r\<lparr>hr_Ctx := ctx\<rparr>)) (\<lambda>_. Q)"
  shows "handles P r (serviceMux lib rts) Q"
  unfolding handles_def triple_def
proof (intro allI impI)
  fix ctx and ws :: "'m rw \<times> 's" assume p: "P ws"
  obtain w st where ws: "ws = (w, st)" by fastforce
  let ?r = "r\<lparr>hr_Ctx := ctx\<rparr>"
  from serviceMux_unrouted [of rts ?r lib w st]
  show "Q (final_of (serviceMux lib rts ?r) ws)"
  proof (elim disjE exE conjE)
    fix h assume h: "muxLookup rts (hr_Method ?r) (muxSegments (ml_EscapedPath lib ?r)) = Some h"
      and run: "run (serviceMux lib rts ?r) (w, st) = run (h ?r) (w, st)"
    obtain rt vs where rt: "rt \<in> set rts" "routedTo lib ?r rt vs" "h = mr_Handler rt vs"
      using muxLookup_route [OF h] by (auto simp: routedTo_def)
    from assms(3) [OF rt(1,2), unfolded triple_def, rule_format, of ws] p show ?thesis by (simp add: ws run rt(3))
  next
    fix w' assume "messages w' = messages w" "final_of (serviceMux lib rts ?r) (w, st) = (w', st)"
    then show ?thesis using settledD [OF assms(1) assms(2) [OF p, unfolded ws]] by (simp add: ws)
  qed
qed

text \<open>The chain of a service, as both of them build it.\<close>

lemma service_answers:
  assumes "settled P" "settled Q" "\<And>n. triple P (inState (rand n)) (\<lambda>_. P)" "\<And>ws. P ws \<Longrightarrow> Q ws"
    "\<And>ctx rt vs. rt \<in> set rts \<Longrightarrow> routedTo lib (r\<lparr>hr_Ctx := ctx\<rparr>) rt vs \<Longrightarrow> triple P (mr_Handler rt vs (r\<lparr>hr_Ctx := ctx\<rparr>)) (\<lambda>_. Q)"
  shows "triple P (Chain (serviceMux lib rts) [AdoptRequestID rand, Recover dev, AccessLog] r) (\<lambda>_. Q)"
  unfolding Chain_simps
  by (intro handles_here handles_AdoptRequestID handles_Recover handles_AccessLog handles_serviceMux assms)

lemma service_handles:
  assumes "\<And>n. triple P (rand n) (\<lambda>_. P)" "\<And>st. P st \<Longrightarrow> Q st"
    "\<And>ctx rt vs. rt \<in> set rts \<Longrightarrow> routedTo lib (r\<lparr>hr_Ctx := ctx\<rparr>) rt vs \<Longrightarrow>
       triple (onState P) (mr_Handler rt vs (r\<lparr>hr_Ctx := ctx\<rparr>)) (\<lambda>_. onState Q)"
  shows "triple (onState P) (Chain (serviceMux lib rts) [AdoptRequestID rand, Recover dev, AccessLog] r) (\<lambda>_. onState Q)"
  using assms by (intro service_answers settled_onState triple_inState [where Q = "\<lambda>_. P"])

text \<open>A guard looks at the headers only.\<close>

lemma guard_Authorize_header: "hr_Header r' = hr_Header r \<Longrightarrow> guard_Authorize w g now r' i = guard_Authorize w g now r i"
  by (simp add: guard_Authorize_def guard_authorize_def)

end
