(* ===== verification/Nache_Confined.thy ===== *)
theory Nache_Confined
  imports Nache_Api Service_Chain
begin

text \<open>
  What one request to the cache service's API can do to its table, whatever the database, the entropy source and the
  compute service do meanwhile.
\<close>

definition rowsOf :: "string \<Rightarrow> cluster_row list \<Rightarrow> cluster_row list" where
  "rowsOf account rows = filter (\<lambda>r. cr_account r = account) rows"

definition newRow :: "string \<Rightarrow> string \<Rightarrow> time \<Rightarrow> cluster_row" where
  "newRow account name now = \<lparr>cr_account = account, cr_name = name, cr_state = Creating, cr_nodes = ''[]'', cr_created = now, cr_updated = now\<rparr>"

text \<open>The request is authorised for an action on the cluster that its path names.\<close>

definition authorizedOn :: "('c, 'f) NacheAPI \<Rightarrow> request \<Rightarrow> string \<Rightarrow> string \<Rightarrow> string \<Rightarrow> Capability \<Rightarrow> bool" where
  "authorizedOn a r method action name cap \<longleftrightarrow>
     hr_Method r = method \<and>
     (\<exists>ctx. matchSegments clusterPattern (muxSegments (ml_EscapedPath (na_Mux a) (r\<lparr>hr_Ctx := ctx\<rparr>))) = Some [name]) \<and> clusterName name \<and>
     (\<exists>now. guard_Authorize (na_Wire a) (na_Guard a) now r \<lparr>in_Action = action, in_ResourceType = ''cluster'', in_ResourceID = name\<rparr> = Inr cap)"

inductive apiStep :: "('c, 'f) NacheAPI \<Rightarrow> request \<Rightarrow> cluster_row list \<Rightarrow> cluster_row list \<Rightarrow> bool" for a r rows where
  nothing: "apiStep a r rows rows"
| recorded: "authorizedOn a r ''PUT'' ''nache:CreateCacheCluster'' name cap \<Longrightarrow> stateOf (cp_AccountId cap) name rows = None \<Longrightarrow>
    int (length (rowsOf (cp_AccountId cap) rows)) < ac_MaxClusters (na_Config a) \<Longrightarrow>
    apiStep a r rows (rows @ [newRow (cp_AccountId cap) name now])"
| marked: "authorizedOn a r ''DELETE'' ''nache:DeleteCacheCluster'' name cap \<Longrightarrow>
    apiStep a r rows (snd (markDeleting (cp_AccountId cap) name now rows))"

inductive_cases apiStepE: "apiStep a r rows rows'"

section \<open>The store's calls\<close>

definition table :: "cluster_row list \<Rightarrow> 'f \<Rightarrow> 'f nworld \<Rightarrow> bool" where
  "table rows fl w \<longleftrightarrow> nw_rows w = rows \<and> nw_fleet w = fl"

lemma nsql_table:
  "triple (table rows fl) (nsql f) (\<lambda>q w. (table rows fl w \<and> (\<exists>e. q = Inl e)) \<or> (\<exists>now. table (snd (f now rows)) fl w \<and> q = Inr (fst (f now rows))))"
  by (auto simp: triple_def table_def nsql_def Let_def split_beta split: list.split option.split)

lemma query_table:
  "triple (table rows fl) (store_query st sel) (\<lambda>q w. table rows fl w \<and> ((\<exists>e. q = Inl e) \<or> q = scanClusters st (sel rows)))"
proof -
  have "triple (table rows fl) (nsql (\<lambda>_ rs. (sel rs, rs))) (\<lambda>q w. table rows fl w \<and> ((\<exists>e. q = Inl e) \<or> q = Inr (sel rows)))"
    by (rule triple_post [OF nsql_table]) auto
  then show ?thesis unfolding store_query_def by (rule triple_bind) (auto simp: triple_def split: sum.split)
qed

lemma scan_nonempty: "scanClusters st rows = Inr (c # cs) \<Longrightarrow> rows \<noteq> []"
  by (cases rows) auto

lemma get_table:
  "triple (table rows fl) (store_get st account name) (\<lambda>q w. table rows fl w \<and> (\<forall>c. q = Inr c \<longrightarrow> stateOf account name rows \<noteq> None))"
proof -
  have n: "stateOf account name rows \<noteq> None" if "scanClusters st (filter (isRow account name) rows) = Inr (c # cs)" for c cs
    using scan_nonempty [OF that] by (auto simp: stateOf_None filter_empty_conv)
  show ?thesis unfolding store_get_def
    by (rule triple_bind [OF query_table]) (auto simp: triple_def split: sum.split list.split dest!: n sym [where t = "scanClusters _ _"])
qed

lemma count_table:
  "triple (table rows fl) (store_Count cap) (\<lambda>q w. table rows fl w \<and> (\<forall>n. q = Inr n \<longrightarrow> n = length (rowsOf (cp_AccountId cap) rows)))"
  unfolding store_Count_def by (rule triple_post [OF nsql_table]) (auto simp: countClusters_def rowsOf_def)

lemma underQuota_table:
  "triple (table rows fl) (underQuota a cap name) (\<lambda>q w. table rows fl w \<and> (q = None \<longrightarrow> stateOf (cp_AccountId cap) name rows = None \<longrightarrow>
      int (length (rowsOf (cp_AccountId cap) rows)) < ac_MaxClusters (na_Config a)))"
  unfolding underQuota_def store_Get_def
  by (rule triple_bind [OF get_table])
    (auto intro!: triple_intros triple_ret triple_bind [OF triple_pre [OF count_table]])

lemma insert_rows:
  "snd (insertCluster account name now rows) = (if stateOf account name rows = None then rows @ [newRow account name now] else rows)"
  by (auto simp: insertCluster_def newRow_def stateOf_def)

lemma create_table:
  "triple (table rows fl) (store_Create st cap name)
     (\<lambda>_ w. table rows fl w \<or> stateOf (cp_AccountId cap) name rows = None \<and> (\<exists>now. table (rows @ [newRow (cp_AccountId cap) name now]) fl w))"
proof -
  let ?a = "cp_AccountId cap"
  let ?Q = "\<lambda>w. table rows fl w \<or> stateOf ?a name rows = None \<and> (\<exists>now. table (rows @ [newRow ?a name now]) fl w)"
  have "triple (table rows fl) (nsql (insertCluster ?a name)) (\<lambda>_. ?Q)"
    by (rule triple_post [OF nsql_table]) (auto simp: insert_rows split: if_split_asm)
  moreover have "triple ?Q (store_get st ?a name) (\<lambda>_. ?Q)"
    using get_table [of _ fl st ?a name] unfolding triple_def table_def by blast
  ultimately show ?thesis unfolding store_Create_def Let_def
    by (intro triple_if) (auto intro!: triple_intros triple_ret triple_bind [where R = "\<lambda>_. ?Q"])
qed

lemma mark_table:
  "triple (table rows fl) (store_MarkDeleting st cap name)
     (\<lambda>_ w. table rows fl w \<or> (\<exists>now. table (snd (markDeleting (cp_AccountId cap) name now rows)) fl w))"
proof -
  let ?a = "cp_AccountId cap"
  let ?Q = "\<lambda>w. table rows fl w \<or> (\<exists>now. table (snd (markDeleting ?a name now rows)) fl w)"
  have "triple (table rows fl) (nsql (markDeleting ?a name)) (\<lambda>_. ?Q)" by (rule triple_post [OF nsql_table]) auto
  moreover have "triple ?Q (store_get st ?a name) (\<lambda>_. ?Q)"
    using get_table [of _ fl st ?a name] unfolding triple_def table_def by blast
  ultimately show ?thesis unfolding store_MarkDeleting_def
    by (auto intro!: triple_intros triple_ret triple_bind [where R = "\<lambda>_. ?Q"])
qed

section \<open>The handlers\<close>

lemma authorize_table:
  "triple (table rows fl) (nache_authorize a r action name) (\<lambda>q w. table rows fl w \<and>
     (\<forall>cap. q = Inr cap \<longrightarrow> clusterName name \<and>
        (\<exists>now. guard_Authorize (na_Wire a) (na_Guard a) now r \<lparr>in_Action = action, in_ResourceType = ''cluster'', in_ResourceID = name\<rparr> = Inr cap)))"
  by (auto simp: triple_def nache_authorize_def split: sum.split)

lemma fail_state: "triple (onState P) (nache_fail a r e) (\<lambda>_. onState P)"
  unfolding nache_fail_def by (rule triple_WriteError)

lemma writeProto_state: "triple (onState P) (nache_writeProto a r st m) (\<lambda>_. onState P)"
  by (simp add: triple_def nache_writeProto_def WriteError_def)

lemmas answers = fail_state writeProto_state triple_WriteJSON

text \<open>The answer to a request may not undo or add to what the step before it did.\<close>

lemma triple_known: "(F \<Longrightarrow> triple P m Q) \<Longrightarrow> triple (\<lambda>s. P s \<and> F) m Q"
  by (auto simp: triple_def)

lemma table_step: "table rows fl w \<Longrightarrow> apiStep a r rows (nw_rows w) \<and> nw_fleet w = fl"
  by (simp add: table_def apiStep.nothing)

lemma answers_step:
  assumes "\<And>w. P w \<Longrightarrow> Q w"
  shows "triple (onState P) (nache_fail a r e) (\<lambda>_. onState Q)" "triple (onState P) (nache_writeProto a r st m) (\<lambda>_. onState Q)"
    "triple (onState P) (WriteJSON r st b) (\<lambda>_. onState Q)"
  by (rule triple_post [OF fail_state] triple_post [OF writeProto_state] triple_post [OF triple_WriteJSON], simp add: assms)+

lemma create_answer:
  assumes auth: "authorizedOn a r ''PUT'' ''nache:CreateCacheCluster'' name cap"
    and quota: "stateOf (cp_AccountId cap) name rows = None \<Longrightarrow> int (length (rowsOf (cp_AccountId cap) rows)) < ac_MaxClusters (na_Config a)"
  shows "triple (onState (\<lambda>w. table rows fl w \<or> stateOf (cp_AccountId cap) name rows = None \<and> (\<exists>now. table (rows @ [newRow (cp_AccountId cap) name now]) fl w)))
    (case q of
       Inl e \<Rightarrow>
         if errorsIs e ErrDeleting then
           nache_fail a r' (AlreadyExists ''cluster %q is still being deleted; retry once it is gone'' [AStr name])
         else nache_fail a r' (Internal (Some e) ''could not record the cluster'' [])
     | Inr (c, created) \<Rightarrow> nache_writeProto a r' (if created then 202 else 200) (NCreated (nache_render a c)))
    (\<lambda>_. onState (\<lambda>w. apiStep a r rows (nw_rows w) \<and> nw_fleet w = fl))"
proof -
  have "apiStep a r rows (nw_rows w) \<and> nw_fleet w = fl"
    if "table rows fl w \<or> stateOf (cp_AccountId cap) name rows = None \<and> (\<exists>now. table (rows @ [newRow (cp_AccountId cap) name now]) fl w)" for w
    using that apiStep.recorded [OF auth _ quota] by (auto simp: table_def apiStep.nothing)
  then show ?thesis by (auto intro!: triple_intros answers_step)
qed

lemma create_step:
  assumes auth: "\<And>cap now. clusterName name \<Longrightarrow>
    guard_Authorize (na_Wire a) (na_Guard a) now r' \<lparr>in_Action = ''nache:CreateCacheCluster'', in_ResourceType = ''cluster'', in_ResourceID = name\<rparr> = Inr cap \<Longrightarrow>
    authorizedOn a r ''PUT'' ''nache:CreateCacheCluster'' name cap"
  shows "triple (onState (table rows fl)) (nache_create a name r') (\<lambda>_. onState (\<lambda>w. apiStep a r rows (nw_rows w) \<and> nw_fleet w = fl))"
  unfolding nache_create_def
  apply (rule triple_bind [OF triple_inState [OF authorize_table]])
  apply (rule triple_sum)
   apply (rule answers_step, rule table_step, erule conjunct1)
  apply (rule triple_known, rule triple_option)
   apply (rule triple_bind [OF triple_inState [OF underQuota_table]])
   apply (rule triple_option)
    apply (rule triple_known, rule triple_bind [OF triple_inState [OF create_table]], rule create_answer)
     apply (blast intro: auth)
    apply blast
   apply (rule answers_step, rule table_step, erule conjunct1)
  apply (rule answers_step, erule table_step)
  done

lemma delete_step:
  assumes auth: "\<And>cap now. clusterName name \<Longrightarrow>
    guard_Authorize (na_Wire a) (na_Guard a) now r' \<lparr>in_Action = ''nache:DeleteCacheCluster'', in_ResourceType = ''cluster'', in_ResourceID = name\<rparr> = Inr cap \<Longrightarrow>
    authorizedOn a r ''DELETE'' ''nache:DeleteCacheCluster'' name cap"
  shows "triple (onState (table rows fl)) (nache_delete a name r') (\<lambda>_. onState (\<lambda>w. apiStep a r rows (nw_rows w) \<and> nw_fleet w = fl))"
proof -
  have step: "apiStep a r rows (nw_rows w) \<and> nw_fleet w = fl"
    if "table rows fl w \<or> (\<exists>now. table (snd (markDeleting (cp_AccountId cap) name now rows)) fl w)"
      "authorizedOn a r ''DELETE'' ''nache:DeleteCacheCluster'' name cap" for w cap
    using that(1) apiStep.marked [OF that(2)] by (auto simp: table_def apiStep.nothing)
  show ?thesis unfolding nache_delete_def
    apply (rule triple_bind [OF triple_inState [OF authorize_table]])
    apply (rule triple_sum)
     apply (rule answers_step, rule table_step, erule conjunct1)
    apply (rule triple_known, rule triple_bind [OF triple_inState [OF mark_table]], rule triple_sum)
     apply (rule answers_step, erule step, blast intro: auth)
    apply (rule answers_step, erule step, blast intro: auth)
    done
qed

lemma reads_step:
  "triple (onState (table rows fl)) (nache_describe a name r') (\<lambda>_. onState (table rows fl))"
  "triple (onState (table rows fl)) (nache_list a r') (\<lambda>_. onState (table rows fl))"
  "triple (onState (table rows fl)) (nache_healthz r') (\<lambda>_. onState (table rows fl))"
proof -
  have a: "triple (table rows fl) (nache_authorize a r' act name) (\<lambda>_. table rows fl)" for act
    by (rule triple_post [OF authorize_table]) (erule conjunct1)
  have g: "triple (table rows fl) (store_Get st cap name) (\<lambda>_. table rows fl)" for st cap
    unfolding store_Get_def by (rule triple_post [OF get_table]) (erule conjunct1)
  have l: "triple (table rows fl) (store_List st cap) (\<lambda>_. table rows fl)" for st cap
    unfolding store_List_def by (rule triple_post [OF query_table]) (erule conjunct1)
  have t: "triple (table rows fl) (gets f) (\<lambda>_. table rows fl)" for f by (rule triple_gets)
  show "triple (onState (table rows fl)) (nache_describe a name r') (\<lambda>_. onState (table rows fl))"
    unfolding nache_describe_def
    by (rule triple_bind [OF triple_inState [OF a]]) (auto intro!: triple_intros answers triple_bind [OF triple_inState [OF g]])
  show "triple (onState (table rows fl)) (nache_list a r') (\<lambda>_. onState (table rows fl))"
    unfolding nache_list_def
    by (rule triple_bind [OF triple_inState [OF t]]) (auto intro!: triple_intros answers triple_bind [OF triple_inState [OF l]])
  show "triple (onState (table rows fl)) (nache_healthz r') (\<lambda>_. onState (table rows fl))"
    unfolding nache_healthz_def by (rule triple_WriteJSON)
qed

section \<open>The whole service\<close>

lemma cluster_route:
  assumes "routedTo lib r rt vs" "mr_Pattern rt = clusterPattern"
  shows "matchSegments clusterPattern (muxSegments (ml_EscapedPath lib r)) = Some [hd vs]"
proof -
  have "length vs = 1" if "matchSegments clusterPattern segs = Some vs" for segs
  proof -
    have l: "matchSegments ps ss = Some ws \<Longrightarrow> length ws = length (filter (\<lambda>p. p = Wild) ps)" for ps ss ws
      by (induction ps ss arbitrary: ws rule: matchSegments.induct) (auto split: if_split_asm)
    have "length (filter (\<lambda>p. p = Wild) clusterPattern) = 1" by code_simp
    then show ?thesis using l [OF that] by simp
  qed
  then show ?thesis using assms unfolding routedTo_def by (cases vs) auto
qed

lemma route_step:
  assumes "rt \<in> set (nacheRoutes a)" "routedTo (na_Mux a) (r\<lparr>hr_Ctx := ctx\<rparr>) rt vs"
  shows "triple (onState (table rows fl)) (mr_Handler rt vs (r\<lparr>hr_Ctx := ctx\<rparr>)) (\<lambda>_. onState (\<lambda>w. apiStep a r rows (nw_rows w) \<and> nw_fleet w = fl))"
proof -
  let ?r = "r\<lparr>hr_Ctx := ctx\<rparr>"
  have auth: "authorizedOn a r verb action (hd vs) cap"
    if "mr_Pattern rt = clusterPattern" "mr_Method rt = verb" "verb \<noteq> ''GET''" "clusterName (hd vs)"
      "guard_Authorize (na_Wire a) (na_Guard a) now ?r \<lparr>in_Action = action, in_ResourceType = ''cluster'', in_ResourceID = hd vs\<rparr> = Inr cap"
    for verb action cap now
  proof -
    have "hr_Method r = verb" using assms(2) that(2,3) by (auto simp: routedTo_def methodMatches_def)
    moreover have "guard_Authorize (na_Wire a) (na_Guard a) now r \<lparr>in_Action = action, in_ResourceType = ''cluster'', in_ResourceID = hd vs\<rparr> = Inr cap"
      using that(5) guard_Authorize_header [of ?r r] by simp
    ultimately show ?thesis using cluster_route [OF assms(2) that(1)] that(4) unfolding authorizedOn_def by blast
  qed
  note reads = reads_step [THEN triple_post, OF table_step]
  from assms(1) show ?thesis
    by (auto simp: nacheRoutes_def intro!: create_step delete_step reads auth)
qed

text \<open>C6: whatever the database answers, one request to the cache service's API changes its table in one of three ways: not
  at all; by recording one new cluster, when the request carries a capability for creating the very cluster that
  its path names and the capability's account has no such cluster and fewer than its quota; or by marking one
  cluster for deletion, under a capability for deleting it. The rows of every other account and name stay as they
  are, and the compute service is never called.\<close>
theorem nache_requests_stay_in_the_account:
  assumes "\<And>n w. nw_rows (final_of (na_Rand a n) w) = nw_rows w \<and> nw_fleet (final_of (na_Rand a n) w) = nw_fleet w"
    "run (nache_Handler a r) (rw, w) = (out, (rw', w'))"
  shows "apiStep a r (nw_rows w) (nw_rows w') \<and> nw_fleet w' = nw_fleet w"
proof -
  let ?P = "table (nw_rows w) (nw_fleet w)" and ?Q = "\<lambda>w'. apiStep a r (nw_rows w) (nw_rows w') \<and> nw_fleet w' = nw_fleet w"
  have "triple (onState ?P) (nache_Handler a r) (\<lambda>_. onState ?Q)" unfolding nache_Handler_def
  proof (rule service_handles)
    show "triple ?P (na_Rand a n) (\<lambda>_. ?P)" for n using assms(1) by (simp add: triple_def table_def)
    show "?P w' \<Longrightarrow> ?Q w'" for w' by (rule table_step)
    fix ctx rt vs assume rt: "rt \<in> set (nacheRoutes a)" "routedTo (na_Mux a) (r\<lparr>hr_Ctx := ctx\<rparr>) rt vs"
    let ?r = "r\<lparr>hr_Ctx := ctx\<rparr>"
    show "triple (onState ?P) (mr_Handler rt vs ?r) (\<lambda>_. onState ?Q)" by (rule route_step [OF rt])
  qed
  from tripleD [OF this _ assms(2)] show ?thesis by (simp add: table_def)
qed

subsection \<open>A deletion\<close>

definition nacheClaims :: Claims where
  "nacheClaims = \<lparr>cl_AccountID = ''111111111111'', cl_CallerAccountID = [],
     cl_PrincipalARN = ''arn:dariya:iam:hind-1:111111111111:user/root'', cl_Action = ''nache:DeleteCacheCluster'',
     cl_ResourceARN = formatArn ''nache'' ''hind-1'' ''111111111111'' ''cluster'' ''web'', cl_RequestID = ''r1''\<rparr>"

definition nacheGuard :: Guard where
  "nacheGuard = NewGuard (NewVerifier [(''k1'', replicate 32 CHR ''s'')]) ''nache'' ''hind-1''"

definition nacheToken :: SignedCapability where
  "nacheToken = (let b = the (marshalCap sampleWire (capabilityOf sampleMinter 0 nacheClaims)) in
     \<lparr>tk_CapabilityBytes = b, tk_Signature = ed_sign sampleWire (m_key sampleMinter) b, tk_KeyId = ''k1''\<rparr>)"

definition deleteRequest :: request where
  "deleteRequest = sampleHttpRequest\<lparr>hr_Method := ''DELETE'', hr_Path := ''/nache/2026-09-30/clusters/web'',
     hr_Header := [(CapabilityHeader, [stdEncode (the (marshalToken sampleWire nacheToken))])]\<rparr>"

definition sampleNache :: "(string, unit) NacheAPI" where
  "sampleNache = NewAPI \<lparr>na_Store = plainClusterStore, na_Guard = nacheGuard, na_Config = \<lparr>ac_Region = [], ac_MaxClusters = 0, ac_Dev = False\<rparr>,
     na_Wire = sampleWire, na_Now = (\<lambda>_. 0), na_Rand = (\<lambda>n. ret None), na_Mux = \<lparr>ml_EscapedPath = hr_Path, ml_Redirect = (\<lambda>r. ([], []))\<rparr>,
     na_DecodeCreate = (\<lambda>_. None), na_Encodable = (\<lambda>_. True)\<rparr> \<lparr>ac_Region = ''hind-1'', ac_MaxClusters = 0, ac_Dev = False\<rparr>"

lemma deleteRequest_authorized:
  "\<exists>cap. authorizedOn sampleNache deleteRequest ''DELETE'' ''nache:DeleteCacheCluster'' ''web'' cap"
proof -
  have mint: "Mint sampleWire sampleMinter 0 nacheClaims = Inr nacheToken"
    by (simp add: Mint_Inr nacheToken_def Let_def) (simp add: sampleMinter_def sampleWire_def)
  have h: "header_Get (hr_Header deleteRequest) CapabilityHeader = stdEncode (the (marshalToken sampleWire nacheToken))"
    by (simp add: deleteRequest_def header_Get_def)
  have m: "marshalToken sampleWire nacheToken = Some (the (marshalToken sampleWire nacheToken))" by (simp add: sampleWire_def)
  have k: "lookup (v_keys (gd_verifier nacheGuard)) (m_keyID sampleMinter) = Some (minter_PublicKey sampleWire sampleMinter)"
    by (simp add: nacheGuard_def NewGuard_def NewVerifier_def sampleMinter_def minter_PublicKey_def sampleWire_def)
  let ?i = "\<lparr>in_Action = ''nache:DeleteCacheCluster'', in_ResourceType = ''cluster'', in_ResourceID = ''web''\<rparr>"
  have "\<exists>cap. guard_Authorize sampleWire nacheGuard 0 deleteRequest ?i = Inr cap"
    by (subst guard_minted [OF sampleWire_ok mint m sampleIntent_parts(7) h k])
      (simp_all add: nacheGuard_def NewGuard_def NewVerifier_def plainSegment_def nacheClaims_def is_account_id_def isDigit_def
        sampleMinter_def CapabilityTTL_def unixMilli_def)
  then obtain cap where "guard_Authorize sampleWire nacheGuard 0 deleteRequest ?i = Inr cap" ..
  moreover have "matchSegments clusterPattern (muxSegments ''/nache/2026-09-30/clusters/web'') = Some [''web'']" by code_simp
  moreover have "clusterName ''web''" by code_simp
  ultimately have "authorizedOn sampleNache deleteRequest ''DELETE'' ''nache:DeleteCacheCluster'' ''web'' cap"
    by (auto simp: authorizedOn_def sampleNache_def NewAPI_def deleteRequest_def)
  then show ?thesis ..
qed

lemma nache_requests_stay_in_the_account_witness:
  "\<exists>cap. authorizedOn sampleNache deleteRequest ''DELETE'' ''nache:DeleteCacheCluster'' ''web'' cap \<and>
     apiStep sampleNache deleteRequest (nw_rows deletingWorld) (nw_rows (snd (final_of (nache_Handler sampleNache deleteRequest) (emptyRw, deletingWorld))))"
proof -
  obtain out rw' w' where run: "run (nache_Handler sampleNache deleteRequest) (emptyRw, deletingWorld) = (out, (rw', w'))" by (metis prod.exhaust)
  have "apiStep sampleNache deleteRequest (nw_rows deletingWorld) (nw_rows w') \<and> nw_fleet w' = nw_fleet deletingWorld"
    by (rule nache_requests_stay_in_the_account [OF _ run]) (simp add: sampleNache_def NewAPI_def)
  then show ?thesis using deleteRequest_authorized run by auto
qed

end
