(* ===== verification/Nache_Reconciler.thy ===== *)
theory Nache_Reconciler
  imports Nache_Api
begin

text \<open>
  The reconciler of the cache service (\<open>internal/nache/reconciler.go\<close>): one pass reads every cluster and every node
  and closes the difference. The order in which Go ranges over the map of left-over nodes is a parameter.
\<close>

type_synonym nodeKey = "string \<times> string"

record ('c, 'f) Reconciler =
  rc_Store :: "'c clusterStore"
  rc_Compute :: "'f Compute"
  rc_Now :: "'f nworld \<Rightarrow> time"
  rc_AfterRunNode :: "(Cluster \<Rightarrow> ('f nworld, unit) state) option"
  rc_Range :: "(nodeKey \<times> Instance list) list \<Rightarrow> (nodeKey \<times> Instance list) list"

text \<open>A call on the compute service leaves the service's own tables alone.\<close>

definition onFleet :: "('f, 'a) state \<Rightarrow> ('f nworld, 'a) state" where
  "onFleet m = State (\<lambda>w. case run m (nw_fleet w) of (a, f) \<Rightarrow> (a, w\<lparr>nw_fleet := f\<rparr>))"

lemma run_onFleet [simp]: "run_state (onFleet m) w = (result_of m (nw_fleet w), w\<lparr>nw_fleet := final_of m (nw_fleet w)\<rparr>)"
  by (simp add: onFleet_def split: prod.split)

definition nodeKeyOf :: "Instance \<Rightarrow> nodeKey" where
  "nodeKeyOf n = (getOr [] (it_Tags n) tagClusterAccount, getOr [] (it_Tags n) tagCluster)"

fun groupNodes :: "Instance list \<Rightarrow> (nodeKey \<times> Instance list) list \<Rightarrow> (nodeKey \<times> Instance list) list" where
  "groupNodes [] m = m"
| "groupNodes (n # ns) m = groupNodes ns (AList.update (nodeKeyOf n) (getOr [] m (nodeKeyOf n) @ [n]) m)"

fun terminateNodes :: "'f Compute \<Rightarrow> Instance list \<Rightarrow> ('f nworld, err option) state" where
  "terminateNodes cm [] = ret None"
| "terminateNodes cm (n # ns) = do {
     r \<leftarrow> onFleet (cm_Terminate cm (it_Name n));
     case r of Some e \<Rightarrow> ret (Some e) | None \<Rightarrow> terminateNodes cm ns
   }"

text \<open>The cluster's own node, after everything else that is tagged for it has gone.\<close>

fun removeStrays :: "'f Compute \<Rightarrow> string \<Rightarrow> Instance list \<Rightarrow> Instance option \<Rightarrow> ('f nworld, err + Instance option) state" where
  "removeStrays cm want [] node = ret (Inr node)"
| "removeStrays cm want (n # ns) node =
     (if it_Name n = want then removeStrays cm want ns (Some n)
      else do {
        r \<leftarrow> onFleet (cm_Terminate cm (it_Name n));
        case r of Some e \<Rightarrow> ret (Inl e) | None \<Rightarrow> removeStrays cm want ns node
      })"

definition isDead :: "Instance \<Rightarrow> bool" where
  "isDead n \<longleftrightarrow> it_State n = INSTANCE_STOPPED \<or> it_Health n = HEALTH_UNHEALTHY"

definition closeGap :: "('c, 'f) Reconciler \<Rightarrow> Cluster \<Rightarrow> string \<Rightarrow> Instance option \<Rightarrow> ('f nworld, err + string) state" where
  "closeGap rc c want node =
     (case node of
        None \<Rightarrow> do {
          r \<leftarrow> onFleet (cm_RunNode (rc_Compute rc) c);
          case r of
            Inl e \<Rightarrow> ret (Inl e)
          | Inr _ \<Rightarrow> (case rc_AfterRunNode rc of None \<Rightarrow> ret (Inr nodeCreating) | Some f \<Rightarrow> do { _ \<leftarrow> f c; ret (Inr nodeCreating) })
        }
      | Some n \<Rightarrow>
          if it_State n = INSTANCE_PENDING then do {
            r \<leftarrow> onFleet (cm_RunNode (rc_Compute rc) c);
            case r of Inl e \<Rightarrow> ret (Inl e) | Inr _ \<Rightarrow> ret (Inr nodeCreating)
          }
          else if isDead n then do {
            r \<leftarrow> onFleet (cm_Terminate (rc_Compute rc) want);
            case r of Some e \<Rightarrow> ret (Inl e) | None \<Rightarrow> ret (Inr nodeImpaired)
          }
          else if it_Health n = HEALTH_HEALTHY then ret (Inr nodeAvailable)
          else ret (Inr nodeCreating))"

definition reconcile :: "('c, 'f) Reconciler \<Rightarrow> Cluster \<Rightarrow> Instance list \<Rightarrow> ('f nworld, err option) state" where
  "reconcile rc c nodes =
     (let want = NodeName (cluster_Account c) (cu_Name c) in
      if cu_State c = Deleting then do {
        r \<leftarrow> terminateNodes (rc_Compute rc) nodes;
        case r of Some e \<Rightarrow> ret (Some e) | None \<Rightarrow> store_Forget c
      }
      else do {
        node \<leftarrow> removeStrays (rc_Compute rc) want nodes None;
        case node of
          Inl e \<Rightarrow> ret (Some e)
        | Inr node \<Rightarrow> do {
            status \<leftarrow> closeGap rc c want node;
            case status of
              Inl e \<Rightarrow> ret (Some e)
            | Inr status \<Rightarrow> do {
                now \<leftarrow> gets (rc_Now rc);
                store_SetObserved (rc_Store rc) c [\<lparr>nd_ID = want, nd_Status = status, nd_ObservedAt = now\<rparr>] (status = nodeAvailable)
              }
          }
      })"

definition orElse :: "err option \<Rightarrow> err option \<Rightarrow> err option" where
  "orElse first e = (case first of None \<Rightarrow> e | Some _ \<Rightarrow> first)"

fun reconcileAll :: "('c, 'f) Reconciler \<Rightarrow> Cluster list \<Rightarrow> (nodeKey \<times> Instance list) list \<Rightarrow> err option
    \<Rightarrow> ('f nworld, err option \<times> (nodeKey \<times> Instance list) list) state" where
  "reconcileAll rc [] m firstErr = ret (firstErr, m)"
| "reconcileAll rc (c # cs) m firstErr = (let k = (cluster_Account c, cu_Name c) in do {
     e \<leftarrow> reconcile rc c (getOr [] m k);
     reconcileAll rc cs (AList.delete k m) (orElse firstErr e)
   })"

fun terminateOrphans :: "'f Compute \<Rightarrow> Instance list \<Rightarrow> err option \<Rightarrow> ('f nworld, err option) state" where
  "terminateOrphans cm [] firstErr = ret firstErr"
| "terminateOrphans cm (n # ns) firstErr = do {
     e \<leftarrow> onFleet (cm_Terminate cm (it_Name n));
     terminateOrphans cm ns (orElse firstErr e)
   }"

definition Pass :: "('c::linorder, 'f) Reconciler \<Rightarrow> ('f nworld, err option) state" where
  "Pass rc = do {
     clusters \<leftarrow> store_All (rc_Store rc);
     case clusters of
       Inl e \<Rightarrow> ret (Some e)
     | Inr clusters \<Rightarrow> do {
         nodes \<leftarrow> onFleet (cm_Nodes (rc_Compute rc));
         case nodes of
           Inl e \<Rightarrow> ret (Some e)
         | Inr nodes \<Rightarrow> do {
             res \<leftarrow> reconcileAll rc clusters (groupNodes nodes []) None;
             let (firstErr, rest) = res;
             terminateOrphans (rc_Compute rc) (concat (map snd (rc_Range rc rest))) firstErr
           }
       }
   }"

text \<open>The loop runs a pass, then waits: for the end of its context, a tick of the period or a wake.\<close>

datatype wakeUp = CtxDone | PeriodTick | Woken

fun Run :: "('c::linorder, 'f) Reconciler \<Rightarrow> wakeUp list \<Rightarrow> ('f nworld, unit) state" where
  "Run rc [] = do { _ \<leftarrow> Pass rc; ret () }"
| "Run rc (ev # evs) = do { _ \<leftarrow> Pass rc; if ev = CtxDone then ret () else Run rc evs }"

end
