(* ===== verification/Nache_Convergence.thy ===== *)
theory Nache_Convergence
  imports Nache_Reconciler
begin

text \<open>
  What the passes of the reconciler achieve: with a compute service that does what it is asked and a database that
  answers, every state of rows and nodes, whatever crash or failure left it, reaches in two passes the state in
  which the nodes are exactly those of the clusters that should exist, and stays there.
\<close>

section \<open>The contract of the compute service\<close>

text \<open>
  The service is seen as a table from names to instances. Listing shows the table; terminating a name removes it, a
  name that is gone included; running a node whose name is free, or is held by the cluster's own node that has not been started
  yet, leaves that node running under the name, tagged for its cluster. Nothing is assumed of running a node whose name is held
  by an instance in any other state, which the reconciler never does.
\<close>

definition nodeOf :: "Cluster \<Rightarrow> string" where "nodeOf c = NodeName (cluster_Account c) (cu_Name c)"

definition clusterKey :: "Cluster \<Rightarrow> nodeKey" where "clusterKey c = (cluster_Account c, cu_Name c)"

definition freshNode :: "nodeKey \<Rightarrow> Instance \<Rightarrow> bool" where
  "freshNode k i \<longleftrightarrow> nodeKeyOf i = k \<and> it_State i = INSTANCE_RUNNING \<and> it_Health i \<noteq> HEALTH_UNHEALTHY"

definition reliable :: "'f Compute \<Rightarrow> ('f \<Rightarrow> string \<Rightarrow> Instance option) \<Rightarrow> bool" where
  "reliable cm tbl \<longleftrightarrow>
     (\<forall>f. \<exists>is. run (cm_Nodes cm) f = (Inr is, f) \<and> distinct (map it_Name is) \<and> (\<forall>i. i \<in> set is \<longleftrightarrow> tbl f (it_Name i) = Some i)) \<and>
     (\<forall>f n i. tbl f n = Some i \<longrightarrow> it_Name i = n) \<and>
     (\<forall>f n. \<exists>f'. run (cm_Terminate cm n) f = (None, f') \<and> tbl f' = (tbl f)(n := None)) \<and>
     (\<forall>f c. (\<forall>j. tbl f (nodeOf c) = Some j \<longrightarrow> nodeKeyOf j = clusterKey c \<and> it_State j = INSTANCE_PENDING) \<longrightarrow>
        (\<exists>i f'. run (cm_RunNode cm c) f = (Inr i, f') \<and> tbl f' = (tbl f)(nodeOf c \<mapsto> i) \<and> freshNode (clusterKey c) i))"

lemma reliable_Nodes:
  assumes "reliable cm tbl"
  obtains "is" where "run (cm_Nodes cm) f = (Inr is, f)" "distinct (map it_Name is)" "\<And>i. i \<in> set is \<longleftrightarrow> tbl f (it_Name i) = Some i"
  using assms unfolding reliable_def by blast

lemma reliable_name: "reliable cm tbl \<Longrightarrow> tbl f n = Some i \<Longrightarrow> it_Name i = n"
  unfolding reliable_def by blast

lemma reliable_Terminate:
  assumes "reliable cm tbl"
  obtains f' where "run (cm_Terminate cm n) f = (None, f')" "tbl f' = (tbl f)(n := None)"
  using assms unfolding reliable_def by blast

lemma reliable_RunNode:
  assumes "reliable cm tbl" "\<And>j. tbl f (nodeOf c) = Some j \<Longrightarrow> nodeKeyOf j = clusterKey c \<and> it_State j = INSTANCE_PENDING"
  obtains i f' where "run (cm_RunNode cm c) f = (Inr i, f')" "tbl f' = (tbl f)(nodeOf c \<mapsto> i)" "freshNode (clusterKey c) i"
  using assms unfolding reliable_def by blast

section \<open>A database that answers\<close>

definition readable :: "'c clusterStore \<Rightarrow> cluster_row \<Rightarrow> bool" where
  "readable st r \<longleftrightarrow> (\<exists>ns. cs_Unmarshal st (cr_nodes r) = Inr ns)"

text \<open>What \<open>encoding/json\<close> writes it can read.\<close>

definition writesReadable :: "'c clusterStore \<Rightarrow> bool" where
  "writesReadable st \<longleftrightarrow> (\<forall>ns. \<exists>raw ns'. cs_Marshal st ns = Inr raw \<and> cs_Unmarshal st raw = Inr ns')"

text \<open>No statement fails, and the rows are what the schema admits, with accounts as capabilities name them.\<close>

definition quietDb :: "'c clusterStore \<Rightarrow> 'f nworld \<Rightarrow> bool" where
  "quietDb st w \<longleftrightarrow> nw_faults w = [] \<and> uniqueRows (nw_rows w) \<and> (\<forall>r \<in> set (nw_rows w). readable st r \<and> twelveDigits (cr_account r))"

lemma run_nsql_quietDb:
  "nw_faults w = [] \<Longrightarrow> run (nsql f) w = (Inr (fst (f (nw_now w) (nw_rows w))), w\<lparr>nw_rows := snd (f (nw_now w) (nw_rows w))\<rparr>)"
  by (cases w) (simp add: nsql_def Let_def split: prod.split)

lemma scanClusters_readable:
  "\<forall>r \<in> set rows. readable st r \<Longrightarrow> \<exists>cs. scanClusters st rows = Inr cs \<and>
     map (\<lambda>c. (clusterKey c, cu_State c)) cs = map (\<lambda>r. ((cr_account r, cr_name r), cr_state r)) rows"
  by (induction rows) (auto simp: readable_def clusterKey_def cluster_Account_def)

lemma distinct_map_sort_key: "distinct (map f (sort_key k xs)) \<longleftrightarrow> distinct (map f xs)"
  by (simp add: distinct_map)

lemma stateOf_Some:
  assumes "uniqueRows rows"
  shows "stateOf a n rows = Some s \<longleftrightarrow> (\<exists>r \<in> set rows. cr_account r = a \<and> cr_name r = n \<and> cr_state r = s)"
  using assms by (induction rows) (auto simp: stateOf_def uniqueRows_def isRow_def image_iff)

text \<open>What a pass reads of the rows: each cluster once, with its state.\<close>

lemma store_All_quietDb:
  assumes "quietDb st w"
  obtains cs where "run (store_All st) w = (Inr cs, w)" "distinct (map clusterKey cs)"
    "\<And>a n s. (\<exists>c \<in> set cs. clusterKey c = (a, n) \<and> cu_State c = s) \<longleftrightarrow> stateOf a n (nw_rows w) = Some s"
    "\<And>c. c \<in> set cs \<Longrightarrow> twelveDigits (cluster_Account c)"
proof -
  let ?k = "\<lambda>r. (cr_account r, cr_name r)"
  let ?sel = "\<lambda>rows. sort_key (\<lambda>r. cs_Collation st (cr_account r)) (sort_key (\<lambda>r. cs_Collation st (cr_name r)) rows)"
  let ?rows = "nw_rows w"
  have u: "distinct (map ?k ?rows)" and f: "nw_faults w = []" using assms by (simp_all add: quietDb_def uniqueRows_def)
  obtain cs where cs: "scanClusters st (?sel ?rows) = Inr cs"
    "map (\<lambda>c. (clusterKey c, cu_State c)) cs = map (\<lambda>r. (?k r, cr_state r)) (?sel ?rows)"
    using scanClusters_readable [of "?sel ?rows" st] assms by (auto simp: quietDb_def)
  have e: "set (map (\<lambda>c. (clusterKey c, cu_State c)) cs) = (\<lambda>r. (?k r, cr_state r)) ` set ?rows"
    unfolding cs(2) by simp
  have "run (store_All st) w = (Inr cs, w)"
    using f cs(1) by (simp add: store_All_def store_query_def run_nsql_quietDb)
  moreover have "map clusterKey cs = map ?k (?sel ?rows)" using arg_cong [OF cs(2), of "map fst"] by (simp add: comp_def)
  then have "distinct (map clusterKey cs)" using u by (simp only: distinct_map_sort_key)
  moreover have "(\<exists>c \<in> set cs. clusterKey c = (a, n) \<and> cu_State c = s) \<longleftrightarrow> stateOf a n ?rows = Some s" for a n s
  proof -
    have "(\<exists>c \<in> set cs. clusterKey c = (a, n) \<and> cu_State c = s) \<longleftrightarrow> ((a, n), s) \<in> (\<lambda>r. (?k r, cr_state r)) ` set ?rows"
      unfolding e [symmetric] by (auto simp: image_iff) metis
    also have "\<dots> \<longleftrightarrow> (\<exists>r \<in> set ?rows. ?k r = (a, n) \<and> cr_state r = s)" by auto
    also have "\<dots> \<longleftrightarrow> stateOf a n ?rows = Some s"
      using assms by (simp add: quietDb_def stateOf_Some)
    finally show ?thesis .
  qed
  moreover have "twelveDigits (cluster_Account c)" if "c \<in> set cs" for c
  proof -
    have "(clusterKey c, cu_State c) \<in> (\<lambda>r. (?k r, cr_state r)) ` set ?rows" using that unfolding e [symmetric] by auto
    then show ?thesis using assms by (auto simp: quietDb_def clusterKey_def)
  qed
  ultimately show ?thesis using that by blast
qed

section \<open>The steps of a pass\<close>

lemma getOr_groupNodes: "getOr [] (groupNodes ns m) k = getOr [] m k @ filter (\<lambda>n. nodeKeyOf n = k) ns"
  by (induction ns arbitrary: m) auto

lemma distinct_groupNodes: "distinct (map fst m) \<Longrightarrow> distinct (map fst (groupNodes ns m))"
  by (induction ns arbitrary: m) (simp_all add: distinct_update)

lemma set_concat_groups:
  "distinct (map fst m) \<Longrightarrow> i \<in> set (concat (map snd m)) \<longleftrightarrow> (\<exists>k. i \<in> set (getOr [] m k))"
proof (induction m)
  case (Cons kv m)
  obtain k v where kv: "kv = (k, v)" by (cases kv)
  have "lookup m k = None" using Cons.prems by (simp add: kv map_of_eq_None_iff)
  then have "getOr [] m k = []" by (simp add: getOr_def)
  then have "(\<exists>k'. i \<in> set (getOr [] m k')) \<longleftrightarrow> (\<exists>k'. k' \<noteq> k \<and> i \<in> set (getOr [] m k'))" by (metis empty_iff empty_set)
  moreover have "getOr [] ((k, v) # m) k' = (if k' = k then v else getOr [] m k')" for k' by (simp add: getOr_def)
  ultimately show ?case using Cons by (auto simp: kv)
qed (simp add: getOr_def)

lemma terminateNodes_reliable:
  assumes "reliable cm tbl"
  shows "\<exists>f. run (terminateNodes cm ns) w = (None, w\<lparr>nw_fleet := f\<rparr>) \<and>
    tbl f = (\<lambda>n. if n \<in> it_Name ` set ns then None else tbl (nw_fleet w) n)"
proof (induction ns arbitrary: w)
  case Nil
  show ?case by (intro exI [of _ "nw_fleet w"]) simp
next
  case (Cons i ns)
  obtain f where f: "run (cm_Terminate cm (it_Name i)) (nw_fleet w) = (None, f)" "tbl f = (tbl (nw_fleet w))(it_Name i := None)"
    using assms by (rule reliable_Terminate)
  show ?case using Cons [of "w\<lparr>nw_fleet := f\<rparr>"] f by (auto simp: fun_eq_iff)
qed

lemma terminateOrphans_reliable:
  assumes "reliable cm tbl"
  shows "\<exists>f. run (terminateOrphans cm ns None) w = (None, w\<lparr>nw_fleet := f\<rparr>) \<and>
    tbl f = (\<lambda>n. if n \<in> it_Name ` set ns then None else tbl (nw_fleet w) n)"
proof (induction ns arbitrary: w)
  case Nil
  show ?case by (intro exI [of _ "nw_fleet w"]) simp
next
  case (Cons i ns)
  obtain f where f: "run (cm_Terminate cm (it_Name i)) (nw_fleet w) = (None, f)" "tbl f = (tbl (nw_fleet w))(it_Name i := None)"
    using assms by (rule reliable_Terminate)
  show ?case using Cons [of "w\<lparr>nw_fleet := f\<rparr>"] f by (auto simp: fun_eq_iff orElse_def)
qed

lemma removeStrays_reliable:
  assumes "reliable cm tbl" "\<forall>i \<in> set ns. t (it_Name i) = Some i"
  shows "\<exists>f. run (removeStrays cm want ns node) w = (Inr (if want \<in> it_Name ` set ns then t want else node), w\<lparr>nw_fleet := f\<rparr>) \<and>
    tbl f = (\<lambda>n. if n \<in> it_Name ` set ns \<and> n \<noteq> want then None else tbl (nw_fleet w) n)"
  using assms(2)
proof (induction ns arbitrary: w node)
  case Nil
  show ?case by (intro exI [of _ "nw_fleet w"]) simp
next
  case (Cons i ns)
  show ?case
  proof (cases "it_Name i = want")
    case True
    then show ?thesis using Cons.IH [of "Some i" w] Cons.prems by (auto simp: fun_eq_iff)
  next
    case False
    obtain f where f: "run (cm_Terminate cm (it_Name i)) (nw_fleet w) = (None, f)" "tbl f = (tbl (nw_fleet w))(it_Name i := None)"
      using assms(1) by (rule reliable_Terminate)
    show ?thesis using Cons.IH [of node "w\<lparr>nw_fleet := f\<rparr>"] Cons.prems f False by (auto simp: fun_eq_iff)
  qed
qed

text \<open>What a pass makes of a cluster's node.\<close>

definition nodeGoal :: "nodeKey \<Rightarrow> Instance option \<Rightarrow> Instance option \<Rightarrow> bool" where
  "nodeGoal k before after \<longleftrightarrow>
     (case before of
        None \<Rightarrow> (\<exists>i. after = Some i \<and> freshNode k i)
      | Some n \<Rightarrow>
          if it_State n = INSTANCE_PENDING then (\<exists>i. after = Some i \<and> freshNode k i)
          else if isDead n then after = None
          else after = Some n)"

definition available :: "Instance option \<Rightarrow> bool" where
  "available node \<longleftrightarrow> (\<exists>n. node = Some n \<and> it_State n \<noteq> INSTANCE_PENDING \<and> \<not> isDead n \<and> it_Health n = HEALTH_HEALTHY)"

lemma closeGap_reliable:
  assumes r: "reliable (rc_Compute rc) tbl" and a: "rc_AfterRunNode rc = None" and node: "tbl (nw_fleet w) (nodeOf c) = node"
    and tag: "\<And>j. node = Some j \<Longrightarrow> nodeKeyOf j = clusterKey c"
  shows "\<exists>f status. run (closeGap rc c (nodeOf c) node) w = (Inr status, w\<lparr>nw_fleet := f\<rparr>) \<and>
    (\<forall>n. n \<noteq> nodeOf c \<longrightarrow> tbl f n = tbl (nw_fleet w) n) \<and> nodeGoal (clusterKey c) node (tbl f (nodeOf c)) \<and>
    (status = nodeAvailable \<longleftrightarrow> available node)"
proof -
  have ne: "nodeCreating \<noteq> nodeAvailable" "nodeImpaired \<noteq> nodeAvailable" by (simp_all add: nodeCreating_def nodeAvailable_def nodeImpaired_def)
  have run: "\<exists>i f. run (cm_RunNode (rc_Compute rc) c) (nw_fleet w) = (Inr i, f) \<and> tbl f = (tbl (nw_fleet w))(nodeOf c \<mapsto> i) \<and>
      freshNode (clusterKey c) i" if "\<And>j. node = Some j \<Longrightarrow> it_State j = INSTANCE_PENDING"
    using reliable_RunNode [OF r, of "nw_fleet w" c] tag that node by metis
  obtain g where g: "run (cm_Terminate (rc_Compute rc) (nodeOf c)) (nw_fleet w) = (None, g)" "tbl g = (tbl (nw_fleet w))(nodeOf c := None)"
    using r by (rule reliable_Terminate)
  have w: "w = w\<lparr>nw_fleet := nw_fleet w\<rparr>" by simp
  show ?thesis
  proof (cases node)
    case None
    then obtain i f where f: "run (cm_RunNode (rc_Compute rc) c) (nw_fleet w) = (Inr i, f)" "tbl f = (tbl (nw_fleet w))(nodeOf c \<mapsto> i)"
      "freshNode (clusterKey c) i" using run by blast
    then show ?thesis using None ne by (intro exI [of _ f] exI [of _ nodeCreating]) (simp add: closeGap_def a nodeGoal_def available_def)
  next
    case (Some n)
    consider "it_State n = INSTANCE_PENDING" | "it_State n \<noteq> INSTANCE_PENDING" "isDead n" | "it_State n \<noteq> INSTANCE_PENDING" "\<not> isDead n" by blast
    then show ?thesis
    proof cases
      case 1
      then obtain i f where f: "run (cm_RunNode (rc_Compute rc) c) (nw_fleet w) = (Inr i, f)" "tbl f = (tbl (nw_fleet w))(nodeOf c \<mapsto> i)"
        "freshNode (clusterKey c) i" using run Some by blast
      then show ?thesis using 1 ne Some by (intro exI [of _ f] exI [of _ nodeCreating]) (simp add: closeGap_def nodeGoal_def available_def)
    next
      case 2
      then show ?thesis using g ne Some by (intro exI [of _ g] exI [of _ nodeImpaired]) (simp add: closeGap_def nodeGoal_def available_def)
    next
      case 3
      then show ?thesis using ne Some node
        by (intro exI [of _ "nw_fleet w"] exI [of _ "if it_Health n = HEALTH_HEALTHY then nodeAvailable else nodeCreating"])
          (simp add: closeGap_def nodeGoal_def available_def)
    qed
  qed
qed

section \<open>The effect on the rows\<close>

lemma quietDb_rows:
  assumes "quietDb st w" "uniqueRows rows" "\<forall>r \<in> set rows. readable st r \<and> twelveDigits (cr_account r)"
  shows "quietDb st (w\<lparr>nw_rows := rows\<rparr>)"
  using assms by (simp add: quietDb_def)

lemma quietDb_fleet [simp]: "quietDb st (w\<lparr>nw_fleet := f\<rparr>) \<longleftrightarrow> quietDb st w"
  by (simp add: quietDb_def)

lemma find_isRow: "find (isRow a n) rows = Some r \<Longrightarrow> cr_account r = a \<and> cr_name r = n"
  by (auto simp: find_Some_iff isRow_def)

lemma store_Forget_quietDb:
  assumes "quietDb st w"
  shows "\<exists>rows. run (store_Forget c) w = (None, w\<lparr>nw_rows := rows\<rparr>) \<and> quietDb st (w\<lparr>nw_rows := rows\<rparr>) \<and>
    (\<forall>a n. stateOf a n rows = (if (a, n) = clusterKey c \<and> stateOf a n (nw_rows w) = Some Deleting then None else stateOf a n (nw_rows w)))"
proof -
  let ?rows = "snd (forgetCluster (cu_account c) (cu_Name c) (nw_now w) (nw_rows w))"
  let ?Q = "\<lambda>r. \<not> (isRow (cu_account c) (cu_Name c) r \<and> cr_state r = Deleting)"
  have f: "nw_faults w = []" and u: "uniqueRows (nw_rows w)" using assms by (simp_all add: quietDb_def)
  have "uniqueRows ?rows" using forgetCluster_steps(1) [OF u] by (metis prod.collapse)
  then have "quietDb st (w\<lparr>nw_rows := ?rows\<rparr>)" using assms by (intro quietDb_rows) (auto simp: quietDb_def forgetCluster_def)
  moreover have "stateOf a n ?rows =
      (if (a, n) = clusterKey c \<and> stateOf a n (nw_rows w) = Some Deleting then None else stateOf a n (nw_rows w))" for a n
  proof -
    have "find (isRow a n) (filter ?Q (nw_rows w)) =
        (case find (isRow a n) (nw_rows w) of Some r \<Rightarrow> if ?Q r then Some r else None | None \<Rightarrow> None)"
      unfolding isRow_key [of a n] using u by (intro find_filter_drop) (simp add: uniqueRows_def)
    then show ?thesis
      by (cases "find (isRow a n) (nw_rows w)")
        (auto simp: stateOf_def forgetCluster_def clusterKey_def cluster_Account_def isRow_def dest: find_isRow)
  qed
  ultimately show ?thesis using f by (intro exI [of _ ?rows]) (simp add: store_Forget_def run_nsql_quietDb)
qed

lemma store_SetObserved_quietDb:
  assumes "quietDb st w" "writesReadable st"
  shows "\<exists>rows. run (store_SetObserved st c ns act) w = (None, w\<lparr>nw_rows := rows\<rparr>) \<and> quietDb st (w\<lparr>nw_rows := rows\<rparr>) \<and>
    (\<forall>a n. stateOf a n rows = (if (a, n) = clusterKey c \<and> act then
       (case stateOf a n (nw_rows w) of None \<Rightarrow> None | Some Deleting \<Rightarrow> Some Deleting | Some _ \<Rightarrow> Some Active) else stateOf a n (nw_rows w)))"
proof -
  obtain raw ns' where raw: "cs_Marshal st ns = Inr raw" "cs_Unmarshal st raw = Inr ns'" using assms(2) unfolding writesReadable_def by blast
  let ?rows = "snd (setObserved (cu_account c) (cu_Name c) raw act (nw_now w) (nw_rows w))"
  let ?f = "\<lambda>r. if isRow (cu_account c) (cu_Name c) r \<and> cr_state r \<noteq> Deleting
    then r\<lparr>cr_nodes := raw, cr_state := (if act then Active else cr_state r), cr_updated := nw_now w\<rparr> else r"
  have f: "nw_faults w = []" and u: "uniqueRows (nw_rows w)" using assms(1) by (simp_all add: quietDb_def)
  have "uniqueRows ?rows" using setObserved_steps(1) [OF u] by (metis prod.collapse)
  then have "quietDb st (w\<lparr>nw_rows := ?rows\<rparr>)" using assms(1) raw by (intro quietDb_rows) (auto simp: quietDb_def setObserved_def readable_def)
  moreover have "stateOf a n ?rows = (if (a, n) = clusterKey c \<and> act then
       (case stateOf a n (nw_rows w) of None \<Rightarrow> None | Some Deleting \<Rightarrow> Some Deleting | Some _ \<Rightarrow> Some Active) else stateOf a n (nw_rows w))" for a n
  proof -
    have "find (isRow a n) (map ?f (nw_rows w)) = map_option ?f (find (isRow a n) (nw_rows w))"
      by (rule find_map_same) (simp add: isRow_def)
    then have "stateOf a n ?rows = map_option (\<lambda>r. cr_state (?f r)) (find (isRow a n) (nw_rows w))"
      by (simp add: stateOf_def setObserved_def option.map_comp comp_def)
    then show ?thesis
      by (cases "find (isRow a n) (nw_rows w)")
        (auto simp: stateOf_def clusterKey_def cluster_Account_def isRow_def dest: find_isRow split: clusterState.split)
  qed
  ultimately show ?thesis using f raw by (intro exI [of _ ?rows]) (simp add: store_SetObserved_def run_nsql_quietDb)
qed

section \<open>One cluster\<close>

definition wellBehaved :: "('c, 'f) Reconciler \<Rightarrow> ('f \<Rightarrow> string \<Rightarrow> Instance option) \<Rightarrow> bool" where
  "wellBehaved rc tbl \<longleftrightarrow> reliable (rc_Compute rc) tbl \<and> writesReadable (rc_Store rc) \<and> rc_AfterRunNode rc = None \<and>
     (\<forall>m. mset (rc_Range rc m) = mset m)"

text \<open>The state a pass leaves a cluster in, given its node before.\<close>

definition stateGoal :: "Instance option \<Rightarrow> clusterState \<Rightarrow> clusterState option" where
  "stateGoal node s = (case s of Deleting \<Rightarrow> None | _ \<Rightarrow> Some (if available node then Active else s))"

lemma reconcile_reliable:
  assumes wb: "wellBehaved rc tbl" and quietDb: "quietDb (rc_Store rc) w"
    and ns: "\<And>i. i \<in> set ns \<longleftrightarrow> t0 (it_Name i) = Some i \<and> nodeKeyOf i = clusterKey c"
    and names: "\<And>n i. t0 n = Some i \<Longrightarrow> it_Name i = n"
    and same: "cu_State c \<noteq> Deleting \<Longrightarrow> tbl (nw_fleet w) (nodeOf c) = t0 (nodeOf c)"
    and tag: "\<And>i. cu_State c \<noteq> Deleting \<Longrightarrow> t0 (nodeOf c) = Some i \<Longrightarrow> nodeKeyOf i = clusterKey c"
    and row: "stateOf (cu_account c) (cu_Name c) (nw_rows w) = Some (cu_State c)"
  shows "\<exists>w'. run (reconcile rc c ns) w = (None, w') \<and> quietDb (rc_Store rc) w' \<and>
    (cu_State c \<noteq> Deleting \<longrightarrow> nodeGoal (clusterKey c) (t0 (nodeOf c)) (tbl (nw_fleet w') (nodeOf c))) \<and>
    (\<forall>n. \<not> (cu_State c \<noteq> Deleting \<and> n = nodeOf c) \<longrightarrow>
       tbl (nw_fleet w') n = (if \<exists>i. t0 n = Some i \<and> nodeKeyOf i = clusterKey c then None else tbl (nw_fleet w) n)) \<and>
    (\<forall>a n. stateOf a n (nw_rows w') = (if (a, n) = clusterKey c then stateGoal (t0 (nodeOf c)) (cu_State c) else stateOf a n (nw_rows w)))"
proof -
  have r: "reliable (rc_Compute rc) tbl" and j: "writesReadable (rc_Store rc)" and a: "rc_AfterRunNode rc = None"
    using wb by (simp_all add: wellBehaved_def)
  have k: "clusterKey c = (cu_account c, cu_Name c)" by (simp add: clusterKey_def cluster_Account_def)
  have mem: "n \<in> it_Name ` set ns \<longleftrightarrow> (\<exists>i. t0 n = Some i \<and> nodeKeyOf i = clusterKey c)" for n
    using ns names by (auto simp: image_iff)
  show ?thesis
  proof (cases "cu_State c = Deleting")
    case True
    obtain f where f: "run (terminateNodes (rc_Compute rc) ns) w = (None, w\<lparr>nw_fleet := f\<rparr>)"
      "tbl f = (\<lambda>n. if n \<in> it_Name ` set ns then None else tbl (nw_fleet w) n)" using terminateNodes_reliable [OF r] by blast
    have c: "quietDb (rc_Store rc) (w\<lparr>nw_fleet := f\<rparr>)" using quietDb by simp
    obtain rows where g: "run (store_Forget c) (w\<lparr>nw_fleet := f\<rparr>) = (None, w\<lparr>nw_fleet := f, nw_rows := rows\<rparr>)"
      "quietDb (rc_Store rc) (w\<lparr>nw_fleet := f, nw_rows := rows\<rparr>)"
      "\<And>a n. stateOf a n rows = (if (a, n) = clusterKey c \<and> stateOf a n (nw_rows w) = Some Deleting then None else stateOf a n (nw_rows w))"
      using store_Forget_quietDb [OF c, of c] by auto
    show ?thesis
      using f g True row by (intro exI [of _ "w\<lparr>nw_fleet := f, nw_rows := rows\<rparr>"])
        (simp add: reconcile_def mem stateGoal_def k)
  next
    case live: False
    have t0: "\<forall>i \<in> set ns. t0 (it_Name i) = Some i" using ns by blast
    have "(if nodeOf c \<in> it_Name ` set ns then t0 (nodeOf c) else None) = t0 (nodeOf c)"
      using tag [OF live] by (cases "t0 (nodeOf c)") (auto simp: mem)
    then obtain f where f: "run (removeStrays (rc_Compute rc) (nodeOf c) ns None) w = (Inr (t0 (nodeOf c)), w\<lparr>nw_fleet := f\<rparr>)"
      "tbl f = (\<lambda>n. if n \<in> it_Name ` set ns \<and> n \<noteq> nodeOf c then None else tbl (nw_fleet w) n)"
      using removeStrays_reliable [OF r t0, of "nodeOf c" None w] by auto
    obtain g status where g: "run (closeGap rc c (nodeOf c) (t0 (nodeOf c))) (w\<lparr>nw_fleet := f\<rparr>) = (Inr status, w\<lparr>nw_fleet := g\<rparr>)"
      "\<And>n. n \<noteq> nodeOf c \<Longrightarrow> tbl g n = tbl f n" "nodeGoal (clusterKey c) (t0 (nodeOf c)) (tbl g (nodeOf c))"
      "status = nodeAvailable \<longleftrightarrow> available (t0 (nodeOf c))"
      using closeGap_reliable [OF r a, of "w\<lparr>nw_fleet := f\<rparr>" c "t0 (nodeOf c)"] same [OF live] tag [OF live] f(2) by auto
    have c: "quietDb (rc_Store rc) (w\<lparr>nw_fleet := g\<rparr>)" using quietDb by simp
    let ?ns = "[\<lparr>nd_ID = nodeOf c, nd_Status = status, nd_ObservedAt = rc_Now rc (w\<lparr>nw_fleet := g\<rparr>)\<rparr>]"
    obtain rows where h: "run (store_SetObserved (rc_Store rc) c ?ns (status = nodeAvailable)) (w\<lparr>nw_fleet := g\<rparr>) =
        (None, w\<lparr>nw_fleet := g, nw_rows := rows\<rparr>)" "quietDb (rc_Store rc) (w\<lparr>nw_fleet := g, nw_rows := rows\<rparr>)"
      "\<And>a n. stateOf a n rows = (if (a, n) = clusterKey c \<and> status = nodeAvailable then
         (case stateOf a n (nw_rows w) of None \<Rightarrow> None | Some Deleting \<Rightarrow> Some Deleting | Some _ \<Rightarrow> Some Active) else stateOf a n (nw_rows w))"
      using store_SetObserved_quietDb [OF c j, of c ?ns "status = nodeAvailable"] by auto
    have "run (reconcile rc c ns) w = (None, w\<lparr>nw_fleet := g, nw_rows := rows\<rparr>)"
      using f(1) g(1) h(1) live by (simp add: reconcile_def nodeOf_def [symmetric] Let_def)
    moreover have "stateOf a n rows = (if (a, n) = clusterKey c then stateGoal (t0 (nodeOf c)) (cu_State c) else stateOf a n (nw_rows w))" for a n
      using row live g(4) unfolding h(3) k by (cases "cu_State c") (auto simp: stateGoal_def)
    ultimately show ?thesis using f(2) g(2,3) h(2) live
      by (intro exI [of _ "w\<lparr>nw_fleet := g, nw_rows := rows\<rparr>"]) (auto simp: mem)
  qed
qed

section \<open>All clusters\<close>

lemma NodeName_inj:
  assumes "NodeName a n = NodeName b m" "twelveDigits a" "twelveDigits b"
  shows "a = b \<and> n = m"
  using assms by (auto simp: NodeName_def twelveDigits_def)

lemma nodeOf_inj:
  "nodeOf c = nodeOf c' \<Longrightarrow> twelveDigits (cluster_Account c) \<Longrightarrow> twelveDigits (cluster_Account c') \<Longrightarrow> clusterKey c = clusterKey c'"
  using NodeName_inj [of "cluster_Account c" "cu_Name c" "cluster_Account c'" "cu_Name c'"] by (simp add: nodeOf_def clusterKey_def)

text \<open>The snapshot of the nodes that a pass works from.\<close>

definition snapshot :: "(string \<Rightarrow> Instance option) \<Rightarrow> Instance list \<Rightarrow> bool" where
  "snapshot t0 is \<longleftrightarrow> (\<forall>i. i \<in> set is \<longleftrightarrow> t0 (it_Name i) = Some i) \<and> (\<forall>n i. t0 n = Some i \<longrightarrow> it_Name i = n)"

lemma reconcileAll_reliable:
  assumes wb: "wellBehaved rc tbl" and sn: "snapshot t0 is"
    and "quietDb (rc_Store rc) w" "distinct (map clusterKey cs)" "distinct (map fst m)"
    and "\<And>c. c \<in> set cs \<Longrightarrow> twelveDigits (cluster_Account c)"
    and "\<And>c. c \<in> set cs \<Longrightarrow> getOr [] m (clusterKey c) = filter (\<lambda>i. nodeKeyOf i = clusterKey c) is"
    and "\<And>c. c \<in> set cs \<Longrightarrow> cu_State c \<noteq> Deleting \<Longrightarrow> tbl (nw_fleet w) (nodeOf c) = t0 (nodeOf c)"
    and tag: "\<And>c i. c \<in> set cs \<Longrightarrow> cu_State c \<noteq> Deleting \<Longrightarrow> t0 (nodeOf c) = Some i \<Longrightarrow> nodeKeyOf i = clusterKey c"
    and "\<And>c. c \<in> set cs \<Longrightarrow> stateOf (cu_account c) (cu_Name c) (nw_rows w) = Some (cu_State c)"
  shows "\<exists>w' m'. run (reconcileAll rc cs m None) w = ((None, m'), w') \<and> quietDb (rc_Store rc) w' \<and> distinct (map fst m') \<and>
    (\<forall>k. getOr [] m' k = (if k \<in> clusterKey ` set cs then [] else getOr [] m k)) \<and>
    (\<forall>c \<in> set cs. cu_State c \<noteq> Deleting \<longrightarrow> nodeGoal (clusterKey c) (t0 (nodeOf c)) (tbl (nw_fleet w') (nodeOf c))) \<and>
    (\<forall>n. (\<forall>c \<in> set cs. cu_State c \<noteq> Deleting \<longrightarrow> n \<noteq> nodeOf c) \<longrightarrow>
       tbl (nw_fleet w') n = (if \<exists>i. t0 n = Some i \<and> nodeKeyOf i \<in> clusterKey ` set cs then None else tbl (nw_fleet w) n)) \<and>
    (\<forall>c \<in> set cs. stateOf (cu_account c) (cu_Name c) (nw_rows w') = stateGoal (t0 (nodeOf c)) (cu_State c)) \<and>
    (\<forall>a n. (a, n) \<notin> clusterKey ` set cs \<longrightarrow> stateOf a n (nw_rows w') = stateOf a n (nw_rows w))"
  using assms(3-)
proof (induction cs arbitrary: w m)
  case Nil
  then show ?case by (intro exI [of _ w] exI [of _ m]) simp
next
  case (Cons c cs)
  let ?k = "clusterKey c"
  have k: "clusterKey c' = (cu_account c', cu_Name c')" for c' by (simp add: clusterKey_def cluster_Account_def)
  have names: "t0 n = Some i \<Longrightarrow> it_Name i = n" for n i using sn by (simp add: snapshot_def)
  have get: "getOr [] m ?k = filter (\<lambda>i. nodeKeyOf i = ?k) is" using Cons.prems(5) by simp
  have mem: "i \<in> set (getOr [] m ?k) \<longleftrightarrow> t0 (it_Name i) = Some i \<and> nodeKeyOf i = ?k" for i
    unfolding get using sn by (auto simp: snapshot_def)
  have quietDb: "quietDb (rc_Store rc) w" by (rule Cons.prems(1))
  have same: "cu_State c \<noteq> Deleting \<Longrightarrow> tbl (nw_fleet w) (nodeOf c) = t0 (nodeOf c)" using Cons.prems(6) by simp
  have tagc: "\<And>i. cu_State c \<noteq> Deleting \<Longrightarrow> t0 (nodeOf c) = Some i \<Longrightarrow> nodeKeyOf i = ?k" using Cons.prems(7) by simp
  have row: "stateOf (cu_account c) (cu_Name c) (nw_rows w) = Some (cu_State c)" using Cons.prems(8) by simp
  obtain w1 where w1: "run (reconcile rc c (getOr [] m ?k)) w = (None, w1)" "quietDb (rc_Store rc) w1"
    "cu_State c \<noteq> Deleting \<Longrightarrow> nodeGoal ?k (t0 (nodeOf c)) (tbl (nw_fleet w1) (nodeOf c))"
    "\<And>n. \<not> (cu_State c \<noteq> Deleting \<and> n = nodeOf c) \<Longrightarrow>
       tbl (nw_fleet w1) n = (if \<exists>i. t0 n = Some i \<and> nodeKeyOf i = ?k then None else tbl (nw_fleet w) n)"
    "\<And>a n. stateOf a n (nw_rows w1) = (if (a, n) = ?k then stateGoal (t0 (nodeOf c)) (cu_State c) else stateOf a n (nw_rows w))"
    using reconcile_reliable [OF wb quietDb mem names same tagc row] by blast
  have new: "clusterKey c' \<noteq> ?k" if "c' \<in> set cs" for c'
  proof -
    have "clusterKey c' \<in> clusterKey ` set cs" using that by (rule imageI)
    then show ?thesis using Cons.prems(2) by auto
  qed
  have apart: "nodeOf c' \<noteq> nodeOf c" if "c' \<in> set cs" for c'
    using nodeOf_inj [of c' c] new [OF that] Cons.prems(4) that by auto
  have keep: "tbl (nw_fleet w1) (nodeOf c') = t0 (nodeOf c')" if c': "c' \<in> set cs" "cu_State c' \<noteq> Deleting" for c'
  proof -
    have "\<not> (\<exists>i. t0 (nodeOf c') = Some i \<and> nodeKeyOf i = ?k)" using Cons.prems(7) [of c'] c' new [OF c'(1)] by auto
    then show ?thesis using w1(4) [of "nodeOf c'"] apart [OF c'(1)] Cons.prems(6) [of c'] c' by auto
  qed
  have "\<exists>w' m'. run (reconcileAll rc cs (AList.delete ?k m) None) w1 = ((None, m'), w') \<and> quietDb (rc_Store rc) w' \<and> distinct (map fst m') \<and>
    (\<forall>k. getOr [] m' k = (if k \<in> clusterKey ` set cs then [] else getOr [] (AList.delete ?k m) k)) \<and>
    (\<forall>c \<in> set cs. cu_State c \<noteq> Deleting \<longrightarrow> nodeGoal (clusterKey c) (t0 (nodeOf c)) (tbl (nw_fleet w') (nodeOf c))) \<and>
    (\<forall>n. (\<forall>c \<in> set cs. cu_State c \<noteq> Deleting \<longrightarrow> n \<noteq> nodeOf c) \<longrightarrow>
       tbl (nw_fleet w') n = (if \<exists>i. t0 n = Some i \<and> nodeKeyOf i \<in> clusterKey ` set cs then None else tbl (nw_fleet w1) n)) \<and>
    (\<forall>c \<in> set cs. stateOf (cu_account c) (cu_Name c) (nw_rows w') = stateGoal (t0 (nodeOf c)) (cu_State c)) \<and>
    (\<forall>a n. (a, n) \<notin> clusterKey ` set cs \<longrightarrow> stateOf a n (nw_rows w') = stateOf a n (nw_rows w1))"
  proof (rule Cons.IH)
    show "stateOf (cu_account c') (cu_Name c') (nw_rows w1) = Some (cu_State c')" if "c' \<in> set cs" for c'
      using w1(5) [of "cu_account c'" "cu_Name c'"] new [OF that] Cons.prems(8) [of c'] that by (auto simp: k)
  qed (use Cons.prems new keep w1(2) in \<open>auto simp: distinct_delete\<close>)
  then obtain w' m' where w': "run (reconcileAll rc cs (AList.delete ?k m) None) w1 = ((None, m'), w')" "quietDb (rc_Store rc) w'" "distinct (map fst m')"
    "\<forall>k. getOr [] m' k = (if k \<in> clusterKey ` set cs then [] else getOr [] (AList.delete ?k m) k)"
    "\<forall>c \<in> set cs. cu_State c \<noteq> Deleting \<longrightarrow> nodeGoal (clusterKey c) (t0 (nodeOf c)) (tbl (nw_fleet w') (nodeOf c))"
    "\<forall>n. (\<forall>c \<in> set cs. cu_State c \<noteq> Deleting \<longrightarrow> n \<noteq> nodeOf c) \<longrightarrow>
       tbl (nw_fleet w') n = (if \<exists>i. t0 n = Some i \<and> nodeKeyOf i \<in> clusterKey ` set cs then None else tbl (nw_fleet w1) n)"
    "\<forall>c \<in> set cs. stateOf (cu_account c) (cu_Name c) (nw_rows w') = stateGoal (t0 (nodeOf c)) (cu_State c)"
    "\<forall>a n. (a, n) \<notin> clusterKey ` set cs \<longrightarrow> stateOf a n (nw_rows w') = stateOf a n (nw_rows w1)"
    by (elim exE conjE) (rule that)
  have run: "run (reconcileAll rc (c # cs) m None) w = ((None, m'), w')"
    using w1(1) w'(1) by (simp add: orElse_def clusterKey_def)
  have goal: "nodeGoal ?k (t0 (nodeOf c)) (tbl (nw_fleet w') (nodeOf c))" if live: "cu_State c \<noteq> Deleting"
  proof -
    have "\<not> (\<exists>i. t0 (nodeOf c) = Some i \<and> nodeKeyOf i \<in> clusterKey ` set cs)" using tagc [OF live] new by force
    moreover have "tbl (nw_fleet w') (nodeOf c) =
        (if \<exists>i. t0 (nodeOf c) = Some i \<and> nodeKeyOf i \<in> clusterKey ` set cs then None else tbl (nw_fleet w1) (nodeOf c))"
      using apart by (intro w'(6) [rule_format]) metis
    ultimately have "tbl (nw_fleet w') (nodeOf c) = tbl (nw_fleet w1) (nodeOf c)" by (auto split: if_splits)
    then show ?thesis using w1(3) [OF live] by simp
  qed
  have others: "tbl (nw_fleet w') n = (if \<exists>i. t0 n = Some i \<and> nodeKeyOf i \<in> clusterKey ` set (c # cs) then None else tbl (nw_fleet w) n)"
    if "\<forall>c' \<in> set (c # cs). cu_State c' \<noteq> Deleting \<longrightarrow> n \<noteq> nodeOf c'" for n
    using w'(6) [rule_format, of n] w1(4) [of n] that by auto
  have own: "stateOf (cu_account c) (cu_Name c) (nw_rows w') = stateGoal (t0 (nodeOf c)) (cu_State c)"
  proof -
    have "clusterKey c \<notin> clusterKey ` set cs" using Cons.prems(2) by simp
    then show ?thesis using w'(8) [rule_format, of "cu_account c" "cu_Name c"] w1(5) [of "cu_account c" "cu_Name c"]
      unfolding k by simp
  qed
  show ?case
  proof (intro exI [of _ w'] exI [of _ m'] conjI allI ballI impI)
    show "getOr [] m' k' = (if k' \<in> clusterKey ` set (c # cs) then [] else getOr [] m k')" for k'
      using w'(4) [rule_format, of k'] by simp
    show "nodeGoal (clusterKey c') (t0 (nodeOf c')) (tbl (nw_fleet w') (nodeOf c'))"
      if "c' \<in> set (c # cs)" "cu_State c' \<noteq> Deleting" for c'
      using that goal w'(5) [rule_format, of c'] by (cases "c' = c") simp_all
    show "stateOf (cu_account c') (cu_Name c') (nw_rows w') = stateGoal (t0 (nodeOf c')) (cu_State c')" if "c' \<in> set (c # cs)" for c'
      using that own w'(7) [rule_format, of c'] by (cases "c' = c") simp_all
    show "stateOf a n (nw_rows w') = stateOf a n (nw_rows w)" if "(a, n) \<notin> clusterKey ` set (c # cs)" for a n
      using that w'(8) [rule_format, of a n] w1(5) [of a n] by simp
    show "tbl (nw_fleet w') n = (if \<exists>i. t0 n = Some i \<and> nodeKeyOf i \<in> clusterKey ` set (c # cs) then None else tbl (nw_fleet w) n)"
      if "\<forall>c' \<in> set (c # cs). cu_State c' \<noteq> Deleting \<longrightarrow> n \<noteq> nodeOf c'" for n
      using that by (rule others)
  qed (use run w'(2,3) in simp_all)
qed

section \<open>A pass\<close>

text \<open>The clusters that should exist.\<close>

definition live :: "cluster_row list \<Rightarrow> nodeKey \<Rightarrow> bool" where
  "live rows k \<longleftrightarrow> (\<exists>s. stateOf (fst k) (snd k) rows = Some s \<and> s \<noteq> Deleting)"

abbreviation nodeFor :: "nodeKey \<Rightarrow> string" where "nodeFor k \<equiv> NodeName (fst k) (snd k)"

text \<open>Only the reconciler names instances in its own account, so what bears the name of a live cluster's node is tagged for it.\<close>

definition wellTagged :: "cluster_row list \<Rightarrow> (string \<Rightarrow> Instance option) \<Rightarrow> bool" where
  "wellTagged rows t \<longleftrightarrow> (\<forall>k i. live rows k \<longrightarrow> t (nodeFor k) = Some i \<longrightarrow> nodeKeyOf i = k)"

lemma Pass_reliable:
  assumes wb: "wellBehaved rc tbl" and quietDb: "quietDb (rc_Store rc) w" and wt: "wellTagged (nw_rows w) (tbl (nw_fleet w))"
  shows "\<exists>w'. run (Pass rc) w = (None, w') \<and> quietDb (rc_Store rc) w' \<and>
    (\<forall>k. live (nw_rows w) k \<longrightarrow> nodeGoal k (tbl (nw_fleet w) (nodeFor k)) (tbl (nw_fleet w') (nodeFor k))) \<and>
    (\<forall>n. (\<forall>k. live (nw_rows w) k \<longrightarrow> n \<noteq> nodeFor k) \<longrightarrow> tbl (nw_fleet w') n = None) \<and>
    (\<forall>k. stateOf (fst k) (snd k) (nw_rows w') =
       (case stateOf (fst k) (snd k) (nw_rows w) of None \<Rightarrow> None | Some s \<Rightarrow> stateGoal (tbl (nw_fleet w) (nodeFor k)) s))"
proof -
  let ?t = "tbl (nw_fleet w)"
  have r: "reliable (rc_Compute rc) tbl" and range: "\<And>m. mset (rc_Range rc m) = mset m" using wb by (simp_all add: wellBehaved_def)
  obtain cs where cs: "run (store_All (rc_Store rc)) w = (Inr cs, w)" "distinct (map clusterKey cs)"
    "\<And>a n s. (\<exists>c \<in> set cs. clusterKey c = (a, n) \<and> cu_State c = s) \<longleftrightarrow> stateOf a n (nw_rows w) = Some s"
    "\<And>c. c \<in> set cs \<Longrightarrow> twelveDigits (cluster_Account c)" by (rule store_All_quietDb [OF quietDb]) blast
  obtain "is" where nodes: "run (cm_Nodes (rc_Compute rc)) (nw_fleet w) = (Inr is, nw_fleet w)"
    "\<And>i. i \<in> set is \<longleftrightarrow> ?t (it_Name i) = Some i" using r by (rule reliable_Nodes) blast
  have sn: "snapshot ?t is" using nodes(2) reliable_name [OF r] by (simp add: snapshot_def)
  let ?m = "groupNodes is []"
  have get: "getOr [] ?m k = filter (\<lambda>i. nodeKeyOf i = k) is" for k by (simp add: getOr_groupNodes) (simp add: getOr_def)
  have nf: "nodeFor (clusterKey c) = nodeOf c" for c by (simp add: nodeOf_def clusterKey_def)
  have key: "clusterKey c = (cu_account c, cu_Name c)" for c by (simp add: clusterKey_def cluster_Account_def)
  have row: "stateOf (cu_account c) (cu_Name c) (nw_rows w) = Some (cu_State c)" if "c \<in> set cs" for c
    using cs(3) [of "cu_account c" "cu_Name c" "cu_State c"] that by (auto simp: key)
  have liv: "live (nw_rows w) k \<longleftrightarrow> (\<exists>c \<in> set cs. clusterKey c = k \<and> cu_State c \<noteq> Deleting)" for k
    unfolding live_def cs(3) [of "fst k" "snd k", symmetric] by auto
  have tag: "nodeKeyOf i = clusterKey c" if "c \<in> set cs" "cu_State c \<noteq> Deleting" "?t (nodeOf c) = Some i" for c i
    using wt that unfolding wellTagged_def liv by (metis nf)
  have "\<exists>w1 m1. run (reconcileAll rc cs ?m None) w = ((None, m1), w1) \<and> quietDb (rc_Store rc) w1 \<and> distinct (map fst m1) \<and>
    (\<forall>k. getOr [] m1 k = (if k \<in> clusterKey ` set cs then [] else getOr [] ?m k)) \<and>
    (\<forall>c \<in> set cs. cu_State c \<noteq> Deleting \<longrightarrow> nodeGoal (clusterKey c) (?t (nodeOf c)) (tbl (nw_fleet w1) (nodeOf c))) \<and>
    (\<forall>n. (\<forall>c \<in> set cs. cu_State c \<noteq> Deleting \<longrightarrow> n \<noteq> nodeOf c) \<longrightarrow>
       tbl (nw_fleet w1) n = (if \<exists>i. ?t n = Some i \<and> nodeKeyOf i \<in> clusterKey ` set cs then None else ?t n)) \<and>
    (\<forall>c \<in> set cs. stateOf (cu_account c) (cu_Name c) (nw_rows w1) = stateGoal (?t (nodeOf c)) (cu_State c)) \<and>
    (\<forall>a n. (a, n) \<notin> clusterKey ` set cs \<longrightarrow> stateOf a n (nw_rows w1) = stateOf a n (nw_rows w))"
    by (rule reconcileAll_reliable [OF wb sn quietDb cs(2) _ cs(4) get refl tag row]) (simp_all add: distinct_groupNodes)
  then obtain w1 m1 where w1: "run (reconcileAll rc cs ?m None) w = ((None, m1), w1)" "quietDb (rc_Store rc) w1" "distinct (map fst m1)"
    "\<forall>k. getOr [] m1 k = (if k \<in> clusterKey ` set cs then [] else getOr [] ?m k)"
    "\<forall>c \<in> set cs. cu_State c \<noteq> Deleting \<longrightarrow> nodeGoal (clusterKey c) (?t (nodeOf c)) (tbl (nw_fleet w1) (nodeOf c))"
    "\<forall>n. (\<forall>c \<in> set cs. cu_State c \<noteq> Deleting \<longrightarrow> n \<noteq> nodeOf c) \<longrightarrow>
       tbl (nw_fleet w1) n = (if \<exists>i. ?t n = Some i \<and> nodeKeyOf i \<in> clusterKey ` set cs then None else ?t n)"
    "\<forall>c \<in> set cs. stateOf (cu_account c) (cu_Name c) (nw_rows w1) = stateGoal (?t (nodeOf c)) (cu_State c)"
    "\<forall>a n. (a, n) \<notin> clusterKey ` set cs \<longrightarrow> stateOf a n (nw_rows w1) = stateOf a n (nw_rows w)"
    by (elim exE conjE) (rule that)
  let ?orphans = "concat (map snd (rc_Range rc m1))"
  have orphans: "set ?orphans = {i. ?t (it_Name i) = Some i \<and> nodeKeyOf i \<notin> clusterKey ` set cs}"
  proof -
    have "set (rc_Range rc m1) = set m1" by (metis range set_mset_mset)
    then have "set ?orphans = set (concat (map snd m1))" by simp
    moreover have "i \<in> set (concat (map snd m1)) \<longleftrightarrow> ?t (it_Name i) = Some i \<and> nodeKeyOf i \<notin> clusterKey ` set cs" for i
      unfolding set_concat_groups [OF w1(3)] w1(4) [rule_format] by (auto simp: get nodes(2) simp del: split_paired_Ex split: if_splits) (metis imageI)
    ultimately show ?thesis by blast
  qed
  obtain f where f: "run (terminateOrphans (rc_Compute rc) ?orphans None) w1 = (None, w1\<lparr>nw_fleet := f\<rparr>)"
    "tbl f = (\<lambda>n. if n \<in> it_Name ` set ?orphans then None else tbl (nw_fleet w1) n)" using terminateOrphans_reliable [OF r] by blast
  have gone: "n \<in> it_Name ` set ?orphans \<longleftrightarrow> (\<exists>i. ?t n = Some i \<and> nodeKeyOf i \<notin> clusterKey ` set cs)" for n
    unfolding orphans using reliable_name [OF r] by (auto simp: image_iff)
  show ?thesis
  proof (intro exI [of _ "w1\<lparr>nw_fleet := f\<rparr>"] conjI allI impI)
    show "run (Pass rc) w = (None, w1\<lparr>nw_fleet := f\<rparr>)"
      using cs(1) nodes(1) w1(1) f(1) by (simp add: Pass_def)
    show "quietDb (rc_Store rc) (w1\<lparr>nw_fleet := f\<rparr>)" using w1(2) by simp
  next
    fix k assume "live (nw_rows w) k"
    then obtain c where c: "c \<in> set cs" "clusterKey c = k" "cu_State c \<noteq> Deleting" unfolding liv by blast
    have "nodeOf c \<notin> it_Name ` set ?orphans" unfolding gone using tag [OF c(1,3)] c(1) by auto
    then show "nodeGoal k (?t (nodeFor k)) (tbl (nw_fleet (w1\<lparr>nw_fleet := f\<rparr>)) (nodeFor k))"
      using w1(5) [rule_format, OF c(1,3)] f(2) nf [of c] c(2) by simp
  next
    fix n assume "\<forall>k. live (nw_rows w) k \<longrightarrow> n \<noteq> nodeFor k"
    then have "\<forall>c \<in> set cs. cu_State c \<noteq> Deleting \<longrightarrow> n \<noteq> nodeOf c" unfolding liv using nf by metis
    from w1(6) [rule_format, of n] this show "tbl (nw_fleet (w1\<lparr>nw_fleet := f\<rparr>)) n = None"
      using gone [of n] f(2) by (cases "?t n") auto
  next
    fix k :: nodeKey
    show "stateOf (fst k) (snd k) (nw_rows (w1\<lparr>nw_fleet := f\<rparr>)) =
       (case stateOf (fst k) (snd k) (nw_rows w) of None \<Rightarrow> None | Some s \<Rightarrow> stateGoal (?t (nodeFor k)) s)"
    proof (cases "k \<in> clusterKey ` set cs")
      case True
      then obtain c where c: "c \<in> set cs" "k = clusterKey c" by blast
      then show ?thesis using w1(7) [rule_format, OF c(1)] row [OF c(1)] nf [of c] by (simp add: key)
    next
      case False
      then have "stateOf (fst k) (snd k) (nw_rows w) = None"
        using cs(3) [of "fst k" "snd k"] by (metis imageI not_None_eq prod.collapse)
      then show ?thesis using w1(8) [rule_format, of "fst k" "snd k"] False by simp
    qed
  qed
qed

section \<open>Convergence\<close>

text \<open>A node that a pass leaves alone.\<close>

definition settledNode :: "Instance \<Rightarrow> bool" where
  "settledNode i \<longleftrightarrow> it_State i \<noteq> INSTANCE_PENDING \<and> \<not> isDead i"

lemma freshNode_settled: "freshNode k i \<Longrightarrow> settledNode i \<and> nodeKeyOf i = k"
  by (auto simp: freshNode_def settledNode_def isDead_def)

lemma nodeGoal_tag: "nodeGoal k before after \<Longrightarrow> (\<And>i. before = Some i \<Longrightarrow> nodeKeyOf i = k) \<Longrightarrow> after = Some i \<Longrightarrow> nodeKeyOf i = k"
  by (auto simp: nodeGoal_def freshNode_settled split: option.splits if_splits)

text \<open>After one pass a node is absent or settled, after a second it is there, and then it stays.\<close>

lemma nodeGoal_once: "nodeGoal k before after \<Longrightarrow> after = Some i \<Longrightarrow> settledNode i"
  by (auto simp: nodeGoal_def settledNode_def dest!: freshNode_settled [unfolded settledNode_def] split: option.splits if_splits)

lemma nodeGoal_twice:
  "nodeGoal k before after \<Longrightarrow> (\<And>i. before = Some i \<Longrightarrow> settledNode i) \<Longrightarrow> \<exists>i. after = Some i \<and> settledNode i"
  by (auto simp: nodeGoal_def settledNode_def dest!: freshNode_settled [unfolded settledNode_def] split: option.splits if_splits)

lemma nodeGoal_stays: "nodeGoal k (Some i) after \<Longrightarrow> settledNode i \<Longrightarrow> after = Some i"
  by (auto simp: nodeGoal_def settledNode_def)

lemma live_after:
  assumes "\<And>k. stateOf (fst k) (snd k) rows' = (case stateOf (fst k) (snd k) rows of None \<Rightarrow> None | Some s \<Rightarrow> stateGoal (node k) s)"
  shows "live rows' k \<longleftrightarrow> live rows k"
  unfolding live_def assms by (auto simp: stateGoal_def split: option.splits clusterState.splits if_splits)

lemma stateGoal_None [simp]: "stateGoal node s = None \<longleftrightarrow> s = Deleting"
  by (cases s) (simp_all add: stateGoal_def)

lemma stateGoal_live: "stateGoal node s = Some s' \<Longrightarrow> s' \<noteq> Deleting"
  by (auto simp: stateGoal_def split: clusterState.splits if_splits)

lemma stateGoal_available: "available node \<Longrightarrow> s \<noteq> Deleting \<Longrightarrow> stateGoal node s = Some Active"
  by (cases s) (simp_all add: stateGoal_def)

text \<open>C7: level-triggered convergence. Whatever the rows and the nodes are when the passes start - clusters recorded but not run, runs
  cut short between the node and its record, dead nodes, nodes left of deleted clusters, strays - two passes
  over a reliable compute service and a database that answers reach the state in which the instances are
  exactly the nodes of the clusters that are not being deleted, each tagged for its cluster and neither
  pending nor dead, and the deleted clusters are forgotten. A third pass changes no instance, and
  records as active every cluster whose node is healthy. No pass reports an error.\<close>
theorem two_passes_converge:
  assumes wb: "wellBehaved rc tbl" and db: "quietDb (rc_Store rc) w" and wt: "wellTagged (nw_rows w) (tbl (nw_fleet w))"
  shows "\<exists>w1 w2 w3. run (Pass rc) w = (None, w1) \<and> run (Pass rc) w1 = (None, w2) \<and> run (Pass rc) w2 = (None, w3) \<and>
    (\<forall>n. tbl (nw_fleet w2) n \<noteq> None \<longleftrightarrow> (\<exists>k. live (nw_rows w) k \<and> n = NodeName (fst k) (snd k))) \<and>
    (\<forall>k i. live (nw_rows w) k \<longrightarrow> tbl (nw_fleet w2) (NodeName (fst k) (snd k)) = Some i \<longrightarrow> nodeKeyOf i = k \<and> settledNode i) \<and>
    (\<forall>k. stateOf (fst k) (snd k) (nw_rows w2) \<noteq> None \<longleftrightarrow> live (nw_rows w) k) \<and>
    tbl (nw_fleet w3) = tbl (nw_fleet w2) \<and>
    (\<forall>k. live (nw_rows w) k \<longrightarrow> available (tbl (nw_fleet w2) (NodeName (fst k) (snd k))) \<longrightarrow>
       stateOf (fst k) (snd k) (nw_rows w3) = Some Active)"
proof -
  let ?t = "\<lambda>w k. tbl (nw_fleet w) (nodeFor k)"
  obtain w1 where w1: "run (Pass rc) w = (None, w1)" "quietDb (rc_Store rc) w1"
    "\<forall>k. live (nw_rows w) k \<longrightarrow> nodeGoal k (?t w k) (?t w1 k)"
    "\<forall>n. (\<forall>k. live (nw_rows w) k \<longrightarrow> n \<noteq> nodeFor k) \<longrightarrow> tbl (nw_fleet w1) n = None"
    "\<forall>k. stateOf (fst k) (snd k) (nw_rows w1) = (case stateOf (fst k) (snd k) (nw_rows w) of None \<Rightarrow> None | Some s \<Rightarrow> stateGoal (?t w k) s)"
    using Pass_reliable [OF wb db wt] by (elim exE conjE) (rule that)
  have l1: "live (nw_rows w1) = live (nw_rows w)" using live_after [OF w1(5) [rule_format]] by (rule ext)
  have t1: "nodeKeyOf i = k \<and> settledNode i" if "live (nw_rows w) k" "?t w1 k = Some i" for k i
    using w1(3) [rule_format, OF that(1)] nodeGoal_tag nodeGoal_once wt that unfolding wellTagged_def by metis
  have wt1: "wellTagged (nw_rows w1) (tbl (nw_fleet w1))" using t1 by (simp add: wellTagged_def l1)
  obtain w2 where w2: "run (Pass rc) w1 = (None, w2)" "quietDb (rc_Store rc) w2"
    "\<forall>k. live (nw_rows w1) k \<longrightarrow> nodeGoal k (?t w1 k) (?t w2 k)"
    "\<forall>n. (\<forall>k. live (nw_rows w1) k \<longrightarrow> n \<noteq> nodeFor k) \<longrightarrow> tbl (nw_fleet w2) n = None"
    "\<forall>k. stateOf (fst k) (snd k) (nw_rows w2) = (case stateOf (fst k) (snd k) (nw_rows w1) of None \<Rightarrow> None | Some s \<Rightarrow> stateGoal (?t w1 k) s)"
    using Pass_reliable [OF wb w1(2) wt1] by (elim exE conjE) (rule that)
  have l2: "live (nw_rows w2) = live (nw_rows w)" using live_after [OF w2(5) [rule_format]] l1 by auto
  have t2: "\<exists>i. ?t w2 k = Some i \<and> nodeKeyOf i = k \<and> settledNode i" if "live (nw_rows w) k" for k
  proof -
    have g: "nodeGoal k (?t w1 k) (?t w2 k)" using w2(3) [rule_format, of k] that l1 by simp
    from nodeGoal_twice [OF g] t1 [OF that] obtain i where i: "?t w2 k = Some i" "settledNode i" by blast
    moreover have "nodeKeyOf i = k" using nodeGoal_tag [OF g _ i(1)] t1 [OF that] by blast
    ultimately show ?thesis by blast
  qed
  have wt2: "wellTagged (nw_rows w2) (tbl (nw_fleet w2))" unfolding wellTagged_def l2 using t2 by fastforce
  obtain w3 where w3: "run (Pass rc) w2 = (None, w3)" "quietDb (rc_Store rc) w3"
    "\<forall>k. live (nw_rows w2) k \<longrightarrow> nodeGoal k (?t w2 k) (?t w3 k)"
    "\<forall>n. (\<forall>k. live (nw_rows w2) k \<longrightarrow> n \<noteq> nodeFor k) \<longrightarrow> tbl (nw_fleet w3) n = None"
    "\<forall>k. stateOf (fst k) (snd k) (nw_rows w3) = (case stateOf (fst k) (snd k) (nw_rows w2) of None \<Rightarrow> None | Some s \<Rightarrow> stateGoal (?t w2 k) s)"
    using Pass_reliable [OF wb w2(2) wt2] by (elim exE conjE) (rule that)
  have there: "tbl (nw_fleet w2) n \<noteq> None \<longleftrightarrow> (\<exists>k. live (nw_rows w) k \<and> n = nodeFor k)" for n
  proof (cases "\<exists>k. live (nw_rows w) k \<and> n = nodeFor k")
    case True
    then obtain k where k: "live (nw_rows w) k" "n = nodeFor k" by blast
    then have "tbl (nw_fleet w2) n \<noteq> None" using t2 [OF k(1)] by auto
    with True show ?thesis by blast
  next
    case False
    then have "tbl (nw_fleet w2) n = None" using w2(4) [rule_format, of n] l1 by metis
    with False show ?thesis by blast
  qed
  have known: "stateOf (fst k) (snd k) (nw_rows w2) \<noteq> None \<longleftrightarrow> live (nw_rows w) k" for k
  proof (cases "stateOf (fst k) (snd k) (nw_rows w)")
    case None
    then show ?thesis using w1(5) [rule_format, of k] w2(5) [rule_format, of k] by (simp add: live_def)
  next
    case (Some s)
    note a = w1(5) [rule_format, of k, unfolded Some option.case] and b = w2(5) [rule_format, of k]
    show ?thesis
    proof (cases "s = Deleting")
      case True
      then have "stateOf (fst k) (snd k) (nw_rows w1) = None" using a by simp
      then show ?thesis using b True Some by (simp add: live_def)
    next
      case False
      then obtain s' where s': "stateOf (fst k) (snd k) (nw_rows w1) = Some s'" using a by (metis stateGoal_None not_None_eq)
      then have "s' \<noteq> Deleting" using a stateGoal_live by metis
      then show ?thesis using b s' Some False by (simp add: live_def)
    qed
  qed
  have same: "tbl (nw_fleet w3) n = tbl (nw_fleet w2) n" for n
  proof (cases "\<exists>k. live (nw_rows w) k \<and> n = nodeFor k")
    case True
    then obtain k where k: "live (nw_rows w) k" "n = nodeFor k" by blast
    obtain i where i: "?t w2 k = Some i" "settledNode i" using t2 [OF k(1)] by blast
    have "nodeGoal k (Some i) (?t w3 k)" using w3(3) [rule_format, of k] k(1) l2 i(1) by simp
    from nodeGoal_stays [OF this i(2)] show ?thesis using i(1) k(2) by simp
  next
    case False
    then show ?thesis using w3(4) [rule_format, of n] there [of n] l2 by metis
  qed
  have active: "stateOf (fst k) (snd k) (nw_rows w3) = Some Active" if "live (nw_rows w) k" "available (?t w2 k)" for k
    using that(1) w3(5) [rule_format, of k] stateGoal_available [OF that(2)] unfolding l2 [symmetric] live_def by auto
  show ?thesis
  proof (rule exI [of _ w1], rule exI [of _ w2], rule exI [of _ w3], intro conjI allI)
    show "tbl (nw_fleet w3) = tbl (nw_fleet w2)" using same by (rule ext)
    show "live (nw_rows w) k \<longrightarrow> ?t w2 k = Some i \<longrightarrow> nodeKeyOf i = k \<and> settledNode i" for k i
      using t2 [of k] by auto
  qed (use w1(1) w2(1) w3(1) there known active t2 in auto)
qed

subsection \<open>A fleet kept as a list\<close>

definition listTable :: "Instance list \<Rightarrow> string \<Rightarrow> Instance option" where "listTable f n = find (\<lambda>i. it_Name i = n) f"

definition listCompute :: "Instance list Compute" where
  "listCompute = \<lparr>cm_Nodes = State (\<lambda>f. (Inr (filter (\<lambda>i. listTable f (it_Name i) = Some i) (remdups f)), f)),
     cm_RunNode = (\<lambda>c. State (\<lambda>f.
       let i = emptyInstance\<lparr>it_Name := nodeOf c, it_Tags := nodeTags (cluster_Account c) (cu_Name c), it_State := INSTANCE_RUNNING, it_Health := HEALTH_HEALTHY\<rparr>
       in (Inr i, i # f))),
     cm_Terminate = (\<lambda>n. State (\<lambda>f. (None, filter (\<lambda>i. it_Name i \<noteq> n) f)))\<rparr>"

lemma listTable_name: "listTable f n = Some i \<Longrightarrow> it_Name i = n \<and> i \<in> set f"
  by (auto simp: listTable_def find_Some_iff)

lemma listTable_filter: "listTable (filter (\<lambda>i. it_Name i \<noteq> n) f) = (listTable f)(n := None)"
proof
  fix m
  show "listTable (filter (\<lambda>i. it_Name i \<noteq> n) f) m = ((listTable f)(n := None)) m"
    by (induction f) (auto simp: listTable_def)
qed

lemma nodeKeyOf_nodeTags: "it_Tags i = nodeTags a n \<Longrightarrow> nodeKeyOf i = (a, n)"
  by (simp add: nodeKeyOf_def nodeTags_def getOr_def tagManagedBy_def tagClusterAccount_def tagCluster_def)

lemma listCompute_reliable: "reliable listCompute listTable"
proof -
  have "distinct (map it_Name (filter (\<lambda>i. listTable f (it_Name i) = Some i) (remdups f)))" for f
  proof -
    have "inj_on it_Name {i. listTable f (it_Name i) = Some i}"
    proof (rule inj_onI)
      fix x y assume x: "x \<in> {i. listTable f (it_Name i) = Some i}" and y: "y \<in> {i. listTable f (it_Name i) = Some i}" and e: "it_Name x = it_Name y"
      have "Some x = listTable f (it_Name y)" using CollectD [OF x] unfolding e by (rule sym)
      also have "\<dots> = Some y" using y by (rule CollectD)
      finally show "x = y" by (rule option.inject [THEN iffD1])
    qed
    then have "inj_on it_Name (set (filter (\<lambda>i. listTable f (it_Name i) = Some i) (remdups f)))" by (rule inj_on_subset) auto
    then show ?thesis by (simp add: distinct_map)
  qed
  moreover have "listTable (i # f) = (listTable f)(it_Name i \<mapsto> i)" for i f
    by (rule ext) (simp add: listTable_def)
  ultimately show ?thesis
    unfolding reliable_def
    by (auto simp: listCompute_def Let_def listTable_filter freshNode_def nodeKeyOf_nodeTags clusterKey_def dest: listTable_name)
qed

definition sampleReconciler :: "(string, Instance list) Reconciler" where
  "sampleReconciler = \<lparr>rc_Store = plainClusterStore, rc_Compute = listCompute, rc_Now = nw_now, rc_AfterRunNode = None, rc_Range = rev\<rparr>"

definition instanceFor :: "string \<Rightarrow> string \<Rightarrow> string \<Rightarrow> instanceState \<Rightarrow> Instance" where
  "instanceFor name account cluster st = emptyInstance\<lparr>it_Name := name, it_Tags := nodeTags account cluster, it_State := st\<rparr>"

text \<open>A cluster whose node has died, one recorded but never run, one being deleted whose node still runs, and a node of no cluster.\<close>

definition messyWorld :: "Instance list nworld" where
  "messyWorld = \<lparr>nw_rows =
       [\<lparr>cr_account = ''111111111111'', cr_name = ''web'', cr_state = Active, cr_nodes = ''[]'', cr_created = 0, cr_updated = 0\<rparr>,
        \<lparr>cr_account = ''222222222222'', cr_name = ''web'', cr_state = Creating, cr_nodes = ''[]'', cr_created = 0, cr_updated = 0\<rparr>,
        \<lparr>cr_account = ''111111111111'', cr_name = ''old'', cr_state = Deleting, cr_nodes = ''[]'', cr_created = 0, cr_updated = 0\<rparr>],
     nw_faults = [], nw_now = 1, nw_entropy = [],
     nw_fleet = [instanceFor ''n-111111111111-web'' ''111111111111'' ''web'' INSTANCE_STOPPED,
       instanceFor ''n-111111111111-old'' ''111111111111'' ''old'' INSTANCE_RUNNING,
       instanceFor ''n-333333333333-lost'' ''333333333333'' ''lost'' INSTANCE_RUNNING]\<rparr>"

lemma live_messy: "live (nw_rows messyWorld) k \<longleftrightarrow> k = (''111111111111'', ''web'') \<or> k = (''222222222222'', ''web'')"
  by (cases k) (auto simp: live_def stateOf_def messyWorld_def isRow_def)

lemma messy_quiet: "quietDb (rc_Store sampleReconciler) messyWorld"
  by (simp add: quietDb_def sampleReconciler_def plainClusterStore_def messyWorld_def uniqueRows_def readable_def twelveDigits_def isDigit_def)

lemma messy_tagged: "wellTagged (nw_rows messyWorld) (listTable (nw_fleet messyWorld))"
  unfolding wellTagged_def live_messy
  by (auto simp: messyWorld_def listTable_def instanceFor_def NodeName_def nodeKeyOf_nodeTags emptyInstance_def)

lemma sampleReconciler_behaves: "wellBehaved sampleReconciler listTable"
  by (simp add: wellBehaved_def sampleReconciler_def listCompute_reliable writesReadable_def plainClusterStore_def)

lemma two_passes_converge_witness:
  "\<exists>w1 w2. run (Pass sampleReconciler) messyWorld = (None, w1) \<and> run (Pass sampleReconciler) w1 = (None, w2) \<and>
     (\<forall>n. listTable (nw_fleet w2) n \<noteq> None \<longleftrightarrow> n = ''n-111111111111-web'' \<or> n = ''n-222222222222-web'') \<and>
     stateOf ''111111111111'' ''old'' (nw_rows w2) = None"
proof -
  obtain w1 w2 where w: "run (Pass sampleReconciler) messyWorld = (None, w1)" "run (Pass sampleReconciler) w1 = (None, w2)"
    "\<And>n. listTable (nw_fleet w2) n \<noteq> None \<longleftrightarrow> (\<exists>k. live (nw_rows messyWorld) k \<and> n = NodeName (fst k) (snd k))"
    "\<And>k. stateOf (fst k) (snd k) (nw_rows w2) \<noteq> None \<longleftrightarrow> live (nw_rows messyWorld) k"
    using two_passes_converge [OF sampleReconciler_behaves messy_quiet messy_tagged] by blast
  have "listTable (nw_fleet w2) n \<noteq> None \<longleftrightarrow> n = ''n-111111111111-web'' \<or> n = ''n-222222222222-web''" for n
  proof -
    have pick: "(\<exists>k. (k = p \<or> k = q) \<and> n = NodeName (fst k) (snd k)) \<longleftrightarrow> n = NodeName (fst p) (snd p) \<or> n = NodeName (fst q) (snd q)" for p q
      by blast
    show ?thesis unfolding w(3) live_messy pick by (simp add: NodeName_def)
  qed
  moreover have "stateOf ''111111111111'' ''old'' (nw_rows w2) = None"
    using w(4) [of "(''111111111111'', ''old'')"] by (simp add: live_messy)
  ultimately show ?thesis using w(1,2) by blast
qed

end
