(* ===== verification/Nache_Safety.thy ===== *)
theory Nache_Safety
  imports Nache_Convergence Triple
begin

text \<open>
  What the cache service never does, whatever fails: its reconciler against any compute service and database, its
  requests against the compute service's own checks, and its API against other accounts.
\<close>

section \<open>The calls a pass makes\<close>

datatype computeCall = RanNode nodeKey | TerminatedNode string

definition logged :: "'f Compute \<Rightarrow> ('f \<times> computeCall list) Compute" where
  "logged cm = \<lparr>cm_Nodes = State (\<lambda>(f, l). case run (cm_Nodes cm) f of (r, f') \<Rightarrow> (r, (f', l))),
     cm_RunNode = (\<lambda>c. State (\<lambda>(f, l). case run (cm_RunNode cm c) f of (r, f') \<Rightarrow> (r, (f', RanNode (clusterKey c) # l)))),
     cm_Terminate = (\<lambda>n. State (\<lambda>(f, l). case run (cm_Terminate cm n) f of (r, f') \<Rightarrow> (r, (f', TerminatedNode n # l))))\<rparr>"

text \<open>The calls that the rows and the listing justify: a node is run for a cluster that should exist; an instance is
  terminated if the listing showed it and it is not the live node of a cluster that should exist.\<close>

fun mayCall :: "Cluster list \<Rightarrow> Instance list \<Rightarrow> computeCall \<Rightarrow> bool" where
  "mayCall cs ns (RanNode k) \<longleftrightarrow> (\<exists>c \<in> set cs. clusterKey c = k \<and> cu_State c \<noteq> Deleting)"
| "mayCall cs ns (TerminatedNode n) \<longleftrightarrow>
     (\<exists>i \<in> set ns. it_Name i = n \<and> (\<forall>c \<in> set cs. clusterKey c = nodeKeyOf i \<longrightarrow> cu_State c \<noteq> Deleting \<longrightarrow> n = nodeOf c \<longrightarrow> isDead i))"

abbreviation callsOk :: "(computeCall \<Rightarrow> bool) \<Rightarrow> ('f \<times> computeCall list) nworld \<Rightarrow> bool" where
  "callsOk P w \<equiv> list_all P (snd (nw_fleet w))"

lemma triple_RunNode: "P (RanNode (clusterKey c)) \<Longrightarrow> triple (callsOk P) (onFleet (cm_RunNode (logged cm) c)) (\<lambda>_. callsOk P)"
  by (auto simp: triple_def logged_def split: prod.split)

lemma triple_TerminateNode: "P (TerminatedNode n) \<Longrightarrow> triple (callsOk P) (onFleet (cm_Terminate (logged cm) n)) (\<lambda>_. callsOk P)"
  by (auto simp: triple_def logged_def split: prod.split)

lemma nsql_fleet [simp]: "nw_fleet (final_of (nsql f) w) = nw_fleet w"
  by (auto simp: nsql_def Let_def split: list.split option.split prod.split)

lemma triple_nsql: "triple (\<lambda>w. Q (nw_fleet w)) (nsql f) (\<lambda>_ w. Q (nw_fleet w))"
  by (simp add: triple_def)

lemma triple_Forget: "triple (callsOk P) (store_Forget c) (\<lambda>_. callsOk P)"
  unfolding store_Forget_def by (rule triple_bind [OF triple_nsql]) (auto intro!: triple_intros triple_ret)

lemma triple_SetObserved: "triple (callsOk P) (store_SetObserved st c ns act) (\<lambda>_. callsOk P)"
  unfolding store_SetObserved_def by (auto intro!: triple_intros triple_ret triple_bind [OF triple_nsql])

lemma triple_terminateNodes:
  "(\<And>i. i \<in> set ns \<Longrightarrow> P (TerminatedNode (it_Name i))) \<Longrightarrow> triple (callsOk P) (terminateNodes (logged cm) ns) (\<lambda>_. callsOk P)"
proof (induction ns)
  case (Cons i ns)
  show ?case unfolding terminateNodes.simps
    by (rule triple_bind [OF triple_TerminateNode]) (use Cons in \<open>auto intro!: triple_intros triple_ret\<close>)
qed (auto intro: triple_ret)

lemma triple_terminateOrphans:
  "(\<And>i. i \<in> set ns \<Longrightarrow> P (TerminatedNode (it_Name i))) \<Longrightarrow> triple (callsOk P) (terminateOrphans (logged cm) ns e) (\<lambda>_. callsOk P)"
proof (induction ns arbitrary: e)
  case (Cons i ns)
  show ?case unfolding terminateOrphans.simps by (rule triple_bind [OF triple_TerminateNode]) (use Cons in auto)
qed (auto intro: triple_ret)

lemma triple_removeStrays:
  assumes "\<And>i. i \<in> set ns \<Longrightarrow> it_Name i \<noteq> want \<Longrightarrow> P (TerminatedNode (it_Name i))"
  shows "triple (callsOk P) (removeStrays (logged cm) want ns node)
    (\<lambda>r w. callsOk P w \<and> (\<forall>i. r = Inr (Some i) \<longrightarrow> node = Some i \<or> i \<in> set ns \<and> it_Name i = want))"
  using assms
proof (induction ns arbitrary: node)
  case (Cons i ns)
  show ?case
  proof (cases "it_Name i = want")
    case True
    have "triple (callsOk P) (removeStrays (logged cm) want ns (Some i))
      (\<lambda>r w. callsOk P w \<and> (\<forall>j. r = Inr (Some j) \<longrightarrow> Some i = Some j \<or> j \<in> set ns \<and> it_Name j = want))"
      by (rule Cons.IH) (rule Cons.prems, simp_all)
    then show ?thesis using True by (auto elim!: triple_post)
  next
    case False
    have rest: "triple (callsOk P) (removeStrays (logged cm) want ns node)
      (\<lambda>r w. callsOk P w \<and> (\<forall>j. r = Inr (Some j) \<longrightarrow> node = Some j \<or> j \<in> set (i # ns) \<and> it_Name j = want))"
      by (rule triple_post [OF Cons.IH]) (use Cons.prems in auto)
    have "P (TerminatedNode (it_Name i))" using False by (intro Cons.prems) simp_all
    then show ?thesis using False rest by (auto intro!: triple_bind [OF triple_TerminateNode] triple_option triple_ret)
  qed
qed (auto intro: triple_ret)

definition keepsCalls :: "('c, 'f \<times> computeCall list) Reconciler \<Rightarrow> bool" where
  "keepsCalls rc \<longleftrightarrow> (\<forall>f c w. rc_AfterRunNode rc = Some f \<longrightarrow> snd (nw_fleet (final_of (f c) w)) = snd (nw_fleet w))"

lemma triple_closeGap:
  assumes cm: "rc_Compute rc = logged cm" and after: "keepsCalls rc" and run: "P (RanNode (clusterKey c))"
    and dead: "\<And>i. node = Some i \<Longrightarrow> isDead i \<Longrightarrow> P (TerminatedNode want)"
  shows "triple (callsOk P) (closeGap rc c want node) (\<lambda>_. callsOk P)"
proof -
  have f: "triple (callsOk P) (f c) (\<lambda>_. callsOk P)" if "rc_AfterRunNode rc = Some f" for f
    using after that by (simp add: keepsCalls_def triple_def)
  show ?thesis unfolding closeGap_def cm
    by (auto intro!: triple_intros triple_ret triple_bind [OF triple_RunNode] triple_bind [OF triple_TerminateNode] triple_bind [OF f] run dead)
qed

lemma triple_reconcile:
  assumes cm: "rc_Compute rc = logged cm" and after: "keepsCalls rc" and c: "c \<in> set cs" and d: "distinct (map clusterKey cs)"
    and ns: "\<And>i. i \<in> set ns \<Longrightarrow> i \<in> set all \<and> nodeKeyOf i = clusterKey c"
  shows "triple (callsOk (mayCall cs all)) (reconcile rc c ns) (\<lambda>_. callsOk (mayCall cs all))"
proof -
  have one: "c' = c" if "c' \<in> set cs" "clusterKey c' = clusterKey c" for c'
    using d c that by (auto simp: distinct_map dest: inj_onD)
  have nf: "NodeName (cluster_Account c) (cu_Name c) = nodeOf c" by (simp add: nodeOf_def)
  show ?thesis
  proof (cases "cu_State c = Deleting")
    case True
    have "mayCall cs all (TerminatedNode (it_Name i))" if "i \<in> set ns" for i
      using ns [OF that] one True by (intro mayCall.simps(2) [THEN iffD2] bexI [of _ i]) auto
    then show ?thesis unfolding reconcile_def nf Let_def cm using True
      by (auto intro!: triple_intros triple_ret triple_bind [OF triple_terminateNodes] triple_Forget)
  next
    case False
    have stray: "mayCall cs all (TerminatedNode (it_Name i))" if "i \<in> set ns" "it_Name i \<noteq> nodeOf c" for i
      using ns [OF that(1)] that(2) by (intro mayCall.simps(2) [THEN iffD2] bexI [of _ i]) (auto dest: one)
    have run: "mayCall cs all (RanNode (clusterKey c))" using c False by auto
    have gap: "triple (\<lambda>w. callsOk (mayCall cs all) w \<and> (\<forall>i. r = Inr (Some i) \<longrightarrow> None = Some i \<or> i \<in> set ns \<and> it_Name i = nodeOf c))
      (case r of Inl e \<Rightarrow> ret (Some e)
       | Inr node \<Rightarrow> do {
            status \<leftarrow> closeGap rc c (nodeOf c) node;
            case status of
              Inl e \<Rightarrow> ret (Some e)
            | Inr status \<Rightarrow> do {
                now \<leftarrow> gets (rc_Now rc);
                store_SetObserved (rc_Store rc) c [\<lparr>nd_ID = nodeOf c, nd_Status = status, nd_ObservedAt = now\<rparr>] (status = nodeAvailable)
              }
          }) (\<lambda>_. callsOk (mayCall cs all))" for r :: "err + Instance option"
    proof (rule triple_sum)
      fix node assume r: "r = Inr node"
      show "triple (\<lambda>w. callsOk (mayCall cs all) w \<and> (\<forall>i. r = Inr (Some i) \<longrightarrow> None = Some i \<or> i \<in> set ns \<and> it_Name i = nodeOf c))
       (do {
            status \<leftarrow> closeGap rc c (nodeOf c) node;
            case status of
              Inl e \<Rightarrow> ret (Some e)
            | Inr status \<Rightarrow> do {
                now \<leftarrow> gets (rc_Now rc);
                store_SetObserved (rc_Store rc) c [\<lparr>nd_ID = nodeOf c, nd_Status = status, nd_ObservedAt = now\<rparr>] (status = nodeAvailable)
              }
          }) (\<lambda>_. callsOk (mayCall cs all))"
      proof (cases "\<forall>i. node = Some i \<longrightarrow> i \<in> set ns \<and> it_Name i = nodeOf c")
        case True
        have dead: "mayCall cs all (TerminatedNode (nodeOf c))" if "node = Some i" "isDead i" for i
          using ns [of i] True that by (auto intro!: bexI [of _ i])
        note g = triple_closeGap [OF cm after, of "mayCall cs all" c node "nodeOf c", OF run dead]
        show ?thesis
          by (rule triple_bind [OF triple_pre [OF g]])
            (auto intro!: triple_intros triple_ret triple_bind [OF triple_gets] triple_SetObserved)
      next
        case False
        then show ?thesis by (auto simp: triple_def r)
      qed
    qed (auto intro: triple_ret)
    have "triple (callsOk (mayCall cs all)) (removeStrays (logged cm) (nodeOf c) ns None)
        (\<lambda>r w. callsOk (mayCall cs all) w \<and> (\<forall>i. r = Inr (Some i) \<longrightarrow> None = Some i \<or> i \<in> set ns \<and> it_Name i = nodeOf c))"
      by (rule triple_removeStrays) (rule stray)
    from triple_bind [OF this gap] show ?thesis unfolding reconcile_def nf Let_def cm using False by simp
  qed
qed

text \<open>The groups left over are the ones that were there, less those of the clusters seen.\<close>

definition leftOver :: "(nodeKey \<times> Instance list) list \<Rightarrow> nodeKey set \<Rightarrow> (nodeKey \<times> Instance list) list \<Rightarrow> bool" where
  "leftOver m ks m' \<longleftrightarrow> distinct (map fst m') \<and> (\<forall>k i. i \<in> set (getOr [] m' k) \<longrightarrow> i \<in> set (getOr [] m k) \<and> k \<notin> ks)"

lemma leftOverD: "leftOver m ks m' \<Longrightarrow> i \<in> set (getOr [] m' k) \<Longrightarrow> i \<in> set (getOr [] m k) \<and> k \<notin> ks"
  unfolding leftOver_def by blast

lemma leftOver_delete:
  assumes "leftOver (AList.delete k m) ks m'"
  shows "leftOver m (insert k ks) m'"
proof -
  have "i \<in> set (getOr [] m k') \<and> k' \<notin> insert k ks" if "i \<in> set (getOr [] m' k')" for i k'
  proof -
    have "i \<in> set (getOr [] (AList.delete k m) k')" "k' \<notin> ks" using leftOverD [OF assms that] by simp_all
    then show ?thesis by (cases "k' = k") simp_all
  qed
  then show ?thesis using assms by (simp add: leftOver_def)
qed

lemma triple_reconcileAll:
  assumes cm: "rc_Compute rc = logged cm" and after: "keepsCalls rc" and d: "distinct (map clusterKey cs)"
    and "set cs' \<subseteq> set cs" "\<And>k i. i \<in> set (getOr [] m k) \<Longrightarrow> i \<in> set all \<and> nodeKeyOf i = k" "distinct (map fst m)"
  shows "triple (callsOk (mayCall cs all)) (reconcileAll rc cs' m e) (\<lambda>r w. callsOk (mayCall cs all) w \<and> leftOver m (clusterKey ` set cs') (snd r))"
  using assms(4-)
proof (induction cs' arbitrary: m e)
  case (Cons c cs')
  have c: "c \<in> set cs" "(cluster_Account c, cu_Name c) = clusterKey c" using Cons.prems(1) by (simp_all add: clusterKey_def)
  have ih: "triple (callsOk (mayCall cs all)) (reconcileAll rc cs' (AList.delete (clusterKey c) m) e)
      (\<lambda>r w. callsOk (mayCall cs all) w \<and> leftOver (AList.delete (clusterKey c) m) (clusterKey ` set cs') (snd r))" for e
    by (rule Cons.IH) (use Cons.prems in \<open>auto simp: distinct_delete split: if_splits\<close>)
  have rest: "triple (callsOk (mayCall cs all)) (reconcileAll rc cs' (AList.delete (clusterKey c) m) e)
      (\<lambda>r w. callsOk (mayCall cs all) w \<and> leftOver m (clusterKey ` set (c # cs')) (snd r))" for e
    by (rule triple_post [OF ih]) (simp add: leftOver_delete)
  show ?case unfolding reconcileAll.simps Let_def c(2)
    by (rule triple_bind [OF triple_reconcile [OF cm after c(1) d]]) (use Cons.prems(2) rest in auto)
qed (auto intro: triple_ret simp: leftOver_def)

lemma scanClusters_keys: "scanClusters st rows = Inr cs \<Longrightarrow> map clusterKey cs = map (\<lambda>r. (cr_account r, cr_name r)) rows"
  by (induction rows arbitrary: cs) (auto simp: clusterKey_def cluster_Account_def split: sum.splits)

lemma store_All_reads:
  assumes "run (store_All st) w = (r, w1)" "uniqueRows (nw_rows w)"
  shows "nw_fleet w1 = nw_fleet w \<and> (\<forall>cs. r = Inr cs \<longrightarrow> distinct (map clusterKey cs))"
proof -
  let ?sel = "\<lambda>rs. sort_key (\<lambda>r. cs_Collation st (cr_account r)) (sort_key (\<lambda>r. cs_Collation st (cr_name r)) rs)"
  obtain q w2 where q: "run (nsql (\<lambda>_ rs. (?sel rs, rs))) w = (q, w2)" by fastforce
  have "nw_fleet w2 = nw_fleet w" using nsql_fleet [of "\<lambda>_ rs. (?sel rs, rs)" w] q by simp
  moreover have "q = Inr rs \<Longrightarrow> rs = ?sel (nw_rows w)" for rs
    using q by (auto simp: nsql_def Let_def split: list.splits option.splits)
  then have "distinct (map clusterKey cs)" if "q = Inr rs" "scanClusters st rs = Inr cs" for rs cs
    using scanClusters_keys [OF that(2)] that(1) assms(2) by (simp add: uniqueRows_def distinct_map_sort_key)
  ultimately show ?thesis using assms(1) q by (cases q) (auto simp: store_All_def store_query_def)
qed

text \<open>C8: however the compute service and the database fail, a pass asks only for what the rows it read and the listing it got
  justify: it runs a node only for a cluster that is recorded and not being deleted, and it terminates an
  instance only if the listing showed it and it is not the node of such a cluster, or that node is stopped or
  unhealthy. A healthy, starting or pending node of a cluster that should exist is never terminated.\<close>
theorem reconciler_spares_live_nodes:
  assumes "rc_Compute rc = logged cm" "keepsCalls rc" "\<And>m. set (rc_Range rc m) \<subseteq> set m" "uniqueRows (nw_rows w)"
    "nw_fleet w = (f, [])" "run (Pass rc) w = (res, w')"
  shows "snd (nw_fleet w') = [] \<or>
    (\<exists>cs ns. result_of (store_All (rc_Store rc)) w = Inr cs \<and> result_of (cm_Nodes cm) f = Inr ns \<and>
       list_all (mayCall cs ns) (snd (nw_fleet w')))"
proof -
  obtain r1 w1 where a: "run (store_All (rc_Store rc)) w = (r1, w1)" by fastforce
  have w1: "nw_fleet w1 = (f, [])" and d: "\<And>cs. r1 = Inr cs \<Longrightarrow> distinct (map clusterKey cs)"
    using store_All_reads [OF a assms(4)] assms(5) by auto
  show ?thesis
  proof (cases r1)
    case (Inl e)
    then show ?thesis using assms(6) a w1 by (simp add: Pass_def)
  next
    case (Inr cs)
    obtain r2 f2 where n: "run (cm_Nodes cm) f = (r2, f2)" by fastforce
    have n': "run (cm_Nodes (rc_Compute rc)) (f, []) = (r2, (f2, []))" using n by (simp add: assms(1) logged_def)
    show ?thesis
    proof (cases r2)
      case (Inl e)
      then show ?thesis using assms(6) a w1 n' Inr by (auto simp: Pass_def)
    next
      case ns: (Inr ns)
      let ?P = "callsOk (mayCall cs ns)" and ?m = "groupNodes ns []"
      have get: "getOr [] ?m k = filter (\<lambda>i. nodeKeyOf i = k) ns" for k by (simp add: getOr_groupNodes) (simp add: getOr_def)
      have all: "triple ?P (reconcileAll rc cs ?m None) (\<lambda>r w. ?P w \<and> leftOver ?m (clusterKey ` set cs) (snd r))"
        by (rule triple_reconcileAll [OF assms(1,2) d [OF Inr]]) (auto simp: get distinct_groupNodes)
      have orphans: "triple (\<lambda>w. ?P w \<and> leftOver ?m (clusterKey ` set cs) m')
          (terminateOrphans (rc_Compute rc) (concat (map snd (rc_Range rc m'))) e) (\<lambda>_. ?P)" for m' e
      proof (cases "leftOver ?m (clusterKey ` set cs) m'")
        case True
        have "mayCall cs ns (TerminatedNode (it_Name i))" if "i \<in> set (concat (map snd (rc_Range rc m')))" for i
        proof -
          have "i \<in> set (concat (map snd m'))" using that assms(3) [of m'] by auto
          moreover have "distinct (map fst m')" using True unfolding leftOver_def by (rule conjunct1)
          ultimately obtain k where "i \<in> set (getOr [] m' k)" by (metis set_concat_groups)
          then have i: "i \<in> set ns" "nodeKeyOf i \<notin> clusterKey ` set cs" using leftOverD [OF True] get by auto
          then show ?thesis by (intro mayCall.simps(2) [THEN iffD2] bexI [of _ i]) (auto simp: image_iff)
        qed
        then have "triple ?P (terminateOrphans (logged cm) (concat (map snd (rc_Range rc m'))) e) (\<lambda>_. ?P)" by (rule triple_terminateOrphans)
        then show ?thesis unfolding assms(1) by (rule triple_pre) blast
      qed (auto simp: triple_def simp del: split_paired_All)
      let ?rest = "do {
             res \<leftarrow> reconcileAll rc cs ?m None;
             let (firstErr, rest) = res;
             terminateOrphans (rc_Compute rc) (concat (map snd (rc_Range rc rest))) firstErr
           }"
      have t: "triple ?P ?rest (\<lambda>_. ?P)"
        by (rule triple_bind [OF all]) (use orphans in \<open>auto simp: Let_def split: prod.split\<close>)
      have "run ?rest (w1\<lparr>nw_fleet := (f2, [])\<rparr>) = (res, w')" using assms(6) a w1 n' Inr ns by (simp add: Pass_def)
      then have "?P w'" by (rule tripleD [OF t, rotated]) simp
      then show ?thesis using a n Inr ns by auto
    qed
  qed
qed


text \<open>One healthy node, one node of no cluster, and a database that works.\<close>

definition watchedReconciler :: "(string, Instance list \<times> computeCall list) Reconciler" where
  "watchedReconciler = \<lparr>rc_Store = plainClusterStore, rc_Compute = logged listCompute, rc_Now = nw_now, rc_AfterRunNode = None, rc_Range = rev\<rparr>"

definition watchedWorld :: "(Instance list \<times> computeCall list) nworld" where
  "watchedWorld = \<lparr>nw_rows =
       [\<lparr>cr_account = ''111111111111'', cr_name = ''web'', cr_state = Active, cr_nodes = ''[]'', cr_created = 0, cr_updated = 0\<rparr>],
     nw_faults = [], nw_now = 1, nw_entropy = [],
     nw_fleet = ([instanceFor ''n-111111111111-web'' ''111111111111'' ''web'' INSTANCE_RUNNING,
       instanceFor ''n-333333333333-lost'' ''333333333333'' ''lost'' INSTANCE_RUNNING], [])\<rparr>"

lemma watched_calls: "snd (nw_fleet (final_of (Pass watchedReconciler) watchedWorld)) = [TerminatedNode ''n-333333333333-lost'']"
  by code_simp

lemma reconciler_spares_live_nodes_witness:
  "snd (nw_fleet (final_of (Pass watchedReconciler) watchedWorld)) = [TerminatedNode ''n-333333333333-lost''] \<and>
   (\<exists>cs ns. result_of (store_All plainClusterStore) watchedWorld = Inr cs \<and> result_of (cm_Nodes listCompute) (fst (nw_fleet watchedWorld)) = Inr ns \<and>
      mayCall cs ns (TerminatedNode ''n-333333333333-lost''))"
proof -
  obtain res w' where p: "run (Pass watchedReconciler) watchedWorld = (res, w')" by fastforce
  have h: "rc_Compute watchedReconciler = logged listCompute" "keepsCalls watchedReconciler" "set (rc_Range watchedReconciler m) \<subseteq> set m" for m
    by (simp_all add: watchedReconciler_def keepsCalls_def)
  have u: "uniqueRows (nw_rows watchedWorld)" "nw_fleet watchedWorld = (fst (nw_fleet watchedWorld), [])"
    by (simp_all add: watchedWorld_def uniqueRows_def)
  have c: "snd (nw_fleet w') = [TerminatedNode ''n-333333333333-lost'']" using watched_calls p by simp
  have "rc_Store watchedReconciler = plainClusterStore" by (simp add: watchedReconciler_def)
  then show ?thesis using reconciler_spares_live_nodes [OF h u p] c p by auto
qed

end
