(* ===== verification/Chala_Confined.thy ===== *)
theory Chala_Confined
  imports Chala Service_Chain
begin

text \<open>
  What the compute service may ask of the daemon it owns. The daemon is wrapped so that it keeps the exchanges
  it had; the proofs hold for every daemon, so nothing it answers makes the service ask for more.
\<close>

section \<open>The exchanges with the daemon\<close>

type_synonym exchange = "dockerRequest \<times> (err + dockerResponse)"

text \<open>The newest exchange comes first.\<close>

definition traced :: "'s daemon \<Rightarrow> ('s \<times> exchange list) daemon" where
  "traced d = \<lparr>dm_Do = (\<lambda>q. State (\<lambda>(s, t). case run (dm_Do d q) s of (a, s') \<Rightarrow> (a, (s', (q, a) # t)))),
     dm_ParseJSON = dm_ParseJSON d, dm_EncodeJSON = dm_EncodeJSON d, dm_ParseTime = dm_ParseTime d\<rparr>"

fun eachJustified :: "(exchange list \<Rightarrow> dockerRequest \<Rightarrow> bool) \<Rightarrow> exchange list \<Rightarrow> bool" where
  "eachJustified ok [] \<longleftrightarrow> True"
| "eachJustified ok ((q, a) # t) \<longleftrightarrow> ok t q \<and> eachJustified ok t"

text \<open>What the daemon has answered, as the client reads it.\<close>

definition answeredWith :: "'s daemon \<Rightarrow> (json \<Rightarrow> 'a option) \<Rightarrow> dockerRequest \<Rightarrow> 'a \<Rightarrow> exchange list \<Rightarrow> bool" where
  "answeredWith d dec q a t \<longleftrightarrow>
     (\<exists>resp j. (q, Inr resp) \<in> set t \<and> dm_ParseJSON d (dr_Body resp) = Inr j \<and> dec j = Some a)"

definition daemonPath :: "string \<Rightarrow> string" where "daemonPath p = ''/'' @ DockerAPIVersion @ p"

definition inspectRequest :: "string \<Rightarrow> dockerRequest" where
  "inspectRequest n = \<lparr>dq_Method = ''GET'', dq_Path = daemonPath (''/containers/'' @ n @ ''/json''), dq_Query = [], dq_Body = None\<rparr>"

definition listRequest :: "'s daemon \<Rightarrow> string list \<Rightarrow> dockerRequest" where
  "listRequest d ls = \<lparr>dq_Method = ''GET'', dq_Path = daemonPath ''/containers/json'',
     dq_Query = [(''all'', ''true''), (''filters'', dm_EncodeJSON d (JObj [(''label'', JArr (map JStr ls))]))], dq_Body = None\<rparr>"

definition networkRequest :: "string \<Rightarrow> dockerRequest" where
  "networkRequest n = \<lparr>dq_Method = ''GET'', dq_Path = daemonPath (''/networks/'' @ n), dq_Query = [], dq_Body = None\<rparr>"

definition pingRequest :: dockerRequest where
  "pingRequest = \<lparr>dq_Method = ''GET'', dq_Path = daemonPath ''/_ping'', dq_Query = [], dq_Body = None\<rparr>"

definition describedAs :: "'s daemon \<Rightarrow> string \<Rightarrow> Container \<Rightarrow> exchange list \<Rightarrow> bool" where
  "describedAs d n c t \<longleftrightarrow> answeredWith d (decodeContainer d) (inspectRequest n) c t"

definition createRequest :: "string \<Rightarrow> json \<Rightarrow> dockerRequest" where
  "createRequest n body =
     \<lparr>dq_Method = ''POST'', dq_Path = daemonPath ''/containers/create'', dq_Query = [(''name'', n)], dq_Body = Some body\<rparr>"

definition createdAs :: "'s daemon \<Rightarrow> string \<Rightarrow> string \<Rightarrow> exchange list \<Rightarrow> bool" where
  "createdAs d n i t \<longleftrightarrow> (\<exists>body. answeredWith d decodeID (createRequest n body) i t)"

definition lasting :: "(exchange list \<Rightarrow> bool) \<Rightarrow> bool" where
  "lasting F \<longleftrightarrow> (\<forall>x t. F t \<longrightarrow> F (x # t))"

lemma lasting_answered [simp]: "lasting (answeredWith d dec q a)"
  by (auto simp: lasting_def answeredWith_def)

lemma lasting_described [simp]: "lasting (describedAs d n c)"
  by (auto simp: lasting_def describedAs_def answeredWith_def)

lemma lasting_created [simp]: "lasting (createdAs d n i)"
  by (auto simp: lasting_def createdAs_def answeredWith_def)

lemma lasting_const [simp]: "lasting (\<lambda>_. b)"
  by (simp add: lasting_def)

lemma lasting_conj [simp]: "lasting F \<Longrightarrow> lasting G \<Longrightarrow> lasting (\<lambda>t. F t \<and> G t)"
  by (simp add: lasting_def)

lemma lasting_imp [simp]: "(b \<Longrightarrow> lasting F) \<Longrightarrow> lasting (\<lambda>t. b \<longrightarrow> F t)"
  by (simp add: lasting_def)

lemma lasting_all [simp]: "(\<And>a. lasting (F a)) \<Longrightarrow> lasting (\<lambda>t. \<forall>a. F a t)"
  by (simp add: lasting_def)

lemma lasting_ex [simp]: "(\<And>a. lasting (F a)) \<Longrightarrow> lasting (\<lambda>t. \<exists>a. F a t)"
  unfolding lasting_def by blast

lemma lasting_disj [simp]: "lasting F \<Longrightarrow> lasting G \<Longrightarrow> lasting (\<lambda>t. F t \<or> G t)"
  by (auto simp: lasting_def)

subsection \<open>The client's calls\<close>

text \<open>So far every request was eachJustified, and a fact about the exchanges holds.\<close>

definition upTo :: "(exchange list \<Rightarrow> dockerRequest \<Rightarrow> bool) \<Rightarrow> (exchange list \<Rightarrow> bool) \<Rightarrow> 's \<times> exchange list \<Rightarrow> bool" where
  "upTo ok F st \<longleftrightarrow> eachJustified ok (snd st) \<and> F (snd st)"

lemma traced_simps [simp]:
  "dm_ParseJSON (traced d) = dm_ParseJSON d" "dm_EncodeJSON (traced d) = dm_EncodeJSON d" "dm_ParseTime (traced d) = dm_ParseTime d"
  "daemonMessage (traced d) = daemonMessage d"
  by (simp_all add: traced_def daemonMessage_def fun_eq_iff)

lemma decodeContainer_traced [simp]: "decodeContainer (traced d) = decodeContainer d"
  by (rule ext) (simp only: decodeContainer_def traced_simps)

text \<open>A request may be made wherever a fact holds.\<close>

definition allows :: "(exchange list \<Rightarrow> bool) \<Rightarrow> (exchange list \<Rightarrow> dockerRequest \<Rightarrow> bool) \<Rightarrow> dockerRequest \<Rightarrow> bool" where
  "allows F ok q \<longleftrightarrow> (\<forall>t. F t \<longrightarrow> ok t q)"

lemma triple_Do:
  assumes "lasting F" "allows F ok q"
  shows "triple (upTo ok F) (dm_Do (traced d) q) (\<lambda>a. upTo ok (\<lambda>t. F t \<and> (q, a) \<in> set t))"
proof -
  have "dm_Do (traced d) q = State (\<lambda>(s, t). case run (dm_Do d q) s of (a, s') \<Rightarrow> (a, (s', (q, a) # t)))"
    by (simp add: traced_def)
  then show ?thesis using assms
    by (auto simp: triple_def upTo_def lasting_def allows_def split: prod.split)
qed

abbreviation theRequest :: "string \<Rightarrow> string \<Rightarrow> string strmap \<Rightarrow> json option \<Rightarrow> dockerRequest" where
  "theRequest m p qu b \<equiv> \<lparr>dq_Method = m, dq_Path = daemonPath p, dq_Query = qu, dq_Body = b\<rparr>"

lemma triple_do:
  assumes "lasting F" "allows F ok (theRequest m p qu b)"
  shows "triple (upTo ok F) (docker_do (traced d) m p qu b into)
    (\<lambda>res. upTo ok (\<lambda>t. F t \<and> (\<forall>dec a. into = Some dec \<longrightarrow> res = Inr a \<longrightarrow>
       (\<exists>x. a = Some x \<and> answeredWith d dec (theRequest m p qu b) x t))))"
  unfolding docker_do_def daemonPath_def [symmetric]
  by (rule triple_bind [OF triple_Do [OF assms]])
    (auto simp: Let_def upTo_def answeredWith_def intro!: triple_intros triple_ret split: sum.split_asm option.split_asm)

lemma triple_call:
  assumes "lasting F" "allows F ok (theRequest m p qu b)"
  shows "triple (upTo ok F) (docker_call (traced d) m p qu b) (\<lambda>_. upTo ok F)"
  unfolding docker_call_def
  by (rule triple_bind [OF triple_do [OF assms]]) (auto simp: upTo_def intro!: triple_intros triple_ret)

lemma triple_Inspect:
  assumes "lasting F" "allows F ok (inspectRequest n)"
  shows "triple (upTo ok F) (InspectContainer (traced d) n) (\<lambda>res. upTo ok (\<lambda>t. F t \<and> (\<forall>c. res = Inr c \<longrightarrow> describedAs d n c t)))"
proof -
  have "allows F ok (theRequest ''GET'' (''/containers/'' @ n @ ''/json'') [] None)" using assms(2) by (simp add: inspectRequest_def)
  then show ?thesis unfolding InspectContainer_def
    by (rule triple_bind [OF triple_do [OF assms(1)]])
      (auto simp: describedAs_def inspectRequest_def upTo_def intro!: triple_intros triple_ret)
qed

definition listedAs :: "'s daemon \<Rightarrow> string list \<Rightarrow> string list \<Rightarrow> exchange list \<Rightarrow> bool" where
  "listedAs d ls ids t \<longleftrightarrow> ids = [] \<or> answeredWith d decodeIDs (listRequest d ls) ids t"

lemma lasting_listed [simp]: "lasting (listedAs d ls ids)"
  unfolding listedAs_def [abs_def] by simp

lemma triple_List:
  assumes "lasting F" "allows F ok (listRequest d ls)"
  shows "triple (upTo ok F) (ListContainers (traced d) ls) (\<lambda>res. upTo ok (\<lambda>t. F t \<and> (\<forall>ids. res = Inr ids \<longrightarrow> listedAs d ls ids t)))"
proof -
  let ?f = "[(''all'', ''true''), (''filters'', dm_EncodeJSON (traced d) (JObj [(''label'', JArr (map JStr ls))]))]"
  have q: "theRequest ''GET'' ''/containers/json'' ?f None = listRequest d ls" by (simp add: listRequest_def)
  then have "allows F ok (theRequest ''GET'' ''/containers/json'' ?f None)" using assms(2) by (simp only: q)
  then show ?thesis unfolding ListContainers_def
    by (rule triple_bind [OF triple_do [OF assms(1)]])
      (auto simp: listedAs_def upTo_def q [unfolded traced_simps] intro!: triple_intros triple_ret split: option.splits)
qed

lemma triple_Ping:
  assumes "lasting F" "allows F ok pingRequest"
  shows "triple (upTo ok F) (docker_Ping (traced d)) (\<lambda>_. upTo ok F)"
  unfolding docker_Ping_def using assms by (intro triple_call) (simp_all add: pingRequest_def)

definition networkBody :: "NetworkSpec \<Rightarrow> json" where
  "networkBody spec = JObj [(''Name'', JStr (nt_Name spec)), (''Driver'', JStr ''bridge''), (''Internal'', JBool (nt_Internal spec)),
     (''Labels'', labelsJSON (nt_Labels spec))]"

lemma triple_EnsureNetwork:
  assumes "lasting F" "allows F ok (networkRequest (nt_Name spec))"
    "allows F ok (theRequest ''POST'' ''/networks/create'' [] (Some (networkBody spec)))"
  shows "triple (upTo ok F) (EnsureNetwork (traced d) spec) (\<lambda>_. upTo ok F)"
  unfolding EnsureNetwork_def networkBody_def [symmetric]
  by (rule triple_bind [OF triple_call [OF assms(1) assms(2) [unfolded networkRequest_def]]])
    (auto intro!: triple_intros triple_ret triple_bind [OF triple_call [OF assms(1,3)]])

lemma triple_ConnectNetwork:
  assumes "lasting F" "allows F ok (theRequest ''POST'' (''/networks/'' @ n @ ''/connect'') []
    (Some (JObj [(''Container'', JStr i), (''EndpointConfig'', JObj [(''Aliases'', strings aliases)])])))"
  shows "triple (upTo ok F) (ConnectNetwork (traced d) n i aliases) (\<lambda>_. upTo ok F)"
  unfolding ConnectNetwork_def
  by (rule triple_bind [OF triple_call [OF assms]]) (auto intro!: triple_intros triple_ret)

lemma triple_Start:
  assumes "lasting F" "allows F ok (theRequest ''POST'' (''/containers/'' @ i @ ''/start'') [] None)"
  shows "triple (upTo ok F) (StartContainer (traced d) i) (\<lambda>_. upTo ok F)"
  unfolding StartContainer_def using assms by (rule triple_call)

lemma triple_Remove:
  assumes "lasting F" "allows F ok (theRequest ''DELETE'' (''/containers/'' @ i) [(''force'', ''true''), (''v'', ''true'')] None)"
  shows "triple (upTo ok F) (RemoveContainer (traced d) i) (\<lambda>_. upTo ok F)"
  unfolding RemoveContainer_def by (rule triple_bind [OF triple_call [OF assms]]) (auto intro!: triple_intros triple_ret)

lemma triple_Create:
  assumes "lasting F" "allows F ok (createRequest n (containerBody spec))"
  shows "triple (upTo ok F) (CreateContainer (traced d) n spec) (\<lambda>res. upTo ok (\<lambda>t. F t \<and> (\<forall>i. res = Inr i \<longrightarrow> createdAs d n i t)))"
proof -
  have "allows F ok (theRequest ''POST'' ''/containers/create'' [(''name'', n)] (Some (containerBody spec)))"
    using assms(2) by (simp add: createRequest_def)
  then show ?thesis unfolding CreateContainer_def
    by (rule triple_bind [OF triple_do [OF assms(1)]])
      (auto simp: createdAs_def createRequest_def upTo_def intro!: triple_intros triple_ret exI [of _ "containerBody spec"])
qed

section \<open>What a handler may ask\<close>

text \<open>The requests of a call of \<open>RunInstance\<close> on an instance of an account: a look at the container of that very instance, at
  the list of the account's, and at the networks that follow; creating the account's isolated network, or that
  of the account which a service account attaches to; creating the container of that very instance, locked down and labelled
  with its owner; and, once the daemon has described a container of the instance's name or of the id it
  answered to the creation, attaching it under the service's own aliases and starting it.\<close>

definition mayAttach :: "ChalaConfig \<Rightarrow> string \<Rightarrow> string \<Rightarrow> bool" where
  "mayAttach cfg account attach \<longleftrightarrow>
     getOr [] (cc_ServiceAccounts cfg) account \<noteq> [] \<and> twelveDigits attach \<and> attach \<noteq> account"

definition serviceAlias :: "ChalaConfig \<Rightarrow> string \<Rightarrow> string \<Rightarrow> string \<Rightarrow> bool" where
  "serviceAlias cfg account attach alias \<longleftrightarrow>
     (\<exists>l. instanceName l \<and> alias = l @ ''.'' @ attach @ ''.'' @ getOr [] (cc_ServiceAccounts cfg) account @ ''.dariya.internal'')"

definition lockedDown :: "string \<Rightarrow> string \<Rightarrow> json \<Rightarrow> bool" where
  "lockedDown account name body \<longleftrightarrow>
     (let host = jfield ''HostConfig'' body; labels = jfield ''Labels'' body in
      jfield ''Privileged'' host = JBool False \<and> jfield ''CapDrop'' host = JArr [JStr ''ALL''] \<and>
      jfield ''SecurityOpt'' host = JArr [JStr ''no-new-privileges''] \<and>
      jfield ''NetworkMode'' host = JStr (NetworkName account) \<and>
      jfield ''EndpointsConfig'' (jfield ''NetworkingConfig'' body) =
        JObj [(NetworkName account, JObj [(''Aliases'', JArr [JStr (DNSName account name)])])] \<and>
      jfield labelKind labels = JStr kindInstance \<and> jfield labelAccount labels = JStr account \<and>
      jfield labelInstance labels = JStr name)"

definition ownContainer :: "'s daemon \<Rightarrow> string \<Rightarrow> string \<Rightarrow> string \<Rightarrow> exchange list \<Rightarrow> bool" where
  "ownContainer d account name i t \<longleftrightarrow>
     (\<exists>c. ct_ID c = i \<and> (describedAs d (containerName account name) c t \<or>
        (\<exists>j. createdAs d (containerName account name) j t \<and> describedAs d j c t)))"

text \<open>An id under which the daemon knows the instance's container.\<close>

definition knownAs :: "'s daemon \<Rightarrow> string \<Rightarrow> string \<Rightarrow> string \<Rightarrow> exchange list \<Rightarrow> bool" where
  "knownAs d account name i t \<longleftrightarrow>
     i = containerName account name \<or> createdAs d (containerName account name) i t \<or> ownContainer d account name i t"

definition runStep :: "'s daemon \<Rightarrow> ChalaConfig \<Rightarrow> string \<Rightarrow> string \<Rightarrow> exchange list \<Rightarrow> dockerRequest \<Rightarrow> bool" where
  "runStep d cfg account name t q \<longleftrightarrow>
     (\<exists>i. knownAs d account name i t \<and> q = inspectRequest i) \<or>
     q = listRequest d (accountFilter account) \<or>
     (\<exists>a. (a = account \<or> mayAttach cfg account a) \<and>
        (q = networkRequest (NetworkName a) \<or> q = theRequest ''POST'' ''/networks/create'' [] (Some (networkBody (accountNetwork a))))) \<or>
     (\<exists>body. lockedDown account name body \<and> q = createRequest (containerName account name) body) \<or>
     (\<exists>i a aliases. ownContainer d account name i t \<and> mayAttach cfg account a \<and> list_all (serviceAlias cfg account a) aliases \<and>
        q = theRequest ''POST'' (''/networks/'' @ NetworkName a @ ''/connect'') []
          (Some (JObj [(''Container'', JStr i), (''EndpointConfig'', JObj [(''Aliases'', strings aliases)])]))) \<or>
     (\<exists>i. ownContainer d account name i t \<and> q = theRequest ''POST'' (''/containers/'' @ i @ ''/start'') [] None)"

text \<open>The requests of a call of \<open>TerminateInstance\<close>: a look at the container of that very instance, and the removal of a
  container that the daemon has described under the instance's name with the account as its owner.\<close>

definition terminateStep :: "'s daemon \<Rightarrow> string \<Rightarrow> string \<Rightarrow> exchange list \<Rightarrow> dockerRequest \<Rightarrow> bool" where
  "terminateStep d account name t q \<longleftrightarrow>
     q = inspectRequest (containerName account name) \<or>
     (\<exists>c. describedAs d (containerName account name) c t \<and> getOr [] (ct_Labels c) labelAccount = account \<and>
        q = theRequest ''DELETE'' (''/containers/'' @ ct_ID c) [(''force'', ''true''), (''v'', ''true'')] None)"

text \<open>Describing one instance looks at its container only. Describing the account's instances lists the containers labelled
  with the account and with the tags asked for, and looks at what was listed.\<close>

definition describeStep :: "string \<Rightarrow> string \<Rightarrow> exchange list \<Rightarrow> dockerRequest \<Rightarrow> bool" where
  "describeStep account name t q \<longleftrightarrow> q = inspectRequest (containerName account name)"

definition listStep :: "'s daemon \<Rightarrow> string \<Rightarrow> string list \<Rightarrow> exchange list \<Rightarrow> dockerRequest \<Rightarrow> bool" where
  "listStep d account fs t q \<longleftrightarrow>
     q = listRequest d (accountFilter account @ fs) \<or>
     (\<exists>ids i. answeredWith d decodeIDs (listRequest d (accountFilter account @ fs)) ids t \<and> i \<in> set ids \<and> q = inspectRequest i)"

definition pingStep :: "exchange list \<Rightarrow> dockerRequest \<Rightarrow> bool" where
  "pingStep t q \<longleftrightarrow> q = pingRequest"

lemma lasting_own [simp]: "lasting (ownContainer d a n i)"
  unfolding ownContainer_def [abs_def] by simp

lemma lasting_known [simp]: "lasting (knownAs d a n i)"
  unfolding knownAs_def [abs_def] by simp

lemma run_looks:
  "(\<And>t. F t \<Longrightarrow> knownAs d account name i t) \<Longrightarrow> allows F (runStep d cfg account name) (inspectRequest i)"
  "allows F (runStep d cfg account name) (listRequest d (accountFilter account))"
  "a = account \<or> mayAttach cfg account a \<Longrightarrow> allows F (runStep d cfg account name) (networkRequest (NetworkName a))"
  unfolding allows_def runStep_def by blast+

subsection \<open>The container of an instance\<close>

lemma labels_distinct [simp]:
  "labelTag @ k \<noteq> labelKind" "labelTag @ k \<noteq> labelAccount" "labelTag @ k \<noteq> labelInstance" "labelTag @ k \<noteq> labelImage"
  "labelTag @ k \<noteq> labelAttachAccount" "labelTag @ k \<noteq> labelAttachAliases"
  by (simp_all add: label_defs)

lemma lookup_instanceLabels:
  assumes "\<forall>k. labelTag @ k \<noteq> l"
  shows "lookup (instanceLabels account name i tags) l =
    lookup [(labelKind, kindInstance), (labelAccount, account), (labelInstance, name), (labelImage, i)] l"
proof -
  have "lookup (foldl (\<lambda>labels (k, v). setLabel (labelTag @ k) v labels) ls tags) l = lookup ls l" for ls
    using assms by (induction tags arbitrary: ls) (auto simp: setLabel_def split: prod.split)
  then show ?thesis by (simp add: instanceLabels_def)
qed

lemma lookup_runLabels:
  assumes "\<forall>k. labelTag @ k \<noteq> l" "l \<noteq> labelAttachAccount" "l \<noteq> labelAttachAliases"
  shows "lookup (runLabels account name img req) l =
    lookup [(labelKind, kindInstance), (labelAccount, account), (labelInstance, name), (labelImage, im_ID img)] l"
  using assms by (simp add: runLabels_def Let_def setLabel_def lookup_instanceLabels)

lemma jfield_labels: "jfield l (labelsJSON ls) = (case lookup ls l of None \<Rightarrow> JNull | Some v \<Rightarrow> JStr v)"
  by (induction ls) (auto simp: jfield_def labelsJSON_def getOr_def)

lemma runSpec_lockedDown: "lockedDown account name (containerBody (runSpec account name img req))"
  unfolding lockedDown_def Let_def
  by (simp add: containerBody_def runSpec_def jfield_labels lookup_runLabels strings_def)
    (simp add: jfield_def getOr_def jfield_labels [unfolded jfield_def] lookup_runLabels label_defs)

subsection \<open>The attachment a request may ask for\<close>

lemma validateAliases_None: "validateAliases suffix as = None \<longleftrightarrow> list_all (\<lambda>a. \<exists>l. instanceName l \<and> a = l @ suffix) as"
  by (induction suffix as rule: validateAliases.induct) (auto simp: cutSuffix_Some split: option.split)

lemma validateAttach_None:
  "validateAttach account (getOr [] (cc_ServiceAccounts cfg) account) attach aliases = None \<longleftrightarrow>
     (if attach = [] then aliases = []
      else mayAttach cfg account attach \<and> length aliases \<le> 4 \<and> list_all (serviceAlias cfg account attach) aliases)"
  by (auto simp: validateAttach_def mayAttach_def validateAliases_None serviceAlias_def [abs_def] aliasSuffix_def maxAliases_def)

subsection \<open>The handlers\<close>

text \<open>A handler's property so far: nothing but errors was written, the requests are justified, and a fact holds of the exchanges. In
  the end, each message that was written is one that the exchanges account for.\<close>

abbreviation soFar :: "(exchange list \<Rightarrow> dockerRequest \<Rightarrow> bool) \<Rightarrow> (exchange list \<Rightarrow> bool) \<Rightarrow> 'm rw \<times> 's \<times> exchange list \<Rightarrow> bool" where
  "soFar ok F \<equiv> \<lambda>ws. messages (fst ws) = [] \<and> upTo ok F (snd ws)"

abbreviation answered ::
  "(exchange list \<Rightarrow> dockerRequest \<Rightarrow> bool) \<Rightarrow> (exchange list \<Rightarrow> 'm \<Rightarrow> bool) \<Rightarrow> 'm rw \<times> 's \<times> exchange list \<Rightarrow> bool" where
  "answered ok M \<equiv> \<lambda>ws. eachJustified ok (snd (snd ws)) \<and> (\<forall>m \<in> set (messages (fst ws)). M (snd (snd ws)) m)"

lemma triple_ask: "triple (upTo ok F) m (\<lambda>a. upTo ok (G a)) \<Longrightarrow> triple (soFar ok F) (inState m) (\<lambda>a. soFar ok (G a))"
  by (simp add: triple_def split_paired_All)

lemma triple_fails: "triple (soFar ok F) (chala_fail s r e) (\<lambda>_. answered ok M)"
  by (simp add: triple_def chala_fail_def WriteError_def upTo_def split_paired_All)

lemma triple_writes: "(\<And>t. F t \<Longrightarrow> M t m) \<Longrightarrow> triple (soFar ok F) (chala_writeProto s r st m) (\<lambda>_. answered ok M)"
  by (simp add: triple_def chala_writeProto_def WriteError_def upTo_def split_paired_All)

text \<open>The answer to a run describes a container that the daemon knows as the instance's.\<close>

definition ranAs :: "'s daemon \<Rightarrow> 't ChalaServer \<Rightarrow> string \<Rightarrow> string \<Rightarrow> exchange list \<Rightarrow> chalaMsg \<Rightarrow> bool" where
  "ranAs d s account name t m \<longleftrightarrow> (\<exists>i c. knownAs d account name i t \<and> describedAs d i c t \<and> m = MRun (chala_instance s c))"

lemma triple_respondWith:
  assumes d: "sv_Docker s = traced d" and F: "lasting F" "\<And>t. F t \<Longrightarrow> knownAs d account name i t"
  shows "triple (soFar (runStep d cfg account name) F) (respondWith s r st i) (\<lambda>_. answered (runStep d cfg account name) (ranAs d s account name))"
  unfolding respondWith_def d
proof (rule triple_bind [OF triple_ask [OF triple_Inspect [OF F(1) run_looks(1) [OF F(2)]]]], assumption, rule triple_sum)
  fix res :: "err + Container" and e
  show "triple (soFar (runStep d cfg account name) (\<lambda>t. F t \<and> (\<forall>c. res = Inr c \<longrightarrow> describedAs d i c t)))
    (chala_fail s r (Internal (Some e) ''the instance was started but could not be described'' []))
    (\<lambda>_. answered (runStep d cfg account name) (ranAs d s account name))" by (rule triple_fails)
next
  fix res :: "err + Container" and c assume "res = Inr c"
  then show "triple (soFar (runStep d cfg account name) (\<lambda>t. F t \<and> (\<forall>c. res = Inr c \<longrightarrow> describedAs d i c t)))
    (chala_writeProto s r st (MRun (chala_instance s c))) (\<lambda>_. answered (runStep d cfg account name) (ranAs d s account name))"
    using F(2) by (intro triple_writes) (auto simp: ranAs_def)
qed

text \<open>What has been checked of the request when its container is finished.\<close>

definition checkedRun :: "ChalaConfig \<Rightarrow> string \<Rightarrow> RunInstanceRequest \<Rightarrow> bool" where
  "checkedRun cfg account req \<longleftrightarrow>
     validateAttach account (getOr [] (cc_ServiceAccounts cfg) account) (ri_AttachAccountId req) (ri_AttachDnsAliases req) = None"

lemma triple_startCreated:
  assumes "sv_Docker s = traced d" "lasting F" "\<And>t. F t \<Longrightarrow> ownContainer d account name (ct_ID c) t"
  shows "triple (upTo (runStep d cfg account name) F) (startCreated s c) (\<lambda>_. upTo (runStep d cfg account name) F)"
proof -
  have "allows F (runStep d cfg account name) (theRequest ''POST'' (''/containers/'' @ ct_ID c @ ''/start'') [] None)"
    unfolding allows_def runStep_def using assms(3) by blast
  from triple_Start [OF assms(2) this] show ?thesis
    unfolding startCreated_def assms(1) by (auto intro!: triple_intros triple_ret triple_bind)
qed

lemma triple_finish:
  assumes d: "sv_Docker s = traced d" and F: "lasting F" and own: "\<And>t. F t \<Longrightarrow> ownContainer d account name (ct_ID c) t"
    and req: "checkedRun cfg account req"
  shows "triple (upTo (runStep d cfg account name) F) (finish s c req) (\<lambda>_. upTo (runStep d cfg account name) F)"
proof (cases "ri_AttachAccountId req = []")
  case True
  with triple_startCreated [OF assms(1-3)] show ?thesis by (simp add: finish_def Let_def)
next
  case False
  then have may: "mayAttach cfg account (ri_AttachAccountId req)"
    and al: "list_all (serviceAlias cfg account (ri_AttachAccountId req)) (ri_AttachDnsAliases req)"
    using req by (simp_all add: checkedRun_def validateAttach_None)
  let ?ok = "runStep d cfg account name"
  have n: "allows F ?ok (theRequest ''POST'' ''/networks/create'' [] (Some (networkBody (accountNetwork (ri_AttachAccountId req)))))"
    unfolding allows_def runStep_def using may by blast
  have c: "allows F ?ok (theRequest ''POST'' (''/networks/'' @ NetworkName (ri_AttachAccountId req) @ ''/connect'') []
      (Some (JObj [(''Container'', JStr (ct_ID c)), (''EndpointConfig'', JObj [(''Aliases'', strings (ri_AttachDnsAliases req))])])))"
    using may al own unfolding allows_def runStep_def by blast
  have start: "triple (upTo ?ok F) (startCreated s c) (\<lambda>_. upTo ?ok F)" by (rule triple_startCreated [OF assms(1-3)])
  have "triple (upTo ?ok F) (EnsureNetwork (traced d) (accountNetwork (ri_AttachAccountId req))) (\<lambda>_. upTo ?ok F)"
    by (rule triple_EnsureNetwork [OF F _ n]) (simp add: accountNetwork_def run_looks(3) may)
  moreover note triple_ConnectNetwork [OF F c]
  ultimately show ?thesis using start
    unfolding finish_def Let_def d by (auto intro!: triple_intros triple_ret intro: triple_bind)
qed

lemma triple_adopt:
  assumes "sv_Docker s = traced d" "lasting F" "\<And>t. F t \<Longrightarrow> ownContainer d account name (ct_ID c) t" "checkedRun cfg account req"
  shows "triple (soFar (runStep d cfg account name) F) (adopt s r c req) (\<lambda>_. answered (runStep d cfg account name) (ranAs d s account name))"
proof -
  note fin = triple_ask [OF triple_finish [OF assms]]
  have "triple (soFar (runStep d cfg account name) F) (respondWith s r 200 (ct_ID c))
      (\<lambda>_. answered (runStep d cfg account name) (ranAs d s account name))"
    using assms(3) by (intro triple_respondWith [OF assms(1,2)]) (simp add: knownAs_def)
  then show ?thesis unfolding adopt_def by (auto intro!: triple_intros triple_fails triple_bind [OF fin])
qed

lemma triple_createInstance:
  assumes d: "sv_Docker s = traced d" and req: "checkedRun cfg account req"
  shows "triple (soFar (runStep d cfg account name) (\<lambda>_. True)) (createInstance s r account name img req)
    (\<lambda>_. answered (runStep d cfg account name) (ranAs d s account name))"
proof -
  let ?ok = "runStep d cfg account name" and ?T = "\<lambda>_. True" and ?n = "containerName account name"
  let ?M = "ranAs d s account name"
  have net: "triple (upTo ?ok F) (EnsureNetwork (traced d) (accountNetwork account)) (\<lambda>_. upTo ?ok F)" if "lasting F" for F
    by (rule triple_EnsureNetwork [OF that])
      (simp add: accountNetwork_def run_looks(3), unfold allows_def runStep_def, blast)
  have create: "triple (upTo ?ok F) (CreateContainer (traced d) ?n (runSpec account name img req))
      (\<lambda>res. upTo ?ok (\<lambda>t. F t \<and> (\<forall>i. res = Inr i \<longrightarrow> createdAs d ?n i t)))" if F: "lasting F" for F
  proof (rule triple_Create [OF F])
    show "allows F ?ok (createRequest ?n (containerBody (runSpec account name img req)))"
      unfolding allows_def runStep_def using runSpec_lockedDown by blast
  qed
  note list = triple_List [of ?T ?ok d "accountFilter account", simplified, OF run_looks(2)]
  have created: "triple (soFar ?ok (createdAs d ?n i)) (do {
        c \<leftarrow> inState (InspectContainer (traced d) i);
        case c of
          Inl e \<Rightarrow> chala_fail s r (Internal (Some e) ''the instance was created but could not be described'' [])
        | Inr c \<Rightarrow> do {
            res \<leftarrow> inState (finish s c req);
            case res of Some e \<Rightarrow> chala_fail s r e | None \<Rightarrow> respondWith s r 200 i
          }
      }) (\<lambda>_. answered ?ok ?M)" for i
  proof (rule triple_bind [OF triple_ask [OF triple_Inspect]], simp, rule run_looks(1), simp add: knownAs_def, rule triple_sum, rule triple_fails)
    fix res :: "err + Container" and c assume "res = Inr c"
    let ?F = "\<lambda>t. createdAs d ?n i t \<and> (\<forall>c. (res :: err + Container) = Inr c \<longrightarrow> describedAs d i c t)"
    have "ownContainer d account name (ct_ID c) t" if "?F t" for t using that \<open>res = Inr c\<close> by (auto simp: ownContainer_def)
    from triple_ask [OF triple_finish [OF d _ this req]]
    show "triple (soFar ?ok ?F) (do {
            res \<leftarrow> inState (finish s c req);
            case res of Some e \<Rightarrow> chala_fail s r e | None \<Rightarrow> respondWith s r 200 i
          }) (\<lambda>_. answered ?ok ?M)"
      by (rule triple_bind) (auto simp: knownAs_def intro!: triple_intros triple_fails triple_respondWith [OF d])
  qed
  have lost: "triple (soFar ?ok F) (do {
        existing \<leftarrow> inState (InspectContainer (traced d) ?n);
        case existing of
          Inl e \<Rightarrow> chala_fail s r (Internal (Some e) ''could not look up the instance'' [])
        | Inr c \<Rightarrow> adopt s r c req
      }) (\<lambda>_. answered ?ok ?M)" if F: "lasting F" for F
  proof (rule triple_bind [OF triple_ask [OF triple_Inspect]], rule F, rule run_looks(1), simp add: knownAs_def, rule triple_sum, rule triple_fails)
    fix res :: "err + Container" and c assume "res = Inr c"
    then show "triple (soFar ?ok (\<lambda>t. F t \<and> (\<forall>c. res = Inr c \<longrightarrow> describedAs d ?n c t))) (adopt s r c req) (\<lambda>_. answered ?ok ?M)"
      by (intro triple_adopt [OF d _ _ req]) (use F in \<open>auto simp: ownContainer_def\<close>)
  qed
  show ?thesis
    unfolding createInstance_def d
    apply (rule triple_bind [OF triple_ask [OF list]], rule triple_sum, rule triple_fails, rule triple_if, rule triple_fails)
    apply (rule triple_bind [OF triple_ask [OF net]], simp, rule triple_option)
     apply (rule triple_bind [OF triple_ask [OF create]], simp, rule triple_sum, rule triple_if)
       apply (rule lost, simp)
      apply (rule triple_fails)
     apply (rule triple_pre [OF created])
     apply (simp add: upTo_def)
    apply (rule triple_fails)
    done
qed

text \<open>A handler for one instance starts with its name and its capability.\<close>

definition authorizedFor :: "'s ChalaServer \<Rightarrow> request \<Rightarrow> string \<Rightarrow> string \<Rightarrow> Capability \<Rightarrow> bool" where
  "authorizedFor s r action name cap \<longleftrightarrow> instanceName name \<and> cp_Action cap = action \<and>
     (\<exists>token now. tokenOn (sv_Wire s) r = Some token \<and> cap_Verify (sv_Wire s) (gd_verifier (sv_Guard s)) now (Some token) = Inr cap) \<and>
     cp_ResourceArn cap = formatArn (gd_service (sv_Guard s)) (gd_region (sv_Guard s)) (cp_AccountId cap) ''instance'' name"

lemma chala_authorize_Inr:
  assumes "result_of (chala_authorize s r action name) st = Inr cap"
  shows "authorizedFor s r action name cap \<and> is_account_id (cp_AccountId cap)"
proof -
  have n: "instanceName name"
    and g: "guard_Authorize (sv_Wire s) (sv_Guard s) (sv_Now s st) r \<lparr>in_Action = action, in_ResourceType = ''instance'', in_ResourceID = name\<rparr> = Inr cap"
    using assms by (auto simp: chala_authorize_def chala_validateName_def split: if_splits sum.splits option.splits)
  have "\<exists>token now. tokenOn (sv_Wire s) r = Some token \<and> cap_Verify (sv_Wire s) (gd_verifier (sv_Guard s)) now (Some token) = Inr cap"
    using g by (auto simp: guard_Authorize_def guard_authorize_Inr split: if_splits)
  with guard_AuthorizeD [OF g] n show ?thesis by (auto simp: authorizedFor_def)
qed

lemma chala_authorize_final [simp]: "final_of (chala_authorize s r action name) st = st"
  by (simp add: chala_authorize_def split: option.split sum.split)

text \<open>A handler for the whole account.\<close>

definition authorizedForAccount :: "'s ChalaServer \<Rightarrow> request \<Rightarrow> string \<Rightarrow> Capability \<Rightarrow> bool" where
  "authorizedForAccount s r action cap \<longleftrightarrow> cp_Action cap = action \<and>
     (\<exists>token now. tokenOn (sv_Wire s) r = Some token \<and> cap_Verify (sv_Wire s) (gd_verifier (sv_Guard s)) now (Some token) = Inr cap) \<and>
     cp_ResourceArn cap = formatArn (gd_service (sv_Guard s)) (gd_region (sv_Guard s)) (cp_AccountId cap) ''account'' (cp_AccountId cap)"

text \<open>What a request may make the service do and say. Without a capability it asks for nothing, but that a probe pings the
  daemon, and says nothing of any instance.\<close>

definition describedOwn :: "'s daemon \<Rightarrow> 't ChalaServer \<Rightarrow> string \<Rightarrow> string \<Rightarrow> exchange list \<Rightarrow> chalaMsg \<Rightarrow> bool" where
  "describedOwn d s account name t m \<longleftrightarrow>
     (\<exists>c. describedAs d (containerName account name) c t \<and> getOr [] (ct_Labels c) labelAccount = account \<and> m = MDescribe (chala_instance s c))"

definition listedOwn :: "string \<Rightarrow> exchange list \<Rightarrow> chalaMsg \<Rightarrow> bool" where
  "listedOwn account t m \<longleftrightarrow> (\<exists>is. m = MInstances is \<and> (\<forall>i \<in> set is. it_AccountId i = account))"

definition actsWithin :: "'s daemon \<Rightarrow> 't ChalaServer \<Rightarrow> request \<Rightarrow> exchange list \<Rightarrow> chalaMsg list \<Rightarrow> bool" where
  "actsWithin d s r t ms \<longleftrightarrow>
     t = [] \<and> ms = [] \<or>
     eachJustified pingStep t \<and> (\<forall>m \<in> set ms. \<exists>st. m = MStatus st) \<or>
     (\<exists>name cap. authorizedFor s r ''chala:RunInstance'' name cap \<and>
        eachJustified (runStep d (sv_Config s) (cp_AccountId cap) name) t \<and> (\<forall>m \<in> set ms. ranAs d s (cp_AccountId cap) name t m)) \<or>
     (\<exists>name cap. authorizedFor s r ''chala:TerminateInstance'' name cap \<and>
        eachJustified (terminateStep d (cp_AccountId cap) name) t \<and> set ms \<subseteq> {MTerminated}) \<or>
     (\<exists>name cap. authorizedFor s r ''chala:DescribeInstance'' name cap \<and>
        eachJustified (describeStep (cp_AccountId cap) name) t \<and> (\<forall>m \<in> set ms. describedOwn d s (cp_AccountId cap) name t m)) \<or>
     (\<exists>cap fs. authorizedForAccount s r ''chala:DescribeInstances'' cap \<and> tagFilters (hr_Query r) = Inr fs \<and>
        eachJustified (listStep d (cp_AccountId cap) fs) t \<and> (\<forall>m \<in> set ms. listedOwn (cp_AccountId cap) t m)) \<or>
     (\<exists>cap. authorizedForAccount s r ''chala:DescribeImages'' cap \<and> t = [] \<and> set ms \<subseteq> {MImages (availableImages s)})"

abbreviation fresh :: "'m rw \<times> 's \<times> exchange list \<Rightarrow> bool" where
  "fresh ws \<equiv> messages (fst ws) = [] \<and> snd (snd ws) = []"

abbreviation within :: "'s daemon \<Rightarrow> 't ChalaServer \<Rightarrow> request \<Rightarrow> chalaMsg rw \<times> 's \<times> exchange list \<Rightarrow> bool" where
  "within d s r ws \<equiv> actsWithin d s r (snd (snd ws)) (messages (fst ws))"

lemma triple_runAuthorized:
  assumes d: "sv_Docker s = traced d"
  shows "triple (soFar (runStep d (sv_Config s) account name) (\<lambda>_. True))
    (case runRequest s r account name of
       Inl e \<Rightarrow> chala_fail s r e
     | Inr (req, img) \<Rightarrow> do {
         existing \<leftarrow> inState (InspectContainer (sv_Docker s) (containerName account name));
         case existing of
           Inr c \<Rightarrow> adopt s r c req
         | Inl e \<Rightarrow>
             if \<not> errorsIs e ErrDockerNotFound then chala_fail s r (Internal (Some e) ''could not look up the instance'' [])
             else createInstance s r account name img req
       }) (\<lambda>_. answered (runStep d (sv_Config s) account name) (ranAs d s account name))"
proof (rule triple_sum, rule triple_fails)
  let ?ok = "runStep d (sv_Config s) account name" and ?n = "containerName account name" and ?M = "ranAs d s account name"
  fix q assume "runRequest s r account name = Inr q"
  then obtain req img where q: "q = (req, img)" and req: "checkedRun (sv_Config s) account req"
    by (auto simp: runRequest_def checkedRun_def Let_def split: sum.splits option.splits if_splits)
  have rest: "triple (soFar ?ok (\<lambda>t. True \<and> (\<forall>c. res = Inr c \<longrightarrow> describedAs d ?n c t)))
      (case res of
         Inr c \<Rightarrow> adopt s r c req
       | Inl e \<Rightarrow>
           if \<not> errorsIs e ErrDockerNotFound then chala_fail s r (Internal (Some e) ''could not look up the instance'' [])
           else createInstance s r account name img req) (\<lambda>_. answered ?ok ?M)" for res :: "err + Container"
  proof (rule triple_sum)
    fix c assume "res = Inr c"
    then show "triple (soFar ?ok (\<lambda>t. True \<and> (\<forall>c. res = Inr c \<longrightarrow> describedAs d ?n c t))) (adopt s r c req) (\<lambda>_. answered ?ok ?M)"
      by (intro triple_adopt [OF d _ _ req]) (auto simp: ownContainer_def)
  next
    fix e
    show "triple (soFar ?ok (\<lambda>t. True \<and> (\<forall>c. res = Inr c \<longrightarrow> describedAs d ?n c t)))
      (if \<not> errorsIs e ErrDockerNotFound then chala_fail s r (Internal (Some e) ''could not look up the instance'' [])
       else createInstance s r account name img req) (\<lambda>_. answered ?ok ?M)"
      by (intro triple_if triple_fails triple_pre [OF triple_createInstance [OF d req]]) (simp add: upTo_def)
  qed
  have inspect: "triple (upTo ?ok (\<lambda>_. True)) (InspectContainer (traced d) ?n)
      (\<lambda>res. upTo ?ok (\<lambda>t. True \<and> (\<forall>c. res = Inr c \<longrightarrow> describedAs d ?n c t)))"
    by (rule triple_Inspect, simp, rule run_looks(1), simp add: knownAs_def)
  show "triple (soFar ?ok (\<lambda>_. True)) (case q of (req, img) \<Rightarrow> do {
         existing \<leftarrow> inState (InspectContainer (sv_Docker s) ?n);
         case existing of
           Inr c \<Rightarrow> adopt s r c req
         | Inl e \<Rightarrow>
             if \<not> errorsIs e ErrDockerNotFound then chala_fail s r (Internal (Some e) ''could not look up the instance'' [])
             else createInstance s r account name img req
       }) (\<lambda>_. answered ?ok ?M)"
    unfolding q d prod.case by (rule triple_bind [OF triple_ask [OF inspect] rest])
qed

lemma fails_trace [simp]:
  "messages (fst (final_of (chala_fail s r e) ws)) = messages (fst ws)" "snd (snd (final_of (chala_fail s r e) ws)) = snd (snd ws)"
  by (cases ws; simp add: chala_fail_def WriteError_def)+

text \<open>A handler for one instance: refused before anything is asked, or continued with the capability.\<close>

lemma authorized_within:
  fixes s :: "('s \<times> exchange list) ChalaServer"
  assumes k: "\<And>cap. authorizedFor s r action name cap \<Longrightarrow> triple (soFar (ok cap) (\<lambda>_. True)) (k cap) (\<lambda>_. answered (ok cap) (M cap))"
    and within: "\<And>cap ws. authorizedFor s r action name cap \<Longrightarrow> answered (ok cap) (M cap) ws \<Longrightarrow> within d s r ws"
  shows "triple fresh (do { cap \<leftarrow> inState (chala_authorize s r action name); case cap of Inl e \<Rightarrow> chala_fail s r e | Inr cap \<Rightarrow> k cap })
    (\<lambda>_. within d s r)"
  unfolding triple_def
proof (intro allI impI)
  fix ws :: "chalaMsg rw \<times> 's \<times> exchange list" assume f: "fresh ws"
  let ?m = "do { cap \<leftarrow> inState (chala_authorize s r action name); case cap of Inl e \<Rightarrow> chala_fail s r e | Inr cap \<Rightarrow> k cap }"
  obtain w x where ws: "ws = (w, (x, []))" "messages w = []" using f by (cases ws) simp
  obtain res where res: "run (chala_authorize s r action name) (x, []) = (res, (x, []))"
    by (metis chala_authorize_final prod.collapse)
  show "within d s r (final_of ?m ws)"
  proof (cases res)
    case (Inl e)
    then show ?thesis using fails_trace [of s r e ws] by (simp add: ws res actsWithin_def)
  next
    case (Inr cap)
    have a: "authorizedFor s r action name cap" using chala_authorize_Inr [of s r _ name "(x, [])" cap] res Inr by simp
    have "answered (ok cap) (M cap) (final_of (k cap) ws)"
      using k [OF a, unfolded triple_def, rule_format, of ws] ws by (simp add: upTo_def)
    from within [OF a this] show ?thesis by (simp add: ws(1) res Inr)
  qed
qed

lemma runInstance_within:
  assumes d: "sv_Docker s = traced d"
  shows "triple fresh (runInstance s name r) (\<lambda>_. within d s r)"
  unfolding runInstance_def Let_def
  by (rule authorized_within [OF triple_runAuthorized [OF d]]) (auto simp: actsWithin_def)

lemma triple_find:
  assumes "sv_Docker s = traced d" "lasting F" "allows F ok (inspectRequest (containerName account name))"
  shows "triple (upTo ok F) (chala_find s account name) (\<lambda>res. upTo ok (\<lambda>t. F t \<and>
    (\<forall>c. res = Inr c \<longrightarrow> describedAs d (containerName account name) c t \<and> getOr [] (ct_Labels c) labelAccount = account)))"
  unfolding chala_find_def assms(1)
  by (rule triple_bind [OF triple_Inspect [OF assms(2,3)]]) (auto simp: upTo_def intro!: triple_intros triple_ret)

lemma triple_terminateFound:
  assumes d: "sv_Docker s = traced d"
  shows "triple (soFar (terminateStep d account name) (\<lambda>_. True)) (do {
         c \<leftarrow> inState (chala_find s account name);
         case c of
           Inl e \<Rightarrow> chala_fail s r e
         | Inr c \<Rightarrow> do {
             res \<leftarrow> inState (RemoveContainer (sv_Docker s) (ct_ID c));
             case res of
               Some e \<Rightarrow> chala_fail s r (Internal (Some e) ''could not terminate the instance'' [])
             | None \<Rightarrow> chala_writeProto s r 200 MTerminated
           }
       }) (\<lambda>_. answered (terminateStep d account name) (\<lambda>t m. m = MTerminated))"
proof -
  let ?ok = "terminateStep d account name" and ?M = "\<lambda>t m. m = MTerminated"
  let ?F = "\<lambda>(res :: err + Container) t. True \<and> (\<forall>c. res = Inr c \<longrightarrow>
    describedAs d (containerName account name) c t \<and> getOr [] (ct_Labels c) labelAccount = account)"
  have find: "triple (upTo ?ok (\<lambda>_. True)) (chala_find s account name) (\<lambda>res. upTo ?ok (?F res))"
    by (rule triple_find [OF d]) (simp_all add: allows_def terminateStep_def)
  have rest: "triple (soFar ?ok (?F res)) (do {
             res \<leftarrow> inState (RemoveContainer (sv_Docker s) (ct_ID c));
             case res of
               Some e \<Rightarrow> chala_fail s r (Internal (Some e) ''could not terminate the instance'' [])
             | None \<Rightarrow> chala_writeProto s r 200 MTerminated
           }) (\<lambda>_. answered ?ok ?M)" if c: "res = Inr c" for res c
  proof -
    have "allows (?F res) ?ok (theRequest ''DELETE'' (''/containers/'' @ ct_ID c) [(''force'', ''true''), (''v'', ''true'')] None)"
      using c by (auto simp: allows_def terminateStep_def)
    then have "triple (upTo ?ok (?F res)) (RemoveContainer (sv_Docker s) (ct_ID c)) (\<lambda>_. upTo ?ok (?F res))"
      unfolding d by (intro triple_Remove) simp_all
    from triple_ask [OF this] show ?thesis
      by (rule triple_bind) (intro triple_intros triple_fails triple_writes refl)
  qed
  show ?thesis
    by (rule triple_bind [OF triple_ask [OF find]], rule triple_sum, rule triple_fails, rule rest)
qed

lemma terminateInstance_within:
  assumes d: "sv_Docker s = traced d"
  shows "triple fresh (terminateInstance s name r) (\<lambda>_. within d s r)"
  unfolding terminateInstance_def
  by (rule authorized_within [OF triple_terminateFound [OF d]]) (auto simp: actsWithin_def subset_iff)

subsection \<open>The handlers that only describe\<close>

lemma triple_describeFound:
  assumes d: "sv_Docker s = traced d"
  shows "triple (soFar (describeStep account name) (\<lambda>_. True)) (do {
         c \<leftarrow> inState (chala_find s account name);
         case c of Inl e \<Rightarrow> chala_fail s r e | Inr c \<Rightarrow> chala_writeProto s r 200 (MDescribe (chala_instance s c))
       }) (\<lambda>_. answered (describeStep account name) (describedOwn d s account name))"
proof -
  have "triple (upTo (describeStep account name) (\<lambda>_. True)) (chala_find s account name) (\<lambda>res. upTo (describeStep account name) (\<lambda>t. True \<and>
    (\<forall>c. res = Inr c \<longrightarrow> describedAs d (containerName account name) c t \<and> getOr [] (ct_Labels c) labelAccount = account)))"
    by (rule triple_find [OF d]) (simp_all add: allows_def describeStep_def)
  from triple_ask [OF this] show ?thesis
    by (rule triple_bind) (intro triple_intros triple_fails triple_writes, auto simp: describedOwn_def)
qed

lemma describeInstance_within:
  assumes d: "sv_Docker s = traced d"
  shows "triple fresh (describeInstance s name r) (\<lambda>_. within d s r)"
  unfolding describeInstance_def
  by (rule authorized_within [OF triple_describeFound [OF d]]) (auto simp: actsWithin_def)

lemma chala_instance_account: "it_AccountId (chala_instance s c) = getOr [] (ct_Labels c) labelAccount"
  by (simp add: chala_instance_def Let_def)

lemma triple_describeAll:
  assumes d: "sv_Docker s = traced d"
    and ids: "set ids \<subseteq> set all" "\<And>t. F t \<Longrightarrow> answeredWith d decodeIDs (listRequest d (accountFilter account @ fs)) all t" "lasting F"
  shows "triple (upTo (listStep d account fs) F) (describeAll s account ids)
    (\<lambda>res. upTo (listStep d account fs) (\<lambda>t. F t \<and> (\<forall>is. res = Inr is \<longrightarrow> (\<forall>i \<in> set is. it_AccountId i = account))))"
  using ids
proof (induction ids arbitrary: F)
  case Nil
  then show ?case by (auto intro: triple_ret simp: upTo_def)
next
  case (Cons i ids)
  have "allows F (listStep d account fs) (inspectRequest i)"
    using Cons.prems by (fastforce simp: allows_def listStep_def)
  note i = triple_Inspect [OF Cons.prems(3) this]
  have rest: "triple (upTo (listStep d account fs) (\<lambda>t. F t \<and> (\<forall>c. r = Inr c \<longrightarrow> describedAs d i c t))) (describeAll s account ids)
    (\<lambda>res. upTo (listStep d account fs) (\<lambda>t. F t \<and> (\<forall>is. res = Inr is \<longrightarrow> (\<forall>i \<in> set is. it_AccountId i = account))))" for r :: "err + Container"
    by (rule triple_weaken [OF Cons.IH [of F]]) (use Cons.prems in \<open>auto simp: upTo_def\<close>)
  show ?case unfolding describeAll.simps d
    by (rule triple_bind [OF i])
      (intro triple_intros rest triple_bind [OF rest] triple_ret; auto simp: upTo_def chala_instance_account)
qed

lemma describeInstances_within:
  assumes d: "sv_Docker s = traced d"
  shows "triple fresh (describeInstances s r) (\<lambda>_. within d s r)"
  unfolding describeInstances_def
proof (rule triple_bind [where R = "\<lambda>_. fresh"])
  show "triple fresh (inState (gets (sv_Now s))) (\<lambda>_. fresh)" by (simp add: triple_def split_paired_All)
next
  fix now
  have refused: "triple fresh (chala_fail s r e) (\<lambda>_. within d s r)" for e by (simp add: triple_def actsWithin_def)
  show "triple fresh (case guard_AuthorizeAccount (sv_Wire s) (sv_Guard s) now r ''chala:DescribeInstances'' of
       Inl e \<Rightarrow> chala_fail s r (chala_denied e)
     | Inr cap \<Rightarrow>
         (case tagFilters (hr_Query r) of
            Inl e \<Rightarrow> chala_fail s r e
          | Inr fs \<Rightarrow> do {
              ids \<leftarrow> inState (ListContainers (sv_Docker s) (accountFilter (cp_AccountId cap) @ fs));
              case ids of
                Inl e \<Rightarrow> chala_fail s r (Internal (Some e) ''could not list instances'' [])
              | Inr ids \<Rightarrow> do {
                  is \<leftarrow> inState (describeAll s (cp_AccountId cap) ids);
                  case is of
                    Inl e \<Rightarrow> chala_fail s r e
                  | Inr is \<Rightarrow> chala_writeProto s r 200 (MInstances (sort_key (\<lambda>i. byteOrder (it_Name i)) is))
                }
            })) (\<lambda>_. within d s r)"
  proof (rule triple_sum, rule refused, rule triple_sum, rule refused)
    fix cap fs
    assume g: "guard_AuthorizeAccount (sv_Wire s) (sv_Guard s) now r ''chala:DescribeInstances'' = Inr cap" and fs: "tagFilters (hr_Query r) = Inr fs"
    let ?a = "cp_AccountId cap"
    let ?ok = "listStep d ?a fs"
    have a: "authorizedForAccount s r ''chala:DescribeInstances'' cap"
      using g by (auto simp: guard_AuthorizeAccount_def guard_authorize_Inr authorizedForAccount_def)
    have list: "triple (upTo ?ok (\<lambda>_. True)) (ListContainers (traced d) (accountFilter ?a @ fs))
        (\<lambda>res. upTo ?ok (\<lambda>t. True \<and> (\<forall>ids. res = Inr ids \<longrightarrow> listedAs d (accountFilter ?a @ fs) ids t)))"
      by (rule triple_List) (auto simp: allows_def listStep_def)
    have body: "triple (soFar ?ok (listedAs d (accountFilter ?a @ fs) ids)) (do {
                  is \<leftarrow> inState (describeAll s ?a ids);
                  case is of
                    Inl e \<Rightarrow> chala_fail s r e
                  | Inr is \<Rightarrow> chala_writeProto s r 200 (MInstances (sort_key (\<lambda>i. byteOrder (it_Name i)) is))
                }) (\<lambda>_. answered ?ok (listedOwn ?a))" for ids
    proof (cases "ids = []")
      case True
      have "triple (upTo ?ok (\<lambda>_. True)) (describeAll s ?a ids)
          (\<lambda>res. upTo ?ok (\<lambda>t. \<forall>is. res = Inr is \<longrightarrow> (\<forall>i \<in> set is. it_AccountId i = ?a)))"
        using True by (auto intro: triple_ret simp: upTo_def)
      then have "triple (soFar ?ok (\<lambda>_. True)) (do {
                  is \<leftarrow> inState (describeAll s ?a ids);
                  case is of
                    Inl e \<Rightarrow> chala_fail s r e
                  | Inr is \<Rightarrow> chala_writeProto s r 200 (MInstances (sort_key (\<lambda>i. byteOrder (it_Name i)) is))
                }) (\<lambda>_. answered ?ok (listedOwn ?a))"
        by (rule triple_bind [OF triple_ask]) (intro triple_intros triple_fails triple_writes, auto simp: listedOwn_def)
      then show ?thesis by (rule triple_pre) (simp add: upTo_def)
    next
      case False
      then have "triple (upTo ?ok (listedAs d (accountFilter ?a @ fs) ids)) (describeAll s ?a ids)
          (\<lambda>res. upTo ?ok (\<lambda>t. listedAs d (accountFilter ?a @ fs) ids t \<and> (\<forall>is. res = Inr is \<longrightarrow> (\<forall>i \<in> set is. it_AccountId i = ?a))))"
        by (intro triple_describeAll [OF d, of ids ids]) (auto simp: listedAs_def)
      from triple_ask [OF this] show ?thesis
        by (rule triple_bind) (intro triple_intros triple_fails triple_writes, auto simp: listedOwn_def)
    qed
    have all: "triple (soFar ?ok (\<lambda>_. True)) (do {
              ids \<leftarrow> inState (ListContainers (sv_Docker s) (accountFilter ?a @ fs));
              case ids of
                Inl e \<Rightarrow> chala_fail s r (Internal (Some e) ''could not list instances'' [])
              | Inr ids \<Rightarrow> do {
                  is \<leftarrow> inState (describeAll s ?a ids);
                  case is of
                    Inl e \<Rightarrow> chala_fail s r e
                  | Inr is \<Rightarrow> chala_writeProto s r 200 (MInstances (sort_key (\<lambda>i. byteOrder (it_Name i)) is))
                }
            }) (\<lambda>_. answered ?ok (listedOwn ?a))"
      unfolding d
      by (rule triple_bind [OF triple_ask [OF list]], rule triple_sum, rule triple_fails, rule triple_pre [OF body]) (simp add: upTo_def)
    show "triple fresh (do {
              ids \<leftarrow> inState (ListContainers (sv_Docker s) (accountFilter ?a @ fs));
              case ids of
                Inl e \<Rightarrow> chala_fail s r (Internal (Some e) ''could not list instances'' [])
              | Inr ids \<Rightarrow> do {
                  is \<leftarrow> inState (describeAll s ?a ids);
                  case is of
                    Inl e \<Rightarrow> chala_fail s r e
                  | Inr is \<Rightarrow> chala_writeProto s r 200 (MInstances (sort_key (\<lambda>i. byteOrder (it_Name i)) is))
                }
            }) (\<lambda>_. within d s r)"
      by (rule triple_weaken [OF all]) (use a fs in \<open>auto simp: upTo_def actsWithin_def\<close>)
  qed
qed

lemma describeImages_within:
  fixes s :: "('s \<times> exchange list) ChalaServer"
  shows "triple fresh (describeImages s r) (\<lambda>_. within d s r)"
  unfolding triple_def
proof (intro allI impI)
  fix ws :: "chalaMsg rw \<times> 's \<times> exchange list" assume f: "fresh ws"
  obtain w st where ws: "ws = (w, st)" by (cases ws)
  show "within d s r (final_of (describeImages s r) ws)"
  proof (cases "guard_AuthorizeAccount (sv_Wire s) (sv_Guard s) (sv_Now s st) r ''chala:DescribeImages''")
    case (Inl e)
    then show ?thesis using f fails_trace [of s r "chala_denied e" ws] by (simp add: describeImages_def ws actsWithin_def)
  next
    case (Inr cap)
    then have "authorizedForAccount s r ''chala:DescribeImages'' cap"
      by (auto simp: guard_AuthorizeAccount_def guard_authorize_Inr authorizedForAccount_def)
    moreover have "snd (snd (final_of (describeImages s r) ws)) = [] \<and>
        set (messages (fst (final_of (describeImages s r) ws))) \<subseteq> {MImages (availableImages s)}"
      using f Inr by (simp add: describeImages_def ws chala_writeProto_def WriteError_def)
    ultimately show ?thesis unfolding actsWithin_def by blast
  qed
qed

lemma healthz_within:
  assumes d: "sv_Docker s = traced d"
  shows "triple fresh (chala_healthz s r) (\<lambda>_. within d s r)"
proof -
  have p: "triple (upTo pingStep (\<lambda>_. True)) (docker_Ping (traced d)) (\<lambda>_. upTo pingStep (\<lambda>_. True))"
    by (rule triple_Ping) (simp_all add: allows_def pingStep_def)
  have "triple (soFar pingStep F) (WriteJSON r st (Some (MStatus x))) (\<lambda>_. answered pingStep (\<lambda>t m. \<exists>st. m = MStatus st))" for F st x
    by (simp add: triple_def WriteJSON_def upTo_def split_paired_All)
  then have "triple (soFar pingStep (\<lambda>_. True)) (chala_healthz s r) (\<lambda>_. answered pingStep (\<lambda>t m. \<exists>st. m = MStatus st))"
    unfolding chala_healthz_def d by (intro triple_bind [OF triple_ask [OF p]] triple_intros)
  then show ?thesis by (rule triple_weaken) (auto simp: upTo_def actsWithin_def)
qed

section \<open>The whole service\<close>

lemma route_within:
  assumes d: "sv_Docker s = traced d" and rt: "rt \<in> set (chalaRoutes s)"
  shows "triple fresh (mr_Handler rt vs r) (\<lambda>_. within d s r)"
  using rt by (auto simp: chalaRoutes_def intro!: runInstance_within [OF d] terminateInstance_within [OF d] describeInstance_within [OF d]
    describeInstances_within [OF d] describeImages_within healthz_within [OF d])

lemma actsWithin_client: "hr_Header r' = hr_Header r \<Longrightarrow> hr_Query r' = hr_Query r \<Longrightarrow> actsWithin d s r' = actsWithin d s r"
  by (simp add: actsWithin_def authorizedFor_def authorizedForAccount_def tokenOn_def fun_eq_iff)

lemma settled_fresh [simp]: "settled fresh" "settled (within d s r)"
  by (simp_all add: settled_def)

lemma service_within:
  assumes "sv_Docker s = traced d" "\<And>n st. snd (final_of (sv_Rand s n) st) = snd st"
  shows "triple fresh (chala_Handler s r) (\<lambda>_. within d s r)"
  unfolding chala_Handler_def
proof (rule service_answers)
  show "triple fresh (inState (sv_Rand s n)) (\<lambda>_. fresh)" for n using assms(2) by (simp add: triple_def split_paired_All)
  show "fresh ws \<Longrightarrow> within d s r ws" for ws :: "chalaMsg rw \<times> 'a \<times> exchange list" by (simp add: actsWithin_def)
  show "triple fresh (mr_Handler rt vs (r\<lparr>hr_Ctx := ctx\<rparr>)) (\<lambda>_. within d s r)"
    if "rt \<in> set (chalaRoutes s)" for ctx rt vs
    using route_within [OF assms(1) that, of vs "r\<lparr>hr_Ctx := ctx\<rparr>"] by (simp add: actsWithin_client [of "r\<lparr>hr_Ctx := ctx\<rparr>" r])
qed simp_all

text \<open>C5: whatever the daemon answers, all that any request makes the compute service ask of it, and all that it then says of
  instances, is bounded by the capability the request carries. With a capability for running an instance: looking at
  the container of that very account and instance and counting the account's; the isolated network of the caller's
  account, or of the one account that a service account may attach to; the container named for that
  account and instance, unprivileged, without capabilities, on the account's network and labelled with its
  owner; attaching, under the service's own aliases only, and starting a container that the daemon has
  described under that name or under the id it answered to the creation; the answer describes such a container. With one for
  terminating: looking at the container of that name, and removing it if its label names the account. With one for
  describing the instance: looking at that container, and describing it if its label names the account. With one for describing the
  account's instances: listing the containers labelled with the account, and looking at those listed; the answer holds instances
  of the account only. With any other, or none: nothing, but that a probe pings the daemon.\<close>
theorem chala_is_confined_by_the_capability:
  assumes "sv_Docker s = traced d" "\<And>n st. snd (final_of (sv_Rand s n) st) = snd st" "rw_body w = []"
    "run (chala_Handler s r) (w, (x, [])) = (out, (w', (x', t)))"
  shows "actsWithin d s r t (messages w')"
proof -
  have "messages w = []" using assms(3) by (simp add: messages_def List.map_filter_def)
  then show ?thesis using tripleD [OF service_within [OF assms(1,2)] _ assms(4)] by simp
qed

subsection \<open>A run on a concrete daemon\<close>

text \<open>A daemon on which nothing is named yet; its state counts the containers created. Bodies of answers are kept symbolic.\<close>

definition emptyDaemon :: "nat daemon" where
  "emptyDaemon = \<lparr>dm_Do = (\<lambda>q. State (\<lambda>n.
       if dq_Method q = ''POST'' then (Inr \<lparr>dr_Status = 201, dr_Body = ''created''\<rparr>, Suc n)
       else if dq_Path q = daemonPath ''/containers/json'' then (Inr \<lparr>dr_Status = 200, dr_Body = ''none''\<rparr>, n)
       else if dq_Path q = daemonPath ''/containers/c1/json'' then (Inr \<lparr>dr_Status = 200, dr_Body = ''container''\<rparr>, n)
       else (Inr \<lparr>dr_Status = 404, dr_Body = []\<rparr>, n))),
     dm_ParseJSON = (\<lambda>b. if b = ''created'' then Inr (JObj [(''Id'', JStr ''c1'')])
       else if b = ''none'' then Inr (JArr [])
       else if b = ''container'' then Inr (JObj [(''Id'', JStr ''c1''), (''State'', JObj [(''Status'', JStr ''created'')])])
       else Inl (Sentinel ''unexpected end of JSON input'')),
     dm_EncodeJSON = (\<lambda>_. []), dm_ParseTime = (\<lambda>_. None)\<rparr>"

definition shellRequest :: RunInstanceRequest where
  "shellRequest = \<lparr>ri_Name = [], ri_ImageId = ''img-shell'', ri_Tags = [], ri_AttachAccountId = [], ri_AttachDnsAliases = []\<rparr>"

definition sampleChala :: "(nat \<times> exchange list) ChalaServer" where
  "sampleChala = \<lparr>sv_Docker = traced emptyDaemon, sv_Guard = sampleGuard, sv_Wire = sampleWire, sv_Now = (\<lambda>_. 0),
     sv_Rand = (\<lambda>n. ret None), sv_Mux = \<lparr>ml_EscapedPath = hr_Path, ml_Redirect = (\<lambda>r. ([], []))\<rparr>,
     sv_DecodeRun = (\<lambda>_. Inr shellRequest), sv_Encodable = (\<lambda>_. True), sv_Catalog = map (\<lambda>i. (im_ID i, i)) DefaultCatalog,
     sv_Config = \<lparr>cc_Region = ''hind-1'', cc_Catalog = DefaultCatalog, cc_MaxInstances = 20, cc_ServiceAccounts = [], cc_Dev = False\<rparr>,
     sv_Unavailable = []\<rparr>"

definition runShell :: request where
  "runShell = tokenRequest\<lparr>hr_Method := ''PUT'', hr_Path := ''/chala/2026-09-30/instances/web'', hr_Body := ''x'', hr_BodyFails := False\<rparr>"

lemma authorize_runShell:
  assumes "hr_Header r = hr_Header tokenRequest"
  obtains cap where "run (chala_authorize sampleChala r ''chala:RunInstance'' ''web'') st = (Inr cap, st)"
proof -
  have i: "\<lparr>in_Action = ''chala:RunInstance'', in_ResourceType = ''instance'', in_ResourceID = ''web''\<rparr> = sampleIntent"
    by (simp add: sampleIntent_def)
  obtain cap where g: "guard_Authorize sampleWire sampleGuard 0 tokenRequest sampleIntent = Inr cap" using sampleGuard_accepts by blast
  have "chala_validateName ''web'' = None" by code_simp
  then have "run (chala_authorize sampleChala r ''chala:RunInstance'' ''web'') st = (Inr cap, st)"
    using g by (simp add: chala_authorize_def sampleChala_def i guard_Authorize_header [OF assms])
  then show thesis by (rule that)
qed

lemma runRequest_shell:
  assumes "hr_Body r = ''x''" "\<not> hr_BodyFails r"
  shows "runRequest sampleChala r account ''web'' = Inr (shellRequest\<lparr>ri_Name := ''web''\<rparr>, DefaultCatalog ! Suc 0)"
  by (simp add: runRequest_def chala_decodeJSON_def limitedBody_def assms bodyLimit_def Let_def sampleChala_def DefaultCatalog_def
    shellRequest_def EngineImage_def validateTags_def validateAttach_def)

abbreviation sampleDocker :: "(nat \<times> exchange list) daemon" where "sampleDocker \<equiv> traced emptyDaemon"

lemma run_Do_sample: "run (dm_Do sampleDocker q) (n, t) = (case run (dm_Do emptyDaemon q) n of (a, n') \<Rightarrow> (a, (n', (q, a) # t)))"
  by (simp add: traced_def)

lemmas sample_eval = docker_call_def docker_do_def run_Do_sample emptyDaemon_def daemonPath_def DockerAPIVersion_def traced_def

lemma sample_absent:
  "\<exists>e x. run (docker_call sampleDocker ''GET'' (''/networks/'' @ n) [] None) (k, t) = (Some e, (k, x # t)) \<and>
     errorsIs e ErrDockerNotFound \<and> dq_Method (fst x) = ''GET''"
  "\<exists>e x. run (InspectContainer sampleDocker (containerName a n)) (k, t) = (Inl e, (k, x # t)) \<and>
     errorsIs e ErrDockerNotFound \<and> dq_Method (fst x) = ''GET''"
  by (simp_all add: sample_eval InspectContainer_def containerName_def ErrDockerNotFound_def)

lemma sample_post:
  "\<exists>x. run (docker_call sampleDocker ''POST'' p q b) (k, t) = (None, (Suc k, x # t)) \<and> dq_Method (fst x) = ''POST''"
  "\<exists>x. run (CreateContainer sampleDocker n spec) (k, t) = (Inr ''c1'', (Suc k, x # t)) \<and> dq_Method (fst x) = ''POST''"
  by (simp_all add: sample_eval CreateContainer_def decodeID_def jobject_def jfield_def jstring_def getOr_def)

lemma sample_list: "\<exists>x. run (ListContainers sampleDocker ls) (k, t) = (Inr [], (k, x # t)) \<and> dq_Method (fst x) = ''GET''"
  by (simp add: sample_eval ListContainers_def decodeIDs_def)

definition sampleContainer :: Container where
  "sampleContainer = \<lparr>ct_ID = ''c1'', ct_Name = [], ct_Image = [], ct_Labels = [], ct_Created = 0, ct_Status = ''created'', ct_ExitCode = 0,
     ct_Health = [], ct_Networks = []\<rparr>"

lemma sample_inspect: "\<exists>x. run (InspectContainer sampleDocker ''c1'') (k, t) = (Inr sampleContainer, (k, x # t)) \<and> dq_Method (fst x) = ''GET''"
  by (simp add: sample_eval InspectContainer_def decodeContainer_def jobject_def jfield_def jstring_def jint_def jmap_def getOr_def
    sampleContainer_def trimPrefix_def Let_def)

lemma sample_ensure: "\<exists>x y. run (EnsureNetwork sampleDocker spec) (k, t) = (None, (Suc k, y # x # t)) \<and>
    dq_Method (fst x) = ''GET'' \<and> dq_Method (fst y) = ''POST''"
proof -
  obtain e x where a: "run (docker_call sampleDocker ''GET'' (''/networks/'' @ nt_Name spec) [] None) (k, t) = (Some e, (k, x # t))"
    "errorsIs e ErrDockerNotFound" "dq_Method (fst x) = ''GET''" using sample_absent(1) by blast
  obtain y where "run (docker_call sampleDocker ''POST'' ''/networks/create'' [] (Some (networkBody spec))) (k, x # t) = (None, (Suc k, y # x # t))"
    "dq_Method (fst y) = ''POST''" using sample_post(1) by blast
  with a show ?thesis by (simp add: EnsureNetwork_def networkBody_def)
qed

lemma sample_finish: "\<exists>x. run (finish sampleChala sampleContainer (shellRequest\<lparr>ri_Name := n\<rparr>)) (k, t) = (None, (Suc k, x # t)) \<and> dq_Method (fst x) = ''POST''"
  using sample_post(1) [of "''/containers/c1/start''" "[]" None k t]
  by (auto simp: finish_def shellRequest_def startCreated_def sampleContainer_def StartContainer_def sampleChala_def Let_def)

lemma runShell_run:
  assumes "hr_Header r = hr_Header tokenRequest" "hr_Body r = ''x''" "\<not> hr_BodyFails r"
  shows "map (\<lambda>e. dq_Method (fst e)) (rev (snd (snd (final_of (runInstance sampleChala ''web'' r) (w, (0, [])))))) =
    [''GET'', ''GET'', ''GET'', ''POST'', ''POST'', ''GET'', ''POST'', ''GET'']"
proof -
  obtain cap where a: "run (chala_authorize sampleChala r ''chala:RunInstance'' ''web'') (0, []) = (Inr cap, (0, []))"
    by (rule authorize_runShell [OF assms(1)])
  let ?A = "cp_AccountId cap" and ?img = "DefaultCatalog ! Suc 0" and ?req = "shellRequest\<lparr>ri_Name := ''web''\<rparr>"
  obtain e x1 where 1: "run (InspectContainer sampleDocker (containerName ?A ''web'')) (0, []) = (Inl e, (0, [x1]))"
    "errorsIs e ErrDockerNotFound" "dq_Method (fst x1) = ''GET''" using sample_absent(2) by blast
  obtain x2 where 2: "run (ListContainers sampleDocker (accountFilter ?A)) (0, [x1]) = (Inr [], (0, [x2, x1]))"
    "dq_Method (fst x2) = ''GET''" using sample_list by blast
  obtain x3 x4 where 3: "run (EnsureNetwork sampleDocker (accountNetwork ?A)) (0, [x2, x1]) = (None, (Suc 0, [x4, x3, x2, x1]))"
    "dq_Method (fst x3) = ''GET''" "dq_Method (fst x4) = ''POST''" using sample_ensure by fastforce
  obtain x5 where 4: "run (CreateContainer sampleDocker (containerName ?A ''web'') (runSpec ?A ''web'' ?img ?req)) (Suc 0, [x4, x3, x2, x1]) =
      (Inr ''c1'', (Suc (Suc 0), [x5, x4, x3, x2, x1]))" "dq_Method (fst x5) = ''POST''"
    using sample_post(2) by blast
  obtain x6 where 5: "run (InspectContainer sampleDocker ''c1'') (Suc (Suc 0), [x5, x4, x3, x2, x1]) = (Inr sampleContainer, (Suc (Suc 0), [x6, x5, x4, x3, x2, x1]))"
    "dq_Method (fst x6) = ''GET''" using sample_inspect by blast
  obtain x7 where 6: "run (finish sampleChala sampleContainer ?req) (Suc (Suc 0), [x6, x5, x4, x3, x2, x1]) = (None, (Suc (Suc (Suc 0)), [x7, x6, x5, x4, x3, x2, x1]))"
    "dq_Method (fst x7) = ''POST''" using sample_finish by blast
  obtain x8 where 7: "run (InspectContainer sampleDocker ''c1'') (Suc (Suc (Suc 0)), [x7, x6, x5, x4, x3, x2, x1]) =
      (Inr sampleContainer, (Suc (Suc (Suc 0)), [x8, x7, x6, x5, x4, x3, x2, x1]))" "dq_Method (fst x8) = ''GET''" using sample_inspect by blast
  have s: "sv_Docker sampleChala = sampleDocker" "cc_MaxInstances (sv_Config sampleChala) = 20" "sv_Encodable sampleChala = (\<lambda>_. True)"
    by (simp_all add: sampleChala_def)
  show ?thesis
    by (simp add: runInstance_def a runRequest_shell [OF assms(2,3)] Let_def s 1 createInstance_def 2 3 4 5 6 7
      respondWith_def chala_writeProto_def)
qed

lemma runShell_routed:
  "muxLookup (chalaRoutes sampleChala) ''PUT'' (muxSegments ''/chala/2026-09-30/instances/web'') = Some (runInstance sampleChala ''web'')"
proof -
  have s: "muxSegments ''/chala/2026-09-30/instances/web'' = [[], ''chala'', ''2026-09-30'', ''instances'', ''web'']" by code_simp
  have p: "instancePattern = [Lit [], Lit ''chala'', Lit ''2026-09-30'', Lit ''instances'', Wild]" by code_simp
  show ?thesis by (simp add: chalaRoutes_def s p methodMatches_def)
qed

lemma runShell_clean: "\<not> muxUnclean (sv_Mux sampleChala) r" if "hr_Path r = ''/chala/2026-09-30/instances/web''"
proof -
  have "cleanPath ''/chala/2026-09-30/instances/web'' = ''/chala/2026-09-30/instances/web''" by code_simp
  then show ?thesis by (simp add: muxUnclean_def sampleChala_def that)
qed

lemma chain_state:
  "snd (final_of (Recover dev next r) ws) = snd (final_of (next r) ws)"
  "\<exists>w. snd (final_of (AccessLog next r) ws) = snd (final_of (next (r\<lparr>hr_Ctx := (hr_Ctx r)\<lparr>cx_hasLogFields := True\<rparr>\<rparr>)) (w, snd ws))"
  "\<exists>w i. snd (final_of (AdoptRequestID (\<lambda>n. ret None) next r) ws) = snd (final_of (next (withRequestID i r)) (w, snd ws))"
proof -
  obtain w s where ws: "ws = (w, s)" by (cases ws)
  obtain o1 w1 s1 where 1: "run (next r) ws = (o1, (w1, s1))" by (metis prod.exhaust)
  then show "snd (final_of (Recover dev next r) ws) = snd (final_of (next r) ws)"
    by (cases o1) (simp_all add: Recover_def WriteError_def)
  let ?r = "r\<lparr>hr_Ctx := (hr_Ctx r)\<lparr>cx_hasLogFields := True\<rparr>\<rparr>" and ?w = "w\<lparr>rw_logFields := \<lparr>lf_accountID = [], lf_principalARN = []\<rparr>\<rparr>"
  obtain o2 w2 s2 where 2: "run (next ?r) (?w, s) = (o2, (w2, s2))" by (metis prod.exhaust)
  then have "snd (final_of (AccessLog next r) ws) = snd (final_of (next ?r) (?w, s))"
    by (cases o2) (simp_all add: AccessLog_def Let_def ws)
  then show "\<exists>w. snd (final_of (AccessLog next r) ws) = snd (final_of (next ?r) (w, snd ws))" using ws by auto
  show "\<exists>w i. snd (final_of (AdoptRequestID (\<lambda>n. ret None) next r) ws) = snd (final_of (next (withRequestID i r)) (w, snd ws))"
    by (auto simp: AdoptRequestID_def NewRequestID_def Let_def ws)
qed

lemma runShell_served:
  "\<exists>r w. hr_Header r = hr_Header tokenRequest \<and> hr_Body r = ''x'' \<and> \<not> hr_BodyFails r \<and>
     snd (final_of (chala_Handler sampleChala runShell) (emptyRw, st)) = snd (final_of (runInstance sampleChala ''web'' r) (w, st))"
proof -
  let ?mux = "serviceMux (sv_Mux sampleChala) (chalaRoutes sampleChala)"
  obtain w i where a: "snd (final_of (chala_Handler sampleChala runShell) (emptyRw, st)) =
      snd (final_of (Recover (cc_Dev (sv_Config sampleChala)) (AccessLog ?mux) (withRequestID i runShell)) (w, st))"
    using chain_state(3) [of "Recover (cc_Dev (sv_Config sampleChala)) (AccessLog ?mux)" runShell "(emptyRw, st)"]
    by (auto simp: chala_Handler_def) (simp add: sampleChala_def)
  let ?r = "withRequestID i runShell"
  let ?r' = "?r\<lparr>hr_Ctx := (hr_Ctx ?r)\<lparr>cx_hasLogFields := True\<rparr>\<rparr>"
  obtain w' where b: "snd (final_of (AccessLog ?mux ?r) (w, st)) = snd (final_of (?mux ?r') (w', st))"
    using chain_state(2) [of ?mux ?r "(w, st)"] by auto
  have p: "hr_Path ?r' = ''/chala/2026-09-30/instances/web''" "hr_Method ?r' = ''PUT''"
    "hr_Header ?r' = hr_Header tokenRequest" "hr_Body ?r' = ''x''" "\<not> hr_BodyFails ?r'"
    by (simp_all add: withRequestID_def runShell_def)
  have e: "ml_EscapedPath (sv_Mux sampleChala) = hr_Path" by (simp add: sampleChala_def)
  have "?mux ?r' = runInstance sampleChala ''web'' ?r'"
    unfolding serviceMux_def Let_def e p(1,2) runShell_routed using runShell_clean [OF p(1)] by simp
  with a b p(3-5) show ?thesis by (metis chain_state(1))
qed

text \<open>The run through the whole service: eight requests to the daemon, of which three write, each within what the capability for
  running \<open>web\<close> allows.\<close>
lemma chala_is_confined_by_the_capability_witness:
  "let (w', x', t) = final_of (chala_Handler sampleChala runShell) (emptyRw, (0, [])) in
     map (\<lambda>e. dq_Method (fst e)) (rev t) = [''GET'', ''GET'', ''GET'', ''POST'', ''POST'', ''GET'', ''POST'', ''GET''] \<and>
     actsWithin emptyDaemon sampleChala runShell t (messages w')"
proof -
  obtain out w' x' t where run: "run (chala_Handler sampleChala runShell) (emptyRw, (0, [])) = (out, (w', (x', t)))"
    by (metis prod.exhaust)
  have "actsWithin emptyDaemon sampleChala runShell t (messages w')"
    by (rule chala_is_confined_by_the_capability [OF _ _ _ run]) (simp_all add: sampleChala_def emptyRw_def)
  moreover obtain r w where r: "hr_Header r = hr_Header tokenRequest" "hr_Body r = ''x''" "\<not> hr_BodyFails r"
    "snd (final_of (chala_Handler sampleChala runShell) (emptyRw, (0, []))) = snd (final_of (runInstance sampleChala ''web'' r) (w, (0, [])))"
    using runShell_served by blast
  ultimately show ?thesis using runShell_run [OF r(1-3), of w] run by (simp add: Let_def flip: r(4))
qed

end
