(* ===== verification/Chala_Adoption.thy ===== *)
theory Chala_Adoption
  imports Chala_Confined
begin

text \<open>
  The labels of a container are the whole record of the request it was made for. Running the same name again
  reads the request back from them: this theory shows that nothing of it is lost or confused.
\<close>

section \<open>Tags as labels\<close>

lemma lookup_tagLabels:
  "distinct (map fst tags) \<Longrightarrow>
   lookup (foldl (\<lambda>labels (k, v). setLabel (labelTag @ k) v labels) labels tags) (labelTag @ k) =
     (case lookup tags k of None \<Rightarrow> lookup labels (labelTag @ k) | Some v \<Rightarrow> Some v)"
proof (induction tags arbitrary: labels)
  case (Cons kv tags)
  obtain a v where kv: "kv = (a, v)" by (cases kv)
  have d: "distinct (map fst tags)" and a: "lookup tags a = None" using Cons.prems by (simp_all add: kv map_of_eq_None_iff)
  show ?case using Cons.IH [OF d, of "setLabel (labelTag @ a) v labels"] a by (auto simp: kv setLabel_def split: option.split)
qed simp

lemma lookup_otherLabels:
  "\<not> hasPrefix x labelTag \<Longrightarrow> lookup (foldl (\<lambda>labels (k, v). setLabel (labelTag @ k) v labels) labels tags) x = lookup labels x"
  by (induction tags arbitrary: labels) (auto simp: setLabel_def hasPrefix_iff)

lemma lookup_tagsFrom: "lookup (tagsFrom labels) k = lookup labels (labelTag @ k)"
  by (induction labels) (auto simp: tagsFrom_def List.map_filter_simps cutPrefix_Some split: option.split)



section \<open>Names without separators\<close>

lemma dnsLabel_chars: "dnsLabel n s \<Longrightarrow> x \<in> set s \<Longrightarrow> labelChar x"
  by (auto simp: dnsLabel_def list_all_iff)

lemma comma_not_label [simp]: "\<not> labelChar CHR '',''" "\<not> isDigit CHR '',''"
  by (simp_all add: labelChar_def labelEnd_def isLower_def isDigit_def)

definition plainAliases :: "string list \<Rightarrow> bool" where
  "plainAliases as \<longleftrightarrow> (\<forall>a \<in> set as. CHR '','' \<notin> set a \<and> a \<noteq> [])"

lemma validateAliases_plain:
  "validateAliases suffix as = None \<Longrightarrow> CHR '','' \<notin> set suffix \<Longrightarrow> plainAliases as"
proof (induction as)
  case (Cons a as)
  obtain l where l: "cutSuffix a suffix = Some l" "instanceName l" "validateAliases suffix as = None"
    using Cons.prems(1) by (auto split: option.split_asm if_split_asm)
  have "CHR '','' \<notin> set l" "l \<noteq> []" using l(2) dnsLabel_chars [of 61 l "CHR '',''"] by (auto simp: instanceName_def dnsLabel_def)
  moreover have "a = l @ suffix" using l(1) by (simp add: cutSuffix_Some)
  ultimately show ?case using Cons.IH [OF l(3) Cons.prems(2)] Cons.prems(2) by (simp add: plainAliases_def)
qed (simp add: plainAliases_def)

lemma aliases_plain:
  assumes "validateAttach account service attach aliases = None" "service = [] \<or> instanceName service"
  shows "plainAliases aliases"
proof (cases "attach = []")
  case False
  then have t: "service \<noteq> []" "twelveDigits attach" and v: "validateAliases (aliasSuffix attach service) aliases = None"
    using assms(1) by (auto simp: validateAttach_def split: if_splits)
  have "CHR '','' \<notin> set service" "CHR '','' \<notin> set attach"
    using assms(2) t dnsLabel_chars [of 61 service "CHR '',''"] by (auto simp: instanceName_def twelveDigits_def list_all_iff)
  then have "CHR '','' \<notin> set (aliasSuffix attach service)" by (simp add: aliasSuffix_def)
  with v show ?thesis by (rule validateAliases_plain)
qed (use assms in \<open>auto simp: validateAttach_def plainAliases_def split: if_splits\<close>)

lemma split_joined:
  assumes "plainAliases as" "as \<noteq> []"
  shows "splitOn CHR '','' (joinWith '','' as) = as" "joinWith '','' as \<noteq> []"
proof -
  show s: "splitOn CHR '','' (joinWith '','' as) = as"
    using assms by (intro splitOn_joinWith) (simp_all add: plainAliases_def)
  show "joinWith '','' as \<noteq> []"
  proof
    assume e: "joinWith '','' as = []"
    have "as = [[]]" using s [symmetric] unfolding e by simp
    then show False using assms(1) by (simp add: plainAliases_def)
  qed
qed


section \<open>Running a name again\<close>

lemma addImages_ids:
  "addImages c imgs = Inr cat \<Longrightarrow> \<forall>i img. lookup c i = Some img \<longrightarrow> im_ID img = i \<Longrightarrow> lookup cat i = Some img \<Longrightarrow> im_ID img = i"
proof (induction imgs arbitrary: c)
  case (Cons img' imgs)
  have a: "addImages (c @ [(im_ID img', img')]) imgs = Inr cat" using Cons.prems(1) by (simp split: if_split_asm)
  have "\<forall>i img. lookup (c @ [(im_ID img', img')]) i = Some img \<longrightarrow> im_ID img = i"
  proof (intro allI impI)
    fix i img assume l: "lookup (c @ [(im_ID img', img')]) i = Some img"
    show "im_ID img = i"
    proof (cases "lookup c i")
      case None
      then show ?thesis using l by (simp add: map_add_def split: if_split_asm)
    next
      case (Some x)
      then show ?thesis using l Cons.prems(2) [rule_format, of i img] by (simp add: map_add_def split: if_split_asm option.split_asm)
    qed
  qed
  from Cons.IH [OF a this Cons.prems(3)] show ?case .
qed simp

lemma chala_New_Inr:
  assumes "chala_New base cfg = Inr s"
  shows "newCatalog (cc_Catalog cfg) = Inr (sv_Catalog s)"
    "find (\<lambda>(acct, svc). \<not> twelveDigits acct \<or> \<not> instanceName svc \<or> svc = ChalaService) (cc_ServiceAccounts cfg) = None"
    "cc_ServiceAccounts (sv_Config s) = cc_ServiceAccounts cfg"
proof -
  let ?f = "find (\<lambda>(acct, svc). \<not> twelveDigits acct \<or> \<not> instanceName svc \<or> svc = ChalaService) (cc_ServiceAccounts cfg)"
  obtain cat where cat: "newCatalog (cc_Catalog cfg) = Inr cat" using assms by (cases "newCatalog (cc_Catalog cfg)") (simp_all add: chala_New_def)
  moreover have f: "?f = None" using assms by (cases ?f) (auto simp: chala_New_def cat)
  ultimately show "newCatalog (cc_Catalog cfg) = Inr (sv_Catalog s)" "?f = None" "cc_ServiceAccounts (sv_Config s) = cc_ServiceAccounts cfg"
    using assms by (auto simp: chala_New_def cat f)
qed

lemma chala_New_ok:
  assumes "chala_New base cfg = Inr s"
  shows "lookup (sv_Catalog s) i = Some img \<Longrightarrow> im_ID img = i"
    "getOr [] (cc_ServiceAccounts (sv_Config s)) account = [] \<or> instanceName (getOr [] (cc_ServiceAccounts (sv_Config s)) account)"
proof -
  note n = chala_New_Inr [OF assms]
  show "lookup (sv_Catalog s) i = Some img \<Longrightarrow> im_ID img = i"
    using addImages_ids [of "[]" "cc_Catalog cfg" "sv_Catalog s" i img] n(1) by (simp add: newCatalog_def)
  have "instanceName svc" if "(a, svc) \<in> set (cc_ServiceAccounts cfg)" for a svc
    using n(2) that unfolding find_None_iff by blast
  then show "getOr [] (cc_ServiceAccounts (sv_Config s)) account = [] \<or> instanceName (getOr [] (cc_ServiceAccounts (sv_Config s)) account)"
    by (cases "lookup (cc_ServiceAccounts cfg) account") (auto simp: n(3) getOr_def dest: map_of_SomeD)
qed

lemma runRequest_checked:
  assumes "runRequest s r account name = Inr (req, img)"
  shows "lookup (sv_Catalog s) (ri_ImageId req) = Some img" "validateTags (ri_Tags req) = None"
    "validateAttach account (getOr [] (cc_ServiceAccounts (sv_Config s)) account) (ri_AttachAccountId req) (ri_AttachDnsAliases req) = None"
  using assms by (auto simp: runRequest_def Let_def split: sum.splits option.splits if_splits)

lemma label_names [simp]:
  "labelTag @ k \<noteq> labelKind" "labelTag @ k \<noteq> labelAccount" "labelTag @ k \<noteq> labelInstance" "labelTag @ k \<noteq> labelImage"
  "labelTag @ k \<noteq> labelAttachAccount" "labelTag @ k \<noteq> labelAttachAliases"
  "labelAttachAccount \<noteq> labelTag @ k" "labelAttachAliases \<noteq> labelTag @ k"
  by (simp_all add: label_defs)

lemma plain_labels [simp]:
  "\<not> hasPrefix labelAccount labelTag" "\<not> hasPrefix labelInstance labelTag" "\<not> hasPrefix labelImage labelTag"
  "\<not> hasPrefix labelAttachAccount labelTag" "\<not> hasPrefix labelAttachAliases labelTag"
  by (simp_all add: hasPrefix_iff) (simp_all add: label_defs)

lemma lookup_madeLabels:
  "\<not> hasPrefix x labelTag \<Longrightarrow> lookup (instanceLabels account name i tags) x =
     lookup [(labelKind, kindInstance), (labelAccount, account), (labelInstance, name), (labelImage, i)] x"
  "distinct (map fst tags) \<Longrightarrow> lookup (instanceLabels account name i tags) (labelTag @ k) = lookup tags k"
proof -
  show "\<not> hasPrefix x labelTag \<Longrightarrow> lookup (instanceLabels account name i tags) x =
     lookup [(labelKind, kindInstance), (labelAccount, account), (labelInstance, name), (labelImage, i)] x"
    unfolding instanceLabels_def by (rule lookup_otherLabels)
  show "distinct (map fst tags) \<Longrightarrow> lookup (instanceLabels account name i tags) (labelTag @ k) = lookup tags k"
    unfolding instanceLabels_def by (subst lookup_tagLabels) (simp_all split: option.split)
qed

lemma runLabels_read:
  assumes "distinct (map fst (ri_Tags req))"
  shows "lookup (runLabels account name img req) labelAccount = Some account"
    "lookup (runLabels account name img req) labelInstance = Some name"
    "lookup (runLabels account name img req) labelImage = Some (im_ID img)"
    "lookup (runLabels account name img req) (labelTag @ k) = lookup (ri_Tags req) k"
    "getOr [] (runLabels account name img req) labelAttachAccount = ri_AttachAccountId req"
    "getOr [] (runLabels account name img req) labelAttachAliases =
       (if ri_AttachAccountId req = [] then [] else joinWith '','' (ri_AttachDnsAliases req))"
proof -
  have d: "labelKind \<noteq> labelAccount" "labelKind \<noteq> labelInstance" "labelKind \<noteq> labelImage" "labelAccount \<noteq> labelInstance"
    "labelAccount \<noteq> labelImage" "labelInstance \<noteq> labelImage" "labelAttachAccount \<noteq> labelAttachAliases"
    "labelKind \<noteq> labelAttachAccount" "labelAccount \<noteq> labelAttachAccount" "labelInstance \<noteq> labelAttachAccount" "labelImage \<noteq> labelAttachAccount"
    "labelKind \<noteq> labelAttachAliases" "labelAccount \<noteq> labelAttachAliases" "labelInstance \<noteq> labelAttachAliases" "labelImage \<noteq> labelAttachAliases"
    by (simp_all add: label_defs)
  note e = lookup_madeLabels(2) [OF assms] and f = d [symmetric]
  show "lookup (runLabels account name img req) labelAccount = Some account"
    "lookup (runLabels account name img req) labelInstance = Some name"
    "lookup (runLabels account name img req) labelImage = Some (im_ID img)"
    "lookup (runLabels account name img req) (labelTag @ k) = lookup (ri_Tags req) k"
    "getOr [] (runLabels account name img req) labelAttachAccount = ri_AttachAccountId req"
    "getOr [] (runLabels account name img req) labelAttachAliases =
       (if ri_AttachAccountId req = [] then [] else joinWith '','' (ri_AttachDnsAliases req))"
    by (simp_all add: runLabels_def Let_def setLabel_def lookup_madeLabels(1) e getOr_def d f)
qed










definition refusedAs :: "'m rw \<Rightarrow> nat \<Rightarrow> string \<Rightarrow> bool" where
  "refusedAs w st code \<longleftrightarrow> rw_status w = st \<and> (\<exists>b. rw_body w = [ErrBody b] \<and> we_code b = code)"

lemma chala_fail_refused:
  assumes "rw_status w = 0" "rw_body w = []"
  shows "run (chala_fail s r (ApiErr code m a b k)) (w, st) = (Done, (w', st')) \<Longrightarrow> st' = st \<and> refusedAs w' (HTTPStatus (ApiErr code m a b k)) code"
    "run (chala_fail s r (Internal k' f as)) (w, st) = (Done, (w', st')) \<Longrightarrow> st' = st \<and> refusedAs w' 500 CodeInternal"
  using assms by (auto simp: chala_fail_def run_WriteError refusedAs_def Write_def Let_def WriteHeader_def errorBody_def)








lemma described_fields:
  assumes "chala_New base cfg = Inr s0" "s = s0\<lparr>sv_Unavailable := gone\<rparr>" "runRequest s r account name = Inr (req, img)"
    and "distinct (map fst (ri_Tags req))" "lookup (ct_Labels c) = lookup (runLabels account name img req)"
  shows "it_Name (chala_instance s c) = name" "it_AccountId (chala_instance s c) = account"
    "it_ImageId (chala_instance s c) = ri_ImageId req" "lookup (it_Tags (chala_instance s c)) = lookup (ri_Tags req)"
    "it_AttachedAccountId (chala_instance s c) = ri_AttachAccountId req"
    "it_AttachedDnsAliases (chala_instance s c) = ri_AttachDnsAliases req"
proof -
  note q = runRequest_checked [OF assms(3)]
  have img: "im_ID img = ri_ImageId req" using chala_New_ok(1) [OF assms(1)] q(1) by (simp add: assms(2))
  have "getOr [] (cc_ServiceAccounts (sv_Config s)) account = [] \<or> instanceName (getOr [] (cc_ServiceAccounts (sv_Config s)) account)"
    using chala_New_ok(2) [OF assms(1)] by (simp add: assms(2))
  note p = aliases_plain [OF q(3) this]
  note l = runLabels_read [OF assms(4), of account name img]
  have g: "getOr [] (ct_Labels c) x = getOr [] (runLabels account name img req) x" for x by (simp add: getOr_def assms(5))
  have empty: "ri_AttachAccountId req = [] \<Longrightarrow> ri_AttachDnsAliases req = []"
    using q(3) by (auto simp: validateAttach_def split: if_splits)
  have "lookup (it_Tags (chala_instance s c)) k = lookup (ri_Tags req) k" for k
    by (simp add: chala_instance_def Let_def lookup_tagsFrom assms(5) l(4))
  then have t: "lookup (it_Tags (chala_instance s c)) = lookup (ri_Tags req)" by (rule ext)
  have "it_AttachedDnsAliases (chala_instance s c) = ri_AttachDnsAliases req"
  proof (cases "ri_AttachDnsAliases req = []")
    case False
    show ?thesis using split_joined [OF p False] empty False by (auto simp: chala_instance_def Let_def g l(6))
  qed (simp add: chala_instance_def Let_def g l(6))
  note al = this
  show "it_Name (chala_instance s c) = name" "it_AccountId (chala_instance s c) = account"
    "it_ImageId (chala_instance s c) = ri_ImageId req" "it_AttachedAccountId (chala_instance s c) = ri_AttachAccountId req"
    by (simp_all add: chala_instance_def Let_def g l(5)) (simp_all add: getOr_def l(1-3) img)
  show "lookup (it_Tags (chala_instance s c)) = lookup (ri_Tags req)" "it_AttachedDnsAliases (chala_instance s c) = ri_AttachDnsAliases req"
    by (rule t, rule al)
qed


text \<open>What the service describes of a container made for a request is that request: the image, the tags as a map,
  the attachment, and the aliases in order.\<close>
theorem described_instance_repeats_the_request:
  assumes "chala_New base cfg = Inr s0" "s = s0\<lparr>sv_Unavailable := gone\<rparr>" "runRequest s r account name = Inr (req, img)"
    and "distinct (map fst (ri_Tags req))" "lookup (ct_Labels c) = lookup (runLabels account name img req)"
  shows "it_Name (chala_instance s c) = name \<and> it_AccountId (chala_instance s c) = account \<and>
    it_ImageId (chala_instance s c) = ri_ImageId req \<and> lookup (it_Tags (chala_instance s c)) = lookup (ri_Tags req) \<and>
    it_AttachedAccountId (chala_instance s c) = ri_AttachAccountId req \<and>
    it_AttachedDnsAliases (chala_instance s c) = ri_AttachDnsAliases req"
  by (intro conjI described_fields [OF assms])

subsection \<open>A service account that runs a node\<close>

definition nodeRun :: RunInstanceRequest where
  "nodeRun = \<lparr>ri_Name = [], ri_ImageId = ''img-nache-engine'', ri_Tags = [(''cluster'', ''web''), (''managed-by'', ''nache'')],
     ri_AttachAccountId = ''222222222222'', ri_AttachDnsAliases = [''web.222222222222.nache.dariya.internal'', ''db.222222222222.nache.dariya.internal'']\<rparr>"

text \<open>A body that repeats the request with its tags in another order, and one that swaps the aliases.\<close>

definition nodeDecoder :: "bytes \<Rightarrow> err + RunInstanceRequest" where
  "nodeDecoder b =
     (if b = ''again'' then Inr (nodeRun\<lparr>ri_Tags := rev (ri_Tags nodeRun)\<rparr>)
      else if b = ''swapped'' then Inr (nodeRun\<lparr>ri_AttachDnsAliases := rev (ri_AttachDnsAliases nodeRun)\<rparr>)
      else Inr nodeRun)"

definition nodeConfig :: ChalaConfig where
  "nodeConfig = \<lparr>cc_Region = ''hind-1'', cc_Catalog = DefaultCatalog, cc_MaxInstances = 0, cc_ServiceAccounts = [(''000000000001'', ''nache'')], cc_Dev = False\<rparr>"

text \<open>The container of the first request as the daemon describes it: running, and attached.\<close>

definition nodeContainer :: Container where
  "nodeContainer = sampleContainer\<lparr>ct_Labels := rev (runLabels ''000000000001'' ''web'' (hd DefaultCatalog) (nodeRun\<lparr>ri_Name := ''web''\<rparr>)),
     ct_Status := ''running'', ct_Networks := [(NetworkName ''222222222222'', ''10.0.0.2'')]\<rparr>"

definition nodeJSON :: json where
  "nodeJSON = JObj [(''Id'', JStr ''c1''), (''State'', JObj [(''Status'', JStr ''running'')]),
     (''Config'', JObj [(''Labels'', JObj (map (\<lambda>(k, v). (k, JStr v)) (ct_Labels nodeContainer)))]),
     (''NetworkSettings'', JObj [(''Networks'', JObj [(NetworkName ''222222222222'', JObj [(''IPAddress'', JStr ''10.0.0.2'')])])])]"

definition nodeDaemon :: "nat daemon" where
  "nodeDaemon = emptyDaemon\<lparr>dm_Do := (\<lambda>q. ret (Inr \<lparr>dr_Status = 200, dr_Body = ''container''\<rparr>)), dm_ParseJSON := (\<lambda>_. Inr nodeJSON)\<rparr>"

definition nodeChala :: "(nat \<times> exchange list) ChalaServer" where
  "nodeChala = sampleChala\<lparr>sv_Docker := traced nodeDaemon, sv_DecodeRun := nodeDecoder, sv_Config := nodeConfig\<lparr>cc_MaxInstances := 20\<rparr>\<rparr>"

lemma nodeChala_new: "chala_New (sampleChala\<lparr>sv_Docker := traced nodeDaemon, sv_DecodeRun := nodeDecoder\<rparr>) nodeConfig = Inr nodeChala"
  by (simp add: chala_New_def nodeConfig_def newCatalog_def DefaultCatalog_def nodeChala_def sampleChala_def EngineImage_def
    twelveDigits_def isDigit_def ChalaService_def) code_simp

definition bodyRequest :: "bytes \<Rightarrow> request" where "bodyRequest b = tokenRequest\<lparr>hr_Body := b, hr_BodyFails := False\<rparr>"

lemma nodeRequests_accepted:
  "runRequest nodeChala (bodyRequest ''x'') ''000000000001'' ''web'' = Inr (nodeRun\<lparr>ri_Name := ''web''\<rparr>, hd DefaultCatalog)"
  "runRequest nodeChala (bodyRequest ''again'') ''000000000001'' ''web'' = Inr (nodeRun\<lparr>ri_Name := ''web'', ri_Tags := rev (ri_Tags nodeRun)\<rparr>, hd DefaultCatalog)"
  "runRequest nodeChala (bodyRequest ''swapped'') ''000000000001'' ''web'' =
     Inr (nodeRun\<lparr>ri_Name := ''web'', ri_AttachDnsAliases := rev (ri_AttachDnsAliases nodeRun)\<rparr>, hd DefaultCatalog)"
  by (simp_all add: runRequest_def chala_decodeJSON_def limitedBody_def bodyRequest_def bodyLimit_def nodeChala_def nodeDecoder_def sampleChala_def
    nodeRun_def DefaultCatalog_def EngineImage_def nodeConfig_def getOr_def Let_def) code_simp+

lemma map_of_rev_distinct: "distinct (map fst m) \<Longrightarrow> map_of (rev m) = map_of m"
  by (subst map_of_inject_set) (simp_all add: rev_map [symmetric])

lemma nodeContainer_labels:
  "distinct (map fst (ct_Labels nodeContainer))"
  "lookup (ct_Labels nodeContainer) = lookup (runLabels ''000000000001'' ''web'' (hd DefaultCatalog) (nodeRun\<lparr>ri_Name := ''web''\<rparr>))"
proof -
  have d: "distinct (map fst (runLabels ''000000000001'' ''web'' (hd DefaultCatalog) (nodeRun\<lparr>ri_Name := ''web''\<rparr>)))" by code_simp
  then show "distinct (map fst (ct_Labels nodeContainer))" by (simp add: nodeContainer_def rev_map [symmetric])
  show "lookup (ct_Labels nodeContainer) = lookup (runLabels ''000000000001'' ''web'' (hd DefaultCatalog) (nodeRun\<lparr>ri_Name := ''web''\<rparr>))"
    unfolding nodeContainer_def using map_of_rev_distinct [OF d] by simp
qed

lemma nodeTags_distinct: "distinct (map fst (ri_Tags (nodeRun\<lparr>ri_Name := n\<rparr>)))" "distinct (map fst (rev (ri_Tags nodeRun)))"
  by (simp_all add: nodeRun_def)



lemma nodeChala_simps:
  "sv_Docker nodeChala = traced nodeDaemon" "sv_Encodable nodeChala = (\<lambda>_. True)" "nodeChala = nodeChala\<lparr>sv_Unavailable := []\<rparr>"
  by (simp_all add: nodeChala_def sampleChala_def)




lemma described_instance_repeats_the_request_witness:
  "it_AttachedDnsAliases (chala_instance nodeChala nodeContainer) =
     [''web.222222222222.nache.dariya.internal'', ''db.222222222222.nache.dariya.internal''] \<and>
   lookup (it_Tags (chala_instance nodeChala nodeContainer)) ''cluster'' = Some ''web''"
proof -
  note s = nodeChala_simps(3)
  show ?thesis
    using described_instance_repeats_the_request [OF nodeChala_new s nodeRequests_accepted(1) nodeTags_distinct(1) nodeContainer_labels(2)]
    by (simp add: nodeRun_def)
qed

end
