(* ===== verification/Nache_Tenancy.thy ===== *)
theory Nache_Tenancy
  imports Nache_Safety Chala_Adoption
begin

text \<open>
  The cache service between its neighbours: what it asks of the compute service is what that service accepts, and
  what it does for a caller stays within the caller's account.
\<close>

section \<open>Node requests\<close>

lemma clusterName_label: "clusterName n \<Longrightarrow> k \<ge> 38 \<Longrightarrow> dnsLabel k n"
  by (auto simp: clusterName_def dnsLabel_def)

lemma clusterName_chars: "clusterName n \<Longrightarrow> \<not> labelChar c \<Longrightarrow> c \<notin> set n"
  by (auto simp: clusterName_def dest: dnsLabel_chars)

lemma digit_labelEnd: "isDigit c \<Longrightarrow> labelEnd c" by (simp add: labelEnd_def)

lemma labelEnd_labelChar: "labelEnd c \<Longrightarrow> labelChar c" by (simp add: labelChar_def)

lemma NodeName_instanceName:
  assumes "twelveDigits a" "clusterName n"
  shows "instanceName (NodeName a n)"
proof -
  have a: "length a = 12" "list_all labelChar a"
    using assms(1) by (auto simp: twelveDigits_def list_all_iff intro: labelEnd_labelChar digit_labelEnd)
  have n: "n \<noteq> []" "length n \<le> 40" "list_all labelChar n" "labelEnd (last n)" using assms(2) by (simp_all add: clusterName_def dnsLabel_def)
  have "labelEnd CHR ''n''" "labelChar CHR ''n''" "labelChar CHR ''-''" by (simp_all add: labelEnd_def labelChar_def isLower_def)
  with a n show ?thesis by (simp add: instanceName_def dnsLabel_def NodeName_def)
qed

lemma pathUnescape_plain: "CHR ''%'' \<notin> set s \<Longrightarrow> pathUnescape s = Some s"
  by (induction s) auto

lemma muxSegments_instance:
  assumes "CHR ''/'' \<notin> set n" "CHR ''%'' \<notin> set n"
  shows "muxSegments (chalaPrefix @ ''/instances/'' @ n) = [[], ''chala'', ''2026-09-30'', ''instances'', n]"
  using assms by (simp add: muxSegments_def chalaPrefix_def pathUnescape_plain)

lemma instance_segments: "instancePattern = [Lit [], Lit ''chala'', Lit ''2026-09-30'', Lit ''instances'', Wild]" by code_simp

lemma validateTags_node:
  assumes "twelveDigits a" "clusterName n"
  shows "validateTags (nodeTags a n) = None"
proof -
  have "length a = 12" "length n \<le> 40" using assms by (simp_all add: twelveDigits_def clusterName_def dnsLabel_def)
  moreover have "tagKey tagManagedBy" "tagKey tagClusterAccount" "tagKey tagCluster" "length NacheService = 5" by code_simp+
  ultimately show ?thesis by (simp add: validateTags_def nodeTags_def maxTags_def maxTagValueLen_def)
qed

lemma validateAttach_node:
  assumes "twelveDigits a" "clusterName n" "a \<noteq> caller"
  shows "validateAttach caller NacheService a [Endpoint a n] = None"
proof -
  have "cutSuffix (Endpoint a n) (aliasSuffix a NacheService) = Some n"
    by (simp add: cutSuffix_Some Endpoint_def aliasSuffix_def NacheService_def)
  moreover have "instanceName n" using clusterName_label [OF assms(2), of 61] by (simp add: instanceName_def)
  moreover have "a \<noteq> []" using assms(1) by (auto simp: twelveDigits_def)
  ultimately show ?thesis using assms by (simp add: validateAttach_def NacheService_def maxAliases_def)
qed

lemma nodeTags_distinct_keys: "distinct (map fst (nodeTags a n))"
  by (simp add: nodeTags_def tagManagedBy_def tagClusterAccount_def tagCluster_def)

text \<open>The request as the compute service receives it.\<close>

definition carries :: "request \<Rightarrow> outRequest \<Rightarrow> bool" where
  "carries r q \<longleftrightarrow> hr_Method r = or_Method q \<and> hr_Path r = or_Path q \<and> hr_Body r = or_Body q \<and> \<not> hr_BodyFails r"

lemma validateAttach_home:
  assumes "twelveDigits a"
  shows "validateAttach a NacheService a aliases = Some (Validation (''an instance is already on its own account'' @ [CHR 0x27] @ ''s network'') [])"
proof -
  have "a \<noteq> []" using assms by (auto simp: twelveDigits_def)
  then show ?thesis using assms by (simp add: validateAttach_def NacheService_def)
qed

text \<open>C16: for every cluster name that the API admits and every account, the request that the cache service's client makes
  for the cluster's node is routed to the handler that runs an instance, under a name that handler accepts. For an account other
  than the service's own it passes every check made for a service account of the cache service (image, tags and attachment), and the
  container made from it is described as the node of that very cluster, reachable under the cluster's endpoint in the owner's account.
  A cluster of the service's own account, which the API admits too, never gets a node: the request is refused every time, as attaching
  an instance to the network it is on.\<close>
theorem nache_nodes_are_runnable:
  assumes "chala_New base cfg = Inr s0" "s = s0\<lparr>sv_Unavailable := gone\<rparr>" "lookup (cc_ServiceAccounts cfg) caller = Some NacheService"
    and "lookup (sv_Catalog s) EngineImage = Some img" "EngineImage \<notin> set gone"
    and "clusterName name" "twelveDigits account"
    and "cl_MarshalRun cl (nodeRequest account name) = Inr body" "sv_DecodeRun s body = Inr (nodeRequest account name)"
    and "body \<noteq> []" "length body \<le> bodyLimit"
    and "carries r (chalaRequest cl now ''PUT'' (chalaPrefix @ ''/instances/'' @ NodeName account name) [] (Some body))"
  shows "muxLookup (chalaRoutes s) (hr_Method r) (muxSegments (hr_Path r)) = Some (runInstance s (NodeName account name)) \<and>
    chala_validateName (NodeName account name) = None \<and>
    (let req = (nodeRequest account name)\<lparr>ri_Name := NodeName account name\<rparr> in
       if account = caller then
         runRequest s r caller (NodeName account name) =
           Inl (Validation (''an instance is already on its own account'' @ [CHR 0x27] @ ''s network'') [])
       else
         runRequest s r caller (NodeName account name) = Inr (req, img) \<and>
         (\<forall>c. lookup (ct_Labels c) = lookup (runLabels caller (NodeName account name) img req) \<longrightarrow>
            nodeKeyOf (chala_instance s c) = (account, name) \<and> it_Name (chala_instance s c) = NodeName account name \<and>
            it_AttachedAccountId (chala_instance s c) = account \<and> it_AttachedDnsAliases (chala_instance s c) = [Endpoint account name]))"
proof -
  let ?req = "(nodeRequest account name)\<lparr>ri_Name := NodeName account name\<rparr>"
  have nn: "instanceName (NodeName account name)" by (rule NodeName_instanceName [OF assms(7,6)])
  have "\<not> labelChar CHR ''/''" "\<not> labelChar CHR ''%''" by (simp_all add: labelChar_def labelEnd_def isLower_def isDigit_def)
  then have plain: "CHR ''/'' \<notin> set (NodeName account name)" "CHR ''%'' \<notin> set (NodeName account name)"
    using nn dnsLabel_chars by (auto simp: instanceName_def)
  have q: "hr_Method r = ''PUT''" "hr_Path r = chalaPrefix @ ''/instances/'' @ NodeName account name" "hr_Body r = body" "\<not> hr_BodyFails r"
    using assms(12) by (simp_all add: carries_def chalaRequest_def Let_def split: prod.splits)
  have ne: "NodeName account name \<noteq> []" by (simp add: NodeName_def)
  have routed: "muxLookup (chalaRoutes s) (hr_Method r) (muxSegments (hr_Path r)) = Some (runInstance s (NodeName account name))"
    unfolding q muxSegments_instance [OF plain] chalaRoutes_def by (simp add: methodMatches_def instance_segments ne)
  have "cc_ServiceAccounts (sv_Config s) = cc_ServiceAccounts cfg" using chala_New_Inr(3) [OF assms(1)] assms(2) by simp
  then have svc: "getOr [] (cc_ServiceAccounts (sv_Config s)) caller = NacheService" using assms(3) by (simp add: getOr_def)
  have "im_ID img = EngineImage" using chala_New_ok(1) [OF assms(1), of EngineImage img] assms(2,4) by simp
  then have here: "im_ID img \<notin> set (sv_Unavailable s)" using assms(2,5) by simp
  have "chala_decodeJSON (sv_DecodeRun s) r = Inr (nodeRequest account name)"
    using assms(9-11) q by (simp add: chala_decodeJSON_def limitedBody_def)
  then have checks: "runRequest s r caller (NodeName account name) = (case validateAttach caller NacheService account [Endpoint account name] of
      Some e \<Rightarrow> Inl e | None \<Rightarrow> Inr (?req, img))"
    using assms(4) here validateTags_node [OF assms(7,6)] svc by (simp add: runRequest_def Let_def nodeRequest_def EngineImage_def split: option.split)
  have run: "runRequest s r caller (NodeName account name) = Inr (?req, img)" if "account \<noteq> caller"
    using checks validateAttach_node [OF assms(7,6) that] by simp
  have described: "nodeKeyOf (chala_instance s c) = (account, name) \<and> it_Name (chala_instance s c) = NodeName account name \<and>
      it_AttachedAccountId (chala_instance s c) = account \<and> it_AttachedDnsAliases (chala_instance s c) = [Endpoint account name]"
    if other: "account \<noteq> caller" and c: "lookup (ct_Labels c) = lookup (runLabels caller (NodeName account name) img ?req)" for c
  proof -
    have "distinct (map fst (ri_Tags ?req))" by (simp add: nodeRequest_def nodeTags_distinct_keys)
    note d = described_fields [OF assms(1,2) run [OF other] this c]
    have "getOr [] (it_Tags (chala_instance s c)) k = getOr [] (nodeTags account name) k" for k
      using d(4) by (simp add: getOr_def nodeRequest_def)
    then have "nodeKeyOf (chala_instance s c) = (account, name)"
      by (simp add: nodeKeyOf_def) (simp add: getOr_def nodeTags_def tagManagedBy_def tagClusterAccount_def tagCluster_def)
    then show ?thesis using d(1,5,6) by (simp add: nodeRequest_def)
  qed
  have "runRequest s r caller (NodeName account name) =
      Inl (Validation (''an instance is already on its own account'' @ [CHR 0x27] @ ''s network'') [])" if "account = caller"
    using checks validateAttach_home [OF assms(7)] that by simp
  with routed nn run described show ?thesis by (simp add: chala_validateName_def Let_def)
qed

definition runnableChala :: "(nat \<times> exchange list) ChalaServer" where
  "runnableChala = nodeChala\<lparr>sv_DecodeRun := (\<lambda>_. Inr (nodeRequest ''222222222222'' ''web''))\<rparr>"

lemma runnableChala_new:
  "chala_New (sampleChala\<lparr>sv_Docker := traced nodeDaemon, sv_DecodeRun := (\<lambda>_. Inr (nodeRequest ''222222222222'' ''web''))\<rparr>) nodeConfig = Inr runnableChala"
proof -
  have "chala_New (base\<lparr>sv_DecodeRun := f\<rparr>) cfg = (case chala_New base cfg of Inl e \<Rightarrow> Inl e | Inr s \<Rightarrow> Inr (s\<lparr>sv_DecodeRun := f\<rparr>))"
    for base :: "(nat \<times> exchange list) ChalaServer" and f :: "bytes \<Rightarrow> err + RunInstanceRequest" and cfg
    by (simp add: chala_New_def split: sum.split option.split prod.split)
  from this [of "\<lambda>_. Inr (nodeRequest ''222222222222'' ''web'')" "sampleChala\<lparr>sv_Docker := traced nodeDaemon, sv_DecodeRun := nodeDecoder\<rparr>" nodeConfig] show ?thesis by (simp add: nodeChala_new runnableChala_def)
qed

definition sampleClient :: "unit ChalaClient" where
  "sampleClient = \<lparr>cl_FrontDoor = ''http://frontdoor'', cl_Region = ''hind-1'', cl_Credentials = \<lparr>cr_AccessKeyID = ''DK1'', cr_Secret = ''secret''\<rparr>,
     cl_HTTP = (\<lambda>_. ret (Inl (Sentinel ''connection refused''))), cl_Now = (\<lambda>_. \<lparr>cv_year = 2026, cv_month = 9, cv_day = 30, cv_hour = 0, cv_min = 0, cv_sec = 0, cv_nsec = 0\<rparr>),
     cl_NewRequest = (\<lambda>_ _. None), cl_EncodeQuery = (\<lambda>_. []), cl_MarshalRun = (\<lambda>_. Inr ''{}''), cl_Shape = (\<lambda>_. ([], [], [])),
     cl_ParseRun = (\<lambda>_. Inr emptyInstance), cl_ParseInstances = (\<lambda>_. Inr [])\<rparr>"

definition nodeArrival :: request where
  "nodeArrival = tokenRequest\<lparr>hr_Method := ''PUT'', hr_Path := chalaPrefix @ ''/instances/'' @ NodeName ''222222222222'' ''web'',
     hr_Body := ''{}'', hr_BodyFails := False\<rparr>"

lemma nache_nodes_are_runnable_witness:
  "muxLookup (chalaRoutes runnableChala) (hr_Method nodeArrival) (muxSegments (hr_Path nodeArrival)) = Some (runInstance runnableChala ''n-222222222222-web'') \<and>
   (\<exists>req. runRequest runnableChala nodeArrival ''000000000001'' ''n-222222222222-web'' = Inr (req, hd DefaultCatalog))"
proof -
  have s: "runnableChala = runnableChala\<lparr>sv_Unavailable := []\<rparr>" by (simp add: runnableChala_def nodeChala_def sampleChala_def)
  have c: "lookup (cc_ServiceAccounts nodeConfig) ''000000000001'' = Some NacheService"
    "lookup (sv_Catalog runnableChala) EngineImage = Some (hd DefaultCatalog)"
    by (simp_all add: nodeConfig_def NacheService_def runnableChala_def nodeChala_def sampleChala_def DefaultCatalog_def)
  have n: "clusterName ''web''" "twelveDigits ''222222222222''" by code_simp+
  have m: "cl_MarshalRun sampleClient (nodeRequest ''222222222222'' ''web'') = Inr ''{}''"
    "sv_DecodeRun runnableChala ''{}'' = Inr (nodeRequest ''222222222222'' ''web'')"
    by (simp_all add: sampleClient_def runnableChala_def)
  have r: "carries nodeArrival (chalaRequest sampleClient now ''PUT'' (chalaPrefix @ ''/instances/'' @ NodeName ''222222222222'' ''web'') [] (Some ''{}''))" for now
    by (simp add: carries_def nodeArrival_def chalaRequest_def Let_def split: prod.split)
  have "NodeName ''222222222222'' ''web'' = ''n-222222222222-web''" by (simp add: NodeName_def)
  then show ?thesis
    using nache_nodes_are_runnable [OF runnableChala_new s c _ n m _ _ r] by (simp add: bodyLimit_def Let_def)
qed

end
