(* ===== verification/Edge_Main.thy ===== *)
theory Edge_Main
  imports Frontdoor Nache_Confined Nache_Tenancy
begin

text \<open>
  The front door's program (\<open>cmd/frontdoor/main.go\<close>): what it reads from its environment, the routes it declares for
  the services behind it, and the order in which it boots. Reading flags is the \<open>flag\<close> package's; opening the
  store and migrating it is the database's.
\<close>

section \<open>Flags\<close>

definition envOr :: "(string \<Rightarrow> string) \<Rightarrow> string \<Rightarrow> string \<Rightarrow> string" where
  "envOr getenv key fallback = (if getenv key \<noteq> [] then getenv key else fallback)"

record EdgeFlags =
  ef_Addr :: string
  ef_Region :: string
  ef_DSN :: string
  ef_Dev :: bool
  ef_NoCache :: bool
  ef_FuncUpstream :: string
  ef_ChalaUpstream :: string
  ef_NacheUpstream :: string

definition edgeDefaults :: "(string \<Rightarrow> string) \<Rightarrow> string \<Rightarrow> EdgeFlags" where
  "edgeDefaults getenv defaultDSN =
     \<lparr>ef_Addr = envOr getenv ''DARIYA_ADDR'' '':8080'', ef_Region = envOr getenv ''DARIYA_REGION'' ''hind-1'',
      ef_DSN = envOr getenv ''DARIYA_DSN'' defaultDSN, ef_Dev = (getenv ''DARIYA_DEV'' = ''1''), ef_NoCache = False,
      ef_FuncUpstream = envOr getenv ''DARIYA_FUNC_UPSTREAM'' [], ef_ChalaUpstream = envOr getenv ''DARIYA_CHALA_UPSTREAM'' [],
      ef_NacheUpstream = envOr getenv ''DARIYA_NACHE_UPSTREAM'' []\<rparr>"

section \<open>Routes\<close>

definition proxied :: "string \<Rightarrow> string \<Rightarrow> string \<Rightarrow> string \<Rightarrow> (request \<Rightarrow> Principal \<Rightarrow> err + string) \<Rightarrow> string \<Rightarrow> 'h Route" where
  "proxied service verb pre action resource upstream =
     \<lparr>rt_Service = service, rt_Method = verb, rt_Prefix = pre, rt_Action = action, rt_Resource = Some resource,
      rt_Upstream = upstream, rt_Handler = None\<rparr>"

definition edgeFuncRoutes :: "string \<Rightarrow> string \<Rightarrow> 'h Route list" where
  "edgeFuncRoutes region upstream =
     [proxied ''func'' [] ''/f/'' ''func:Invoke'' (PathResource region ''func'' ''function'' ''/f/'') upstream]"

definition edgeChalaRoutes :: "string \<Rightarrow> string \<Rightarrow> 'h Route list" where
  "edgeChalaRoutes region upstream =
     (let pre = ''/chala/2026-09-30'';
          inst = PathResource region ''chala'' ''instance'' (pre @ ''/instances/'');
          account = SelfAccountResource region ''chala''
      in [proxied ''chala'' ''PUT'' (pre @ ''/instances/'') ''chala:RunInstance'' inst upstream,
          proxied ''chala'' ''GET'' (pre @ ''/instances/'') ''chala:DescribeInstance'' inst upstream,
          proxied ''chala'' ''DELETE'' (pre @ ''/instances/'') ''chala:TerminateInstance'' inst upstream,
          proxied ''chala'' ''GET'' (pre @ ''/instances'') ''chala:DescribeInstances'' account upstream,
          proxied ''chala'' ''GET'' (pre @ ''/images'') ''chala:DescribeImages'' account upstream])"

definition edgeNacheRoutes :: "string \<Rightarrow> string \<Rightarrow> 'h Route list" where
  "edgeNacheRoutes region upstream =
     (let pre = ''/nache/2026-09-30'';
          cluster = PathResource region ''nache'' ''cluster'' (pre @ ''/clusters/'')
      in [proxied ''nache'' ''PUT'' (pre @ ''/clusters/'') ''nache:CreateCacheCluster'' cluster upstream,
          proxied ''nache'' ''GET'' (pre @ ''/clusters/'') ''nache:DescribeCacheCluster'' cluster upstream,
          proxied ''nache'' ''DELETE'' (pre @ ''/clusters/'') ''nache:DeleteCacheCluster'' cluster upstream,
          proxied ''nache'' ''GET'' (pre @ ''/clusters'') ''nache:ListCacheClusters'' (SelfAccountResource region ''nache'') upstream])"

definition serviceRoutes :: "EdgeFlags \<Rightarrow> 'h Route list" where
  "serviceRoutes fl =
     (if ef_FuncUpstream fl \<noteq> [] then edgeFuncRoutes (ef_Region fl) (ef_FuncUpstream fl) else []) @
     (if ef_ChalaUpstream fl \<noteq> [] then edgeChalaRoutes (ef_Region fl) (ef_ChalaUpstream fl) else []) @
     (if ef_NacheUpstream fl \<noteq> [] then edgeNacheRoutes (ef_Region fl) (ef_NacheUpstream fl) else [])"

section \<open>Boot\<close>

text \<open>The minter of the environment, with the clock read at each token.\<close>

definition mintFrom :: "wire \<Rightarrow> Minter \<Rightarrow> Claims \<Rightarrow> (process, err + SignedCapability) state" where
  "mintFrom w m c = do { now \<leftarrow> gets w_now; ret (Mint w m now c) }"

definition edgeOptions :: "EdgeFlags \<Rightarrow> wire \<Rightarrow> Minter \<Rightarrow> Options" where
  "edgeOptions fl w m =
     \<lparr>fd_Region = ef_Region fl, fd_KeyCacheTTL = 0, fd_Routes = serviceRoutes fl, fd_ProxyTimeout = 0, fd_Mint = Some (mintFrom w m),
      fd_CapabilityTTL = 0, fd_SessionTTL = 0, fd_PolicyCacheTTL = 0, fd_DisableKeyCache = ef_NoCache fl, fd_Dev = ef_Dev fl\<rparr>"

text \<open>The database connection, which is opened before anything else, and its migration.\<close>

record 's storeLib =
  sl_Open :: "string \<Rightarrow> ('s, err option) state"
  sl_Migrate :: "('s, err option) state"

definition edgeRun :: "'c::linorder Backend \<Rightarrow> process storeLib \<Rightarrow> (string \<Rightarrow> string) \<Rightarrow> EdgeFlags \<Rightarrow> (process, err + apiHandler) state" where
  "edgeRun b lib getenv fl = do {
     opened \<leftarrow> sl_Open lib (ef_DSN fl);
     case opened of
       Some e \<Rightarrow> ret (Inl e)
     | None \<Rightarrow> do {
         migrated \<leftarrow> sl_Migrate lib;
         case migrated of
           Some e \<Rightarrow> ret (Inl e)
         | None \<Rightarrow>
             (case NewKeyringFromEnv getenv of
                Inl e \<Rightarrow> ret (Inl e)
              | Inr kr \<Rightarrow>
                  (case NewMinterFromEnv getenv 0 of
                     Inl e \<Rightarrow> ret (Inl e)
                   | Inr m \<Rightarrow> NewHandler (b\<lparr>be_Keyring := kr\<rparr>) (edgeOptions fl (be_Wire b) m)))
       }
   }"

lemma serviceRoutes_wf: "list_all wf_route (serviceRoutes fl)"
  by (simp add: serviceRoutes_def edgeFuncRoutes_def edgeChalaRoutes_def edgeNacheRoutes_def Let_def proxied_def wf_route_def)

section \<open>Where a request goes\<close>

text \<open>The calls on a named resource: method, service, path before the name, action, type of the resource.\<close>

definition namedCalls :: "(string \<times> string \<times> string \<times> string \<times> string) list" where
  "namedCalls =
     [(''PUT'', ''chala'', ''/chala/2026-09-30/instances/'', ''chala:RunInstance'', ''instance''),
      (''GET'', ''chala'', ''/chala/2026-09-30/instances/'', ''chala:DescribeInstance'', ''instance''),
      (''DELETE'', ''chala'', ''/chala/2026-09-30/instances/'', ''chala:TerminateInstance'', ''instance''),
      (''PUT'', ''nache'', ''/nache/2026-09-30/clusters/'', ''nache:CreateCacheCluster'', ''cluster''),
      (''GET'', ''nache'', ''/nache/2026-09-30/clusters/'', ''nache:DescribeCacheCluster'', ''cluster''),
      (''DELETE'', ''nache'', ''/nache/2026-09-30/clusters/'', ''nache:DeleteCacheCluster'', ''cluster'')]"

lemma label_plain:
  assumes "dnsLabel n name"
  shows "CHR ''/'' \<notin> set name" "CHR '':'' \<notin> set name" "CHR ''*'' \<notin> set name" "CHR ''%'' \<notin> set name" "name \<noteq> []"
proof -
  have c: "c \<notin> set name" if "\<not> labelChar c" for c using dnsLabel_chars [OF assms] that by blast
  show "CHR ''/'' \<notin> set name" "CHR '':'' \<notin> set name" "CHR ''*'' \<notin> set name" "CHR ''%'' \<notin> set name"
    by (rule c, simp add: labelChar_def labelEnd_def isLower_def isDigit_def)+
  show "name \<noteq> []" using assms by (simp add: dnsLabel_def)
qed

lemma PathResource_named:
  assumes "hr_Path r = pre @ name" "dnsLabel n name"
  shows "PathResource region service typ pre r p = Inr (formatArn service region (pr_AccountId p) typ name)"
proof -
  note c = label_plain [OF assms(2)]
  have "\<not> containsAny name '':*''" using c(2,3) by (auto simp: containsAny_def)
  moreover have "cut CHR ''/'' name = None" using c(1) by (simp add: cut_None)
  ultimately show ?thesis using c(5) by (simp add: PathResource_def assms(1) Let_def)
qed

lemma bestRoute_append: "bestRoute r (xs @ ys) best = bestRoute r ys (bestRoute r xs best)"
  by (induction r xs best rule: bestRoute.induct) auto

text \<open>None of the front door's own paths begins like one of a service.\<close>

lemma edge_services:
  assumes "hr_Path r = CHR ''/'' # c # path" "c \<noteq> CHR ''p''" "c \<noteq> CHR ''2''"
  shows "bestRoute r (edgeRoutes b opts) None = bestRoute r (fd_Routes opts) None"
proof -
  have "\<not> matchesPrefix (hr_Path r) (rt_Prefix rt)" if "rt \<in> set ([pingRoute opts] @ api_Routes (edgeAPI b opts))" for rt
    using that assms by (auto simp: matchesPrefix_def pingRoute_def api_Routes_def sessionRoutes_def controlRoute_def api_prefix_def APIVersion_def Let_def)
  then have "bestRoute r ([pingRoute opts] @ api_Routes (edgeAPI b opts)) None = None"
    by (simp only: bestRoute_None routeServes_def) blast
  then show ?thesis by (simp only: edgeRoutes_def append_assoc [symmetric] bestRoute_append)
qed

text \<open>The two paths under which a resource is named, kept folded in the proofs.\<close>

definition instancesPath :: string where "instancesPath = ''/chala/2026-09-30/instances/''"
definition clustersPath :: string where "clustersPath = ''/nache/2026-09-30/clusters/''"

lemma path_lengths: "length instancesPath = 28" "length clustersPath = 27"
  by (simp_all add: instancesPath_def clustersPath_def)

lemma chala_matches:
  "matchesPrefix (instancesPath @ n) ''/f/'' = False"
  "matchesPrefix (instancesPath @ n) instancesPath = True"
  "matchesPrefix (instancesPath @ n) ''/chala/2026-09-30/instances'' = True"
  "matchesPrefix (instancesPath @ n) ''/chala/2026-09-30/images'' = False"
  "matchesPrefix (instancesPath @ n) clustersPath = False"
  "matchesPrefix (instancesPath @ n) ''/nache/2026-09-30/clusters'' = False"
  by (simp_all add: matchesPrefix_def hasPrefix_iff hasSuffix_iff instancesPath_def clustersPath_def)

lemma nache_matches:
  "matchesPrefix (clustersPath @ n) ''/f/'' = False"
  "matchesPrefix (clustersPath @ n) clustersPath = True"
  "matchesPrefix (clustersPath @ n) ''/nache/2026-09-30/clusters'' = True"
  "matchesPrefix (clustersPath @ n) instancesPath = False"
  "matchesPrefix (clustersPath @ n) ''/chala/2026-09-30/instances'' = False"
  "matchesPrefix (clustersPath @ n) ''/chala/2026-09-30/images'' = False"
  by (simp_all add: matchesPrefix_def hasPrefix_iff hasSuffix_iff instancesPath_def clustersPath_def)

lemma route_tables:
  "edgeChalaRoutes region up = 
     [proxied ''chala'' ''PUT'' instancesPath ''chala:RunInstance'' (PathResource region ''chala'' ''instance'' instancesPath) up,
      proxied ''chala'' ''GET'' instancesPath ''chala:DescribeInstance'' (PathResource region ''chala'' ''instance'' instancesPath) up,
      proxied ''chala'' ''DELETE'' instancesPath ''chala:TerminateInstance'' (PathResource region ''chala'' ''instance'' instancesPath) up,
      proxied ''chala'' ''GET'' ''/chala/2026-09-30/instances'' ''chala:DescribeInstances'' (SelfAccountResource region ''chala'') up,
      proxied ''chala'' ''GET'' ''/chala/2026-09-30/images'' ''chala:DescribeImages'' (SelfAccountResource region ''chala'') up]"
  "edgeNacheRoutes region up =
     [proxied ''nache'' ''PUT'' clustersPath ''nache:CreateCacheCluster'' (PathResource region ''nache'' ''cluster'' clustersPath) up,
      proxied ''nache'' ''GET'' clustersPath ''nache:DescribeCacheCluster'' (PathResource region ''nache'' ''cluster'' clustersPath) up,
      proxied ''nache'' ''DELETE'' clustersPath ''nache:DeleteCacheCluster'' (PathResource region ''nache'' ''cluster'' clustersPath) up,
      proxied ''nache'' ''GET'' ''/nache/2026-09-30/clusters'' ''nache:ListCacheClusters'' (SelfAccountResource region ''nache'') up]"
  by (simp_all add: edgeChalaRoutes_def edgeNacheRoutes_def Let_def instancesPath_def clustersPath_def)

text \<open>One step of the search, over the fields that a proxied route has.\<close>

lemma bestRoute_proxied:
  "bestRoute r (proxied s v pre a f u # rts) best =
     (if (v = [] \<or> v = hr_Method r) \<and> matchesPrefix (hr_Path r) pre \<and> (case best of None \<Rightarrow> True | Some b \<Rightarrow> length pre > length (rt_Prefix b))
      then bestRoute r rts (Some (proxied s v pre a f u)) else bestRoute r rts best)"
  by (auto simp: proxied_def split: option.split)

lemma proxied_simps [simp]:
  "rt_Service (proxied s v pre a f u) = s" "rt_Prefix (proxied s v pre a f u) = pre" "rt_Action (proxied s v pre a f u) = a"
  "rt_Resource (proxied s v pre a f u) = Some f" "rt_Handler (proxied s v pre a f u) = None" "rt_Method (proxied s v pre a f u) = v"
  by (simp_all add: proxied_def)

lemma chala_route:
  assumes "ef_ChalaUpstream fl \<noteq> []" "hr_Path r = instancesPath @ name"
    "(hr_Method r, action) \<in> {(''PUT'', ''chala:RunInstance''), (''GET'', ''chala:DescribeInstance''), (''DELETE'', ''chala:TerminateInstance'')}"
  shows "\<exists>rt. bestRoute r (serviceRoutes fl) None = Some rt \<and> rt_Service rt = ''chala'' \<and> rt_Action rt = action \<and>
    rt_Resource rt = Some (PathResource (ef_Region fl) ''chala'' ''instance'' instancesPath) \<and> rt_Handler rt = None"
proof -
  have f: "bestRoute r (if ef_FuncUpstream fl \<noteq> [] then edgeFuncRoutes (ef_Region fl) (ef_FuncUpstream fl) else []) None = None"
    by (simp add: edgeFuncRoutes_def bestRoute_proxied assms(2) chala_matches)
  have g: "bestRoute r (if ef_NacheUpstream fl \<noteq> [] then edgeNacheRoutes (ef_Region fl) (ef_NacheUpstream fl) else []) best = best" for best
    by (simp add: route_tables bestRoute_proxied assms(2) chala_matches)
  have h: "\<exists>rt. bestRoute r (edgeChalaRoutes (ef_Region fl) (ef_ChalaUpstream fl)) None = Some rt \<and> rt_Service rt = ''chala'' \<and> rt_Action rt = action \<and>
    rt_Resource rt = Some (PathResource (ef_Region fl) ''chala'' ''instance'' instancesPath) \<and> rt_Handler rt = None"
    using assms(3) by (simp only: insert_iff empty_iff prod.inject simp_thms)
      (elim disjE conjE; simp add: route_tables bestRoute_proxied assms(2) chala_matches path_lengths)
  show ?thesis using h assms(1) by (simp only: serviceRoutes_def bestRoute_append f g not_False_eq_True if_True)
qed

lemma nache_route:
  assumes "ef_NacheUpstream fl \<noteq> []" "hr_Path r = clustersPath @ name"
    "(hr_Method r, action) \<in> {(''PUT'', ''nache:CreateCacheCluster''), (''GET'', ''nache:DescribeCacheCluster''), (''DELETE'', ''nache:DeleteCacheCluster'')}"
  shows "\<exists>rt. bestRoute r (serviceRoutes fl) None = Some rt \<and> rt_Service rt = ''nache'' \<and> rt_Action rt = action \<and>
    rt_Resource rt = Some (PathResource (ef_Region fl) ''nache'' ''cluster'' clustersPath) \<and> rt_Handler rt = None"
proof -
  have f: "bestRoute r (if ef_FuncUpstream fl \<noteq> [] then edgeFuncRoutes (ef_Region fl) (ef_FuncUpstream fl) else []) None = None"
    by (simp add: edgeFuncRoutes_def bestRoute_proxied assms(2) nache_matches)
  have g: "bestRoute r (if ef_ChalaUpstream fl \<noteq> [] then edgeChalaRoutes (ef_Region fl) (ef_ChalaUpstream fl) else []) None = None"
    by (simp add: route_tables bestRoute_proxied assms(2) nache_matches)
  have h: "\<exists>rt. bestRoute r (edgeNacheRoutes (ef_Region fl) (ef_NacheUpstream fl)) None = Some rt \<and> rt_Service rt = ''nache'' \<and> rt_Action rt = action \<and>
    rt_Resource rt = Some (PathResource (ef_Region fl) ''nache'' ''cluster'' clustersPath) \<and> rt_Handler rt = None"
    using assms(3) by (simp only: insert_iff empty_iff prod.inject simp_thms)
      (elim disjE conjE; simp add: route_tables bestRoute_proxied assms(2) nache_matches path_lengths)
  show ?thesis using h assms(1) by (simp only: serviceRoutes_def bestRoute_append f g not_False_eq_True if_True)
qed

lemma named_target:
  assumes "NewTable (fd_Region opts) (edgeRoutes b opts) = Inr t" "fd_Routes opts = serviceRoutes fl"
    "(hr_Method r, service, pre, action, typ) \<in> set namedCalls" "hr_Path r = pre @ name" "dnsLabel n name"
    "service = ''chala'' \<Longrightarrow> ef_ChalaUpstream fl \<noteq> []" "service = ''nache'' \<Longrightarrow> ef_NacheUpstream fl \<noteq> []"
  shows "TargetFor t r p = Inr \<lparr>tg_Action = action, tg_ResourceARN = formatArn service (ef_Region fl) (pr_AccountId p) typ name\<rparr>"
proof -
  have t: "tb_routes t = edgeRoutes b opts" using assms(1) by (auto simp: NewTable_Inr)
  have "\<exists>c rest. pre = CHR ''/'' # c # rest \<and> c \<noteq> CHR ''p'' \<and> c \<noteq> CHR ''2''" using assms(3) by (auto simp: namedCalls_def)
  then obtain c rest where c: "pre = CHR ''/'' # c # rest" "c \<noteq> CHR ''p''" "c \<noteq> CHR ''2''" by blast
  have "hr_Path r = CHR ''/'' # c # (rest @ name)" by (simp add: assms(4) c(1))
  from edge_services [OF this c(2,3), of b opts] have "bestRoute r (edgeRoutes b opts) None = bestRoute r (serviceRoutes fl) None"
    by (simp only: assms(2))
  moreover have "\<exists>rt. bestRoute r (serviceRoutes fl) None = Some rt \<and> rt_Action rt = action \<and>
    rt_Resource rt = Some (PathResource (ef_Region fl) service typ pre)"
  proof (cases "service = ''chala''")
    case True
    then have "pre = instancesPath" "typ = ''instance''"
      "(hr_Method r, action) \<in> {(''PUT'', ''chala:RunInstance''), (''GET'', ''chala:DescribeInstance''), (''DELETE'', ''chala:TerminateInstance'')}"
      using assms(3) by (auto simp: namedCalls_def instancesPath_def)
    then show ?thesis using chala_route [OF assms(6) [OF True], of r name action] assms(4) True by auto
  next
    case False
    then have "service = ''nache''" "pre = clustersPath" "typ = ''cluster''"
      "(hr_Method r, action) \<in> {(''PUT'', ''nache:CreateCacheCluster''), (''GET'', ''nache:DescribeCacheCluster''), (''DELETE'', ''nache:DeleteCacheCluster'')}"
      using assms(3) by (auto simp: namedCalls_def clustersPath_def)
    then show ?thesis using nache_route [OF assms(7), of r name action] assms(4) by auto
  qed
  ultimately obtain rt where "table_Match t r = Some rt" "rt_Action rt = action" "rt_Resource rt = Some (PathResource (ef_Region fl) service typ pre)"
    by (auto simp: table_Match_def t)
  then show ?thesis using PathResource_named [OF assms(4,5)] by (simp add: TargetFor_def)
qed

section \<open>Whose resource a request is authorized for\<close>

interpretation ping_resource: scoped_resource "\<lambda>_ p. Inr (PingResourceARN region (pr_AccountId p))" "okSegments region ''ws''"
  for region
proof unfold_locales
  fix p r a
  assume ok: "okSegments region ''ws'' p" and a: "Inr (PingResourceARN region (pr_AccountId p)) = (Inr a :: err + string)"
  have "PingResourceARN region (pr_AccountId p) = formatArn ''ws'' region (pr_AccountId p) ''endpoint'' ''ping''"
    by (simp add: PingResourceARN_def formatArn_def arn_String_append Partition_def)
  with a have "a = formatArn ''ws'' region (pr_AccountId p) ''endpoint'' ''ping''" by simp
  moreover have "arn_Parse (formatArn ''ws'' region (pr_AccountId p) ''endpoint'' ''ping'') =
      Inr \<lparr>a_Service = ''ws'', a_Region = region, a_Account = pr_AccountId p, a_Type = ''endpoint'', a_ID = ''ping''\<rparr>"
    using ok by (intro parse_formatArn) (auto simp: okSegments_def)
  ultimately show "\<exists>res. arn_Parse a = Inr res \<and> a_Account res = pr_AccountId p" by simp
qed

text \<open>The services named in the routes of the front door.\<close>

definition okEdge :: "string \<Rightarrow> Principal \<Rightarrow> bool" where
  "okEdge region p \<longleftrightarrow> plainSegment region \<and> is_account_id (pr_AccountId p)"

lemma okEdge_segments:
  "okEdge region p \<Longrightarrow> service \<in> {''ws'', ''iam'', ''func'', ''chala'', ''nache''} \<Longrightarrow> okSegments region service p"
  by (auto simp: okEdge_def okSegments_def plainSegment_def)

lemma serviceRoutes_scoped:
  assumes "rt \<in> set (serviceRoutes fl)"
  shows "\<exists>f. rt_Resource rt = Some f \<and> scoped_resource f (okEdge (ef_Region fl))"
proof -
  have path: "scoped_resource (PathResource (ef_Region fl) service kind pre) (okEdge (ef_Region fl))"
    if "service \<in> {''func'', ''chala'', ''nache''}" "okType kind" for service kind pre
    by (rule scoped_resource_mono [OF path_resource.scoped_resource_axioms]) (use that okEdge_segments [of "ef_Region fl" _ service] in auto)
  have self: "scoped_resource (SelfAccountResource (ef_Region fl) service) (okEdge (ef_Region fl))"
    if "service \<in> {''chala'', ''nache''}" for service
    by (rule scoped_resource_mono [OF self_account_resource.scoped_resource_axioms]) (use that okEdge_segments [of "ef_Region fl" _ service] in auto)
  have ty: "okType ''function''" "okType ''instance''" "okType ''cluster''" by (simp_all add: okType_def)
  show ?thesis
    using assms by (auto simp: serviceRoutes_def edgeFuncRoutes_def edgeChalaRoutes_def edgeNacheRoutes_def Let_def path self ty split: if_split_asm)
qed

lemma edgeRoutes_scoped:
  assumes "rt \<in> set (edgeRoutes b opts)" "fd_Region opts = ef_Region fl" "fd_Routes opts = serviceRoutes fl"
  shows "\<exists>f. rt_Resource rt = Some f \<and> scoped_resource f (okEdge (ef_Region fl))"
proof -
  consider "rt = pingRoute opts" | "rt \<in> set (api_Routes (edgeAPI b opts))" | "rt \<in> set (serviceRoutes fl)"
    using assms(1,3) by (auto simp: edgeRoutes_def)
  then show ?thesis
  proof cases
    case 1
    then show ?thesis
      using scoped_resource_mono [OF ping_resource.scoped_resource_axioms, of "okEdge (ef_Region fl)"] okEdge_segments [of "ef_Region fl" _ "''ws''"] assms(2)
      by (simp add: pingRoute_def)
  next
    case 2
    have "api_Region (edgeAPI b opts) = ef_Region fl" by (simp add: edgeAPI_def assms(2))
    with 2 obtain f where "rt_Resource rt = Some f" "scoped_resource f (okSegments (ef_Region fl) ''iam'')"
      using api_Routes_scoped [of "edgeAPI b opts"] by auto
    then show ?thesis
      using scoped_resource_mono [of f _ "okEdge (ef_Region fl)"] okEdge_segments [of "ef_Region fl" _ "''iam''"] by auto
  next
    case 3
    then show ?thesis by (rule serviceRoutes_scoped)
  qed
qed

text \<open>C22: on the front door as its program configures it, with any of the three services behind it, the resource that a
  request is authorized for parses and lies in the account of the authenticated caller, and the action is the one of the route
  that the request is dispatched to: no path, query, header or body can name a resource of another account.\<close>
theorem target_in_callers_account:
  assumes "NewTable (ef_Region fl) (edgeRoutes b (edgeOptions fl w m)) = Inr t" "plainSegment (ef_Region fl)" "is_account_id (pr_AccountId p)"
    and "TargetFor t r p = Inr tg"
  shows "(\<exists>rt. table_Match t r = Some rt \<and> tg_Action tg = rt_Action rt) \<and>
    (\<exists>res. arn_Parse (tg_ResourceARN tg) = Inr res \<and> a_Account res = pr_AccountId p)"
proof -
  have t: "tb_routes t = edgeRoutes b (edgeOptions fl w m)" using assms(1) by (auto simp: NewTable_Inr)
  have o: "fd_Region (edgeOptions fl w m) = ef_Region fl" "fd_Routes (edgeOptions fl w m) = serviceRoutes fl"
    by (simp_all add: edgeOptions_def)
  have "scopedTable (okEdge (ef_Region fl)) t"
    unfolding scopedTable_def t using edgeRoutes_scoped [OF _ o] by blast
  moreover have "okEdge (ef_Region fl) p" by (simp add: okEdge_def assms(2,3))
  ultimately show ?thesis using TargetFor_scoped [of "okEdge (ef_Region fl)" t p r tg] assms(4)
    by (auto simp: TargetFor_def split: option.splits sum.splits)
qed

text \<open>The handlers that the services name with these actions.\<close>

definition handlerOf :: "'s ChalaServer \<Rightarrow> string \<Rightarrow> string \<Rightarrow> (chalaMsg, 's) handler" where
  "handlerOf s action name =
     (if action = ''chala:RunInstance'' then runInstance s name
      else if action = ''chala:DescribeInstance'' then describeInstance s name else terminateInstance s name)"

definition nacheHandlerOf :: "('c::linorder, 'f) NacheAPI \<Rightarrow> string \<Rightarrow> string \<Rightarrow> (nacheMsg, 'f nworld) handler" where
  "nacheHandlerOf a action name =
     (if action = ''nache:CreateCacheCluster'' then nache_create a name
      else if action = ''nache:DescribeCacheCluster'' then nache_describe a name else nache_delete a name)"

lemma named_served:
  assumes "(verb, service, pre, action, typ) \<in> set namedCalls" "dnsLabel n name"
  shows "service = ''chala'' \<and> muxLookup (chalaRoutes s) verb (muxSegments (pre @ name)) = Some (handlerOf s action name) \<or>
    service = ''nache'' \<and> muxLookup (nacheRoutes a) verb (muxSegments (pre @ name)) = Some (nacheHandlerOf a action name)"
proof -
  note c = label_plain [OF assms(2)]
  have m: "muxSegments (instancesPath @ name) = [[], ''chala'', ''2026-09-30'', ''instances'', name]"
    "muxSegments (clustersPath @ name) = [[], ''nache'', ''2026-09-30'', ''clusters'', name]"
    using c by (simp_all add: muxSegments_def instancesPath_def clustersPath_def pathUnescape_plain)
  have p: "clusterPattern = [Lit [], Lit ''nache'', Lit ''2026-09-30'', Lit ''clusters'', Wild]" by code_simp
  have "pre = instancesPath \<and> service = ''chala'' \<and>
      (verb, action) \<in> {(''PUT'', ''chala:RunInstance''), (''GET'', ''chala:DescribeInstance''), (''DELETE'', ''chala:TerminateInstance'')} \<or>
    pre = clustersPath \<and> service = ''nache'' \<and>
      (verb, action) \<in> {(''PUT'', ''nache:CreateCacheCluster''), (''GET'', ''nache:DescribeCacheCluster''), (''DELETE'', ''nache:DeleteCacheCluster'')}"
    using assms(1) by (auto simp: namedCalls_def instancesPath_def clustersPath_def)
  then show ?thesis
    by (elim disjE conjE) (simp_all only: m, auto simp: chalaRoutes_def nacheRoutes_def methodMatches_def instance_segments p handlerOf_def nacheHandlerOf_def c(5))
qed

section \<open>From the front door to the handler\<close>

text \<open>C10: the front door and the services agree on what every call on a named resource is. For each such method and path,
  the front door authorizes the action and the resource whose handler the service behind it picks for that very
  method and path; and the token it mints for them, carried in the header, is accepted by the guard of
  that service for the intent which that handler states, in the account of the caller, for as long as the token lives.\<close>
theorem authorized_calls_arrive:
  assumes "NewTable (fd_Region opts) (edgeRoutes b opts) = Inr t" "fd_Routes opts = serviceRoutes fl"
    and "ef_ChalaUpstream fl \<noteq> []" "ef_NacheUpstream fl \<noteq> []"
    and "(hr_Method r, service, pre, action, typ) \<in> set namedCalls" "hr_Path r = pre @ name" "dnsLabel n name"
    and "is_account_id (pr_AccountId p)" "plainSegment (ef_Region fl)"
    and "TargetFor t r p = Inr tg" "Mint w m t0 (claimsFor r p tg) = Inr token" "marshalToken w token = Some raw"
    and "wire_ok w" "m_keyID m \<noteq> []" "lookup (v_keys v) (m_keyID m) = Some (minter_PublicKey w m)"
    and "header_Get (hr_Header r') CapabilityHeader = stdEncode raw" "unixMilli (now - v_Skew v) \<le> unixMilli (t0 + m_ttl m)"
  shows "(service = ''chala'' \<and> muxLookup (chalaRoutes s) (hr_Method r) (muxSegments (hr_Path r)) = Some (handlerOf s action name) \<or>
      service = ''nache'' \<and> muxLookup (nacheRoutes a) (hr_Method r) (muxSegments (hr_Path r)) = Some (nacheHandlerOf a action name)) \<and>
    (\<exists>cap. guard_Authorize w (NewGuard v service (ef_Region fl)) now r'
        \<lparr>in_Action = action, in_ResourceType = typ, in_ResourceID = name\<rparr> = Inr cap \<and>
      cp_AccountId cap = pr_AccountId p \<and> cp_PrincipalArn cap = pr_PrincipalArn p \<and> cp_Action cap = tg_Action tg \<and> cp_ResourceArn cap = tg_ResourceARN tg)"
proof -
  have tg: "tg = \<lparr>tg_Action = action, tg_ResourceARN = formatArn service (ef_Region fl) (pr_AccountId p) typ name\<rparr>"
    using named_target [OF assms(1,2,5,6,7), of p] assms(3,4,10) by simp
  have g: "gd_verifier (NewGuard v service (ef_Region fl)) = v" "gd_service (NewGuard v service (ef_Region fl)) = service"
    "gd_region (NewGuard v service (ef_Region fl)) = ef_Region fl" by (simp_all add: NewGuard_def)
  have parts: "plainSegment service" "action \<noteq> []" "typ \<noteq> []" "CHR ''/'' \<notin> set typ"
    using assms(5) by (auto simp: namedCalls_def plainSegment_def)
  have c: "cl_AccountID (claimsFor r p tg) = pr_AccountId p" "cl_Action (claimsFor r p tg) = action"
    "cl_ResourceARN (claimsFor r p tg) = formatArn service (ef_Region fl) (pr_AccountId p) typ name"
    by (simp_all add: claimsFor_def tg)
  have "guard_Authorize w (NewGuard v service (ef_Region fl)) now r' \<lparr>in_Action = action, in_ResourceType = typ, in_ResourceID = name\<rparr> =
      Inr (capabilityOf m t0 (claimsFor r p tg))"
    by (subst guard_minted [OF assms(13,11,12,14,16)])
      (simp_all add: g c parts assms(8,9,15,17) label_plain(5) [OF assms(7)])
  moreover have "cp_AccountId (capabilityOf m t0 (claimsFor r p tg)) = pr_AccountId p \<and> cp_PrincipalArn (capabilityOf m t0 (claimsFor r p tg)) = pr_PrincipalArn p \<and>
      cp_Action (capabilityOf m t0 (claimsFor r p tg)) = tg_Action tg \<and> cp_ResourceArn (capabilityOf m t0 (claimsFor r p tg)) = tg_ResourceARN tg"
    by (simp add: capabilityOf_def claimsFor_def)
  ultimately show ?thesis using named_served [OF assms(5,7), of s a] unfolding assms(6) by blast
qed

subsection \<open>A call for an instance\<close>

definition sampleFlags :: EdgeFlags where
  "sampleFlags = (edgeDefaults (\<lambda>_. []) [])\<lparr>ef_ChalaUpstream := ''http://127.0.0.1:8082'', ef_NacheUpstream := ''http://127.0.0.1:8083''\<rparr>"

definition sampleOptions :: Options where "sampleOptions = edgeOptions sampleFlags sampleWire sampleMinter"

definition runWeb :: request where
  "runWeb = sampleHttpRequest\<lparr>hr_Method := ''PUT'', hr_Path := ''/chala/2026-09-30/instances/web''\<rparr>"

definition webTarget :: Target where
  "webTarget = \<lparr>tg_Action = ''chala:RunInstance'', tg_ResourceARN = formatArn ''chala'' ''hind-1'' (pr_AccountId samplePrincipal) ''instance'' ''web''\<rparr>"

lemma authorized_calls_arrive_witness:
  "\<exists>token raw cap. Mint sampleWire sampleMinter 0 (claimsFor runWeb samplePrincipal webTarget) = Inr token \<and> marshalToken sampleWire token = Some raw \<and>
     muxLookup (chalaRoutes sampleChala) ''PUT'' (muxSegments ''/chala/2026-09-30/instances/web'') = Some (runInstance sampleChala ''web'') \<and>
     guard_Authorize sampleWire sampleGuard 0 (runWeb\<lparr>hr_Header := [(CapabilityHeader, [stdEncode raw])]\<rparr>) sampleIntent = Inr cap"
proof -
  obtain t where t: "NewTable (fd_Region sampleOptions) (edgeRoutes sampleBackend sampleOptions) = Inr t"
    using edge_table [of sampleOptions sampleBackend] serviceRoutes_wf [of sampleFlags] by (auto simp: sampleOptions_def edgeOptions_def)
  have o: "fd_Routes sampleOptions = serviceRoutes sampleFlags" "ef_ChalaUpstream sampleFlags \<noteq> []" "ef_NacheUpstream sampleFlags \<noteq> []"
    "ef_Region sampleFlags = ''hind-1''"
    by (simp_all add: sampleOptions_def edgeOptions_def sampleFlags_def edgeDefaults_def envOr_def)
  have c: "(hr_Method runWeb, ''chala'', ''/chala/2026-09-30/instances/'', ''chala:RunInstance'', ''instance'') \<in> set namedCalls"
    "hr_Path runWeb = ''/chala/2026-09-30/instances/'' @ ''web''" "hr_Method runWeb = ''PUT''"
    by (simp_all add: runWeb_def namedCalls_def)
  have n: "dnsLabel 61 ''web''" by code_simp
  have p: "is_account_id (pr_AccountId samplePrincipal)" "plainSegment (ef_Region sampleFlags)"
    by (simp_all add: samplePrincipal_def is_account_id_def isDigit_def plainSegment_def o(4))
  have tg: "TargetFor t runWeb samplePrincipal = Inr webTarget"
    using named_target [OF t o(1) c(1,2) n, of samplePrincipal] o(2-4) by (simp add: webTarget_def)
  let ?claims = "claimsFor runWeb samplePrincipal webTarget"
  obtain token where token: "Mint sampleWire sampleMinter 0 ?claims = Inr token" by (auto simp: Mint_def sampleWire_def)
  obtain raw where raw: "marshalToken sampleWire token = Some raw" by (simp add: sampleWire_def)
  let ?v = "NewVerifier [(''k1'', replicate 32 CHR ''s'')]" and ?r = "runWeb\<lparr>hr_Header := [(CapabilityHeader, [stdEncode raw])]\<rparr>"
  have k: "m_keyID sampleMinter \<noteq> []" "lookup (v_keys ?v) (m_keyID sampleMinter) = Some (minter_PublicKey sampleWire sampleMinter)"
    "header_Get (hr_Header ?r) CapabilityHeader = stdEncode raw" "unixMilli (0 - v_Skew ?v) \<le> unixMilli (0 + m_ttl sampleMinter)"
    by (simp_all add: sampleMinter_def NewVerifier_def minter_PublicKey_def sampleWire_def header_Get_def CapabilityTTL_def unixMilli_def)
  have g: "NewGuard ?v ''chala'' (ef_Region sampleFlags) = sampleGuard" by (simp add: sampleGuard_def o(4))
  have i: "\<lparr>in_Action = ''chala:RunInstance'', in_ResourceType = ''instance'', in_ResourceID = ''web''\<rparr> = sampleIntent" by (simp add: sampleIntent_def)
  have h: "handlerOf sampleChala ''chala:RunInstance'' ''web'' = runInstance sampleChala ''web''" by (simp add: handlerOf_def)
  show ?thesis
    using authorized_calls_arrive [OF t o(1-3) c(1,2) n p tg token raw sampleWire_ok k, of sampleChala sampleNache] token raw
    unfolding g i h c(2,3) by auto
qed

text \<open>A run of \<open>web\<close>, whatever account the path's neighbours or headers mention.\<close>
lemma target_in_callers_account_witness:
  "\<exists>t tg res. NewTable (ef_Region sampleFlags) (edgeRoutes sampleBackend (edgeOptions sampleFlags sampleWire sampleMinter)) = Inr t \<and>
     TargetFor t runWeb samplePrincipal = Inr tg \<and> tg_ResourceARN tg = ''arn:dariya:chala:hind-1:000000000001:instance/web'' \<and>
     arn_Parse (tg_ResourceARN tg) = Inr res \<and> a_Account res = ''000000000001''"
proof -
  have o: "fd_Region sampleOptions = ef_Region sampleFlags" "fd_Routes sampleOptions = serviceRoutes sampleFlags"
    "ef_ChalaUpstream sampleFlags \<noteq> []" "ef_Region sampleFlags = ''hind-1''"
    by (simp_all add: sampleOptions_def edgeOptions_def sampleFlags_def edgeDefaults_def envOr_def)
  obtain t where t: "NewTable (fd_Region sampleOptions) (edgeRoutes sampleBackend sampleOptions) = Inr t"
    using edge_table [of sampleOptions sampleBackend] serviceRoutes_wf [of sampleFlags] by (auto simp: o(2))
  then have t': "NewTable (ef_Region sampleFlags) (edgeRoutes sampleBackend (edgeOptions sampleFlags sampleWire sampleMinter)) = Inr t"
    by (simp only: o(1) sampleOptions_def [symmetric])
  have c: "(hr_Method runWeb, ''chala'', ''/chala/2026-09-30/instances/'', ''chala:RunInstance'', ''instance'') \<in> set namedCalls"
    "hr_Path runWeb = ''/chala/2026-09-30/instances/'' @ ''web''"
    by (simp_all add: runWeb_def namedCalls_def)
  have n: "dnsLabel 61 ''web''" by code_simp
  have tg: "TargetFor t runWeb samplePrincipal = Inr webTarget"
    using named_target [OF t o(2) c n, of samplePrincipal] o(3,4) by (simp add: webTarget_def)
  have p: "plainSegment (ef_Region sampleFlags)" "is_account_id (pr_AccountId samplePrincipal)"
    by (simp_all add: samplePrincipal_def is_account_id_def isDigit_def plainSegment_def o(4))
  have "tg_ResourceARN webTarget = ''arn:dariya:chala:hind-1:000000000001:instance/web''"
    by (simp add: webTarget_def formatArn_def arn_String_append Partition_def samplePrincipal_def)
  moreover obtain res where "arn_Parse (tg_ResourceARN webTarget) = Inr res" "a_Account res = pr_AccountId samplePrincipal"
    using target_in_callers_account [OF t' p tg] by blast
  moreover have "pr_AccountId samplePrincipal = ''000000000001''" by (simp add: samplePrincipal_def)
  ultimately show ?thesis using t' tg by metis
qed

end
