(* ===== verification/Dariyactl.thy ===== *)
theory Dariyactl
  imports Edge_Main
begin

text \<open>
  The operator's command line (\<open>cmd/dariyactl/main.go\<close>). It works on the control-plane database directly, through the same
  account, key and policy operations as the front door, with no callback registered on them.

  What a command prints is a list of lines, each with its stream, as a format and its arguments. The flag package is
  modelled as far as the program uses it: flags that take a value. How a flag's value, a URL or the text of a
  duration is read is the library's, and is given.
\<close>

section \<open>Output and flags\<close>

datatype line = Out string "arg list" | Err string "arg list"

datatype ctlEnd = Success | Failure err | ExitCode nat

type_synonym printed = "line list \<times> ctlEnd"

definition failed :: "err \<Rightarrow> printed" where "failed e = ([], Failure e)"

definition cliError :: "string \<Rightarrow> arg list \<Rightarrow> printed" where "cliError fmt args = failed (Errorf fmt args None)"

definition defaultRegion :: string where "defaultRegion = ''hind-1''"
definition bootstrapToken :: string where "bootstrapToken = ''dariyactl-bootstrap-dev''"
definition envDSN :: string where "envDSN = ''DARIYA_DSN''"

text \<open>
  \<open>FlagSet.Parse\<close> with \<open>ExitOnError\<close>, over the defaults of the flags: the values of the flags, or the status that the
  process exits with. \<open>accepts\<close> is the \<open>Set\<close> of a flag; a value follows an equals sign or is the next argument.
\<close>

datatype parsedFlags = Parsed "string strmap" | FlagExit nat

definition flagName :: "string \<Rightarrow> string" where
  "flagName s = (if s ! 1 = CHR ''-'' then drop 2 s else drop 1 s)"

fun parseFlags :: "(string \<Rightarrow> string \<Rightarrow> bool) \<Rightarrow> string strmap \<Rightarrow> string list \<Rightarrow> parsedFlags" where
  "parseFlags accepts fs [] = Parsed fs"
| "parseFlags accepts fs (s # rest) =
     (if length s < 2 \<or> s ! 0 \<noteq> CHR ''-'' \<or> s = ''--'' then Parsed fs
      else if flagName s ! 0 = CHR ''-'' \<or> flagName s ! 0 = CHR ''='' then FlagExit 2
      else case cut CHR ''='' (flagName s) of
        Some (name, v) \<Rightarrow>
          if lookup fs name = None then FlagExit (if name = ''help'' \<or> name = ''h'' then 0 else 2)
          else if accepts name v then parseFlags accepts (AList.update name v fs) rest else FlagExit 2
      | None \<Rightarrow>
          if lookup fs (flagName s) = None then FlagExit (if flagName s = ''help'' \<or> flagName s = ''h'' then 0 else 2)
          else (case rest of
              [] \<Rightarrow> FlagExit 2
            | v # rest' \<Rightarrow>
                if accepts (flagName s) v then parseFlags accepts (AList.update (flagName s) v fs) rest' else FlagExit 2))"

definition withFlags :: "string strmap \<Rightarrow> string list \<Rightarrow> ((string \<Rightarrow> string) \<Rightarrow> ('s, printed) state) \<Rightarrow> ('s, printed) state" where
  "withFlags defaults args k =
     (case parseFlags (\<lambda>_ _. True) defaults args of
        FlagExit n \<Rightarrow> ret ([], ExitCode n)
      | Parsed fs \<Rightarrow> k (getOr [] fs))"

section \<open>Commands on the database\<close>

record 'c plane =
  pn_Aead :: aead
  pn_Keyring :: Keyring
  pn_Codec :: docCodec
  pn_Collation :: "string \<Rightarrow> 'c"

definition rootUser :: "string \<Rightarrow> string" where
  "rootUser account = ''arn:dariya:iam:'' @ defaultRegion @ '':'' @ account @ '':user/root''"

definition adminDocument :: PolicyDocument where
  "adminDocument = \<lparr>pd_Version = [], pd_Statements =
     [\<lparr>s_sid = ''everything-in-this-account'', s_effect = EFFECT_ALLOW, s_actions = [''*''], s_resources = [''*'']\<rparr>]\<rparr>"

definition grantAdmin :: "'c::linorder plane \<Rightarrow> string \<Rightarrow> ('w world_scheme, err option) state" where
  "grantAdmin srv account = do {
     created \<leftarrow> CreatePolicy (pn_Codec srv) defaultRegion
       \<lparr>cpr_AccountId = account, cpr_Name = ''root-admin'', cpr_Document = Some adminDocument, cpr_ClientToken = bootstrapToken @ ''-policy''\<rparr>;
     case created of
       Inl e \<Rightarrow> ret (Some e)
     | Inr policy \<Rightarrow> do {
         attached \<leftarrow> AttachPolicy (pn_Codec srv) None (pl_PolicyArn policy) (rootUser account);
         case attached of Inl e \<Rightarrow> ret (Some e) | Inr _ \<Rightarrow> ret None
       }
   }"

definition rootKey :: "string \<Rightarrow> CreateAccessKeyRequest" where
  "rootKey account = \<lparr>ckr_AccountId = account, ckr_PrincipalArn = [], ckr_ClientToken = []\<rparr>"

definition cmdBootstrap :: "'c::linorder plane \<Rightarrow> ('w world_scheme, printed) state" where
  "cmdBootstrap srv = do {
     acct \<leftarrow> CreateAccount ''dev'' bootstrapToken;
     case acct of
       Inl e \<Rightarrow> ret (failed e)
     | Inr acct \<Rightarrow> do {
         key \<leftarrow> CreateAccessKey (pn_Aead srv) (pn_Keyring srv) defaultRegion (rootKey (an_AccountId acct));
         case key of
           Inl e \<Rightarrow> ret (failed e)
         | Inr k \<Rightarrow> do {
             granted \<leftarrow> grantAdmin srv (an_AccountId acct);
             case granted of
               Some e \<Rightarrow> ret (failed e)
             | None \<Rightarrow> ret
                 ([Out ''# dev account %s (%s)'' [AStr (an_AccountId acct), AStr (an_Name acct)],
                   Out ''# Credentials are shown once. Re-run `make dev-token` to mint another key.'' [],
                   Out ''export DARIYA_ACCOUNT_ID=%s'' [AStr (an_AccountId acct)],
                   Out ''export DARIYA_ACCESS_KEY_ID=%s'' [AStr (ky_AccessKeyId k)],
                   Out ''export DARIYA_SECRET_ACCESS_KEY=%s'' [AStr (ky_SecretAccessKey k)],
                   Out ''export DARIYA_REGION=%s'' [AStr defaultRegion],
                   Out ''export DARIYA_PRINCIPAL_ARN=%s'' [AStr (ky_PrincipalArn k)]], Success)
           }
       }
   }"

definition serviceDocument :: "string \<Rightarrow> PolicyDocument" where
  "serviceDocument account = \<lparr>pd_Version = [], pd_Statements =
     [\<lparr>s_sid = ''own-instances-only'', s_effect = EFFECT_ALLOW, s_actions = [''chala:*''],
       s_resources = [''arn:dariya:chala:'' @ defaultRegion @ '':'' @ account @ '':*'']\<rparr>]\<rparr>"

text \<open>The body of \<open>cmdServiceAccount\<close>, once the service is known.\<close>

definition seedServiceAccount :: "'c::linorder plane \<Rightarrow> string \<Rightarrow> ('w world_scheme, printed) state" where
  "seedServiceAccount srv service = do {
     acct \<leftarrow> CreateAccount (''svc-'' @ service) (''dariyactl-service-'' @ service);
     case acct of
       Inl e \<Rightarrow> ret (failed e)
     | Inr acct \<Rightarrow> do {
         created \<leftarrow> CreatePolicy (pn_Codec srv) defaultRegion
           \<lparr>cpr_AccountId = an_AccountId acct, cpr_Name = ''run-on-chala'', cpr_Document = Some (serviceDocument (an_AccountId acct)),
            cpr_ClientToken = ''dariyactl-service-'' @ service @ ''-policy''\<rparr>;
         case created of
           Inl e \<Rightarrow> ret (failed e)
         | Inr policy \<Rightarrow> do {
             attached \<leftarrow> AttachPolicy (pn_Codec srv) None (pl_PolicyArn policy) (rootUser (an_AccountId acct));
             case attached of
               Inl e \<Rightarrow> ret (failed e)
             | Inr _ \<Rightarrow> do {
                 key \<leftarrow> CreateAccessKey (pn_Aead srv) (pn_Keyring srv) defaultRegion (rootKey (an_AccountId acct));
                 case key of
                   Inl e \<Rightarrow> ret (failed e)
                 | Inr k \<Rightarrow>
                     let upper = toUpper service; i = an_AccountId acct in ret
                     ([Out ''# service account for %s: %s (%s)'' [AStr service, AStr i, AStr (an_Name acct)],
                       Out ''# The control plane signs with these. chala must be started with DARIYA_SERVICE_ACCOUNTS'' [],
                       Out ''# including %s=%s, or every attach is refused.'' [AStr i, AStr service],
                       Out ''export %s_ACCOUNT_ID=%s'' [AStr upper, AStr i],
                       Out ''export %s_ACCESS_KEY_ID=%s'' [AStr upper, AStr (ky_AccessKeyId k)],
                       Out ''export %s_SECRET_ACCESS_KEY=%s'' [AStr upper, AStr (ky_SecretAccessKey k)],
                       Out ''export DARIYA_SERVICE_ACCOUNTS=%s=%s'' [AStr i, AStr service]], Success)
               }
           }
       }
   }"

definition cmdServiceAccount :: "'c::linorder plane \<Rightarrow> string list \<Rightarrow> ('w world_scheme, printed) state" where
  "cmdServiceAccount srv args = withFlags [(''service'', [])] args (\<lambda>flag.
     if flag ''service'' = [] \<or> flag ''service'' = ''chala''
     then ret (cliError ''service-account: --service is required, and chala does not run on itself'' [])
     else seedServiceAccount srv (flag ''service''))"

text \<open>The two listings print every page before they ask for the next one; \<^const>\<open>None\<close> is a run that did not end.\<close>

fun listLoop :: "nat \<Rightarrow> (string \<Rightarrow> ('s, err + 'r list \<times> string) state) \<Rightarrow> ('r \<Rightarrow> line) \<Rightarrow> string \<Rightarrow> ('s, printed option) state" where
  "listLoop 0 page show token = ret None"
| "listLoop (Suc fuel) page show token = do {
     resp \<leftarrow> page token;
     case resp of
       Inl e \<Rightarrow> ret (Some (failed e))
     | Inr (rows, next) \<Rightarrow>
         if next = [] then ret (Some (map show rows, Success))
         else do {
           rest \<leftarrow> listLoop fuel page show next;
           ret (map_option (\<lambda>(out, end). (map show rows @ out, end)) rest)
         }
   }"

definition showAccount :: "Account \<Rightarrow> line" where
  "showAccount a = Out (''%s'' @ CHR 0x09 # ''%s'' @ CHR 0x09 # ''%s'')
     [AStr (an_AccountId a), AStr (an_Name a), AStr (stateName (an_State a))]"

definition cmdAccount :: "nat \<Rightarrow> 'c::linorder plane \<Rightarrow> string list \<Rightarrow> ('w world_scheme, printed option) state" where
  "cmdAccount fuel srv args =
     (case args of
        [] \<Rightarrow> ret (Some (cliError ''account: want `create` or `list`'' []))
      | sub # rest \<Rightarrow>
          if sub = ''create'' then do {
            out \<leftarrow> withFlags [(''name'', [])] rest (\<lambda>flag. do {
              resp \<leftarrow> CreateAccount (flag ''name'') [];
              case resp of Inl e \<Rightarrow> ret (failed e) | Inr a \<Rightarrow> ret ([showAccount a], Success)
            });
            ret (Some out)
          }
          else if sub = ''list'' then listLoop fuel (ListAccounts (pn_Collation srv) 0) showAccount []
          else ret (Some (cliError ''account: unknown subcommand %q'' [AStr sub])))"

definition showKey :: "AccessKey \<Rightarrow> line" where
  "showKey k = Out (''%s'' @ CHR 0x09 # ''%s'' @ CHR 0x09 # ''%s'')
     [AStr (ky_AccessKeyId k), AStr (ky_PrincipalArn k), AStr (stateName (ky_State k))]"

definition cmdKey :: "nat \<Rightarrow> 'c::linorder plane \<Rightarrow> string list \<Rightarrow> ('w world_scheme, printed option) state" where
  "cmdKey fuel srv args =
     (case args of
        [] \<Rightarrow> ret (Some (cliError ''key: want `create`, `list` or `delete`'' []))
      | sub # rest \<Rightarrow>
          if sub = ''create'' then do {
            out \<leftarrow> withFlags [(''account'', []), (''principal'', [])] rest (\<lambda>flag. do {
              resp \<leftarrow> CreateAccessKey (pn_Aead srv) (pn_Keyring srv) defaultRegion
                \<lparr>ckr_AccountId = flag ''account'', ckr_PrincipalArn = flag ''principal'', ckr_ClientToken = []\<rparr>;
              case resp of
                Inl e \<Rightarrow> ret (failed e)
              | Inr k \<Rightarrow> ret
                  ([Out ''access key id:     %s'' [AStr (ky_AccessKeyId k)], Out ''secret access key: %s'' [AStr (ky_SecretAccessKey k)],
                    Out ''principal:         %s'' [AStr (ky_PrincipalArn k)], Out [] [],
                    Err ''The secret is shown once and is not recoverable. Save it now.'' []], Success)
            });
            ret (Some out)
          }
          else if sub = ''list'' then
            (case parseFlags (\<lambda>_ _. True) [(''account'', [])] rest of
               FlagExit n \<Rightarrow> ret (Some ([], ExitCode n))
             | Parsed fs \<Rightarrow> listLoop fuel (ListAccessKeys (pn_Collation srv) (getOr [] fs ''account'') 0) showKey [])
          else if sub = ''delete'' then do {
            out \<leftarrow> withFlags [(''id'', [])] rest (\<lambda>flag. do {
              resp \<leftarrow> DeleteAccessKey None (flag ''id'');
              case resp of
                Inl e \<Rightarrow> ret (failed e)
              | Inr _ \<Rightarrow> ret ([Out ''deleted %s'' [AStr (flag ''id'')]], Success)
            });
            ret (Some out)
          }
          else ret (Some (cliError ''key: unknown subcommand %q'' [AStr sub])))"

section \<open>Commands without a database\<close>

text \<open>What \<open>net/url\<close>, \<open>time\<close> and \<open>fmt\<close> are asked: a URL with its path, its query and its text; a duration; the date of an
  instant; and the decimal text of a number.\<close>

record cliURL =
  ur_Path :: string
  ur_Query :: urlValues
  ur_String :: string

record cliLib =
  lb_ParseURL :: "string \<Rightarrow> err + cliURL"
  lb_ParseDuration :: "string \<Rightarrow> duration option"
  lb_Civil :: "time \<Rightarrow> civil"

definition cmdSign :: "cliLib \<Rightarrow> (string \<Rightarrow> string) \<Rightarrow> string list \<Rightarrow> ('w world_scheme, printed) state" where
  "cmdSign lib getenv args = withFlags
     [(''key'', getenv ''DARIYA_ACCESS_KEY_ID''), (''secret'', getenv ''DARIYA_SECRET_ACCESS_KEY''),
      (''region'', envOr getenv ''DARIYA_REGION'' defaultRegion), (''service'', []), (''method'', ''GET''),
      (''url'', ''http://localhost:8080/''), (''body'', [])] args (\<lambda>flag.
     if flag ''key'' = [] \<or> flag ''secret'' = [] then
       ret (cliError ''sign: --key and --secret are required (or run `make dev-token`)'' [])
     else if flag ''service'' = [] then
       ret (cliError ''sign: --service is required -- it is part of the signature, not a hint'' [])
     else case lb_ParseURL lib (flag ''url'') of
       Inl e \<Rightarrow> ret (failed (Errorf ''sign: --url: %w'' [] (Some e)))
     | Inr u \<Rightarrow> do {
         now \<leftarrow> gets w_now;
         let (auth, headers) = sg_Sign
           \<lparr>sr_Method = flag ''method'', sr_Path = ur_Path u, sr_Query = ur_Query u, sr_Body = flag ''body''\<rparr>
           \<lparr>cr_AccessKeyID = flag ''key'', cr_Secret = flag ''secret''\<rparr> (flag ''region'') (flag ''service'') (lb_Civil lib now) in
         ret
          ([Err ''# valid for %s'' [ANum MaxSkew],
            Out (''curl -sS -X %s '' @ [CHR 0x5C]) [AStr (toUpper (flag ''method''))],
            Out (''  -H 'Authorization: %s' '' @ [CHR 0x5C]) [AStr auth]] @
           map (\<lambda>h. Out (''  -H '%s: %s' '' @ [CHR 0x5C]) [AStr h, AStr (getOr [] headers h)]) [DateHeader, ContentSHA256Header] @
           (if flag ''body'' \<noteq> [] then [Out (''  --data-raw '%s' '' @ [CHR 0x5C]) [AStr (flag ''body'')]] else []) @
           [Out (''  '%s'' @ [CHR 0x27]) [AStr (ur_String u)]], Success)
       })"

text \<open>\<open>secrets.GenerateKey\<close> and \<open>capability.GenerateKey\<close>: bytes of the entropy source, which are the seed of the key pair.\<close>

definition secrets_GenerateKey :: "('w world_scheme, err + bytes) state" where
  "secrets_GenerateKey = do {
     key \<leftarrow> randRead KeySize;
     case key of None \<Rightarrow> ret (Inl ErrEntropy) | Some key \<Rightarrow> ret (Inr key)
   }"

definition capability_GenerateKey :: "wire \<Rightarrow> ('w world_scheme, err + bytes \<times> bytes) state" where
  "capability_GenerateKey w = do {
     seed \<leftarrow> randRead SeedSize;
     case seed of None \<Rightarrow> ret (Inl ErrEntropy) | Some seed \<Rightarrow> ret (Inr (seed, ed_public w seed))
   }"

definition cmdKeygen :: "wire \<Rightarrow> ('w world_scheme, printed) state" where
  "cmdKeygen w = do {
     master \<leftarrow> secrets_GenerateKey;
     case master of
       Inl e \<Rightarrow> ret (failed e)
     | Inr master \<Rightarrow> do {
         pair \<leftarrow> capability_GenerateKey w;
         case pair of
           Inl e \<Rightarrow> ret (failed e)
         | Inr (seed, pub) \<Rightarrow> ret
             ([Out ''export %s=dev1:%s'' [AStr MasterKeysEnv, AStr (stdEncode master)],
               Out ''export %s=dev1:%s'' [AStr EnvSigningKey, AStr (stdEncode seed)],
               Out ''export %s=dev1:%s'' [AStr EnvPublicKeys, AStr (stdEncode pub)],
               Err (''# Keep these. Credentials encrypted under a previous master key stop decrypting, and '' @
                 ''tokens signed by a previous key stop verifying.'') []], Success)
       }
   }"

definition cmdMintCapability :: "cliLib \<Rightarrow> wire \<Rightarrow> (string \<Rightarrow> string) \<Rightarrow> string list \<Rightarrow> ('w world_scheme, printed) state" where
  "cmdMintCapability lib w getenv args =
     (case parseFlags (\<lambda>name v. name = ''ttl'' \<longrightarrow> lb_ParseDuration lib v \<noteq> None)
        [(''action'', []), (''resource'', []), (''account'', envOr getenv ''DARIYA_ACCOUNT_ID'' []),
         (''principal'', envOr getenv ''DARIYA_PRINCIPAL_ARN'' []), (''ttl'', [])] args of
        FlagExit n \<Rightarrow> ret ([], ExitCode n)
      | Parsed fs \<Rightarrow>
          let flag = getOr [] fs;
              ttl = (case lb_ParseDuration lib (flag ''ttl'') of None \<Rightarrow> CapabilityTTL | Some d \<Rightarrow> d) in
          if flag ''action'' = [] \<or> flag ''resource'' = [] \<or> flag ''account'' = [] then
            ret (cliError ''mint-capability: --action, --resource and --account are required'' [])
          else
            let principal = (if flag ''principal'' = [] then rootUser (flag ''account'') else flag ''principal'') in
            (case NewMinterFromEnv getenv ttl of
               Inl e \<Rightarrow> ret (failed e)
             | Inr m \<Rightarrow> do {
                 now \<leftarrow> gets w_now;
                 case Mint w m now
                   \<lparr>cl_AccountID = flag ''account'', cl_CallerAccountID = [], cl_PrincipalARN = principal, cl_Action = flag ''action'',
                    cl_ResourceARN = flag ''resource'', cl_RequestID = ''e1-'' @ (if now < 0 then CHR ''-'' # decimal (nat (- now)) else decimal (nat now))\<rparr> of
                   Inl e \<Rightarrow> ret (failed e)
                 | Inr token \<Rightarrow>
                     (case marshalToken w token of
                        None \<Rightarrow> ret (failed (Sentinel ''string field contains invalid UTF-8''))
                      | Some encoded \<Rightarrow> ret ([Out ''%s'' [AStr (stdEncode encoded)], Err ''# valid for %s'' [ANum ttl]], Success))
               }))"

section \<open>The program\<close>

definition usage :: "line list" where
  "usage = map (\<lambda>l. Err l [])
     [''dariyactl -- operator CLI for the dariyanWS control plane'', [],
      ''  dariyactl bootstrap'', ''  dariyactl account create --name NAME'', ''  dariyactl account list'',
      ''  dariyactl key create --account ID [--principal ARN]'', ''  dariyactl key list --account ID'', ''  dariyactl key delete --id KEYID'',
      ''  dariyactl sign --service SVC --url URL [--method M] [--body B]'', ''  dariyactl keygen'',
      ''  dariyactl mint-capability --action A --resource ARN --account ID [--principal ARN]'', [],
      ''Environment:'', ''  DARIYA_DSN            Postgres DSN (default: the local region)'',
      ''  DARIYA_MASTER_KEYS    master keys for credential encryption (see `make dev-keys`)'']"

text \<open>How a command's end becomes the end of the process: \<open>fatal\<close> reports the error and exits with 1.\<close>

definition conclude :: "printed \<Rightarrow> line list \<times> nat" where
  "conclude p = (case p of
     (out, Success) \<Rightarrow> (out, 0)
   | (out, Failure e) \<Rightarrow> (out @ [Err ''dariyactl: %v'' [AErr e]], 1)
   | (out, ExitCode n) \<Rightarrow> (out, n))"

definition dial :: "'w world_scheme storeLib \<Rightarrow> string \<Rightarrow> (string \<Rightarrow> string) \<Rightarrow> ('w world_scheme, err + Keyring) state" where
  "dial lib defaultDSN getenv = do {
     opened \<leftarrow> sl_Open lib (if getenv envDSN = [] then defaultDSN else getenv envDSN);
     case opened of
       Some e \<Rightarrow> ret (Inl (Errorf ''%w\<newline>\<newline>Is the region up? Try `make region-up`.'' [] (Some e)))
     | None \<Rightarrow> do {
         migrated \<leftarrow> sl_Migrate lib;
         case migrated of
           Some e \<Rightarrow> ret (Inl e)
         | None \<Rightarrow>
             (case NewKeyringFromEnv getenv of
                Inl e \<Rightarrow> ret (Inl (Errorf ''%w\<newline>\<newline>Generate one with `make dev-keys` and export it.'' [] (Some e)))
              | Inr kr \<Rightarrow> ret (Inr kr))
       }
   }"

text \<open>The program after \<open>os.Args[0]\<close>. The keyring of the plane is the environment's.\<close>

definition ctlMain ::
  "nat \<Rightarrow> cliLib \<Rightarrow> wire \<Rightarrow> 'w world_scheme storeLib \<Rightarrow> string \<Rightarrow> 'c::linorder plane \<Rightarrow> (string \<Rightarrow> string) \<Rightarrow> string list \<Rightarrow>
   ('w world_scheme, (line list \<times> nat) option) state" where
  "ctlMain fuel lib w st defaultDSN srv getenv args =
     (case args of
        [] \<Rightarrow> ret (Some (usage, 2))
      | sub # rest \<Rightarrow>
          if sub = ''mint-capability'' then do { p \<leftarrow> cmdMintCapability lib w getenv rest; ret (Some (conclude p)) }
          else if sub = ''keygen'' then do { p \<leftarrow> cmdKeygen w; ret (Some (conclude p)) }
          else if sub = ''sign'' then do { p \<leftarrow> cmdSign lib getenv rest; ret (Some (conclude p)) }
          else do {
            dialled \<leftarrow> dial st defaultDSN getenv;
            case dialled of
              Inl e \<Rightarrow> ret (Some (conclude (failed e)))
            | Inr kr \<Rightarrow>
                let srv = srv\<lparr>pn_Keyring := kr\<rparr> in
                if sub = ''bootstrap'' then do { p \<leftarrow> cmdBootstrap srv; ret (Some (conclude p)) }
                else if sub = ''service-account'' then do { p \<leftarrow> cmdServiceAccount srv rest; ret (Some (conclude p)) }
                else if sub = ''account'' then do { p \<leftarrow> cmdAccount fuel srv rest; ret (map_option conclude p) }
                else if sub = ''key'' then do { p \<leftarrow> cmdKey fuel srv rest; ret (map_option conclude p) }
                else ret (Some (usage, 2))
          })"

end
