(* ===== verification/Operator.thy ===== *)
theory Operator
  imports Dariyactl
begin

text \<open>
  What the operator's commands leave behind: the policies of the accounts that they seed, and the keys that they
  print.
\<close>

section \<open>The root user of a fresh account\<close>

lemma rootUser_parse:
  "is_account_id i \<Longrightarrow> arn_Parse (rootUser i) =
     Inr \<lparr>a_Service = ''iam'', a_Region = defaultRegion, a_Account = i, a_Type = ''user'', a_ID = ''root''\<rparr>"
proof -
  let ?a = "\<lparr>a_Service = ''iam'', a_Region = defaultRegion, a_Account = i, a_Type = ''user'', a_ID = ''root''\<rparr>"
  assume "is_account_id i"
  then have "wf_arn ?a" by (simp add: wf_arn_def defaultRegion_def)
  moreover have "rootUser i = arn_String ?a" by (simp add: rootUser_def arn_String_append Partition_def)
  ultimately show ?thesis using Parse_String by simp
qed

lemma no_policies_of_new_account:
  "wf_db d \<Longrightarrow> accountById i d = None \<Longrightarrow> r \<in> set (d_policies d) \<Longrightarrow> po_account r \<noteq> i"
  unfolding wf_db_def accountById_def find_None by fastforce

lemma root_unattached:
  assumes "wf_db d" "attachedWithinAccount d" "is_account_id i" "\<forall>r \<in> set (d_policies d). po_account r \<noteq> i"
    "t \<in> set (d_attach d)"
  shows "at_principal t \<noteq> rootUser i"
proof
  assume "at_principal t = rootUser i"
  obtain r where "r \<in> set (d_policies d)" "po_arn r = at_policy t" using assms(1,5) unfolding wf_db_def by fastforce
  then obtain ident where "arn_Parse (at_principal t) = Inr ident" "a_Account ident = po_account r"
    using assms(2,5) unfolding attachedWithinAccount_def by blast
  then show False using \<open>at_principal t = rootUser i\<close> rootUser_parse [OF assms(3)] assms(4) \<open>r \<in> set (d_policies d)\<close> by auto
qed

section \<open>One policy, attached to the root user\<close>

lemma grant_stores:
  assumes "json_ok dj" "is_account_id i" "\<forall>r \<in> set (d_policies (w_db w)). po_account r \<noteq> i"
    "run (CreatePolicy dj defaultRegion \<lparr>cpr_AccountId = i, cpr_Name = name, cpr_Document = Some doc, cpr_ClientToken = tok\<rparr>) w = (Inr p, w1)"
    "run (AttachPolicy dj None (pl_PolicyArn p) (rootUser i)) w1 = (Inr (), w2)"
  shows "\<exists>row t. w_db w2 = withAttachment \<lparr>at_policy = po_arn row, at_principal = rootUser i, at_created = t\<rparr> (withPolicy row tok (w_db w)) \<and>
    po_arn row = PolicyARN defaultRegion i name \<and> po_account row = i \<and> dj_Unmarshal dj (po_document row) = Some (withVersion doc) \<and>
    policyByArn (po_arn row) (w_db w) = None \<and> accountById i (w_db w) \<noteq> None \<and>
    \<not> list_ex (\<lambda>x. po_account x = po_account row \<and> po_name x = po_name row) (d_policies (w_db w)) \<and>
    (tok = [] \<or> idemById ''CreatePolicy'' tok (w_db w) = None)"
proof -
  from AttachPolicy_cases [OF assms(5)] obtain prow ident t where a: "policyByArn (pl_PolicyArn p) (w_db w1) = Some prow"
    "arn_Parse (rootUser i) = Inr ident" "a_Account ident = po_account prow"
    "w_db w2 = withAttachment \<lparr>at_policy = pl_PolicyArn p, at_principal = rootUser i, at_created = t\<rparr> (w_db w1)"
    by (auto simp: principalChanged_def)
  have acct: "po_account prow = i" using a(2,3) rootUser_parse [OF assms(2)] by auto
  from CreatePolicy_stores [OF assms(4)] obtain encoded where enc: "dj_Marshal dj (withVersion doc) = Some encoded"
    and st: "run (storePolicy dj \<lparr>po_arn = PolicyARN defaultRegion i name, po_account = i, po_name = name,
        po_document = encoded, po_created = unixMilli (w_now w)\<rparr> (withVersion doc) tok) w = (Inr p, w1)" by auto
  let ?row = "\<lparr>po_arn = PolicyARN defaultRegion i name, po_account = i, po_name = name, po_document = encoded,
    po_created = unixMilli (w_now w)\<rparr>"
  have un: "dj_Unmarshal dj encoded = Some (withVersion doc)" using assms(1) enc by (auto simp: json_ok_def)
  have "w_db w1 \<noteq> w_db w"
    using policyByArn_Some [OF a(1)] assms(3) acct by auto
  with storePolicy_cases [OF st] have "policyByArn (PolicyARN defaultRegion i name) (w_db w) = None" "accountById i (w_db w) \<noteq> None"
    "\<not> list_ex (\<lambda>x. po_account x = i \<and> po_name x = name) (d_policies (w_db w))" "tok = [] \<or> idemById ''CreatePolicy'' tok (w_db w) = None"
    "pl_PolicyArn p = PolicyARN defaultRegion i name" "w_db w1 = withPolicy ?row tok (w_db w)" by auto
  then show ?thesis using a(4) un by (intro exI [of _ ?row] exI [of _ t]) simp
qed

lemma granted_policies:
  assumes "wf_db d" "attachedWithinAccount d" "is_account_id i" "\<forall>r \<in> set (d_policies d). po_account r \<noteq> i"
    "policyByArn (po_arn row) d = None" "dj_Unmarshal dj (po_document row) = Some doc"
  shows "policiesTruth dj ck (withAttachment \<lparr>at_policy = po_arn row, at_principal = rootUser i, at_created = t\<rparr> (withPolicy row tok d)) (rootUser i) =
    Inr [\<lparr>ap_PolicyARN = po_arn row, ap_Document = Some (pd_Statements doc)\<rparr>]"
proof -
  let ?t = "\<lparr>at_policy = po_arn row, at_principal = rootUser i, at_created = t\<rparr>"
  have none: "filter (\<lambda>a. at_principal a = rootUser i) (d_attach d) = []"
    using root_unattached [OF assms(1-4)] by (auto simp: filter_empty_conv)
  have new: "\<not> list_ex (\<lambda>x. at_policy x = po_arn row \<and> at_principal x = rootUser i) (d_attach d)"
    using root_unattached [OF assms(1-4)] by (auto simp: list_ex_iff)
  have "filter (\<lambda>p. po_arn p = po_arn row) (d_policies d) = []" using assms(5) unfolding policyByArn_None filter_empty_conv by (metis imageI)
  then have "attachedRows ck (rootUser i) (withAttachment ?t (withPolicy row tok d)) = [row]"
    using none new by (simp add: attachedRows_def withAttachment_def withPolicy_def)
  then show ?thesis using assms(6) by (simp add: policiesTruth_def)
qed

lemma one_statement_decides:
  assumes "policiesCoherent dj ck p" "policiesTruth dj ck (w_db p) (rootUser i) = Inr [\<lparr>ap_PolicyARN = arn, ap_Document = Some [st]\<rparr>]"
    "s_effect st = EFFECT_ALLOW" "is_account_id i" "aq_PrincipalArn q = rootUser i"
    "run (authorizer_Authorize dj ck dev q) p = (Inr resp, p')"
  shows "as_Decision resp = DECISION_ALLOW \<longleftrightarrow>
    (\<exists>res. arn_Parse (aq_ResourceArn q) = Inr res \<and> a_Account res = i) \<and>
    matchesAny (s_actions st) (aq_Action q) \<and> matchesAny (s_resources st) (aq_ResourceArn q)"
proof -
  obtain ps v where c: "run (cachedPolicies dj ck (rootUser i)) p = (ps, v)" by fastforce
  have "\<exists>e. ps = Inl e \<or> ps = Inr [\<lparr>ap_PolicyARN = arn, ap_Document = Some [st]\<rparr>]"
    using cachedPolicies_run(1) [OF assms(1) c] assms(2) by auto
  then show ?thesis
    using assms(3,5,6) c rootUser_parse [OF assms(4)]
    by (auto simp: authorizer_Authorize_def authorize_def Let_def Evaluate_allow_iff statementsOf_def matches_def split: if_splits sum.splits)
qed

lemma fresh_account:
  assumes "run (CreateAccount name tok) w = (Inr a, w')" "idemById ''CreateAccount'' tok (w_db w) = None" "wf_db (w_db w)" "attachedWithinAccount (w_db w)"
  shows "is_account_id (an_AccountId a) \<and> (\<forall>r \<in> set (d_policies (w_db w')). po_account r \<noteq> an_AccountId a) \<and>
    d_policies (w_db w') = d_policies (w_db w) \<and> d_attach (w_db w') = d_attach (w_db w) \<and> wf_db (w_db w') \<and> attachedWithinAccount (w_db w')"
  using CreateAccount_outcome [OF assms(1)] assms(2-4) wf_createOutcome [OF assms(3) CreateAccount_outcome [OF assms(1)]]
    no_policies_of_new_account [OF assms(3)]
  by (auto simp: createOutcome_def withAccount_def accountOf_def newAccountRow_def attachedWithinAccount_def)

lemma root_key_stores:
  assumes "gcm_ok g" "wf_keyring kr" "run (CreateAccessKey g kr defaultRegion (rootKey i)) w = (Inr k, w')"
  shows "\<exists>row. w_db w' = withKey row [] (w_db w) \<and> ak_account row = i \<and> ky_AccessKeyId k = ak_id row \<and> keyById (ak_id row) (w_db w) = None \<and>
    accountById i (w_db w) \<noteq> None \<and> ky_PrincipalArn k = rootUser i \<and>
    signingTruth g kr (w_db w') (ky_AccessKeyId k) =
      Inr \<lparr>sk_AccessKeyID = ky_AccessKeyId k, sk_AccountID = i, sk_PrincipalARN = rootUser i, sk_Secret = ky_SecretAccessKey k\<rparr>"
  using CreateAccessKey_outcome [OF assms] keyOutcome_Inr [OF CreateAccessKey_outcome [OF assms]]
  by (auto simp: keyOutcome_def rootKey_def resolvePrincipalARN_def rootUser_def)

lemma truth_withKey: "policiesTruth dj ck (withKey row tok d) k = policiesTruth dj ck d k"
  by (rule policiesTruth_cong) (simp_all add: withKey_def)

section \<open>What the seeded credentials may do\<close>

lemma Match_star: "Match (p @ ''*'') v \<longleftrightarrow> hasPrefix v p"
  by (auto simp: Match_iff)

lemma service_statement:
  "\<exists>st. pd_Statements (withVersion (serviceDocument i)) = [st] \<and> s_effect st = EFFECT_ALLOW \<and>
    (\<forall>v. matchesAny (s_actions st) v \<longleftrightarrow> hasPrefix v ''chala:'') \<and>
    (\<forall>v. matchesAny (s_resources st) v \<longleftrightarrow> hasPrefix v (''arn:dariya:chala:'' @ defaultRegion @ '':'' @ i @ '':''))"
  using Match_star [of "''chala:''"] Match_star [of "''arn:dariya:chala:'' @ defaultRegion @ '':'' @ i @ '':''"]
  by (simp add: withVersion_def serviceDocument_def matchesAny_iff)

lemma admin_statement:
  "\<exists>st. pd_Statements (withVersion adminDocument) = [st] \<and> s_effect st = EFFECT_ALLOW \<and>
    (\<forall>v. matchesAny (s_actions st) v) \<and> (\<forall>v. matchesAny (s_resources st) v)"
  by (auto simp: withVersion_def adminDocument_def Match_def)

text \<open>C24: the credentials that \<open>service-account\<close> prints are the root user of the service's own new account, and all they may do,
  on a front door whose policy cache agrees with the tables, is compute operations on that account's own
  resources: a question is answered with an allow exactly when its action is one of \<open>chala\<close>'s and its resource
  is a resource of \<open>chala\<close> in that account.\<close>
theorem service_account_is_least_privilege:
  assumes "gcm_ok (pn_Aead srv)" "wf_keyring (pn_Keyring srv)" "json_ok (pn_Codec srv)"
    and "wf_db (w_db w)" "attachedWithinAccount (w_db w)"
    and "idemById ''CreateAccount'' (''dariyactl-service-'' @ service) (w_db w) = None"
    and "run (seedServiceAccount srv service) w = ((out, Success), w')"
  shows "\<exists>i kid secret. is_account_id i \<and>
    [Out ''export %s_ACCOUNT_ID=%s'' [AStr (toUpper service), AStr i], Out ''export %s_ACCESS_KEY_ID=%s'' [AStr (toUpper service), AStr kid],
     Out ''export %s_SECRET_ACCESS_KEY=%s'' [AStr (toUpper service), AStr secret]] = take 3 (drop 3 out) \<and>
    signingTruth (pn_Aead srv) (pn_Keyring srv) (w_db w') kid =
      Inr \<lparr>sk_AccessKeyID = kid, sk_AccountID = i, sk_PrincipalARN = rootUser i, sk_Secret = secret\<rparr> \<and>
    (\<forall>p q dev resp p'. policiesCoherent (pn_Codec srv) (pn_Collation srv) p \<longrightarrow> w_db p = w_db w' \<longrightarrow> aq_PrincipalArn q = rootUser i \<longrightarrow>
      run (authorizer_Authorize (pn_Codec srv) (pn_Collation srv) dev q) p = (Inr resp, p') \<longrightarrow>
      (as_Decision resp = DECISION_ALLOW \<longleftrightarrow> hasPrefix (aq_Action q) ''chala:'' \<and>
        hasPrefix (aq_ResourceArn q) (''arn:dariya:chala:'' @ defaultRegion @ '':'' @ i @ '':'') \<and>
        (\<exists>res. arn_Parse (aq_ResourceArn q) = Inr res \<and> a_Account res = i)))"
proof -
  obtain a w1 where a: "run (CreateAccount (''svc-'' @ service) (''dariyactl-service-'' @ service)) w = (Inr a, w1)"
    using assms(7) by (cases "run (CreateAccount (''svc-'' @ service) (''dariyactl-service-'' @ service)) w")
      (auto simp: seedServiceAccount_def failed_def split: sum.splits)
  let ?i = "an_AccountId a"
  note f = fresh_account [OF a assms(6,4,5)]
  let ?create = "CreatePolicy (pn_Codec srv) defaultRegion \<lparr>cpr_AccountId = ?i, cpr_Name = ''run-on-chala'',
    cpr_Document = Some (serviceDocument ?i), cpr_ClientToken = ''dariyactl-service-'' @ service @ ''-policy''\<rparr>"
  obtain pol w2 where pol: "run ?create w1 = (Inr pol, w2)"
    using assms(7) a by (cases "run ?create w1") (auto simp: seedServiceAccount_def failed_def split: sum.splits)
  let ?attach = "AttachPolicy (pn_Codec srv) None (pl_PolicyArn pol) (rootUser ?i)"
  obtain w3 where att: "run ?attach w2 = (Inr (), w3)"
    using assms(7) a pol by (cases "run ?attach w2") (auto simp: seedServiceAccount_def failed_def split: sum.splits)
  let ?key = "CreateAccessKey (pn_Aead srv) (pn_Keyring srv) defaultRegion (rootKey ?i)"
  obtain k where key: "run ?key w3 = (Inr k, w')"
    using assms(7) a pol att by (cases "run ?key w3") (auto simp: seedServiceAccount_def failed_def Let_def split: sum.splits)
  have out: "take 3 (drop 3 out) = [Out ''export %s_ACCOUNT_ID=%s'' [AStr (toUpper service), AStr ?i],
      Out ''export %s_ACCESS_KEY_ID=%s'' [AStr (toUpper service), AStr (ky_AccessKeyId k)],
      Out ''export %s_SECRET_ACCESS_KEY=%s'' [AStr (toUpper service), AStr (ky_SecretAccessKey k)]]"
    using assms(7) a pol att key by (auto simp: seedServiceAccount_def Let_def)
  from grant_stores [OF assms(3) conjunct1 [OF f] conjunct1 [OF conjunct2 [OF f]] pol att] obtain row t where
    g: "w_db w3 = withAttachment \<lparr>at_policy = po_arn row, at_principal = rootUser ?i, at_created = t\<rparr> (withPolicy row (''dariyactl-service-'' @ service @ ''-policy'') (w_db w1))"
      "dj_Unmarshal (pn_Codec srv) (po_document row) = Some (withVersion (serviceDocument ?i))" "policyByArn (po_arn row) (w_db w1) = None" by blast
  have pt: "policiesTruth (pn_Codec srv) (pn_Collation srv) (w_db w') (rootUser ?i) =
      Inr [\<lparr>ap_PolicyARN = po_arn row, ap_Document = Some (pd_Statements (withVersion (serviceDocument ?i)))\<rparr>]"
    using root_key_stores [OF assms(1,2) key] granted_policies [OF _ _ _ _ g(3,2)] f by (auto simp: truth_withKey g(1))
  obtain st where st: "pd_Statements (withVersion (serviceDocument ?i)) = [st]" "s_effect st = EFFECT_ALLOW"
    "\<And>v. matchesAny (s_actions st) v \<longleftrightarrow> hasPrefix v ''chala:''"
    "\<And>v. matchesAny (s_resources st) v \<longleftrightarrow> hasPrefix v (''arn:dariya:chala:'' @ defaultRegion @ '':'' @ ?i @ '':'')"
    using service_statement [of ?i] by blast
  have "as_Decision resp = DECISION_ALLOW \<longleftrightarrow> hasPrefix (aq_Action q) ''chala:'' \<and>
        hasPrefix (aq_ResourceArn q) (''arn:dariya:chala:'' @ defaultRegion @ '':'' @ ?i @ '':'') \<and>
        (\<exists>res. arn_Parse (aq_ResourceArn q) = Inr res \<and> a_Account res = ?i)"
    if "policiesCoherent (pn_Codec srv) (pn_Collation srv) p" "w_db p = w_db w'" "aq_PrincipalArn q = rootUser ?i"
      "run (authorizer_Authorize (pn_Codec srv) (pn_Collation srv) dev q) p = (Inr resp, p')" for p q dev resp p'
    using one_statement_decides [OF that(1) _ st(2) conjunct1 [OF f] that(3,4)] pt that(2)
    unfolding st(1,3,4) by metis
  then show ?thesis using f out root_key_stores [OF assms(1,2) key] by auto
qed

lemma bootstrap_Success:
  assumes "run (cmdBootstrap srv) w = ((out, Success), w')"
  obtains a w1 k w2 p w3 where "run (CreateAccount ''dev'' bootstrapToken) w = (Inr a, w1)"
    "run (CreateAccessKey (pn_Aead srv) (pn_Keyring srv) defaultRegion (rootKey (an_AccountId a))) w1 = (Inr k, w2)"
    "run (CreatePolicy (pn_Codec srv) defaultRegion \<lparr>cpr_AccountId = an_AccountId a, cpr_Name = ''root-admin'',
      cpr_Document = Some adminDocument, cpr_ClientToken = bootstrapToken @ ''-policy''\<rparr>) w2 = (Inr p, w3)"
    "run (AttachPolicy (pn_Codec srv) None (pl_PolicyArn p) (rootUser (an_AccountId a))) w3 = (Inr (), w')"
    "take 3 (drop 2 out) = [Out ''export DARIYA_ACCOUNT_ID=%s'' [AStr (an_AccountId a)],
      Out ''export DARIYA_ACCESS_KEY_ID=%s'' [AStr (ky_AccessKeyId k)],
      Out ''export DARIYA_SECRET_ACCESS_KEY=%s'' [AStr (ky_SecretAccessKey k)]]"
proof -
  obtain a w1 where a: "run (CreateAccount ''dev'' bootstrapToken) w = (Inr a, w1)"
    using assms by (cases "run (CreateAccount ''dev'' bootstrapToken) w") (auto simp: cmdBootstrap_def failed_def split: sum.splits)
  let ?key = "CreateAccessKey (pn_Aead srv) (pn_Keyring srv) defaultRegion (rootKey (an_AccountId a))"
  obtain k w2 where k: "run ?key w1 = (Inr k, w2)"
    using assms a by (cases "run ?key w1") (auto simp: cmdBootstrap_def failed_def split: sum.splits)
  let ?create = "CreatePolicy (pn_Codec srv) defaultRegion \<lparr>cpr_AccountId = an_AccountId a, cpr_Name = ''root-admin'',
      cpr_Document = Some adminDocument, cpr_ClientToken = bootstrapToken @ ''-policy''\<rparr>"
  obtain p w3 where p: "run ?create w2 = (Inr p, w3)"
    using assms a k by (cases "run ?create w2") (auto simp: cmdBootstrap_def grantAdmin_def failed_def split: sum.splits)
  let ?attach = "AttachPolicy (pn_Codec srv) None (pl_PolicyArn p) (rootUser (an_AccountId a))"
  have "run ?attach w3 = (Inr (), w')"
    using assms a k p by (cases "run ?attach w3") (auto simp: cmdBootstrap_def grantAdmin_def failed_def split: sum.splits)
  then show thesis using that [OF a k p] assms a k p by (auto simp: cmdBootstrap_def grantAdmin_def)
qed

text \<open>C25: on an empty region \<open>bootstrap\<close> prints the credentials of the root user of one new account, and that
  user is allowed every action on every resource of that account and none on a resource of another account.\<close>
theorem bootstrap_owns_its_account_only:
  assumes "gcm_ok (pn_Aead srv)" "wf_keyring (pn_Keyring srv)" "json_ok (pn_Codec srv)"
    and "wf_db (w_db w)" "attachedWithinAccount (w_db w)"
    and "idemById ''CreateAccount'' bootstrapToken (w_db w) = None"
    and "run (cmdBootstrap srv) w = ((out, Success), w')"
  shows "\<exists>i kid secret. is_account_id i \<and>
    take 3 (drop 2 out) = [Out ''export DARIYA_ACCOUNT_ID=%s'' [AStr i], Out ''export DARIYA_ACCESS_KEY_ID=%s'' [AStr kid],
      Out ''export DARIYA_SECRET_ACCESS_KEY=%s'' [AStr secret]] \<and>
    signingTruth (pn_Aead srv) (pn_Keyring srv) (w_db w') kid =
      Inr \<lparr>sk_AccessKeyID = kid, sk_AccountID = i, sk_PrincipalARN = rootUser i, sk_Secret = secret\<rparr> \<and>
    (\<forall>p q dev resp p'. policiesCoherent (pn_Codec srv) (pn_Collation srv) p \<longrightarrow> w_db p = w_db w' \<longrightarrow> aq_PrincipalArn q = rootUser i \<longrightarrow>
      run (authorizer_Authorize (pn_Codec srv) (pn_Collation srv) dev q) p = (Inr resp, p') \<longrightarrow>
      (as_Decision resp = DECISION_ALLOW \<longleftrightarrow> (\<exists>res. arn_Parse (aq_ResourceArn q) = Inr res \<and> a_Account res = i)))"
proof -
  obtain a w1 k w2 p w3 where s: "run (CreateAccount ''dev'' bootstrapToken) w = (Inr a, w1)"
    "run (CreateAccessKey (pn_Aead srv) (pn_Keyring srv) defaultRegion (rootKey (an_AccountId a))) w1 = (Inr k, w2)"
    "run (CreatePolicy (pn_Codec srv) defaultRegion \<lparr>cpr_AccountId = an_AccountId a, cpr_Name = ''root-admin'',
      cpr_Document = Some adminDocument, cpr_ClientToken = bootstrapToken @ ''-policy''\<rparr>) w2 = (Inr p, w3)"
    "run (AttachPolicy (pn_Codec srv) None (pl_PolicyArn p) (rootUser (an_AccountId a))) w3 = (Inr (), w')"
    and out: "take 3 (drop 2 out) = [Out ''export DARIYA_ACCOUNT_ID=%s'' [AStr (an_AccountId a)],
      Out ''export DARIYA_ACCESS_KEY_ID=%s'' [AStr (ky_AccessKeyId k)],
      Out ''export DARIYA_SECRET_ACCESS_KEY=%s'' [AStr (ky_SecretAccessKey k)]]"
    by (rule bootstrap_Success [OF assms(7)])
  let ?i = "an_AccountId a"
  note f = fresh_account [OF s(1) assms(6,4,5)]
  note key = root_key_stores [OF assms(1,2) s(2)]
  then obtain krow where kr: "w_db w2 = withKey krow [] (w_db w1)" "ak_account krow = ?i" "keyById (ak_id krow) (w_db w1) = None"
    "accountById ?i (w_db w1) \<noteq> None" by blast
  have w2: "wf_db (w_db w2)" "attachedWithinAccount (w_db w2)" "\<forall>r \<in> set (d_policies (w_db w2)). po_account r \<noteq> ?i"
    using f wf_withKey [of "w_db w1" krow "[]"] kr by (auto simp: withKey_def attachedWithinAccount_def)
  from grant_stores [OF assms(3) conjunct1 [OF f] w2(3) s(3,4)] obtain row t where
    g: "w_db w' = withAttachment \<lparr>at_policy = po_arn row, at_principal = rootUser ?i, at_created = t\<rparr> (withPolicy row (bootstrapToken @ ''-policy'') (w_db w2))"
      "dj_Unmarshal (pn_Codec srv) (po_document row) = Some (withVersion adminDocument)" "policyByArn (po_arn row) (w_db w2) = None" by blast
  obtain st where st: "pd_Statements (withVersion adminDocument) = [st]" "s_effect st = EFFECT_ALLOW"
    "\<And>v. matchesAny (s_actions st) v" "\<And>v. matchesAny (s_resources st) v" using admin_statement by blast
  have pt: "policiesTruth (pn_Codec srv) (pn_Collation srv) (w_db w') (rootUser ?i) = Inr [\<lparr>ap_PolicyARN = po_arn row, ap_Document = Some [st]\<rparr>]"
    using granted_policies [OF w2(1,2) conjunct1 [OF f] w2(3) g(3,2)] by (simp add: g(1) st(1))
  have "keyById i (w_db w') = keyById i (w_db w2)" for i by (simp add: g(1) keyById_def withAttachment_def withPolicy_def)
  then have sk: "signingTruth (pn_Aead srv) (pn_Keyring srv) (w_db w') (ky_AccessKeyId k) =
      Inr \<lparr>sk_AccessKeyID = ky_AccessKeyId k, sk_AccountID = ?i, sk_PrincipalARN = rootUser ?i, sk_Secret = ky_SecretAccessKey k\<rparr>"
    using key signingTruth_cong [of "ky_AccessKeyId k" "w_db w'" "w_db w2"] by auto
  have "as_Decision resp = DECISION_ALLOW \<longleftrightarrow> (\<exists>res. arn_Parse (aq_ResourceArn q) = Inr res \<and> a_Account res = ?i)"
    if "policiesCoherent (pn_Codec srv) (pn_Collation srv) v" "w_db v = w_db w'" "aq_PrincipalArn q = rootUser ?i"
      "run (authorizer_Authorize (pn_Codec srv) (pn_Collation srv) dev q) v = (Inr resp, v')" for v q dev resp v'
    using one_statement_decides [OF that(1) _ st(2) conjunct1 [OF f] that(3,4)] pt that(2) st(3,4) by metis
  then show ?thesis using f out sk by blast
qed

section \<open>Running bootstrap again\<close>

lemma account_token_recorded:
  "run (CreateAccount name tok) w = (Inr a, w') \<Longrightarrow> tok \<noteq> [] \<Longrightarrow> idemById ''CreateAccount'' tok (w_db w') \<noteq> None"
  using CreateAccount_outcome [of name tok w "Inr a" w'] withAccount_lookups(2) by (auto simp: createOutcome_def)

lemma account_token_kept:
  assumes "run (CreatePolicy dj region req) w = (r, w')" "idemById ''CreateAccount'' tok (w_db w) \<noteq> None"
  shows "idemById ''CreateAccount'' tok (w_db w') \<noteq> None"
proof -
  have "w_db w' = w_db w \<or> (\<exists>row t. w_db w' = withPolicy row t (w_db w))"
    using CreatePolicy_stores [OF assms(1)] storePolicy_cases [of dj _ _ _ w r w'] by blast
  then show ?thesis using assms(2) by (auto simp: withPolicy_def idemById_def find_append)
qed

lemma idem_attach [simp]: "d_idem (withAttachment t d) = d_idem d" "d_idem (withoutPolicy a d) = d_idem d" "d_idem (withKey row [] d) = d_idem d"
  by (simp_all add: withAttachment_def withoutPolicy_def withKey_def)

lemma idemById_cong: "d_idem d = d_idem d' \<Longrightarrow> idemById op tok d = idemById op tok d'"
  by (simp add: idemById_def)

lemma bootstrap_records_account:
  assumes "gcm_ok (pn_Aead srv)" "wf_keyring (pn_Keyring srv)" "run (cmdBootstrap srv) w = ((out, Success), w')"
  shows "idemById ''CreateAccount'' bootstrapToken (w_db w') \<noteq> None"
proof -
  obtain a w1 k w2 p w3 where s: "run (CreateAccount ''dev'' bootstrapToken) w = (Inr a, w1)"
    "run (CreateAccessKey (pn_Aead srv) (pn_Keyring srv) defaultRegion (rootKey (an_AccountId a))) w1 = (Inr k, w2)"
    "run (CreatePolicy (pn_Codec srv) defaultRegion \<lparr>cpr_AccountId = an_AccountId a, cpr_Name = ''root-admin'',
      cpr_Document = Some adminDocument, cpr_ClientToken = bootstrapToken @ ''-policy''\<rparr>) w2 = (Inr p, w3)"
    "run (AttachPolicy (pn_Codec srv) None (pl_PolicyArn p) (rootUser (an_AccountId a))) w3 = (Inr (), w')"
    by (rule bootstrap_Success [OF assms(3)])
  have "idemById ''CreateAccount'' bootstrapToken (w_db w2) \<noteq> None"
    using account_token_recorded [OF s(1)] root_key_stores [OF assms(1,2) s(2)] idemById_cong [of "w_db w2" "w_db w1"]
    by (auto simp: bootstrapToken_def)
  from account_token_kept [OF s(3) this] AttachPolicy_cases [OF s(4)] show ?thesis
    using idemById_cong [of "w_db w'" "w_db w3"] by (auto simp: principalChanged_def)
qed

text \<open>A grant whose token was claimed for a policy that is gone fails, and changes nothing.\<close>

lemma grant_after_deletion:
  assumes "idemById ''CreatePolicy'' (bootstrapToken @ ''-policy'') (w_db w) = Some idem" "policyByArn (id_result idem) (w_db w) = None"
    "run (grantAdmin srv i) w = (r, w')"
  shows "(\<exists>e. r = Some e) \<and> w_db w' = w_db w"
proof -
  let ?req = "\<lparr>cpr_AccountId = i, cpr_Name = ''root-admin'', cpr_Document = Some adminDocument, cpr_ClientToken = bootstrapToken @ ''-policy''\<rparr>"
  obtain c v where c: "run (CreatePolicy (pn_Codec srv) defaultRegion ?req) w = (c, v)" by fastforce
  have "\<exists>row doc. run (storePolicy (pn_Codec srv) row doc (bootstrapToken @ ''-policy'')) w = (c, v)" if "\<not> ((\<exists>e. c = Inl e) \<and> w_db v = w_db w)"
    using CreatePolicy_stores [OF c] that by auto
  then have "(\<exists>e. c = Inl e) \<and> w_db v = w_db w"
    using storePolicy_cases [of "pn_Codec srv" _ _ "bootstrapToken @ ''-policy''" w c v] assms(1,2) by (auto simp: bootstrapToken_def)
  then show ?thesis using assms(3) c by (auto simp: grantAdmin_def)
qed

text \<open>The state that the deletion leaves: both tokens of \<open>bootstrap\<close> are claimed, the second one for a policy that is gone.\<close>

definition grantLost :: "string \<Rightarrow> db \<Rightarrow> bool" where
  "grantLost arn d \<longleftrightarrow> idemById ''CreateAccount'' bootstrapToken d \<noteq> None \<and>
     map_option id_result (idemById ''CreatePolicy'' (bootstrapToken @ ''-policy'') d) = Some arn \<and> policyByArn arn d = None"

text \<open>What one run may do to the tables: nothing, or store a new access key of a root user.\<close>

definition keyAtMost :: "db \<Rightarrow> db \<Rightarrow> bool" where
  "keyAtMost d d' \<longleftrightarrow> d' = d \<or> (\<exists>row. d' = withKey row [] d \<and> ak_principal row = rootUser (ak_account row))"

lemma grantLost_withKey: "grantLost arn (withKey row [] d) = grantLost arn d"
  using idemById_cong [of "withKey row [] d" d] by (simp add: grantLost_def) (simp add: policyByArn_def withKey_def)

lemma bootstrap_lost:
  assumes "gcm_ok (pn_Aead srv)" "wf_keyring (pn_Keyring srv)" "grantLost arn (w_db w2)" "run (cmdBootstrap srv) w2 = ((out, r), w3)"
  shows "out = [] \<and> (\<exists>e. r = Failure e) \<and> keyAtMost (w_db w2) (w_db w3) \<and> grantLost arn (w_db w3)"
proof -
  have tok: "idemById ''CreateAccount'' bootstrapToken (w_db w2) \<noteq> None" using assms(3) by (simp add: grantLost_def)
  obtain a v where a: "run (CreateAccount ''dev'' bootstrapToken) w2 = (a, v)" by fastforce
  have v: "w_db v = w_db w2" using CreateAccount_outcome [OF a] tok by (auto simp: createOutcome_def bootstrapToken_def)
  have same: "keyAtMost d d" for d by (simp add: keyAtMost_def)
  show ?thesis
  proof (cases a)
    case (Inl e)
    then show ?thesis using assms(3,4) a v same by (auto simp: cmdBootstrap_def failed_def)
  next
    case (Inr acct)
    obtain k u where k: "run (CreateAccessKey (pn_Aead srv) (pn_Keyring srv) defaultRegion (rootKey (an_AccountId acct))) v = (k, u)" by fastforce
    note o = CreateAccessKey_outcome [OF assms(1,2) k]
    show ?thesis
    proof (cases k)
      case (Inl e)
      then show ?thesis using assms(3,4) a v Inr k o same by (auto simp: cmdBootstrap_def failed_def keyOutcome_def)
    next
      case key: (Inr ky)
      obtain row where row: "w_db u = withKey row [] (w_db w2)" "ak_account row = an_AccountId acct" "ak_principal row = rootUser (an_AccountId acct)"
        using o key v by (auto simp: keyOutcome_def rootKey_def resolvePrincipalARN_def rootUser_def)
      have lost: "grantLost arn (w_db u)" using assms(3) by (simp add: row(1) grantLost_withKey)
      then obtain idem where u: "idemById ''CreatePolicy'' (bootstrapToken @ ''-policy'') (w_db u) = Some idem" "policyByArn (id_result idem) (w_db u) = None"
        by (auto simp: grantLost_def)
      have once: "keyAtMost (w_db w2) (w_db u)" using row by (auto simp: keyAtMost_def)
      obtain g x where g: "run (grantAdmin srv (an_AccountId acct)) u = (g, x)" by fastforce
      show ?thesis using assms(4) a Inr k key g grant_after_deletion [OF u g] lost once by (auto simp: cmdBootstrap_def failed_def)
    qed
  qed
qed

text \<open>The tables from the deletion on: runs of \<open>bootstrap\<close>, each in a world of its own (its clock, entropy and database
  faults are arbitrary), and between them any change by others that keeps the two rows of \<open>bootstrap\<close>'s tokens, which nothing in the
  program ever removes, and that does not create a policy of that ARN again. The runs are collected with the tables before and after each.\<close>

inductive furtherRuns :: "'c::linorder plane \<Rightarrow> string \<Rightarrow> db \<Rightarrow> (printed \<times> db \<times> db) list \<Rightarrow> db \<Rightarrow> bool" for srv arn d0 where
  none: "furtherRuns srv arn d0 [] d0"
| again: "furtherRuns srv arn d0 rs (w_db w) \<Longrightarrow> run (cmdBootstrap srv) (w :: world) = (res, w') \<Longrightarrow>
    furtherRuns srv arn d0 (rs @ [(res, w_db w, w_db w')]) (w_db w')"
| others: "furtherRuns srv arn d0 rs d \<Longrightarrow>
    idemById ''CreateAccount'' bootstrapToken d' = idemById ''CreateAccount'' bootstrapToken d \<Longrightarrow>
    idemById ''CreatePolicy'' (bootstrapToken @ ''-policy'') d' = idemById ''CreatePolicy'' (bootstrapToken @ ''-policy'') d \<Longrightarrow>
    (policyByArn arn d = None \<Longrightarrow> policyByArn arn d' = None) \<Longrightarrow> furtherRuns srv arn d0 rs d'"

lemma furtherRuns_lost:
  assumes "furtherRuns srv arn d0 rs d" "gcm_ok (pn_Aead srv)" "wf_keyring (pn_Keyring srv)" "grantLost arn d0"
  shows "grantLost arn d \<and> (\<forall>((out, r), d1, d2) \<in> set rs. out = [] \<and> (\<exists>e. r = Failure e) \<and> keyAtMost d1 d2)"
  using assms(1)
proof induction
  case (again rs w res w')
  obtain out r where "res = (out, r)" by fastforce
  with bootstrap_lost [OF assms(2,3), of arn w out r w'] again show ?case by auto
qed (use assms(4) in \<open>auto simp: grantLost_def\<close>)

text \<open>C26: \<open>bootstrap\<close> is meant to be run again, but the row of its policy's token outlives the policy: once the policy it
  granted has been deleted on a front door, no further run succeeds or prints a credential, however many there are and whatever else
  happens to the tables, until somebody creates a policy of that very ARN by other means. Each run may have stored a new
  access key of the root user, which nobody is shown.\<close>
theorem bootstrap_never_recovers:
  assumes "gcm_ok (pn_Aead srv)" "wf_keyring (pn_Keyring srv)"
    and "run (cmdBootstrap srv) w = ((out, Success), w1)" "wf_db (w_db w1)"
    and "idemById ''CreatePolicy'' (bootstrapToken @ ''-policy'') (w_db w1) = Some idem"
    and "run (DeletePolicy (Some InvalidatePrincipal) (id_result idem)) p = (Inr (), p')" "w_db p = w_db w1"
    and "furtherRuns srv (id_result idem) (w_db p') rs d"
  shows "\<forall>((out', r), d1, d2) \<in> set rs. out' = [] \<and> (\<exists>e. r = Failure e) \<and> keyAtMost d1 d2"
proof -
  let ?d = "withoutPolicy (id_result idem) (w_db w1)"
  have d: "w_db p' = ?d"
    using DeletePolicy_cases [OF assms(6)] assms(4,7) by (auto simp: principalsChanged_run)
  have "idemById ''CreateAccount'' bootstrapToken ?d \<noteq> None"
    using bootstrap_records_account [OF assms(1-3)] idemById_cong [of ?d "w_db w1"] by simp
  moreover have "policyByArn (id_result idem) ?d = None" by (auto simp: policyByArn_None withoutPolicy_def)
  ultimately have "grantLost (id_result idem) (w_db p')"
    using assms(5) idemById_cong [of ?d "w_db w1"] by (simp add: d grantLost_def)
  then show ?thesis using furtherRuns_lost [OF assms(8,1,2)] by blast
qed


section \<open>The keys of a region\<close>

text \<open>The environment of a shell that has run the printed exports.\<close>

fun exportOf :: "string \<Rightarrow> line \<Rightarrow> string option" where
  "exportOf name (Out fmt [AStr n, AStr v]) = (if fmt = ''export %s=dev1:%s'' \<and> n = name then Some (''dev1:'' @ v) else None)"
| "exportOf name _ = None"

fun exported :: "line list \<Rightarrow> string \<Rightarrow> string" where
  "exported [] name = []"
| "exported (l # ls) name = (case exportOf name l of Some v \<Rightarrow> v | None \<Rightarrow> exported ls name)"

lemma set_stdEncode: "set (stdEncode s) \<subseteq> set stdAlphabet \<union> {CHR ''=''}"
proof -
  have "set (padding s) \<subseteq> {CHR ''=''}" by (auto simp: padding_def)
  moreover have "(\<lambda>k. stdAlphabet ! k) ` set (stdDigits s) \<subseteq> set stdAlphabet"
    using stdDigits_less stdAlphabet_props(2) by (auto intro: nth_mem)
  ultimately show ?thesis unfolding stdEncode_digits by auto
qed

lemma stdEncode_plain: "CHR '','' \<notin> set (stdEncode s)" "c \<in> set (stdEncode s) \<Longrightarrow> \<not> isSpace c"
proof -
  have "list_all (\<lambda>c. c \<noteq> CHR '','' \<and> \<not> isSpace c) (CHR ''='' # stdAlphabet)" by code_simp
  then show "CHR '','' \<notin> set (stdEncode s)" "c \<in> set (stdEncode s) \<Longrightarrow> \<not> isSpace c"
    using set_stdEncode [of s] by (auto simp: list_all_iff)
qed

lemma dev1_entry:
  "splitOn CHR '','' (''dev1:'' @ stdEncode b) = [''dev1:'' @ stdEncode b]" "trimSpace (''dev1:'' @ stdEncode b) = ''dev1:'' @ stdEncode b"
  "cut CHR '':'' (''dev1:'' @ stdEncode b) = Some (''dev1'', stdEncode b)"
proof -
  show "splitOn CHR '','' (''dev1:'' @ stdEncode b) = [''dev1:'' @ stdEncode b]"
    by (rule splitOn_none) (simp add: stdEncode_plain)
  show "trimSpace (''dev1:'' @ stdEncode b) = ''dev1:'' @ stdEncode b"
    by (rule trimSpace_id) (use stdEncode_plain(2) [of "last (stdEncode b)" b] in \<open>auto simp: isSpace_def last_append\<close>)
  show "cut CHR '':'' (''dev1:'' @ stdEncode b) = Some (''dev1'', stdEncode b)" by simp
qed

lemma randRead_length: "run (randRead n) s = (Some b, s') \<Longrightarrow> length b = n"
  by (auto simp: run_randRead split: if_splits)

text \<open>C27: the keys that \<open>keygen\<close> prints agree with each other: with its exports as the environment the keyring, the minter and
  the verifier all load, the front door boots, and the verifier accepts every token of the minter until it expires.\<close>
theorem keygen_keys_agree:
  assumes "wire_ok w" "run (cmdKeygen w) s = ((out, Success), s')"
    and "\<And>dsn. run (sl_Open lib dsn) p = (None, p)" "run (sl_Migrate lib) p = (None, p)"
  shows "\<exists>kr m v h. NewKeyringFromEnv (exported out) = Inr kr \<and> NewMinterFromEnv (exported out) 0 = Inr m \<and>
    NewVerifierFromEnv (exported out) = Inr v \<and> result_of (edgeRun b lib (exported out) fl) p = Inr h \<and>
    (\<forall>c t0 t now. Mint w m t0 c = Inr t \<longrightarrow> cl_Action c \<noteq> [] \<longrightarrow>
      cap_Verify w v now (Some t) = (if unixMilli (now - v_Skew v) \<le> unixMilli (t0 + m_ttl m) then Inr (capabilityOf m t0 c)
        else Inl (Errorf ''%w: expired at %d'' [ANum (unixMilli (t0 + m_ttl m))] (Some ErrExpired))))"
proof -
  obtain master s1 where master: "run (randRead KeySize) s = (Some master, s1)"
    using assms(2) by (cases "run (randRead KeySize) s") (auto simp: cmdKeygen_def secrets_GenerateKey_def failed_def split: option.splits)
  obtain seed where seed: "run (randRead SeedSize) s1 = (Some seed, s')"
    and out: "out = [Out ''export %s=dev1:%s'' [AStr MasterKeysEnv, AStr (stdEncode master)],
      Out ''export %s=dev1:%s'' [AStr EnvSigningKey, AStr (stdEncode seed)], Out ''export %s=dev1:%s'' [AStr EnvPublicKeys, AStr (stdEncode (ed_public w seed))],
      out ! 3]"
    using assms(2) master by (cases "run (randRead SeedSize) s1")
      (auto simp: cmdKeygen_def secrets_GenerateKey_def capability_GenerateKey_def failed_def split: option.splits)
  have len: "length master = KeySize" "length seed = SeedSize" "length (ed_public w seed) = PublicKeySize"
    using randRead_length [OF master] randRead_length [OF seed] assms(1)
    by (simp_all add: wire_ok_def ed25519_ok_def SeedSize_def PublicKeySize_def)
  have e: "exported out MasterKeysEnv = ''dev1:'' @ stdEncode master" "exported out EnvSigningKey = ''dev1:'' @ stdEncode seed"
    "exported out EnvPublicKeys = ''dev1:'' @ stdEncode (ed_public w seed)"
    by (subst out, simp add: MasterKeysEnv_def EnvSigningKey_def EnvPublicKeys_def)+
  have kr: "NewKeyringFromEnv (exported out) = Inr \<lparr>kr_keys = [(''dev1'', master)], kr_primary = ''dev1''\<rparr>"
    using len(1) by (simp only: NewKeyringFromEnv_def e dev1_entry) (simp add: dev1_entry std_roundtrip NewKeyring_def del: append_Cons)
  let ?m = "\<lparr>m_keyID = ''dev1'', m_key = seed, m_ttl = CapabilityTTL\<rparr>"
  have m: "NewMinterFromEnv (exported out) 0 = Inr ?m"
    using len(2) by (simp only: NewMinterFromEnv_def e parseKeyEntry_def dev1_entry) (simp add: std_roundtrip NewMinter_def)
  let ?v = "NewVerifier [(''dev1'', ed_public w seed)]"
  have v: "NewVerifierFromEnv (exported out) = Inr ?v"
    using len(3) by (simp only: NewVerifierFromEnv_def e dev1_entry) (simp add: parseKeyEntry_def dev1_entry std_roundtrip del: append_Cons)
  obtain t where "NewTable (fd_Region (edgeOptions fl (be_Wire b) ?m)) (edgeRoutes (b\<lparr>be_Keyring := \<lparr>kr_keys = [(''dev1'', master)], kr_primary = ''dev1''\<rparr>\<rparr>) (edgeOptions fl (be_Wire b) ?m)) = Inr t"
    using edge_table serviceRoutes_wf [of fl] by (metis Options.select_convs(3) edgeOptions_def)
  then have h: "\<exists>h. result_of (edgeRun b lib (exported out) fl) p = Inr h"
    by (simp add: edgeRun_def assms(3,4) kr m NewHandler_def)
  have "lookup (v_keys ?v) (m_keyID ?m) = Some (minter_PublicKey w ?m)" by (simp add: NewVerifier_def minter_PublicKey_def)
  from Mint_Verify [OF assms(1) _ _ this] h kr m v show ?thesis by blast
qed

section \<open>The listings\<close>

lemma listLoop_collects:
  assumes "\<And>v tok. calm v \<Longrightarrow> w_db v = d \<Longrightarrow> result_of (page tok) v = pg tok \<and> calm (final_of (page tok) v) \<and> w_db (final_of (page tok) v) = d"
    and "calm w" "w_db w = d" "collectPages fuel pg tok = Some (Inr rows)"
  shows "result_of (listLoop fuel page show tok) w = Some (map show rows, Success) \<and> w_db (final_of (listLoop fuel page show tok) w) = d"
  using assms(2-4)
proof (induction fuel arbitrary: w tok rows)
  case (Suc fuel)
  obtain r v where p: "run (page tok) w = (r, v)" by fastforce
  have r: "r = pg tok" "calm v" "w_db v = d" using assms(1) [OF Suc.prems(1,2), of tok] p by auto
  show ?case
  proof (cases "pg tok")
    case (Inl e)
    then show ?thesis using Suc.prems(3) by simp
  next
    case (Inr x)
    obtain items nxt where x: "x = (items, nxt)" by fastforce
    show ?thesis
    proof (cases "nxt = []")
      case True
      then show ?thesis using Suc.prems(3) p r Inr x by simp
    next
      case False
      then obtain rest where rest: "collectPages fuel pg nxt = Some (Inr rest)" "rows = items @ rest"
        using Suc.prems(3) Inr x by (auto split: option.splits sum.splits)
      obtain l u where l: "run (listLoop fuel page show nxt) v = (l, u)" by fastforce
      show ?thesis using Suc.IH [OF r(2,3) rest(1)] p r Inr x False rest(2) l by simp
    qed
  qed
qed simp

lemma ListAccounts_calm:
  "calm v \<Longrightarrow> calm w \<Longrightarrow> w_db v = w_db w \<Longrightarrow> result_of (ListAccounts ck m tok) v = result_of (ListAccounts ck m tok) w \<and>
    calm (final_of (ListAccounts ck m tok) v) \<and> w_db (final_of (ListAccounts ck m tok) v) = w_db w"
  by (auto simp: ListAccounts_def run_db queryRows_def Let_def split: sum.splits)

lemma ListAccessKeys_calm:
  "calm v \<Longrightarrow> calm w \<Longrightarrow> w_db v = w_db w \<Longrightarrow> result_of (ListAccessKeys ck acct m tok) v = result_of (ListAccessKeys ck acct m tok) w \<and>
    calm (final_of (ListAccessKeys ck acct m tok) v) \<and> w_db (final_of (ListAccessKeys ck acct m tok) v) = w_db w"
  by (auto simp: ListAccessKeys_def run_db queryRows_def Let_def split: sum.splits option.splits)

text \<open>The two listing commands end, and on an undisturbed database each prints one line for every row and none besides, in the order of
  the keys, however many pages that takes: \<open>account list\<close> every account and \<open>key list\<close> the keys of the account asked for.
  As many rounds as there are rows, and one more, are always enough.\<close>
theorem listing_commands_print_everything:
  assumes "calm w" "keyed (pn_Collation srv) ac_id (d_accounts (w_db w))"
    and "keyed (pn_Collation srv) ak_id (keysOfAccount acct (w_db w))" "is_account_id acct"
    and "length (d_accounts (w_db w)) < fuel" "length (keysOfAccount acct (w_db w)) < fuel"
  shows "result_of (cmdAccount fuel srv [''list'']) w =
      Some (map (\<lambda>r. showAccount (accountOf r)) (inKeyOrder (pn_Collation srv) ac_id (d_accounts (w_db w))), Success) \<and>
    result_of (cmdKey fuel srv [''list'', ''--account'', acct]) w =
      Some (map (\<lambda>r. showKey (keyOf r)) (inKeyOrder (pn_Collation srv) ak_id (keysOfAccount acct (w_db w))), Success)"
proof -
  let ?ck = "pn_Collation srv"
  have f: "parseFlags (\<lambda>_ _. True) [(''account'', [])] [''--account'', acct] = Parsed [(''account'', acct)]"
    by (simp add: flagName_def)
  have n: "nextFault w = None" using assms(1) by simp
  have "accountsPage ?ck (w, 0) = (\<lambda>tok. result_of (ListAccounts ?ck 0 tok) w)" by (rule ext) (simp add: accountsPage_def)
  then have a: "collectPages fuel (\<lambda>tok. result_of (ListAccounts ?ck 0 tok) w) [] =
      Some (Inr (map accountOf (inKeyOrder ?ck ac_id (d_accounts (w_db w)))))"
    using accounts_listing.follow.collect_all [of "(w, 0)" ?ck fuel] assms n by (simp del: collectPages.simps)
  have "keysPage ?ck ((w, 0), acct) = (\<lambda>tok. result_of (ListAccessKeys ?ck acct 0 tok) w)" by (rule ext) (simp add: keysPage_def)
  then have k: "collectPages fuel (\<lambda>tok. result_of (ListAccessKeys ?ck acct 0 tok) w) [] =
      Some (Inr (map keyOf (inKeyOrder ?ck ak_id (keysOfAccount acct (w_db w)))))"
    using keys_listing.follow.collect_all [of "((w, 0), acct)" ?ck fuel] assms n by (simp del: collectPages.simps)
  show ?thesis
    using listLoop_collects [OF ListAccounts_calm [OF _ assms(1)] assms(1) refl a, of showAccount]
      listLoop_collects [OF ListAccessKeys_calm [OF _ assms(1)] assms(1) refl k, of showKey]
    by (simp add: cmdAccount_def cmdKey_def f getOr_def comp_def del: listLoop.simps parseFlags.simps)
qed

section \<open>Witnesses\<close>

text \<open>A codec that knows the two documents of the program.\<close>

definition operatorCodec :: docCodec where
  "operatorCodec = \<lparr>dj_Marshal = (\<lambda>d. if d = withVersion adminDocument then Some ''a''
       else if d = withVersion (serviceDocument ''111111111111'') then Some ''s'' else None),
     dj_Unmarshal = (\<lambda>b. if b = ''a'' then Some (withVersion adminDocument)
       else if b = ''s'' then Some (withVersion (serviceDocument ''111111111111'')) else None)\<rparr>"

definition operatorPlane :: "string plane" where
  "operatorPlane = \<lparr>pn_Aead = sampleAead, pn_Keyring = sampleKeyring, pn_Codec = operatorCodec, pn_Collation = (\<lambda>k. k)\<rparr>"

lemma operator_ok: "gcm_ok (pn_Aead operatorPlane)" "wf_keyring (pn_Keyring operatorPlane)" "json_ok (pn_Codec operatorPlane)"
  by (simp_all add: operatorPlane_def sampleAead_ok sampleKeyring_wf json_ok_def operatorCodec_def)

lemma sampleWorld_ok: "wf_db (w_db sampleWorld)" "attachedWithinAccount (w_db sampleWorld)" "idemById op tok (w_db sampleWorld) = None"
  by (simp_all add: wf_sampleWorld) (simp_all add: sampleWorld_def emptyDb_def attachedWithinAccount_def idemById_def)

lemma service_account_is_least_privilege_witness:
  "\<exists>out w' i kid secret. run (seedServiceAccount operatorPlane ''nache'') sampleWorld = ((out, Success), w') \<and> is_account_id i \<and>
     signingTruth sampleAead sampleKeyring (w_db w') kid =
       Inr \<lparr>sk_AccessKeyID = kid, sk_AccountID = i, sk_PrincipalARN = rootUser i, sk_Secret = secret\<rparr>"
proof -
  have "snd (result_of (seedServiceAccount operatorPlane ''nache'') sampleWorld) = Success" by code_simp
  then obtain out w' where r: "run (seedServiceAccount operatorPlane ''nache'') sampleWorld = ((out, Success), w')"
    by (cases "run (seedServiceAccount operatorPlane ''nache'') sampleWorld") auto
  from service_account_is_least_privilege [OF operator_ok sampleWorld_ok r] r show ?thesis
    by (simp add: operatorPlane_def) blast
qed

lemma bootstrapped: "\<exists>out w'. run (cmdBootstrap operatorPlane) sampleWorld = ((out, Success), w')"
proof -
  have "snd (result_of (cmdBootstrap operatorPlane) sampleWorld) = Success" by code_simp
  then show ?thesis by (cases "run (cmdBootstrap operatorPlane) sampleWorld") auto
qed

lemma bootstrap_owns_its_account_only_witness:
  "\<exists>out w' i kid secret. run (cmdBootstrap operatorPlane) sampleWorld = ((out, Success), w') \<and> is_account_id i \<and>
     signingTruth sampleAead sampleKeyring (w_db w') kid =
       Inr \<lparr>sk_AccessKeyID = kid, sk_AccountID = i, sk_PrincipalARN = rootUser i, sk_Secret = secret\<rparr>"
proof -
  obtain out w' where r: "run (cmdBootstrap operatorPlane) sampleWorld = ((out, Success), w')" using bootstrapped by blast
  from bootstrap_owns_its_account_only [OF operator_ok sampleWorld_ok r] r show ?thesis
    by (simp add: operatorPlane_def) blast
qed

text \<open>The policy is deleted on a front door, and the program is run again with bytes to draw from.\<close>

definition bootstrapWorld :: world where "bootstrapWorld = final_of (cmdBootstrap operatorPlane) sampleWorld"

definition deletedProcess :: process where
  "deletedProcess = final_of (DeletePolicy (Some InvalidatePrincipal) (PolicyARN defaultRegion ''111111111111'' ''root-admin''))
     (sampleProcess\<lparr>w_db := w_db bootstrapWorld\<rparr>)"

definition rerunWorld :: world where "rerunWorld = sampleWorld\<lparr>w_db := w_db deletedProcess, w_entropy := replicate 12 CHR ''7'' @ replicate 58 CHR ''b''\<rparr>"

text \<open>A run, the account's key disabled by another hand in the meantime, and one more run.\<close>

lemma bootstrap_never_recovers_witness:
  "\<exists>e e' w3 w4. run (cmdBootstrap operatorPlane) rerunWorld = (([], Failure e), w3) \<and> length (d_keys (w_db w3)) = 2 \<and>
     run (cmdBootstrap operatorPlane) (rerunWorld\<lparr>w_db := (w_db w3)\<lparr>d_keys := []\<rparr>\<rparr>) = (([], Failure e'), w4)"
proof -
  let ?del = "DeletePolicy (Some InvalidatePrincipal) (PolicyARN defaultRegion ''111111111111'' ''root-admin'') :: (process, err + unit) state"
  obtain out where b: "run (cmdBootstrap operatorPlane) sampleWorld = ((out, Success), bootstrapWorld)"
    using bootstrapped by (auto simp: bootstrapWorld_def)
  have wf: "wf_db (w_db bootstrapWorld)" by code_simp
  have "map_option id_result (idemById ''CreatePolicy'' (bootstrapToken @ ''-policy'') (w_db bootstrapWorld)) =
      Some (PolicyARN defaultRegion ''111111111111'' ''root-admin'')" by code_simp
  then obtain idem where i: "idemById ''CreatePolicy'' (bootstrapToken @ ''-policy'') (w_db bootstrapWorld) = Some idem"
    "id_result idem = PolicyARN defaultRegion ''111111111111'' ''root-admin''" by auto
  have "result_of ?del (sampleProcess\<lparr>w_db := w_db bootstrapWorld\<rparr>) = Inr ()" by code_simp
  then have d: "run (DeletePolicy (Some InvalidatePrincipal) (id_result idem)) (sampleProcess\<lparr>w_db := w_db bootstrapWorld\<rparr>) = (Inr (), deletedProcess)"
    by (simp add: i(2) deletedProcess_def prod_eq_iff)
  obtain o1 r1 w3 where 1: "run (cmdBootstrap operatorPlane) rerunWorld = ((o1, r1), w3)" by (metis surj_pair)
  let ?w = "rerunWorld\<lparr>w_db := (w_db w3)\<lparr>d_keys := []\<rparr>\<rparr>"
  obtain o2 r2 w4 where 2: "run (cmdBootstrap operatorPlane) ?w = ((o2, r2), w4)" by (metis surj_pair)
  have "length (d_keys (w_db (final_of (cmdBootstrap operatorPlane) rerunWorld))) = 2" by code_simp
  then have n: "length (d_keys (w_db w3)) = 2" using 1 by simp
  have w: "w_db rerunWorld = w_db deletedProcess" by (simp add: rerunWorld_def)
  note f0 = furtherRuns.none [of operatorPlane "id_result idem" "w_db rerunWorld"]
  from furtherRuns.again [OF f0 1]
  have f1: "furtherRuns operatorPlane (id_result idem) (w_db rerunWorld) [((o1, r1), w_db rerunWorld, w_db w3)] (w_db w3)" by simp
  have "furtherRuns operatorPlane (id_result idem) (w_db rerunWorld) [((o1, r1), w_db rerunWorld, w_db w3)] (w_db ?w)"
    by (rule furtherRuns.others [OF f1]) (simp_all add: idemById_def policyByArn_def)
  from furtherRuns.again [OF this 2]
  have f2: "furtherRuns operatorPlane (id_result idem) (w_db deletedProcess)
      [((o1, r1), w_db rerunWorld, w_db w3), ((o2, r2), w_db ?w, w_db w4)] (w_db w4)" by (simp add: w)
  have "o1 = [] \<and> (\<exists>e. r1 = Failure e) \<and> o2 = [] \<and> (\<exists>e. r2 = Failure e)"
    using bootstrap_never_recovers [OF operator_ok(1,2) b wf i(1) d _ f2] by simp
  then show ?thesis using 1 2 n by blast
qed

definition idleStore :: "process storeLib" where
  "idleStore = \<lparr>sl_Open = (\<lambda>_. ret None), sl_Migrate = ret None\<rparr>"

lemma keygen_keys_agree_witness:
  "\<exists>out s' m h. run (cmdKeygen sampleWire) sampleWorld = ((out, Success), s') \<and> NewMinterFromEnv (exported out) 0 = Inr m \<and>
     result_of (edgeRun sampleBackend idleStore (exported out) sampleFlags) sampleProcess = Inr h"
proof -
  have "snd (result_of (cmdKeygen sampleWire) sampleWorld) = Success" by code_simp
  then obtain out s' where r: "run (cmdKeygen sampleWire) sampleWorld = ((out, Success), s')"
    by (cases "run (cmdKeygen sampleWire) sampleWorld") auto
  have "run (sl_Open idleStore dsn) sampleProcess = (None, sampleProcess)" "run (sl_Migrate idleStore) sampleProcess = (None, sampleProcess)" for dsn
    by (simp_all add: idleStore_def)
  from keygen_keys_agree [OF sampleWire_ok r this] r show ?thesis by blast
qed

lemma listing_commands_print_everything_witness:
  "result_of (cmdAccount 3 operatorPlane [''list'']) bootstrapWorld =
     Some ([Out (''%s'' @ CHR 0x09 # ''%s'' @ CHR 0x09 # ''%s'') [AStr ''111111111111'', AStr ''dev'', AStr ''RESOURCE_STATE_ACTIVE'']], Success)"
proof -
  have k: "keyed (\<lambda>k. k) ac_id (d_accounts (w_db bootstrapWorld))"
    "keyed (\<lambda>k. k) ak_id (keysOfAccount ''111111111111'' (w_db bootstrapWorld))" by code_simp+
  have n: "length (d_accounts (w_db bootstrapWorld)) < 3" "length (keysOfAccount ''111111111111'' (w_db bootstrapWorld)) < 3"
    "w_faults bootstrapWorld = []" by code_simp+
  have i: "is_account_id ''111111111111''" by code_simp
  have "result_of (cmdAccount 3 operatorPlane [''list'']) bootstrapWorld =
      Some (map (\<lambda>r. showAccount (accountOf r)) (inKeyOrder (\<lambda>k. k) ac_id (d_accounts (w_db bootstrapWorld))), Success)"
    using listing_commands_print_everything [of bootstrapWorld operatorPlane "''111111111111''" 3] k n i
    by (simp add: operatorPlane_def calm_def)
  moreover have "map (\<lambda>r. showAccount (accountOf r)) (inKeyOrder (\<lambda>k. k) ac_id (d_accounts (w_db bootstrapWorld))) =
      [Out (''%s'' @ CHR 0x09 # ''%s'' @ CHR 0x09 # ''%s'') [AStr ''111111111111'', AStr ''dev'', AStr ''RESOURCE_STATE_ACTIVE'']]" by code_simp
  ultimately show ?thesis by simp
qed

end
