(* ===== verification/Echo.thy ===== *)
theory Echo
  imports Edge_Main
begin

text \<open>
  The smallest data plane (\<open>cmd/echo/main.go\<close>): a guarded function service which does nothing but check the capability and
  say what it served, and the bare one that it is measured against. Its answers are maps of strings, which
  \<open>encoding/json\<close> writes.
\<close>

section \<open>Handlers\<close>

type_synonym echoMsg = "string strmap"

definition invokePrefix :: string where "invokePrefix = ''/f/''"

definition functionName :: "string \<Rightarrow> string" where
  "functionName path =
     (let rest = trimPrefix path invokePrefix in
      case cut CHR ''/'' rest of None \<Rightarrow> rest | Some (name, _) \<Rightarrow> name)"

definition echo_writeJSON :: "nat \<Rightarrow> echoMsg \<Rightarrow> (echoMsg rw \<times> 's, outcome) state" where
  "echo_writeJSON status body = do {
     setHeader ''Content-Type'' ''application/json'';
     onRw (WriteHeader status);
     onRw (Write (Msg body));
     ret Done
   }"

definition bareBody :: bytes where
  "bareBody = ''{\"account_id\":\"000000000000\",\"principal_arn\":\"arn:dariya:iam:hind-1:000000000000:user/root\",\"request_id\":\"00000000000000000000000000000000\"}''"

definition bareHandler :: "(echoMsg, 's) handler" where
  "bareHandler r = do {
     setHeader ''Content-Type'' ''application/json'';
     setHeader ''Content-Length'' (decimal (length bareBody));
     onRw (WriteHeader 200);
     onRw (Write (Bytes bareBody));
     ret Done
   }"

definition guardedHandler :: "wire \<Rightarrow> ('s \<Rightarrow> time) \<Rightarrow> Guard \<Rightarrow> string \<Rightarrow> (echoMsg, 's) handler" where
  "guardedHandler w clock guard service r =
     (let name = functionName (hr_Path r) in
      if name = [] then
        echo_writeJSON 404 [(''code'', ''ResourceNotFound''), (''message'', ''the path does not name a function'')]
      else do {
        now \<leftarrow> inState (gets clock);
        case guard_Authorize w guard now r
               \<lparr>in_Action = service @ '':Invoke'', in_ResourceType = ''function'', in_ResourceID = name\<rparr> of
          Inl e \<Rightarrow>
            echo_writeJSON 403 [(''code'', ''AccessDenied''), (''message'', ''the capability does not authorise this request'')]
        | Inr cap \<Rightarrow>
            echo_writeJSON 200
              [(''served'', name), (''account_id'', cp_AccountId cap), (''principal_arn'', cp_PrincipalArn cap), (''action'', cp_Action cap),
               (''resource_arn'', cp_ResourceArn cap), (''request_id'', header_Get (hr_Header r) RequestIDHeader)]
      })"

definition echo_healthz :: "(echoMsg, 's) handler" where
  "echo_healthz r = do { onRw (WriteHeader 200); onRw (Write (Bytes ''{\"status\":\"ok\"}'')); ret Done }"

text \<open>
  The multiplexer over the two or three patterns of the program, which name no method: a path, or the subtree below one,
  whose root without its slash is redirected to. A mode that is not known ends the program with 2, a verifier
  that does not load with 1.
\<close>

definition echoMux :: "muxLib \<Rightarrow> (echoMsg, 's) handler option \<Rightarrow> (echoMsg, 's) handler \<Rightarrow> (echoMsg, 's) handler" where
  "echoMux lib ping invoke r =
     (if hr_Path r = ''*'' then muxBadRequest r
      else if muxUnclean lib r then muxRedirect (fst (ml_Redirect lib r)) (snd (ml_Redirect lib r)) r
      else case muxSegments (ml_EscapedPath lib r) of
        [] # s # rest \<Rightarrow>
          if s = ''healthz'' \<and> rest = [] then echo_healthz r
          else if s = ''f'' \<and> rest \<noteq> [] then invoke r
          else if s = ''f'' then muxRedirect (fst (ml_Redirect lib r)) (snd (ml_Redirect lib r)) r
          else (case ping of
              Some h \<Rightarrow> if s = ''ping'' \<and> rest = [] then h r else plainError 404 ''404 page not found'' r
            | None \<Rightarrow> plainError 404 ''404 page not found'' r)
      | _ \<Rightarrow> plainError 404 ''404 page not found'' r)"

definition echoRun ::
  "muxLib \<Rightarrow> wire \<Rightarrow> ('s \<Rightarrow> time) \<Rightarrow> (string \<Rightarrow> string) \<Rightarrow> string \<Rightarrow> string \<Rightarrow> string \<Rightarrow> nat + (echoMsg, 's) handler" where
  "echoRun lib w clock getenv mode service region =
     (if mode = ''bare'' then Inr (echoMux lib (Some bareHandler) bareHandler)
      else if mode = ''guarded'' then
        (case NewVerifierFromEnv getenv of
           Inl e \<Rightarrow> Inl 1
         | Inr v \<Rightarrow> Inr (echoMux lib None (guardedHandler w clock (NewGuard v service region) service)))
      else Inl 2)"

section \<open>From the front door to the function\<close>

lemma functionName_PathResource:
  "PathResource region service typ invokePrefix r p =
     (if functionName (hr_Path r) = [] then Inl (Validation ''the path does not name a %s'' [AStr typ])
      else if containsAny (functionName (hr_Path r)) '':*'' then Inl (Validation (''a %s name may not contain ':' or '*'' @ [CHR 0x27]) [AStr typ])
      else Inr (formatArn service region (pr_AccountId p) typ (functionName (hr_Path r))))"
  by (simp add: PathResource_def functionName_def Let_def)

lemma func_route:
  assumes "ef_FuncUpstream fl \<noteq> []" "hr_Path r = invokePrefix @ rest"
  shows "bestRoute r (serviceRoutes fl) None = Some (proxied ''func'' [] ''/f/'' ''func:Invoke'' (PathResource (ef_Region fl) ''func'' ''function'' ''/f/'') (ef_FuncUpstream fl))"
proof -
  have m: "matchesPrefix (invokePrefix @ rest) ''/f/'' = True" "matchesPrefix (invokePrefix @ rest) instancesPath = False"
    "matchesPrefix (invokePrefix @ rest) clustersPath = False" "matchesPrefix (invokePrefix @ rest) ''/chala/2026-09-30/instances'' = False"
    "matchesPrefix (invokePrefix @ rest) ''/chala/2026-09-30/images'' = False" "matchesPrefix (invokePrefix @ rest) ''/nache/2026-09-30/clusters'' = False"
    by (simp_all add: matchesPrefix_def hasPrefix_iff hasSuffix_iff invokePrefix_def instancesPath_def clustersPath_def)
  have f: "bestRoute r (edgeFuncRoutes (ef_Region fl) (ef_FuncUpstream fl)) None =
      Some (proxied ''func'' [] ''/f/'' ''func:Invoke'' (PathResource (ef_Region fl) ''func'' ''function'' ''/f/'') (ef_FuncUpstream fl))"
    by (simp add: edgeFuncRoutes_def bestRoute_proxied assms(2) m)
  have c: "bestRoute r (if ef_ChalaUpstream fl \<noteq> [] then edgeChalaRoutes (ef_Region fl) (ef_ChalaUpstream fl) else []) best = best" for best
    by (simp add: route_tables bestRoute_proxied assms(2) m)
  have n: "bestRoute r (if ef_NacheUpstream fl \<noteq> [] then edgeNacheRoutes (ef_Region fl) (ef_NacheUpstream fl) else []) best = best" for best
    by (simp add: route_tables bestRoute_proxied assms(2) m)
  show ?thesis using assms(1) by (simp only: serviceRoutes_def bestRoute_append f c n not_False_eq_True if_True)
qed

lemma func_target:
  assumes "NewTable (fd_Region opts) (edgeRoutes b opts) = Inr t" "fd_Routes opts = serviceRoutes fl" "ef_FuncUpstream fl \<noteq> []"
    "hr_Path r = invokePrefix @ rest"
  shows "TargetFor t r p = Inr tg \<longleftrightarrow> functionName (hr_Path r) \<noteq> [] \<and> \<not> containsAny (functionName (hr_Path r)) '':*'' \<and>
    tg = \<lparr>tg_Action = ''func:Invoke'', tg_ResourceARN = formatArn ''func'' (ef_Region fl) (pr_AccountId p) ''function'' (functionName (hr_Path r))\<rparr>"
proof -
  have t: "tb_routes t = edgeRoutes b opts" using assms(1) by (auto simp: NewTable_Inr)
  have "hr_Path r = CHR ''/'' # CHR ''f'' # (CHR ''/'' # rest)" by (simp add: assms(4) invokePrefix_def)
  from edge_services [OF this, of b opts] have "table_Match t r =
      Some (proxied ''func'' [] ''/f/'' ''func:Invoke'' (PathResource (ef_Region fl) ''func'' ''function'' ''/f/'') (ef_FuncUpstream fl))"
    using func_route [OF assms(3,4)] by (simp add: table_Match_def t assms(2))
  then show ?thesis
    using functionName_PathResource [of "ef_Region fl" "''func''" "''function''" r p]
    by (auto simp: TargetFor_def invokePrefix_def split: if_splits)
qed

text \<open>C12: a function call is served end to end. Whatever the path below \<open>/f/\<close>, the front door and the data plane read the same function out of
  it: if the front door authorizes the call, the token it mints makes the data plane answer 200 with that function, the
  account and the principal of the caller and the very resource that was authorized, until the token expires; then, or
  for any other function of the path, the answer is 403.\<close>
theorem func_calls_are_served:
  assumes "NewTable (fd_Region opts) (edgeRoutes b opts) = Inr t" "fd_Routes opts = serviceRoutes fl" "ef_FuncUpstream fl \<noteq> []"
    and "hr_Path r = invokePrefix @ rest" "TargetFor t r p = Inr tg"
    and "is_account_id (pr_AccountId p)" "plainSegment (ef_Region fl)"
    and "Mint w m t0 (claimsFor r p tg) = Inr token" "marshalToken w token = Some raw"
    and "wire_ok w" "m_keyID m \<noteq> []" "lookup (v_keys v) (m_keyID m) = Some (minter_PublicKey w m)"
    and "header_Get (hr_Header r') CapabilityHeader = stdEncode raw" "hr_Path r' = invokePrefix @ rest'" "functionName (hr_Path r') \<noteq> []"
    and "run (guardedHandler w clock (NewGuard v ''func'' (ef_Region fl)) ''func'' r') (emptyRw, s) = (out, (rw, s'))"
  shows "out = Done \<and> s' = s \<and>
    (if functionName (hr_Path r') = functionName (hr_Path r) \<and> unixMilli (clock s - v_Skew v) \<le> unixMilli (t0 + m_ttl m)
     then rw_status rw = 200 \<and>
       rw_body rw = [Msg [(''served'', functionName (hr_Path r)), (''account_id'', pr_AccountId p), (''principal_arn'', pr_PrincipalArn p),
         (''action'', ''func:Invoke''), (''resource_arn'', tg_ResourceARN tg), (''request_id'', header_Get (hr_Header r') RequestIDHeader)]]
     else rw_status rw = 403)"
proof -
  have tg: "functionName (hr_Path r) \<noteq> []" "tg = \<lparr>tg_Action = ''func:Invoke'', tg_ResourceARN =
      formatArn ''func'' (ef_Region fl) (pr_AccountId p) ''function'' (functionName (hr_Path r))\<rparr>"
    using func_target [OF assms(1-4), of p tg] assms(5) by simp_all
  let ?g = "NewGuard v ''func'' (ef_Region fl)" and ?c = "claimsFor r p tg"
  let ?i = "\<lambda>n. \<lparr>in_Action = ''func:Invoke'', in_ResourceType = ''function'', in_ResourceID = n\<rparr>"
  have g: "gd_verifier ?g = v" "gd_service ?g = ''func''" "gd_region ?g = ef_Region fl" by (simp_all add: NewGuard_def)
  have c: "cl_AccountID ?c = pr_AccountId p" "cl_Action ?c = ''func:Invoke''" "cl_PrincipalARN ?c = pr_PrincipalArn p"
    "cl_ResourceARN ?c = formatArn ''func'' (ef_Region fl) (pr_AccountId p) ''function'' (functionName (hr_Path r))"
    by (simp_all add: claimsFor_def tg(2))
  have func: "plainSegment ''func''" by (simp add: plainSegment_def)
  have same: "guard_Authorize w ?g (clock s) r' (?i (functionName (hr_Path r))) =
    (if unixMilli (clock s - v_Skew v) \<le> unixMilli (t0 + m_ttl m) then Inr (capabilityOf m t0 ?c)
     else Inl (Errorf ''%w: expired at %d'' [ANum (unixMilli (t0 + m_ttl m))] (Some ErrExpired)))"
    by (subst guard_minted [OF assms(10,8,9,11,13)]) (simp_all add: g c tg(1) assms(6,7,12) func)
  have other: "\<exists>e. guard_Authorize w ?g (clock s) r' (?i n) = Inl e" if "n \<noteq> functionName (hr_Path r)" for n
  proof (cases "guard_Authorize w ?g (clock s) r' (?i n)")
    case (Inr cap)
    note d = guard_AuthorizeD [OF Inr]
    have "tk_KeyId token = m_keyID m" using assms(8) by (auto simp: Mint_Inr)
    with tokenOn_minted [OF assms(10,9) _ assms(13)] assms(11) have tok: "tokenOn w r' = Some token" by simp
    have "unmarshalCap w (tk_CapabilityBytes token) = Some (capabilityOf m t0 ?c)"
      using assms(8,10) by (auto simp: Mint_Inr wire_ok_def protobuf_ok_def)
    then have cap: "cap = capabilityOf m t0 ?c" using d tok by auto
    have "formatArn ''func'' (ef_Region fl) (pr_AccountId p) ''function'' (functionName (hr_Path r)) =
        formatArn ''func'' (ef_Region fl) (pr_AccountId p) ''function'' n"
      using d by (simp add: cap c g)
    from formatArn_inj [OF assms(6,6) func assms(7) _ _ tg(1) _ _ _ this] d that show ?thesis by simp
  qed blast
  show ?thesis
  proof (cases "functionName (hr_Path r') = functionName (hr_Path r)")
    case True
    then show ?thesis using assms(15,16) same
      by (auto simp: guardedHandler_def Let_def echo_writeJSON_def tg(2) c capabilityOf_sel emptyRw_def Write_def WriteHeader_def claimsFor_def)
  next
    case False
    obtain e where e: "guard_Authorize w ?g (clock s) r' (?i (functionName (hr_Path r'))) = Inl e" using other [OF False] by blast
    then show ?thesis using assms(15,16) False
      by (auto simp: guardedHandler_def Let_def echo_writeJSON_def emptyRw_def Write_def WriteHeader_def)
  qed
qed

section \<open>A call for a function\<close>

definition funcFlags :: EdgeFlags where "funcFlags = (edgeDefaults (\<lambda>_. []) [])\<lparr>ef_FuncUpstream := ''http://127.0.0.1:8081''\<rparr>"
definition funcOptions :: Options where "funcOptions = edgeOptions funcFlags sampleWire sampleMinter"

definition callThumb :: request where
  "callThumb = sampleHttpRequest\<lparr>hr_Method := ''POST'', hr_Path := ''/f/thumbnail/large''\<rparr>"

definition thumbTarget :: Target where
  "thumbTarget = \<lparr>tg_Action = ''func:Invoke'', tg_ResourceARN = formatArn ''func'' ''hind-1'' (pr_AccountId samplePrincipal) ''function'' ''thumbnail''\<rparr>"

lemma run_parts:
  fixes m :: "('a \<times> unit, 'b) state"
  obtains out rw where "run m x = (out, (rw, ()))"
proof (cases "run m x")
  case (fields out rw u)
  then show thesis using that by simp
qed

lemma func_calls_are_served_witness:
  "\<exists>raw rw. run (guardedHandler sampleWire (\<lambda>_. 0) (NewGuard (NewVerifier [(''k1'', replicate 32 CHR ''s'')]) ''func'' ''hind-1'') ''func''
       (callThumb\<lparr>hr_Header := [(CapabilityHeader, [stdEncode raw])]\<rparr>)) (emptyRw, ()) = (Done, (rw, ())) \<and> rw_status rw = 200"
proof -
  have o: "fd_Routes funcOptions = serviceRoutes funcFlags" "ef_FuncUpstream funcFlags \<noteq> []" "ef_Region funcFlags = ''hind-1''"
    by (simp_all add: funcOptions_def edgeOptions_def funcFlags_def edgeDefaults_def envOr_def)
  obtain t where t: "NewTable (fd_Region funcOptions) (edgeRoutes sampleBackend funcOptions) = Inr t"
    using edge_table [of funcOptions sampleBackend] serviceRoutes_wf [of funcFlags] by (auto simp: o(1))
  have r: "hr_Path callThumb = invokePrefix @ ''thumbnail/large''" "functionName (hr_Path callThumb) = ''thumbnail''"
    by (simp_all add: callThumb_def invokePrefix_def functionName_def trimPrefix_def)
  have tg: "TargetFor t callThumb samplePrincipal = Inr thumbTarget"
    unfolding func_target [OF t o(1,2) r(1)] by (simp add: r(2) thumbTarget_def o(3) containsAny_def)
  have p: "is_account_id (pr_AccountId samplePrincipal)" "plainSegment (ef_Region funcFlags)"
    by (simp_all add: samplePrincipal_def is_account_id_def isDigit_def plainSegment_def o(3))
  let ?claims = "claimsFor callThumb samplePrincipal thumbTarget"
  obtain token where token: "Mint sampleWire sampleMinter 0 ?claims = Inr token" by (auto simp: Mint_def sampleWire_def)
  obtain raw where raw: "marshalToken sampleWire token = Some raw" by (simp add: sampleWire_def)
  let ?v = "NewVerifier [(''k1'', replicate 32 CHR ''s'')]" and ?r = "callThumb\<lparr>hr_Header := [(CapabilityHeader, [stdEncode raw])]\<rparr>"
  have k: "m_keyID sampleMinter \<noteq> []" "lookup (v_keys ?v) (m_keyID sampleMinter) = Some (minter_PublicKey sampleWire sampleMinter)"
    "header_Get (hr_Header ?r) CapabilityHeader = stdEncode raw" "hr_Path ?r = invokePrefix @ ''thumbnail/large''"
    by (simp_all add: sampleMinter_def NewVerifier_def minter_PublicKey_def sampleWire_def header_Get_def r(1))
  have n: "functionName (hr_Path ?r) \<noteq> []" using r(2) by simp
  obtain out rw where h: "run (guardedHandler sampleWire (\<lambda>_. 0) (NewGuard ?v ''func'' (ef_Region funcFlags)) ''func'' ?r) (emptyRw, ()) = (out, (rw, ()))"
    by (rule run_parts)
  have u: "unixMilli (0 - v_Skew ?v) \<le> unixMilli (0 + m_ttl sampleMinter)"
    by (simp add: sampleMinter_def NewVerifier_def CapabilityTTL_def unixMilli_def)
  have e: "functionName (hr_Path ?r) = functionName (hr_Path callThumb)" by simp
  have "out = Done" "rw_status rw = 200"
    using func_calls_are_served [OF t o(1,2) r(1) tg p token raw sampleWire_ok k n h] u e by (simp_all only: if_True simp_thms)
  then show ?thesis using h unfolding o(3) by blast
qed

end
