(* ===== verification/Migrate.thy ===== *)
theory Migrate
  imports Db
begin

text \<open>
  The schema of the control-plane database (\<open>internal/store/store.go\<close>): the embedded migrations, applied at startup by
  every process that opens the database, each in a transaction of its own together with the row that records it.

  What the SQL of a migration does to the rest of the database is the database's, and is given as a function on
  its contents; the embedded files are given as a directory and a reader. A statement may fail, as in \<open>Db\<close>.
\<close>

section \<open>The database as migrations see it\<close>

record 'd schema =
  sc_Applied :: "string list option"
  sc_Tables :: 'd

record 'd mworld =
  mw_schema :: "'d schema"
  mw_faults :: "fault option list"

record 'd migrationFS =
  fs_ReadDir :: "err + (string \<times> bool) list"
  fs_ReadFile :: "string \<Rightarrow> err + string"
  fs_Exec :: "string \<Rightarrow> 'd \<Rightarrow> err + 'd"

definition pgUndefinedTable :: string where "pgUndefinedTable = ''42P01''"

definition mfault :: "'d mworld \<Rightarrow> err option" where
  "mfault w = (case mw_faults w of [] \<Rightarrow> None | f # _ \<Rightarrow> map_option faultErr f)"

definition mpop :: "'d mworld \<Rightarrow> 'd mworld" where "mpop w = w\<lparr>mw_faults := tl (mw_faults w)\<rparr>"

definition msql :: "('d schema \<Rightarrow> err + 'a \<times> 'd schema) \<Rightarrow> ('d mworld, err + 'a) state" where
  "msql f = State (\<lambda>w.
     case mfault w of
       Some e \<Rightarrow> (Inl e, mpop w)
     | None \<Rightarrow> (case f (mw_schema w) of Inl e \<Rightarrow> (Inl e, mpop w) | Inr (a, s) \<Rightarrow> (Inr a, (mpop w)\<lparr>mw_schema := s\<rparr>)))"

lemma mpop_schema [simp]: "mw_schema (mpop w) = mw_schema w"
  by (simp add: mpop_def)

lemma run_msql:
  "run (msql f) w =
     (case mfault w of
       Some e \<Rightarrow> (Inl e, mpop w)
     | None \<Rightarrow> (case f (mw_schema w) of Inl e \<Rightarrow> (Inl e, mpop w) | Inr (a, s) \<Rightarrow> (Inr a, (mpop w)\<lparr>mw_schema := s\<rparr>)))"
  by (simp add: msql_def)

text \<open>The transaction: what to come back to, and a commit that may fail.\<close>

definition m_Begin :: "('d mworld, err + 'd schema) state" where "m_Begin = msql (\<lambda>s. Inr (s, s))"

definition m_Rollback :: "'d schema \<Rightarrow> ('d mworld, unit) state" where
  "m_Rollback snap = modify (\<lambda>w. w\<lparr>mw_schema := snap\<rparr>)"

definition m_Commit :: "'d schema \<Rightarrow> ('d mworld, err + unit) state" where
  "m_Commit snap = do {
     c \<leftarrow> msql (\<lambda>s. Inr ((), s));
     case c of Inl e \<Rightarrow> do { m_Rollback snap; ret (Inl e) } | Inr _ \<Rightarrow> ret (Inr ())
   }"

section \<open>The operations\<close>

definition migrationNames :: "'d migrationFS \<Rightarrow> err + string list" where
  "migrationNames fs =
     (case fs_ReadDir fs of
        Inl e \<Rightarrow> Inl (Errorf ''store: read migrations: %w'' [] (Some e))
      | Inr entries \<Rightarrow> Inr (sort (map fst (filter (\<lambda>(name, isDir). \<not> isDir) entries))))"

text \<open>\<open>CREATE TABLE IF NOT EXISTS\<close>, and \<open>INSERT ... ON CONFLICT DO NOTHING\<close> with the number of rows inserted.\<close>

definition createMigrations :: "'d schema \<Rightarrow> err + unit \<times> 'd schema" where
  "createMigrations s = Inr ((), case sc_Applied s of None \<Rightarrow> s\<lparr>sc_Applied := Some []\<rparr> | Some _ \<Rightarrow> s)"

definition recordMigration :: "string \<Rightarrow> 'd schema \<Rightarrow> err + nat \<times> 'd schema" where
  "recordMigration name s =
     (case sc_Applied s of
        None \<Rightarrow> Inl (PgErr pgUndefinedTable)
      | Some ns \<Rightarrow> if name \<in> set ns then Inr (0, s) else Inr (1, s\<lparr>sc_Applied := Some (ns @ [name])\<rparr>))"

definition applyBody :: "'d migrationFS \<Rightarrow> string \<Rightarrow> 'd schema \<Rightarrow> err + unit \<times> 'd schema" where
  "applyBody fs body s = (case fs_Exec fs body (sc_Tables s) of Inl e \<Rightarrow> Inl e | Inr d \<Rightarrow> Inr ((), s\<lparr>sc_Tables := d\<rparr>))"

text \<open>The body of the loop, for one migration.\<close>

definition migrateOne :: "'d migrationFS \<Rightarrow> string \<Rightarrow> ('d mworld, err option) state" where
  "migrateOne fs name =
     (case fs_ReadFile fs (''migrations/'' @ name) of
        Inl e \<Rightarrow> ret (Some (Errorf ''store: read %s: %w'' [AStr name] (Some e)))
      | Inr body \<Rightarrow> do {
          tx \<leftarrow> m_Begin;
          case tx of
            Inl e \<Rightarrow> ret (Some (Errorf ''store: begin %s: %w'' [AStr name] (Some e)))
          | Inr snap \<Rightarrow> do {
              tag \<leftarrow> msql (recordMigration name);
              case tag of
                Inl e \<Rightarrow> do { m_Rollback snap; ret (Some (Errorf ''store: record %s: %w'' [AStr name] (Some e))) }
              | Inr n \<Rightarrow>
                  if n = 0 then do { m_Rollback snap; ret None }
                  else do {
                    done \<leftarrow> msql (applyBody fs body);
                    case done of
                      Inl e \<Rightarrow> do { m_Rollback snap; ret (Some (Errorf ''store: apply %s: %w'' [AStr name] (Some e))) }
                    | Inr _ \<Rightarrow> do {
                        c \<leftarrow> m_Commit snap;
                        case c of
                          Inl e \<Rightarrow> ret (Some (Errorf ''store: commit %s: %w'' [AStr name] (Some e)))
                        | Inr _ \<Rightarrow> ret None
                      }
                  }
            }
        })"

fun migrateAll :: "'d migrationFS \<Rightarrow> string list \<Rightarrow> ('d mworld, err option) state" where
  "migrateAll fs [] = ret None"
| "migrateAll fs (name # names) = do {
     r \<leftarrow> migrateOne fs name;
     case r of Some e \<Rightarrow> ret (Some e) | None \<Rightarrow> migrateAll fs names
   }"

definition createTable :: "('d mworld, err option) state" where
  "createTable = do {
     r \<leftarrow> msql createMigrations;
     case r of
       Inl e \<Rightarrow> ret (Some (Errorf ''store: create schema_migrations: %w'' [] (Some e)))
     | Inr _ \<Rightarrow> ret None
   }"

definition store_Migrate :: "'d migrationFS \<Rightarrow> ('d mworld, err option) state" where
  "store_Migrate fs = do {
     r \<leftarrow> createTable;
     case r of
       Some e \<Rightarrow> ret (Some e)
     | None \<Rightarrow> (case migrationNames fs of Inl e \<Rightarrow> ret (Some e) | Inr names \<Rightarrow> migrateAll fs names)
   }"

section \<open>One migration\<close>

text \<open>What a list of migrations does to the contents, one after the other.\<close>

fun applyMigrations :: "'d migrationFS \<Rightarrow> string list \<Rightarrow> 'd \<Rightarrow> err + 'd" where
  "applyMigrations fs [] d = Inr d"
| "applyMigrations fs (n # ns) d =
     andThen (fs_ReadFile fs (''migrations/'' @ n)) (\<lambda>body. andThen (fs_Exec fs body d) (applyMigrations fs ns))"

lemma applyMigrations_snoc:
  "applyMigrations fs (ns @ [n]) d =
     andThen (applyMigrations fs ns d) (\<lambda>d'. andThen (fs_ReadFile fs (''migrations/'' @ n)) (\<lambda>body. fs_Exec fs body d'))"
proof (induction ns arbitrary: d)
  case Nil
  have "andThen r Inr = r" for r :: "err + 'a" by (cases r) simp_all
  moreover have "applyMigrations fs [] = Inr" by (rule ext) simp
  ultimately show ?case by (simp del: append_Cons)
next
  case (Cons m ns)
  then show ?case by (simp add: andThen_def split: sum.split)
qed

lemma schema_parts: "(s :: 'd schema)\<lparr>sc_Applied := a, sc_Tables := d\<rparr> = \<lparr>sc_Applied = a, sc_Tables = d\<rparr>"
  by (cases s) simp

text \<open>A step of the loop leaves the schema as it was, with an error or because the migration was already there; or it
  records the migration and applies its body, both.\<close>

lemma migrateOne_cases:
  assumes "run (migrateOne fs n) w = (r, w')"
  shows "mw_schema w' = mw_schema w \<and> (r = None \<longrightarrow> (\<exists>ns. sc_Applied (mw_schema w) = Some ns \<and> n \<in> set ns)) \<or>
    (\<exists>ns body d. r = None \<and> sc_Applied (mw_schema w) = Some ns \<and> n \<notin> set ns \<and> fs_ReadFile fs (''migrations/'' @ n) = Inr body \<and>
      fs_Exec fs body (sc_Tables (mw_schema w)) = Inr d \<and> mw_schema w' = \<lparr>sc_Applied = Some (ns @ [n]), sc_Tables = d\<rparr>)"
  using assms
  by (auto simp: migrateOne_def m_Begin_def m_Commit_def m_Rollback_def run_msql recordMigration_def applyBody_def schema_parts
      split: sum.splits option.splits if_splits prod.splits simp del: append_Cons)

section \<open>Processes that migrate at once\<close>

text \<open>
  Any number of processes, each at some point of its own run. The transactions of two processes that record the same
  migration do not overlap, since the second insert waits for the first transaction to end: so a step of the loop is one
  step of the system, whatever statements of it fail. A process may die between two steps, and be started again.
\<close>

datatype phase = Starting | Pending "string list" | Ended "err option"

inductive mstep :: "'d migrationFS \<Rightarrow> 'd schema \<times> (nat \<Rightarrow> phase) \<Rightarrow> 'd schema \<times> (nat \<Rightarrow> phase) \<Rightarrow> bool" for fs where
  start: "ph i = Starting \<Longrightarrow> run createTable \<lparr>mw_schema = s, mw_faults = f\<rparr> = (r, w) \<Longrightarrow>
    mstep fs (s, ph) (mw_schema w, ph(i := case r of Some e \<Rightarrow> Ended (Some e)
      | None \<Rightarrow> (case migrationNames fs of Inl e \<Rightarrow> Ended (Some e) | Inr names \<Rightarrow> Pending names)))"
| advance: "ph i = Pending (n # ns) \<Longrightarrow> run (migrateOne fs n) \<lparr>mw_schema = s, mw_faults = f\<rparr> = (r, w) \<Longrightarrow>
    mstep fs (s, ph) (mw_schema w, ph(i := case r of Some e \<Rightarrow> Ended (Some e) | None \<Rightarrow> Pending ns))"
| finish: "ph i = Pending [] \<Longrightarrow> mstep fs (s, ph) (s, ph(i := Ended None))"
| die: "mstep fs (s, ph) (s, ph(i := Ended (Some e)))"
| restart: "mstep fs (s, ph) (s, ph(i := Starting))"

inductive_cases mstepE: "mstep fs c c'"

text \<open>The state of the database: a prefix of the migrations in name order, recorded and applied.\<close>

definition appliedUpTo :: "'d migrationFS \<Rightarrow> string list \<Rightarrow> 'd \<Rightarrow> nat \<Rightarrow> 'd schema \<Rightarrow> bool" where
  "appliedUpTo fs names d k s \<longleftrightarrow> k \<le> length names \<and> applyMigrations fs (take k names) d = Inr (sc_Tables s) \<and>
     (sc_Applied s = Some (take k names) \<or> k = 0 \<and> sc_Applied s = None)"

definition keepsUp :: "string list \<Rightarrow> nat \<Rightarrow> bool \<Rightarrow> phase \<Rightarrow> bool" where
  "keepsUp names k exists p = (case p of
     Starting \<Rightarrow> True
   | Pending ns \<Rightarrow> exists \<and> (\<exists>j \<le> k. ns = drop j names)
   | Ended None \<Rightarrow> exists \<and> k = length names
   | Ended (Some _) \<Rightarrow> True)"

lemma keepsUp_mono: "keepsUp names k ex p \<Longrightarrow> k \<le> k' \<Longrightarrow> k' \<le> length names \<Longrightarrow> (ex \<Longrightarrow> ex') \<Longrightarrow> keepsUp names k' ex' p"
  by (auto simp: keepsUp_def split: phase.splits option.splits intro: le_trans)

definition migInv :: "'d migrationFS \<Rightarrow> string list \<Rightarrow> 'd \<Rightarrow> 'd schema \<times> (nat \<Rightarrow> phase) \<Rightarrow> bool" where
  "migInv fs names d c \<longleftrightarrow> (\<exists>k. appliedUpTo fs names d k (fst c) \<and> (\<forall>i. keepsUp names k (sc_Applied (fst c) \<noteq> None) (snd c i)))"

lemma createTable_run:
  "run createTable w = (r, w') \<Longrightarrow>
     (r = None \<longrightarrow> sc_Applied (mw_schema w') \<noteq> None) \<and> sc_Tables (mw_schema w') = sc_Tables (mw_schema w) \<and>
     (sc_Applied (mw_schema w') = sc_Applied (mw_schema w) \<or> sc_Applied (mw_schema w) = None \<and> sc_Applied (mw_schema w') = Some [])"
  by (auto simp: createTable_def run_msql createMigrations_def split: option.splits sum.splits)

lemma migrateOne_advances:
  assumes "distinct names" "appliedUpTo fs names d k s" "j \<le> k" "drop j names = n # ns" "sc_Applied s \<noteq> None"
    "run (migrateOne fs n) \<lparr>mw_schema = s, mw_faults = f\<rparr> = (r, w)"
  shows "\<exists>k'. k \<le> k' \<and> appliedUpTo fs names d k' (mw_schema w) \<and> sc_Applied (mw_schema w) \<noteq> None \<and>
    (r = None \<longrightarrow> Suc j \<le> k' \<and> ns = drop (Suc j) names)"
proof -
  have j: "j < length names" "n = names ! j" "ns = drop (Suc j) names"
  proof -
    show j: "j < length names" using assms(4) by (metis drop_all linorder_not_le list.distinct(1))
    then show "n = names ! j" "ns = drop (Suc j) names" using assms(4) Cons_nth_drop_Suc [OF j] by simp_all
  qed
  have a: "sc_Applied s = Some (take k names)" and k: "k \<le> length names" and ap: "applyMigrations fs (take k names) d = Inr (sc_Tables s)"
    using assms(2,5) by (auto simp: appliedUpTo_def)
  have mem: "n \<in> set (take k names) \<longleftrightarrow> j < k"
  proof -
    have "n \<in> set (take k names) \<longleftrightarrow> (\<exists>m < k. m < length names \<and> names ! m = names ! j)"
      by (auto simp: in_set_conv_nth j(2))
    then show ?thesis using nth_eq_iff_index_eq [OF assms(1)] j(1) by auto
  qed
  from migrateOne_cases [OF assms(6)] show ?thesis
  proof (elim disjE exE conjE)
    assume "mw_schema w = mw_schema \<lparr>mw_schema = s, mw_faults = f\<rparr>"
      "r = None \<longrightarrow> (\<exists>ns. sc_Applied (mw_schema \<lparr>mw_schema = s, mw_faults = f\<rparr>) = Some ns \<and> n \<in> set ns)"
    then show ?thesis using assms(2,5) a mem j(3) by (intro exI [of _ k]) auto
  next
    fix ns' body d'
    assume c: "sc_Applied (mw_schema \<lparr>mw_schema = s, mw_faults = f\<rparr>) = Some ns'" "n \<notin> set ns'" "fs_ReadFile fs (''migrations/'' @ n) = Inr body"
      "fs_Exec fs body (sc_Tables (mw_schema \<lparr>mw_schema = s, mw_faults = f\<rparr>)) = Inr d'" "mw_schema w = \<lparr>sc_Applied = Some (ns' @ [n]), sc_Tables = d'\<rparr>"
    then have "j = k" using a mem assms(3) by auto
    then have "take (Suc k) names = take k names @ [n]" "Suc k \<le> length names" using j by (simp_all add: take_Suc_conv_app_nth)
    moreover from this have "applyMigrations fs (take (Suc k) names) d = Inr d'" using ap c(3,4) by (simp add: applyMigrations_snoc)
    ultimately show ?thesis using c a j(3) \<open>j = k\<close> by (intro exI [of _ "Suc k"]) (simp add: appliedUpTo_def)
  qed
qed

lemma migInv_update:
  assumes "\<forall>i. keepsUp names k ex (ph i)" "k \<le> k'" "k' \<le> length names" "ex \<Longrightarrow> ex'" "keepsUp names k' ex' p"
  shows "\<forall>j. keepsUp names k' ex' ((ph(i := p)) j)"
  using assms(5) keepsUp_mono [OF spec [OF assms(1)] assms(2,3,4)] by simp

lemma migInv_free:
  assumes "migInv fs names d (s, ph)" "\<And>k ex. keepsUp names k ex p"
  shows "migInv fs names d (s, ph(i := p))"
proof -
  obtain k where "appliedUpTo fs names d k s" "\<forall>i. keepsUp names k (sc_Applied s \<noteq> None) (ph i)"
    using assms(1) by (auto simp: migInv_def)
  then show ?thesis using assms(2) unfolding migInv_def fst_conv snd_conv by (intro exI [of _ k]) simp
qed

lemma mstep_keeps:
  assumes "migrationNames fs = Inr names" "distinct names" "mstep fs c c'" "migInv fs names d c"
  shows "migInv fs names d c'"
  using assms(3)
proof (cases rule: mstep.cases)
  case (start ph i s f r w)
  obtain k where k: "appliedUpTo fs names d k s" "\<forall>i. keepsUp names k (sc_Applied s \<noteq> None) (ph i)"
    using assms(4) start(1) by (auto simp: migInv_def)
  note c = createTable_run [OF start(4)]
  have "appliedUpTo fs names d k (mw_schema w)" using k(1) c by (auto simp: appliedUpTo_def)
  moreover have "keepsUp names k (sc_Applied (mw_schema w) \<noteq> None) (case r of Some e \<Rightarrow> Ended (Some e)
      | None \<Rightarrow> (case migrationNames fs of Inl e \<Rightarrow> Ended (Some e) | Inr names \<Rightarrow> Pending names))"
    using c assms(1) by (auto simp: keepsUp_def split: option.split intro: exI [of _ 0])
  moreover have "sc_Applied s \<noteq> None \<Longrightarrow> sc_Applied (mw_schema w) \<noteq> None" "k \<le> length names"
    using c k(1) by (auto simp: appliedUpTo_def)
  ultimately have "appliedUpTo fs names d k (mw_schema w)"
    "\<forall>j. keepsUp names k (sc_Applied (mw_schema w) \<noteq> None) ((ph(i := case r of Some e \<Rightarrow> Ended (Some e)
      | None \<Rightarrow> (case migrationNames fs of Inl e \<Rightarrow> Ended (Some e) | Inr names \<Rightarrow> Pending names))) j)"
    by (blast, intro migInv_update [OF k(2) le_refl])
  then show ?thesis using start(2) by (auto simp: migInv_def simp del: fun_upd_apply)
next
  case (advance ph i n ns s f r w)
  obtain k where k: "appliedUpTo fs names d k s" "\<forall>i. keepsUp names k (sc_Applied s \<noteq> None) (ph i)"
    using assms(4) advance(1) by (auto simp: migInv_def)
  then obtain j where j: "j \<le> k" "drop j names = n # ns" "sc_Applied s \<noteq> None"
    using advance(3) by (auto simp: keepsUp_def dest!: spec [of _ i])
  obtain k' where k': "k \<le> k'" "appliedUpTo fs names d k' (mw_schema w)" "sc_Applied (mw_schema w) \<noteq> None"
    "r = None \<longrightarrow> Suc j \<le> k' \<and> ns = drop (Suc j) names"
    using migrateOne_advances [OF assms(2) k(1) j advance(4)] by blast
  have "keepsUp names k' True (case r of Some e \<Rightarrow> Ended (Some e) | None \<Rightarrow> Pending ns)"
    using k'(4) by (auto simp: keepsUp_def split: option.split)
  then have "\<forall>m. keepsUp names k' True ((ph(i := case r of Some e \<Rightarrow> Ended (Some e) | None \<Rightarrow> Pending ns)) m)"
    using migInv_update [OF k(2) k'(1), of True] k'(2) by (auto simp: appliedUpTo_def)
  then have "migInv fs names d (mw_schema w, ph(i := case r of Some e \<Rightarrow> Ended (Some e) | None \<Rightarrow> Pending ns))"
    unfolding migInv_def fst_conv snd_conv using k'(2,3) by (intro exI [of _ k']) (simp del: fun_upd_apply)
  then show ?thesis by (simp only: advance(2))
next
  case (finish ph i s)
  obtain k where k: "appliedUpTo fs names d k s" "\<forall>i. keepsUp names k (sc_Applied s \<noteq> None) (ph i)"
    using assms(4) finish(1) by (auto simp: migInv_def)
  then have "sc_Applied s \<noteq> None \<and> k = length names"
    using finish(3) spec [OF k(2), of i] by (auto simp: keepsUp_def appliedUpTo_def)
  then have "keepsUp names k (sc_Applied s \<noteq> None) (Ended None)" by (simp add: keepsUp_def)
  then show ?thesis using k finish(2) by (auto simp: migInv_def)
next
  case (die s ph i e)
  then show ?thesis using assms(4) migInv_free [of fs names d s ph "Ended (Some e)" i] by (simp add: keepsUp_def)
next
  case (restart s ph i)
  then show ?thesis using assms(4) migInv_free [of fs names d s ph Starting i] by (simp add: keepsUp_def)
qed

lemma mreach_keeps:
  "(mstep fs)\<^sup>*\<^sup>* c c' \<Longrightarrow> migrationNames fs = Inr names \<Longrightarrow> distinct names \<Longrightarrow> migInv fs names d c \<Longrightarrow> migInv fs names d c'"
  by (induction rule: rtranclp_induct) (simp_all add: mstep_keeps)

text \<open>A run of \<open>Migrate\<close> is such steps of one process.\<close>

lemma mworld_parts: "(w :: 'd mworld) = \<lparr>mw_schema = mw_schema w, mw_faults = mw_faults w\<rparr>"
  by (cases w) simp

lemma migrateAll_steps:
  "run (migrateAll fs ns) w = (r, w') \<Longrightarrow> (mstep fs)\<^sup>*\<^sup>* (mw_schema w, ph(i := Pending ns)) (mw_schema w', ph(i := Ended r))"
proof (induction ns arbitrary: w)
  case Nil
  have "mstep fs (mw_schema w, ph(i := Pending [])) (mw_schema w, ph(i := Ended None))"
    using mstep.finish [of "ph(i := Pending [])" i fs "mw_schema w"] by simp
  then show ?case using Nil by (auto simp del: fun_upd_apply)
next
  case (Cons n ns)
  obtain a v where a: "run (migrateOne fs n) w = (a, v)" by fastforce
  have s: "mstep fs (mw_schema w, ph(i := Pending (n # ns))) (mw_schema v, ph(i := case a of Some e \<Rightarrow> Ended (Some e) | None \<Rightarrow> Pending ns))"
    using mstep.advance [of "ph(i := Pending (n # ns))" i n ns fs "mw_schema w" "mw_faults w" a v] a mworld_parts [of w] by simp
  show ?case
  proof (cases a)
    case None
    then show ?thesis using s Cons.IH [of v] Cons.prems a by (auto intro: converse_rtranclp_into_rtranclp simp del: fun_upd_apply)
  next
    case (Some e)
    then show ?thesis using s Cons.prems a by (auto simp del: fun_upd_apply)
  qed
qed

lemma store_Migrate_steps:
  assumes "run (store_Migrate fs) w = (r, w')"
  shows "(mstep fs)\<^sup>*\<^sup>* (mw_schema w, ph(i := Starting)) (mw_schema w', ph(i := Ended r))"
proof -
  obtain a v where a: "run createTable w = (a, v)" by fastforce
  have s: "mstep fs (mw_schema w, ph(i := Starting)) (mw_schema v, ph(i := case a of Some e \<Rightarrow> Ended (Some e)
      | None \<Rightarrow> (case migrationNames fs of Inl e \<Rightarrow> Ended (Some e) | Inr names \<Rightarrow> Pending names)))"
    using mstep.start [of "ph(i := Starting)" i "mw_schema w" "mw_faults w" a v fs] a mworld_parts [of w] by simp
  consider (failed) e where "a = Some e" | (unnamed) e where "a = None" "migrationNames fs = Inl e"
    | (named) names where "a = None" "migrationNames fs = Inr names" by (cases a; cases "migrationNames fs") auto
  then show ?thesis
  proof cases
    case named
    then show ?thesis using s migrateAll_steps [of fs names v r w' ph i] assms a
      by (auto simp: store_Migrate_def intro: converse_rtranclp_into_rtranclp simp del: fun_upd_apply)
  qed (use s assms a in \<open>auto simp: store_Migrate_def simp del: fun_upd_apply\<close>)
qed

text \<open>C11: however many processes migrate at once, die and start again, and whatever statements fail, the recorded migrations
  are a prefix of the files in name order and the tables are what that prefix makes of the empty ones, each applied once;
  and a run that reports success, started at any such moment, leaves every migration recorded and applied.\<close>
theorem migrations_apply_once_in_order:
  assumes "migrationNames fs = Inr names" "distinct names"
    and "(mstep fs)\<^sup>*\<^sup>* (\<lparr>sc_Applied = None, sc_Tables = d\<rparr>, \<lambda>_. Starting) (s, ph)"
  shows "(\<exists>k. appliedUpTo fs names d k s) \<and>
    (\<forall>w r w'. run (store_Migrate fs) w = (r, w') \<longrightarrow> mw_schema w = s \<longrightarrow>
      (\<exists>k. appliedUpTo fs names d k (mw_schema w')) \<and>
      (r = None \<longrightarrow> sc_Applied (mw_schema w') = Some names \<and> applyMigrations fs names d = Inr (sc_Tables (mw_schema w'))))"
proof -
  have "migInv fs names d (\<lparr>sc_Applied = None, sc_Tables = d\<rparr>, \<lambda>_. Starting)"
    by (auto simp: migInv_def appliedUpTo_def keepsUp_def intro!: exI [of _ 0])
  note inv = mreach_keeps [OF assms(3,1,2) this]
  have "(\<exists>k. appliedUpTo fs names d k (mw_schema w')) \<and>
      (r = None \<longrightarrow> sc_Applied (mw_schema w') = Some names \<and> applyMigrations fs names d = Inr (sc_Tables (mw_schema w')))"
    if "run (store_Migrate fs) w = (r, w')" "mw_schema w = s" for w r w'
  proof -
    have "migInv fs names d (s, (\<lambda>_. Starting)(0 := Starting))" using inv migInv_free [of fs names d s ph Starting 0]
      by (auto simp: migInv_def keepsUp_def)
    from mreach_keeps [OF store_Migrate_steps [OF that(1), unfolded that(2)] assms(1,2) this]
    obtain k where k: "appliedUpTo fs names d k (mw_schema w')" "keepsUp names k (sc_Applied (mw_schema w') \<noteq> None) (Ended r)"
      by (auto simp: migInv_def dest!: spec [of _ 0])
    have "k = length names \<and> sc_Applied (mw_schema w') \<noteq> None" if "r = None" using k(2) that by (simp add: keepsUp_def)
    then show ?thesis using k(1) by (auto simp: appliedUpTo_def)
  qed
  then show ?thesis using inv by (auto simp: migInv_def)
qed

section \<open>A run cut short, and another\<close>

definition sampleFS :: "string list migrationFS" where
  "sampleFS = \<lparr>fs_ReadDir = Inr [(''0002_keys.sql'', False), (''0001_accounts.sql'', False), (''old'', True)],
     fs_ReadFile = Inr, fs_Exec = (\<lambda>body d. Inr (d @ [body]))\<rparr>"

definition cutShort :: "string list mworld" where
  "cutShort = final_of (store_Migrate sampleFS) \<lparr>mw_schema = \<lparr>sc_Applied = None, sc_Tables = []\<rparr>,
     mw_faults = [None, None, None, None, None, Some (ConnError ''gone'')]\<rparr>"

lemma migrations_apply_once_in_order_witness:
  "sc_Applied (mw_schema cutShort) = Some [''0001_accounts.sql''] \<and>
   (\<exists>w'. run (store_Migrate sampleFS) (cutShort\<lparr>mw_faults := []\<rparr>) = (None, w') \<and>
     sc_Applied (mw_schema w') = Some [''0001_accounts.sql'', ''0002_keys.sql''])"
proof -
  let ?w = "\<lparr>mw_schema = \<lparr>sc_Applied = None, sc_Tables = []\<rparr>, mw_faults = [None, None, None, None, None, Some (ConnError ''gone'')]\<rparr> :: string list mworld"
  obtain r where r: "run (store_Migrate sampleFS) ?w = (r, cutShort)" by (auto simp: cutShort_def prod_eq_iff)
  have n: "migrationNames sampleFS = Inr [''0001_accounts.sql'', ''0002_keys.sql'']" by code_simp
  have d: "distinct [''0001_accounts.sql'', ''0002_keys.sql'']" by simp
  have still: "(\<lambda>_. Starting)(0 := Starting) = (\<lambda>_ :: nat. Starting)" by (rule ext) simp
  have reach: "(mstep sampleFS)\<^sup>*\<^sup>* (\<lparr>sc_Applied = None, sc_Tables = []\<rparr>, \<lambda>_. Starting) (mw_schema cutShort, (\<lambda>_. Starting)(0 := Ended r))"
    using store_Migrate_steps [OF r, of "\<lambda>_. Starting" 0] unfolding still by simp
  let ?v = "cutShort\<lparr>mw_faults := []\<rparr>"
  have "result_of (store_Migrate sampleFS) ?v = None" by code_simp
  then obtain w' where w': "run (store_Migrate sampleFS) ?v = (None, w')" by (metis prod.collapse)
  have "sc_Applied (mw_schema w') = Some [''0001_accounts.sql'', ''0002_keys.sql'']"
    using migrations_apply_once_in_order [OF n d reach] w' by auto
  moreover have "sc_Applied (mw_schema cutShort) = Some [''0001_accounts.sql'']" by code_simp
  ultimately show ?thesis using w' by blast
qed

end
