(* ===== verification/Nache_Wake.thy ===== *)
theory Nache_Wake
  imports Nache_Convergence
begin

text \<open>
  The wake channel of the reconciler (\<open>internal/nache/reconciler.go\<close>), shared by the loop that waits on it and by whatever
  calls \<open>Wake\<close>, with each access to the field \<open>wake\<close> as a step of its own. The accesses are taken to be
  sequentially consistent, which is more than Go promises of them.
\<close>

text \<open>Where a call of \<open>wakeCh\<close> is: before the test for nil, before the channel is made, before the field is returned.\<close>

datatype chanCall = AtCheck | AtMake | AtReturn
datatype callerAt = Idle | Asking chanCall | Sending nat
datatype loopAt = Starting chanCall | Passing nat | Waiting nat | Finished

text \<open>
  Channels are numbered as they are made, and hold at most one element. \<open>rw_unheard\<close> and \<open>rw_calls\<close> are not part of
  the program: whether a call of \<open>Wake\<close> has returned since the last pass began, and how many have.
\<close>

record 'f wakeWorld =
  rw_wake :: "nat option"
  rw_made :: nat
  rw_full :: "nat \<Rightarrow> bool"
  rw_loop :: loopAt
  rw_caller :: "nat \<Rightarrow> callerAt"
  rw_events :: "wakeUp list"
  rw_world :: "'f nworld"
  rw_unheard :: bool
  rw_calls :: nat

definition atRest :: "'f nworld \<Rightarrow> 'f wakeWorld" where
  "atRest w = \<lparr>rw_wake = None, rw_made = 0, rw_full = (\<lambda>_. False), rw_loop = Starting AtCheck, rw_caller = (\<lambda>_. Idle),
     rw_events = [], rw_world = w, rw_unheard = False, rw_calls = 0\<rparr>"

fun wakeCh :: "chanCall \<Rightarrow> 'f wakeWorld \<Rightarrow> (chanCall + nat) \<times> 'f wakeWorld" where
  "wakeCh AtCheck s = (Inl (if rw_wake s = None then AtMake else AtReturn), s)"
| "wakeCh AtMake s = (Inl AtReturn, s\<lparr>rw_wake := Some (rw_made s), rw_made := Suc (rw_made s)\<rparr>)"
| "wakeCh AtReturn s = (case rw_wake s of Some ch \<Rightarrow> Inr ch | None \<Rightarrow> Inl AtReturn, s)"

text \<open>The send of \<open>Wake\<close>: into an empty buffer, else not at all.\<close>

definition trySend :: "nat \<Rightarrow> 'f wakeWorld \<Rightarrow> 'f wakeWorld" where
  "trySend ch s = (if rw_full s ch then s else s\<lparr>rw_full := (rw_full s)(ch := True)\<rparr>)"

definition beginPass :: "nat \<Rightarrow> wakeUp list \<Rightarrow> 'f wakeWorld \<Rightarrow> 'f wakeWorld" where
  "beginPass ch evs s = s\<lparr>rw_loop := Passing ch, rw_events := rw_events s @ evs, rw_unheard := False\<rparr>"

inductive loopStep :: "('c::linorder, 'f) Reconciler \<Rightarrow> 'f wakeWorld \<Rightarrow> 'f wakeWorld \<Rightarrow> bool" for rc where
  asks: "rw_loop s = Starting c \<Longrightarrow> wakeCh c s = (Inl c', s') \<Longrightarrow> loopStep rc s (s'\<lparr>rw_loop := Starting c'\<rparr>)"
| asked: "rw_loop s = Starting c \<Longrightarrow> wakeCh c s = (Inr ch, s') \<Longrightarrow> loopStep rc s (beginPass ch [] s')"
| passed: "rw_loop s = Passing ch \<Longrightarrow> loopStep rc s (s\<lparr>rw_loop := Waiting ch, rw_world := final_of (Pass rc) (rw_world s)\<rparr>)"
| ended: "rw_loop s = Waiting ch \<Longrightarrow> loopStep rc s (s\<lparr>rw_loop := Finished, rw_events := rw_events s @ [CtxDone]\<rparr>)"
| ticked: "rw_loop s = Waiting ch \<Longrightarrow> loopStep rc s (beginPass ch [PeriodTick] s)"
| woken: "rw_loop s = Waiting ch \<Longrightarrow> rw_full s ch \<Longrightarrow>
    loopStep rc s (beginPass ch [Woken] (s\<lparr>rw_full := (rw_full s)(ch := False)\<rparr>))"

inductive callerStep :: "nat \<Rightarrow> 'f wakeWorld \<Rightarrow> 'f wakeWorld \<Rightarrow> bool" for i where
  calls: "rw_caller s i = Idle \<Longrightarrow> callerStep i s (s\<lparr>rw_caller := (rw_caller s)(i := Asking AtCheck)\<rparr>)"
| asks: "rw_caller s i = Asking c \<Longrightarrow> wakeCh c s = (Inl c', s') \<Longrightarrow>
    callerStep i s (s'\<lparr>rw_caller := (rw_caller s)(i := Asking c')\<rparr>)"
| asked: "rw_caller s i = Asking c \<Longrightarrow> wakeCh c s = (Inr ch, s') \<Longrightarrow>
    callerStep i s (s'\<lparr>rw_caller := (rw_caller s)(i := Sending ch)\<rparr>)"
| sends: "rw_caller s i = Sending ch \<Longrightarrow>
    callerStep i s ((trySend ch s)\<lparr>rw_caller := (rw_caller s)(i := Idle), rw_unheard := True, rw_calls := Suc (rw_calls s)\<rparr>)"

definition wakeStep :: "('c::linorder, 'f) Reconciler \<Rightarrow> 'f wakeWorld \<Rightarrow> 'f wakeWorld \<Rightarrow> bool" where
  "wakeStep rc s s' \<longleftrightarrow> loopStep rc s s' \<or> (\<exists>i. callerStep i s s')"

inductive_cases loopStepE: "loopStep rc s s'"
inductive_cases callerStepE: "callerStep i s s'"

lemma wakeStepE:
  assumes "wakeStep rc s s'"
  obtains (loop) "loopStep rc s s'" | (caller) i where "callerStep i s s'"
  using assms unfolding wakeStep_def by blast

subsection \<open>The loop is \<open>Run\<close> over what woke it\<close>

definition endsOf :: "('c::linorder, 'f) Reconciler \<Rightarrow> nat \<Rightarrow> 'f nworld \<Rightarrow> 'f nworld" where
  "endsOf rc n = final_of (Pass rc) ^^ n"

lemma endsOf_Suc: "endsOf rc (Suc n) w = final_of (Pass rc) (endsOf rc n w)"
  by (simp add: endsOf_def)

lemma endsOf_0: "endsOf rc 0 w = w"
  by (simp add: endsOf_def)

lemma endsOf_swap: "endsOf rc (Suc n) w = endsOf rc n (final_of (Pass rc) w)"
  by (simp add: endsOf_def funpow_Suc_right del: funpow.simps)

lemma final_Run:
  "final_of (Run rc evs) w = endsOf rc (Suc (length (takeWhile (\<lambda>e. e \<noteq> CtxDone) evs))) w"
  by (induction evs arbitrary: w) (simp_all add: endsOf_swap endsOf_0 split_beta)

text \<open>The world is what the events so far made of it, at every point of the loop.\<close>

definition follows :: "('c::linorder, 'f) Reconciler \<Rightarrow> 'f nworld \<Rightarrow> 'f wakeWorld \<Rightarrow> bool" where
  "follows rc w s \<longleftrightarrow>
     (case rw_loop s of
        Starting _ \<Rightarrow> rw_events s = [] \<and> rw_world s = w
      | Passing _ \<Rightarrow> CtxDone \<notin> set (rw_events s) \<and> rw_world s = endsOf rc (length (rw_events s)) w
      | Waiting _ \<Rightarrow> CtxDone \<notin> set (rw_events s) \<and> rw_world s = endsOf rc (Suc (length (rw_events s))) w
      | Finished \<Rightarrow> (\<exists>evs. rw_events s = evs @ [CtxDone] \<and> CtxDone \<notin> set evs \<and> rw_world s = endsOf rc (Suc (length evs)) w))"

lemma wakeCh_frame:
  "wakeCh c s = (r, s') \<Longrightarrow> rw_full s' = rw_full s \<and> rw_loop s' = rw_loop s \<and> rw_caller s' = rw_caller s \<and> rw_events s' = rw_events s
     \<and> rw_world s' = rw_world s \<and> rw_unheard s' = rw_unheard s \<and> rw_calls s' = rw_calls s"
  by (cases c) auto

lemma trySend_frame [simp]:
  "rw_wake (trySend ch s) = rw_wake s" "rw_made (trySend ch s) = rw_made s" "rw_loop (trySend ch s) = rw_loop s"
  "rw_caller (trySend ch s) = rw_caller s" "rw_events (trySend ch s) = rw_events s" "rw_world (trySend ch s) = rw_world s"
  "rw_unheard (trySend ch s) = rw_unheard s" "rw_calls (trySend ch s) = rw_calls s"
  "rw_full (trySend ch s) = (rw_full s)(ch := True)"
  by (auto simp: trySend_def fun_eq_iff)

lemma callerStep_frame:
  assumes "callerStep i s s'"
  shows "rw_loop s' = rw_loop s" "rw_events s' = rw_events s" "rw_world s' = rw_world s"
  using assms by (auto elim!: callerStepE dest!: wakeCh_frame)

lemma follows_step:
  assumes "wakeStep rc s s'" "follows rc w s"
  shows "follows rc w s'"
  using assms(1)
proof (cases rule: wakeStepE)
  case loop
  then show ?thesis
    using assms(2) by cases (auto simp: follows_def beginPass_def endsOf_Suc endsOf_0 dest!: wakeCh_frame)
next
  case (caller i)
  then show ?thesis
    using assms(2) callerStep_frame [OF caller] by (cases "rw_loop s") (simp_all add: follows_def)
qed

lemma follows_steps: "(wakeStep rc)\<^sup>*\<^sup>* s s' \<Longrightarrow> follows rc w s \<Longrightarrow> follows rc w s'"
  by (induction rule: rtranclp_induct) (auto intro: follows_step)

lemma follows_Run:
  assumes "follows rc w s" "rw_loop s = Finished \<or> rw_loop s = Waiting ch"
  shows "rw_world s = final_of (Run rc (rw_events s)) w"
proof -
  have "takeWhile (\<lambda>e. e \<noteq> CtxDone) (evs @ l) = evs" if "CtxDone \<notin> set evs" "l = [] \<or> l = [CtxDone]" for evs l
    using that by (induction evs) auto
  from this [of _ "[]"] this [of _ "[CtxDone]"] assms show ?thesis by (auto simp: follows_def final_Run simp del: takeWhile_eq_all_conv)
qed

subsection \<open>Wakes\<close>

text \<open>
  Once the field holds a channel that the loop, too, waits on, every caller sends into that channel; a call that returned
  since the last pass began has left it full, and no more passes were woken than calls were made.
\<close>

definition hears :: "nat \<Rightarrow> callerAt \<Rightarrow> bool" where
  "hears ch c \<longleftrightarrow> c \<in> {Idle, Asking AtCheck, Asking AtReturn, Sending ch}"

definition tuned :: "nat \<Rightarrow> 'f wakeWorld \<Rightarrow> bool" where
  "tuned ch s \<longleftrightarrow> rw_wake s = Some ch \<and> rw_loop s \<in> {Passing ch, Waiting ch, Finished} \<and> (\<forall>i. hears ch (rw_caller s i)) \<and>
     (rw_unheard s \<longrightarrow> rw_full s ch) \<and> count_list (rw_events s) Woken + (if rw_full s ch then 1 else 0) \<le> rw_calls s"

lemma tuned_loopStep: "loopStep rc s s' \<Longrightarrow> tuned ch s \<Longrightarrow> tuned ch s'"
  by (auto elim!: loopStepE simp: tuned_def beginPass_def split: if_splits)

lemma hears_step:
  assumes "callerStep i s s'" "rw_wake s = Some b" "hears b (rw_caller s i)"
  shows "\<exists>at. hears b at \<and> (s' = s\<lparr>rw_caller := (rw_caller s)(i := at)\<rparr> \<or>
    s' = (trySend b s)\<lparr>rw_caller := (rw_caller s)(i := at), rw_unheard := True, rw_calls := Suc (rw_calls s)\<rparr>)"
  using assms(1)
proof cases
  case calls
  then show ?thesis by (intro exI [of _ "Asking AtCheck"]) (simp add: hears_def)
next
  case (asks c c' t)
  then have "c = AtCheck \<or> c = AtReturn" using assms(3) by (auto simp: hears_def)
  then show ?thesis using asks assms(2) by (intro exI [of _ "Asking c'"]) (auto simp: hears_def)
next
  case (asked c ch t)
  then have "c = AtCheck \<or> c = AtReturn" using assms(3) by (auto simp: hears_def)
  then show ?thesis using asked assms(2) by (intro exI [of _ "Sending ch"]) (auto simp: hears_def)
next
  case (sends ch)
  then have "ch = b" using assms(3) by (simp add: hears_def)
  then show ?thesis using sends by (intro exI [of _ Idle]) (simp add: hears_def)
qed

lemma tuned_callerStep:
  assumes "callerStep i s s'" "tuned ch s"
  shows "tuned ch s'"
proof -
  have "rw_wake s = Some ch" "hears ch (rw_caller s i)" using assms(2) by (simp_all add: tuned_def)
  from hears_step [OF assms(1) this] assms(2) show ?thesis by (auto simp: tuned_def split: if_splits)
qed

lemma tuned_steps: "(wakeStep rc)\<^sup>*\<^sup>* s s' \<Longrightarrow> tuned ch s \<Longrightarrow> tuned ch s'"
  by (induction rule: rtranclp_induct) (auto elim!: wakeStepE intro: tuned_loopStep tuned_callerStep)

text \<open>The state in which the loop has its channel, before the first call.\<close>

definition loopStarted :: "'f nworld \<Rightarrow> 'f wakeWorld" where
  "loopStarted w = (atRest w)\<lparr>rw_wake := Some 0, rw_made := 1, rw_loop := Passing 0\<rparr>"

lemma loop_starts: "(loopStep rc)\<^sup>*\<^sup>* (atRest w) (loopStarted w)"
proof -
  let ?a = "(atRest w)\<lparr>rw_loop := Starting AtMake\<rparr>" and ?b = "(atRest w)\<lparr>rw_wake := Some 0, rw_made := 1, rw_loop := Starting AtReturn\<rparr>"
  have "loopStep rc (atRest w) ?a" 
    using loopStep.asks [of "atRest w" AtCheck AtMake "atRest w" rc] by (simp add: atRest_def)
  moreover have "loopStep rc ?a ?b" 
    using loopStep.asks [of ?a AtMake AtReturn "(atRest w)\<lparr>rw_wake := Some 0, rw_made := 1, rw_loop := Starting AtMake\<rparr>" rc] by (simp add: atRest_def)
  moreover have "loopStep rc ?b (loopStarted w)"
    using loopStep.asked [of ?b AtReturn 0 ?b rc] by (simp add: atRest_def beginPass_def loopStarted_def)
  ultimately show ?thesis by (meson converse_rtranclp_into_rtranclp rtranclp.rtrancl_refl)
qed

lemma loopFirst: "loopStep rc s s' \<Longrightarrow> (wakeStep rc)\<^sup>*\<^sup>* s' t \<Longrightarrow> (wakeStep rc)\<^sup>*\<^sup>* s t"
  unfolding wakeStep_def by (rule converse_rtranclp_into_rtranclp) auto

lemma callerFirst: "callerStep i s s' \<Longrightarrow> (wakeStep rc)\<^sup>*\<^sup>* s' t \<Longrightarrow> (wakeStep rc)\<^sup>*\<^sup>* s t"
  unfolding wakeStep_def by (rule converse_rtranclp_into_rtranclp) auto

text \<open>C20: whatever calls of \<open>Wake\<close> race with the loop once it has its channel, the world the loop works on is what \<open>Run\<close> makes of the
  events that ended its waits; while a call has returned since the last pass began, the loop never just waits: the next pass can
  begin without a tick; and passes that were woken never outnumber the calls.\<close>
theorem wakes_are_heard:
  assumes "(wakeStep rc)\<^sup>*\<^sup>* (loopStarted w) s"
  shows "(rw_loop s = Waiting ch \<or> rw_loop s = Finished \<longrightarrow> rw_world s = final_of (Run rc (rw_events s)) w) \<and>
    (rw_loop s = Waiting ch \<and> rw_unheard s \<longrightarrow>
       (\<exists>s'. loopStep rc s s' \<and> rw_loop s' = Passing ch \<and> rw_events s' = rw_events s @ [Woken])) \<and>
    count_list (rw_events s) Woken \<le> rw_calls s"
proof (intro conjI impI)
  have f: "follows rc w s"
    using assms by (rule follows_steps) (simp add: follows_def loopStarted_def atRest_def endsOf_def)
  have t: "tuned 0 s"
    using assms by (rule tuned_steps) (simp add: tuned_def loopStarted_def atRest_def hears_def)
  show "rw_world s = final_of (Run rc (rw_events s)) w" if "rw_loop s = Waiting ch \<or> rw_loop s = Finished"
    using follows_Run [OF f] that by blast
  show "count_list (rw_events s) Woken \<le> rw_calls s" using t by (simp add: tuned_def split: if_splits)
  show "\<exists>s'. loopStep rc s s' \<and> rw_loop s' = Passing ch \<and> rw_events s' = rw_events s @ [Woken]" if "rw_loop s = Waiting ch \<and> rw_unheard s"
    using that t loopStep.woken [of s ch rc] by (auto simp: tuned_def beginPass_def)
qed

subsection \<open>What the loop achieves\<close>

text \<open>The situation that every pass leaves as it finds it: a quiet database, tagged nodes, and the same clusters that should exist.\<close>

definition steady :: "('c::linorder, 'f) Reconciler \<Rightarrow> ('f \<Rightarrow> string \<Rightarrow> Instance option) \<Rightarrow> 'f nworld \<Rightarrow> 'f nworld \<Rightarrow> bool" where
  "steady rc tbl w w' \<longleftrightarrow> quietDb (rc_Store rc) w' \<and> wellTagged (nw_rows w') (tbl (nw_fleet w')) \<and> live (nw_rows w') = live (nw_rows w)"

lemma Pass_steady:
  assumes wb: "wellBehaved rc tbl" and st: "steady rc tbl w v"
  obtains v' where "final_of (Pass rc) v = v'" "steady rc tbl w v'"
    "\<And>k. live (nw_rows w) k \<Longrightarrow> nodeGoal k (tbl (nw_fleet v) (nodeFor k)) (tbl (nw_fleet v') (nodeFor k))"
    "\<And>n. (\<And>k. live (nw_rows w) k \<Longrightarrow> n \<noteq> nodeFor k) \<Longrightarrow> tbl (nw_fleet v') n = None"
proof -
  have s: "quietDb (rc_Store rc) v" "wellTagged (nw_rows v) (tbl (nw_fleet v))" "live (nw_rows v) = live (nw_rows w)"
    using st by (simp_all add: steady_def)
  obtain v' where v': "run (Pass rc) v = (None, v')" "quietDb (rc_Store rc) v'"
    "\<forall>k. live (nw_rows v) k \<longrightarrow> nodeGoal k (tbl (nw_fleet v) (nodeFor k)) (tbl (nw_fleet v') (nodeFor k))"
    "\<forall>n. (\<forall>k. live (nw_rows v) k \<longrightarrow> n \<noteq> nodeFor k) \<longrightarrow> tbl (nw_fleet v') n = None"
    "\<forall>k. stateOf (fst k) (snd k) (nw_rows v') = (case stateOf (fst k) (snd k) (nw_rows v) of None \<Rightarrow> None | Some s \<Rightarrow> stateGoal (tbl (nw_fleet v) (nodeFor k)) s)"
    using Pass_reliable [OF wb s(1,2)] by (elim exE conjE) (rule that)
  have l: "live (nw_rows v') = live (nw_rows w)" using live_after [OF v'(5) [rule_format]] s(3) by auto
  have "nodeKeyOf i = k" if "live (nw_rows w) k" "tbl (nw_fleet v') (nodeFor k) = Some i" for k i
    using v'(3) [rule_format, of k] nodeGoal_tag s(2,3) that unfolding wellTagged_def by metis
  then have "steady rc tbl w v'" using v'(2) l by (simp add: steady_def wellTagged_def)
  with v' show ?thesis by (intro that [of v']) (auto simp: s(3))
qed

lemma passes_steady:
  assumes "wellBehaved rc tbl" "steady rc tbl w w"
  shows "steady rc tbl w (endsOf rc n w)"
proof (induction n)
  case (Suc n)
  then show ?case by (metis Pass_steady [OF assms(1)] endsOf_Suc)
qed (simp add: endsOf_0 assms(2))

lemma passes_settle:
  assumes wb: "wellBehaved rc tbl" and st: "steady rc tbl w w" and n: "2 \<le> n"
  shows "tbl (nw_fleet (endsOf rc n w)) name \<noteq> None \<longleftrightarrow> (\<exists>k. live (nw_rows w) k \<and> name = NodeName (fst k) (snd k))"
proof -
  obtain m where m: "n = Suc (Suc m)" using n by (metis Suc_le_D numeral_2_eq_2 Suc_le_mono)
  let ?v = "endsOf rc m w"
  obtain v1 where v1: "final_of (Pass rc) ?v = v1" "steady rc tbl w v1"
    "\<And>k. live (nw_rows w) k \<Longrightarrow> nodeGoal k (tbl (nw_fleet ?v) (nodeFor k)) (tbl (nw_fleet v1) (nodeFor k))"
    by (rule Pass_steady [OF wb passes_steady [OF wb st, of m]]) blast
  obtain v2 where v2: "final_of (Pass rc) v1 = v2" "steady rc tbl w v2"
    "\<And>k. live (nw_rows w) k \<Longrightarrow> nodeGoal k (tbl (nw_fleet v1) (nodeFor k)) (tbl (nw_fleet v2) (nodeFor k))"
    "\<And>n. (\<And>k. live (nw_rows w) k \<Longrightarrow> n \<noteq> nodeFor k) \<Longrightarrow> tbl (nw_fleet v2) n = None"
    by (rule Pass_steady [OF wb v1(2)]) blast
  have there: "tbl (nw_fleet v2) (nodeFor k) \<noteq> None" if "live (nw_rows w) k" for k
  proof -
    have "nodeKeyOf i = k \<and> settledNode i" if i: "tbl (nw_fleet v1) (nodeFor k) = Some i" for i
      using v1(3) [OF \<open>live (nw_rows w) k\<close>] v1(2) nodeGoal_once i \<open>live (nw_rows w) k\<close> nodeGoal_tag
        passes_steady [OF wb st, of m] unfolding steady_def wellTagged_def by metis
    with nodeGoal_twice [OF v2(3) [OF that]] show ?thesis by auto
  qed
  have e: "endsOf rc n w = v2" by (simp add: m endsOf_Suc v1(1) v2(1))
  show ?thesis unfolding e
  proof (cases "\<exists>k. live (nw_rows w) k \<and> name = nodeFor k")
    case True
    then show "(tbl (nw_fleet v2) name \<noteq> None) = (\<exists>k. live (nw_rows w) k \<and> name = nodeFor k)" using there by auto
  next
    case False
    then show "(tbl (nw_fleet v2) name \<noteq> None) = (\<exists>k. live (nw_rows w) k \<and> name = nodeFor k)" using v2(4) [of name] by auto
  qed
qed

text \<open>A loop that has made two passes over a reliable compute service holds exactly the instances that should exist, whatever ended its waits.\<close>

lemma loop_settles:
  assumes "wellBehaved rc tbl" "steady rc tbl w w"
    and "(wakeStep rc)\<^sup>*\<^sup>* (loopStarted w) s" "rw_loop s = Waiting ch \<and> rw_events s \<noteq> [] \<or> rw_loop s = Finished \<and> 2 \<le> length (rw_events s)"
  shows "tbl (nw_fleet (rw_world s)) name \<noteq> None \<longleftrightarrow> (\<exists>k. live (nw_rows w) k \<and> name = NodeName (fst k) (snd k))"
proof -
  have "follows rc w s"
    using assms(3) by (rule follows_steps) (simp add: follows_def loopStarted_def atRest_def endsOf_def)
  then have "rw_world s = endsOf rc (if rw_loop s = Finished then length (rw_events s) else Suc (length (rw_events s))) w"
    using assms(4) by (auto simp: follows_def)
  moreover have "2 \<le> (if rw_loop s = Finished then length (rw_events s) else Suc (length (rw_events s)))"
    using assms(4) by (cases "rw_events s") auto
  ultimately show ?thesis using passes_settle [OF assms(1,2)] by simp
qed

lemma wakes_are_heard_witness:
  "\<exists>s s'. (wakeStep sampleReconciler)\<^sup>*\<^sup>* (loopStarted messyWorld) s \<and> rw_unheard s \<and> rw_loop s = Waiting 0 \<and>
     loopStep sampleReconciler s s' \<and> rw_loop s' = Passing 0 \<and> rw_events s' = [Woken]"
proof -
  let ?w = "loopStarted messyWorld"
  let ?t = "\<lambda>at s. s\<lparr>rw_caller := (\<lambda>_. Idle)(7 := at)\<rparr>"
  let ?s4 = "?w\<lparr>rw_caller := (\<lambda>_. Idle)(7 := Idle), rw_full := (\<lambda>_. False)(0 := True), rw_unheard := True, rw_calls := 1\<rparr>"
  let ?s5 = "?s4\<lparr>rw_loop := Waiting 0, rw_world := final_of (Pass sampleReconciler) messyWorld\<rparr>"
  have st1: "callerStep 7 ?w (?t (Asking AtCheck) ?w)" using callerStep.calls [of ?w 7] by (simp add: loopStarted_def atRest_def)
  have st2: "callerStep 7 (?t (Asking AtCheck) ?w) (?t (Asking AtReturn) ?w)"
    using callerStep.asks [of "?t (Asking AtCheck) ?w" 7 AtCheck AtReturn "?t (Asking AtCheck) ?w"] by (simp add: loopStarted_def atRest_def)
  have st3: "callerStep 7 (?t (Asking AtReturn) ?w) (?t (Sending 0) ?w)"
    using callerStep.asked [of "?t (Asking AtReturn) ?w" 7 AtReturn 0 "?t (Asking AtReturn) ?w"] by (simp add: loopStarted_def atRest_def)
  have st4: "callerStep 7 (?t (Sending 0) ?w) ?s4"
    using callerStep.sends [of "?t (Sending 0) ?w" 7 0] by (simp add: loopStarted_def atRest_def trySend_def)
  have st5: "loopStep sampleReconciler ?s4 ?s5"
    using loopStep.passed [of ?s4 0 sampleReconciler] by (simp add: loopStarted_def atRest_def)
  have path: "(wakeStep sampleReconciler)\<^sup>*\<^sup>* ?w ?s5"
    by (rule callerFirst [OF st1], rule callerFirst [OF st2], rule callerFirst [OF st3], rule callerFirst [OF st4], rule loopFirst [OF st5],
        rule rtranclp.rtrancl_refl)
  obtain s' where s': "loopStep sampleReconciler ?s5 s'" "rw_loop s' = Passing 0" "rw_events s' = rw_events ?s5 @ [Woken]"
    using wakes_are_heard [OF path, of 0, THEN conjunct2, THEN conjunct1] by auto
  show ?thesis
    by (rule exI [of _ ?s5], rule exI [of _ s'], intro conjI, rule path, simp, simp, rule s'(1), rule s'(2), simp add: s'(3) loopStarted_def atRest_def)
qed

subsection \<open>The first call may be the last one heard\<close>

text \<open>
  The field is tested and set in two steps, so a first call of \<open>Wake\<close> that runs beside the start of the loop can replace
  the channel that the loop took. Every later call then sends into a channel nobody receives from.
\<close>

definition deaf :: "nat \<Rightarrow> nat \<Rightarrow> 'f wakeWorld \<Rightarrow> bool" where
  "deaf a b s \<longleftrightarrow> a \<noteq> b \<and> rw_wake s = Some b \<and> rw_loop s \<in> {Passing a, Waiting a, Finished} \<and>
     (\<forall>i. hears b (rw_caller s i)) \<and> \<not> rw_full s a \<and> Woken \<notin> set (rw_events s)"

lemma deaf_loopStep: "loopStep rc s s' \<Longrightarrow> deaf a b s \<Longrightarrow> deaf a b s'"
  by (auto elim!: loopStepE simp: deaf_def beginPass_def)

lemma deaf_callerStep:
  assumes "callerStep i s s'" "deaf a b s"
  shows "deaf a b s'"
proof -
  have "rw_wake s = Some b" "hears b (rw_caller s i)" using assms(2) by (simp_all add: deaf_def)
  from hears_step [OF assms(1) this] assms(2) show ?thesis by (auto simp: deaf_def split: if_splits)
qed

lemma deaf_steps: "(wakeStep rc)\<^sup>*\<^sup>* s s' \<Longrightarrow> deaf a b s \<Longrightarrow> deaf a b s'"
  by (induction rule: rtranclp_induct) (auto elim!: wakeStepE intro: deaf_loopStep deaf_callerStep)

theorem first_wake_can_be_lost:
  "\<exists>s. (wakeStep rc)\<^sup>*\<^sup>* (atRest w) s \<and> rw_calls s = 1 \<and>
     (\<forall>s'. (wakeStep rc)\<^sup>*\<^sup>* s s' \<longrightarrow> Woken \<notin> set (rw_events s') \<and> (\<forall>s''. loopStep rc s' s'' \<longrightarrow> Woken \<notin> set (rw_events s'')))"
proof -
  let ?c = "\<lambda>at s. s\<lparr>rw_caller := (\<lambda>_. Idle)(0 := at)\<rparr>"
  let ?s1 = "?c (Asking AtCheck) (atRest w)" and ?s2 = "(?c (Asking AtCheck) (atRest w))\<lparr>rw_loop := Starting AtMake\<rparr>"
  let ?s3 = "(?c (Asking AtMake) (atRest w))\<lparr>rw_loop := Starting AtMake\<rparr>"
  let ?s4 = "(?c (Asking AtMake) (atRest w))\<lparr>rw_wake := Some 0, rw_made := 1, rw_loop := Starting AtReturn\<rparr>"
  let ?s5 = "(?c (Asking AtMake) (atRest w))\<lparr>rw_wake := Some 0, rw_made := 1, rw_loop := Passing 0\<rparr>"
  let ?s6 = "(?c (Asking AtReturn) (atRest w))\<lparr>rw_wake := Some 1, rw_made := 2, rw_loop := Passing 0\<rparr>"
  let ?s7 = "(?c (Sending 1) (atRest w))\<lparr>rw_wake := Some 1, rw_made := 2, rw_loop := Passing 0\<rparr>"
  let ?s8 = "(?c Idle (atRest w))\<lparr>rw_wake := Some 1, rw_made := 2, rw_loop := Passing 0, rw_full := (\<lambda>_. False)(1 := True), rw_unheard := True, rw_calls := 1\<rparr>"
  have st1: "callerStep 0 (atRest w) ?s1" using callerStep.calls [of "atRest w" 0] by (simp add: atRest_def)
  have st2: "loopStep rc ?s1 ?s2" using loopStep.asks [of ?s1 AtCheck AtMake ?s1 rc] by (simp add: atRest_def)
  have st3: "callerStep 0 ?s2 ?s3" using callerStep.asks [of ?s2 0 AtCheck AtMake ?s2] by (simp add: atRest_def)
  have st4: "loopStep rc ?s3 ?s4"
    using loopStep.asks [of ?s3 AtMake AtReturn "?s3\<lparr>rw_wake := Some 0, rw_made := 1\<rparr>" rc] by (simp add: atRest_def)
  have st5: "loopStep rc ?s4 ?s5" using loopStep.asked [of ?s4 AtReturn 0 ?s4 rc] by (simp add: atRest_def beginPass_def)
  have st6: "callerStep 0 ?s5 ?s6"
    using callerStep.asks [of ?s5 0 AtMake AtReturn "?s5\<lparr>rw_wake := Some 1, rw_made := 2\<rparr>"] by (simp add: atRest_def)
  have st7: "callerStep 0 ?s6 ?s7" using callerStep.asked [of ?s6 0 AtReturn 1 ?s6] by (simp add: atRest_def)
  have st8: "callerStep 0 ?s7 ?s8" using callerStep.sends [of ?s7 0 1] by (simp add: atRest_def trySend_def)
  have path: "(wakeStep rc)\<^sup>*\<^sup>* (atRest w) ?s8"
    by (rule callerFirst [OF st1], rule loopFirst [OF st2], rule callerFirst [OF st3], rule loopFirst [OF st4], rule loopFirst [OF st5],
        rule callerFirst [OF st6], rule callerFirst [OF st7], rule callerFirst [OF st8], rule rtranclp.rtrancl_refl)
  have "deaf 0 1 ?s8" by (simp add: deaf_def atRest_def hears_def)
  with path show ?thesis
    by (intro exI [of _ ?s8]) (auto dest!: deaf_steps deaf_loopStep simp: deaf_def)
qed

end
