(* ===== verification/E5.thy ===== *)
theory E5
  imports Dariyactl
begin

text \<open>
  The measurement harness (\<open>cmd/e5/main.go\<close>): its instruments and what it reports. A probe on the customer's network
  logs a line per attempt, the daemon stamps the lines, and the report is computed from them; meanwhile the harness
  polls the cluster's record with signed requests and counts the instances that are tagged for it. Starting
  and killing the other programs is left out.
\<close>

definition e5FrontDoor :: string where "e5FrontDoor = ''http://127.0.0.1:8080''"
definition e5Region :: string where "e5Region = ''hind-1''"

text \<open>
  What the harness measures into, under its lock. A state that is logged keeps the time it was seen at; \<open>json\<close>
  and the network are libraries.
\<close>

record measured =
  ms_maxNodes :: nat
  ms_stateLog :: "(time \<times> string) list"
  ms_lastState :: string

record 's harness =
  hn_account :: string
  hn_svc :: string
  hn_cluster :: string
  hn_cred :: Credentials
  hn_docker :: "'s daemon"
  hn_HTTP :: "outRequest \<Rightarrow> ('s, err + nat \<times> bytes) state"
  hn_civil :: "'s \<Rightarrow> civil"
  hn_Cluster :: "bytes \<Rightarrow> string \<times> string list"

definition onSystem :: "('s, 'a) state \<Rightarrow> ('s \<times> measured, 'a) state" where
  "onSystem m = State (\<lambda>(s, ms). case run m s of (a, s') \<Rightarrow> (a, (s', ms)))"

lemma run_onSystem [simp]: "run_state (onSystem m) (s, ms) = (result_of m s, (final_of m s, ms))"
  by (simp add: onSystem_def split: prod.split)

definition onMeasured :: "(measured \<Rightarrow> measured) \<Rightarrow> ('s \<times> measured, unit) state" where
  "onMeasured f = State (\<lambda>(s, ms). ((), (s, f ms)))"

lemma run_onMeasured [simp]: "run_state (onMeasured f) (s, ms) = ((), (s, f ms))"
  by (simp add: onMeasured_def)

section \<open>Instruments\<close>

definition observe :: "time \<Rightarrow> string \<Rightarrow> measured \<Rightarrow> measured" where
  "observe now st ms = (if st \<noteq> ms_lastState ms then ms\<lparr>ms_lastState := st, ms_stateLog := ms_stateLog ms @ [(now, st)]\<rparr> else ms)"

definition e5_note :: "time \<Rightarrow> string \<Rightarrow> measured \<Rightarrow> measured" where
  "e5_note now st = observe now ([CHR 0xE2, CHR 0x80, CHR 0x94] @ '' '' @ st)"

definition probeScript :: "string \<Rightarrow> string" where
  "probeScript ep =
     (let q = [CHR 0x27]; b = [CHR 0x5C]; crlf = b @ ''r'' @ b @ ''n'' in
      ''while :; do\<newline>  if printf '' @ q @ ''*1'' @ crlf @ ''$4'' @ crlf @ ''PING'' @ crlf @ q @ '' | nc -w 1 '' @ ep @
      '' 6379 2>/dev/null | grep -q PONG; then echo ok; else echo fail; fi\<newline>  sleep 0.05\<newline>done'')"

definition startProbe :: "'s harness \<Rightarrow> ('s, err + string) state" where
  "startProbe h = do {
     r \<leftarrow> CreateContainer (hn_docker h) (''e5-probe-'' @ hn_cluster h)
       \<lparr>sp_Image = ''busybox:1.36'', sp_Cmd = [''sh'', ''-c'', probeScript (Endpoint (hn_account h) (hn_cluster h))], sp_Env = [],
         sp_Labels = [(''dariya.e5'', hn_cluster h)], sp_Network = ''dariya-acct-'' @ hn_account h, sp_Aliases = [],
         sp_MemoryBytes = 0, sp_PidsLimit = 0, sp_Healthcheck = None\<rparr>;
     case r of
       Inl e \<Rightarrow> ret (Inl (Errorf ''probe: %v (has the account network been created? run any instance once)'' [AErr e] None))
     | Inr i \<Rightarrow> do {
         r \<leftarrow> StartContainer (hn_docker h) i;
         case r of Some e \<Rightarrow> ret (Inl (Errorf ''probe: %v'' [AErr e] None)) | None \<Rightarrow> ret (Inr i)
       }
   }"

text \<open>One turn of the sampling loop: how many of the listed containers can be inspected and are neither exited nor dead.\<close>

fun countRunning :: "'s daemon \<Rightarrow> string list \<Rightarrow> nat \<Rightarrow> ('s, nat) state" where
  "countRunning d [] n = ret n"
| "countRunning d (i # is) n = do {
     c \<leftarrow> InspectContainer d i;
     countRunning d is (case c of Inl _ \<Rightarrow> n | Inr c \<Rightarrow> if ct_Status c \<noteq> ''exited'' \<and> ct_Status c \<noteq> ''dead'' then Suc n else n)
   }"

definition sampleNodes :: "'s harness \<Rightarrow> ('s \<times> measured, unit) state" where
  "sampleNodes h = do {
     ids \<leftarrow> onSystem (ListContainers (hn_docker h) [''dariya.tag.cluster='' @ hn_cluster h, ''dariya.tag.cluster-account='' @ hn_account h]);
     case ids of
       Inl _ \<Rightarrow> ret ()
     | Inr ids \<Rightarrow> do {
         running \<leftarrow> onSystem (countRunning (hn_docker h) ids 0);
         onMeasured (\<lambda>ms. if running > ms_maxNodes ms then ms\<lparr>ms_maxNodes := running\<rparr> else ms)
       }
   }"

text \<open>A request about the run's cluster, signed as the development account. No answer at all is status 0.\<close>

definition e5Request :: "'s harness \<Rightarrow> civil \<Rightarrow> string \<Rightarrow> bytes \<Rightarrow> outRequest" where
  "e5Request h now method body =
     (let path = ''/nache/2026-09-30/clusters/'' @ hn_cluster h;
          (auth, headers) = sg_Sign \<lparr>sr_Method = method, sr_Path = path, sr_Query = [], sr_Body = body\<rparr> (hn_cred h) e5Region ''nache'' now
      in \<lparr>or_Method = method, or_URL = e5FrontDoor @ path, or_Path = path, or_Query = [],
          or_Header = (''Authorization'', auth) # headers, or_Body = body\<rparr>)"

definition e5_call :: "'s harness \<Rightarrow> string \<Rightarrow> bytes \<Rightarrow> ('s, nat \<times> bytes) state" where
  "e5_call h method body = do {
     now \<leftarrow> gets (hn_civil h);
     resp \<leftarrow> hn_HTTP h (e5Request h now method body);
     ret (case resp of Inl _ \<Rightarrow> (0, []) | Inr a \<Rightarrow> a)
   }"

text \<open>
  The polling loop: \<open>polls\<close> is how often it turns before its context is done. The clock is the host's at
  each turn.
\<close>

fun waitFor :: "nat \<Rightarrow> 's harness \<Rightarrow> (string \<Rightarrow> string \<Rightarrow> ('s, bool) state) \<Rightarrow> ('s \<times> measured, err option) state" where
  "waitFor 0 h finished = ret (Some (Sentinel ''timed out waiting for the cluster''))"
| "waitFor (Suc polls) h finished = do {
     answer \<leftarrow> onSystem (e5_call h ''GET'' []);
     now \<leftarrow> onSystem (gets (hn_civil h));
     case answer of (status, body) \<Rightarrow>
       if status = 200 then
         (case hn_Cluster h body of (st, nodes) \<Rightarrow>
           let node = (case nodes of [] \<Rightarrow> [] | n # _ \<Rightarrow> n) in do {
             _ \<leftarrow> onMeasured (observe (unixNano now) (st @ '' / '' @ node));
             yes \<leftarrow> onSystem (finished st node);
             if yes then ret None else waitFor polls h finished
           })
       else waitFor polls h finished
   }"

text \<open>What ends the waits: the cluster whole again, and in the second run a new container in the node's place.\<close>

definition whole :: "string \<Rightarrow> string \<Rightarrow> bool" where
  "whole st node \<longleftrightarrow> st = ''RESOURCE_STATE_ACTIVE'' \<and> node = ''CACHE_NODE_STATUS_AVAILABLE''"

definition replaced :: "'s harness \<Rightarrow> string \<Rightarrow> string \<Rightarrow> string \<Rightarrow> string \<Rightarrow> ('s, bool) state" where
  "replaced h node beforeID st now_is =
     (if now_is \<noteq> ''CACHE_NODE_STATUS_AVAILABLE'' then ret False
      else do {
        after \<leftarrow> InspectContainer (hn_docker h) node;
        ret (case after of Inl _ \<Rightarrow> False | Inr c \<Rightarrow> ct_ID c \<noteq> beforeID)
      })"

definition e5Node :: "'s harness \<Rightarrow> string" where
  "e5Node h = ''chala-'' @ hn_svc h @ ''-n-'' @ hn_account h @ ''-'' @ hn_cluster h"

section \<open>The report\<close>

text \<open>Go's zero time is the first of January of year one.\<close>

definition zeroTime :: time where "zeroTime = - 62135596800 * second"

record tally =
  ty_firstOK :: time
  ty_lastOK :: time
  ty_gapStart :: time
  ty_gapEnd :: time
  ty_worstGap :: duration
  ty_fails :: nat
  ty_failsAfterFirstOK :: nat

definition noTally :: tally where
  "noTally = \<lparr>ty_firstOK = zeroTime, ty_lastOK = zeroTime, ty_gapStart = zeroTime, ty_gapEnd = zeroTime, ty_worstGap = 0,
     ty_fails = 0, ty_failsAfterFirstOK = 0\<rparr>"

definition tallyLine :: "LogLine \<Rightarrow> tally \<Rightarrow> tally" where
  "tallyLine l t =
     (if ll_Text l = ''ok'' then
        let t = (if ty_firstOK t = zeroTime then t\<lparr>ty_firstOK := ll_Time l\<rparr> else t);
            t = (if ty_lastOK t \<noteq> zeroTime \<and> ll_Time l - ty_lastOK t > ty_worstGap t
                 then t\<lparr>ty_worstGap := ll_Time l - ty_lastOK t, ty_gapStart := ty_lastOK t, ty_gapEnd := ll_Time l\<rparr> else t)
        in t\<lparr>ty_lastOK := ll_Time l\<rparr>
      else if ll_Text l = ''fail'' then
        t\<lparr>ty_fails := Suc (ty_fails t),
          ty_failsAfterFirstOK := (if ty_firstOK t \<noteq> zeroTime then Suc (ty_failsAfterFirstOK t) else ty_failsAfterFirstOK t)\<rparr>
      else t)"

definition tallyLines :: "LogLine list \<Rightarrow> tally" where "tallyLines ls = fold tallyLine ls noTally"

text \<open>\<open>Duration.Round\<close> to milliseconds: half away from zero.\<close>

definition roundMs :: "duration \<Rightarrow> duration" where
  "roundMs d = (if d < 0 then - ((- d + 500000) div 1000000 * 1000000) else (d + 500000) div 1000000 * 1000000)"

definition e5Report :: "string \<Rightarrow> string \<Rightarrow> (string \<times> duration) list \<Rightarrow> measured \<Rightarrow> LogLine list \<Rightarrow> line list" where
  "e5Report which cluster system ms ls =
     (let t = tallyLines ls in
      [Out ''E5 %s -- cluster %s\<newline>\<newline>'' [AStr which, AStr cluster], Out ''observed (host clock):\<newline>'' []] @
      map (\<lambda>(at, st). Out ''  %t  %s\<newline>'' [ANum at, AStr st]) (ms_stateLog ms) @
      [Out ''\<newline>system (host clock):\<newline>'' []] @
      map (\<lambda>key. Out ''  %-40s %s\<newline>'' [AStr key, ANum (roundMs (getOr 0 system key))]) (sort (map fst system)) @
      [Out ''\<newline>client (daemon clock, one PING attempt per ~50ms):\<newline>'' [],
       Out ''  attempts %d, failed %d, failed after the first success %d\<newline>''
         [ANum (int (length ls)), ANum (int (ty_fails t)), ANum (int (ty_failsAfterFirstOK t))]] @
      (if ty_firstOK t = zeroTime then []
       else [Out ''  first success at probe start + %s\<newline>'' [ANum (roundMs (ty_firstOK t - ll_Time (ls ! 0)))]]) @
      [Out ''  longest gap between successes %s'' [ANum (roundMs (ty_worstGap t))]] @
      (if ty_gapStart t = zeroTime then [] else [Out ''  (%t -> %t)'' [ANum (ty_gapStart t), ANum (ty_gapEnd t)]]) @
      [Out ''\<newline>'' [],
       Out ''\<newline>most instances tagged for the cluster at once: %d  %s\<newline>''
         [ANum (int (ms_maxNodes ms)), AStr (if ms_maxNodes ms \<le> 1 then ''(claim holds)'' else ''(DUPLICATE -- the claim fails)'')]])"

definition report :: "'s harness \<Rightarrow> string \<Rightarrow> string \<Rightarrow> (string \<times> duration) list \<Rightarrow> ('s \<times> measured, err + line list) state" where
  "report h probe which system = do {
     ls \<leftarrow> onSystem (docker_Logs (hn_docker h) probe);
     case ls of
       Inl e \<Rightarrow> ret (Inl (Errorf ''probe logs: %v'' [AErr e] None))
     | Inr ls \<Rightarrow> do {
         ms \<leftarrow> gets snd;
         ret (Inr (e5Report which (hn_cluster h) system ms ls))
       }
   }"

section \<open>What the numbers mean\<close>

definition successes :: "LogLine list \<Rightarrow> time list" where
  "successes ls = map ll_Time (filter (\<lambda>l. ll_Text l = ''ok'') ls)"

fun gaps :: "time list \<Rightarrow> duration list" where
  "gaps (a # b # ts) = (b - a) # gaps (b # ts)"
| "gaps ts = []"

lemma gaps_snoc: "gaps (ts @ [t]) = (if ts = [] then [] else gaps ts @ [t - last ts])"
  by (induction ts rule: gaps.induct) auto

lemma tallyLines_snoc: "tallyLines (ls @ [l]) = tallyLine l (tallyLines ls)"
  by (simp add: tallyLines_def)

lemma successes_snoc: "successes (ls @ [l]) = successes ls @ (if ll_Text l = ''ok'' then [ll_Time l] else [])"
  by (simp add: successes_def)

text \<open>The first and the last success, and the counts of failures, are those of the log.\<close>

lemma tally_ends:
  assumes "zeroTime \<notin> set (successes ls)"
  shows "ty_firstOK (tallyLines ls) = (case successes ls of [] \<Rightarrow> zeroTime | t # _ \<Rightarrow> t)"
    and "ty_lastOK (tallyLines ls) = (if successes ls = [] then zeroTime else last (successes ls))"
  using assms
proof (induction ls rule: rev_induct)
  case (snoc l ls)
  { case 1 with snoc show ?case by (auto simp: tallyLines_snoc successes_snoc tallyLine_def Let_def split: list.splits) }
  { case 2 with snoc show ?case by (auto simp: tallyLines_snoc successes_snoc tallyLine_def Let_def) }
qed (simp_all add: tallyLines_def noTally_def successes_def)

lemma tally_fails:
  assumes "zeroTime \<notin> set (successes ls)"
  shows "ty_fails (tallyLines ls) = length (filter (\<lambda>l. ll_Text l = ''fail'') ls)"
    and "ty_failsAfterFirstOK (tallyLines ls) = length (filter (\<lambda>l. ll_Text l = ''fail'') (dropWhile (\<lambda>l. ll_Text l \<noteq> ''ok'') ls))"
  using assms
proof (induction ls rule: rev_induct)
  case (snoc l ls)
  have fresh: "zeroTime \<notin> set (successes ls)" if "zeroTime \<notin> set (successes (ls @ [l]))" using that by (simp add: successes_snoc)
  have started: "ty_firstOK (tallyLines ls) = zeroTime \<longleftrightarrow> (\<forall>l \<in> set ls. ll_Text l \<noteq> ''ok'')" if "zeroTime \<notin> set (successes ls)"
  proof -
    have "ty_firstOK (tallyLines ls) = zeroTime \<longleftrightarrow> successes ls = []"
      using tally_ends(1) [OF that] that by (cases "successes ls") auto
    then show ?thesis by (simp add: successes_def filter_empty_conv)
  qed
  { case 1 with snoc fresh show ?case by (auto simp: tallyLines_snoc tallyLine_def Let_def) }
  { case 2 with snoc fresh started show ?case
      by (auto simp: tallyLines_snoc tallyLine_def Let_def dropWhile_append dropWhile_eq_Nil_conv [THEN iffD2] split: if_splits) }
qed (simp_all add: tallyLines_def noTally_def)

text \<open>
  The longest gap between successes is the greatest difference of two neighbouring ones, and none when there are fewer than
  two; where there is one, the two times reported are two such neighbours.
\<close>

lemma worst_gap:
  assumes "zeroTime \<notin> set (successes ls)"
  shows "ty_worstGap (tallyLines ls) = Max (insert 0 (set (gaps (successes ls))))"
  using assms
proof (induction ls rule: rev_induct)
  case (snoc l ls)
  then have IH: "ty_worstGap (tallyLines ls) = Max (insert 0 (set (gaps (successes ls))))" and z: "zeroTime \<notin> set (successes ls)"
    by (simp_all add: successes_snoc)
  show ?case
  proof (cases "ll_Text l = ''ok'' \<and> successes ls \<noteq> []")
    case True
    let ?d = "ll_Time l - last (successes ls)"
    have "last (successes ls) \<noteq> zeroTime" using z True last_in_set [of "successes ls"] by metis
    then have "ty_worstGap (tallyLines (ls @ [l])) = max ?d (ty_worstGap (tallyLines ls))"
      using True tally_ends(2) [OF z] by (simp add: tallyLines_snoc tallyLine_def Let_def)
    moreover have "insert 0 (set (gaps (successes (ls @ [l])))) = insert ?d (insert 0 (set (gaps (successes ls))))"
      using True by (auto simp: successes_snoc gaps_snoc)
    moreover have "Max (insert ?d (insert 0 (set (gaps (successes ls))))) = max ?d (Max (insert 0 (set (gaps (successes ls)))))"
      by (rule Max_insert) simp_all
    ultimately show ?thesis by (simp only: IH)
  next
    case False
    then show ?thesis
      using IH tally_ends(2) [OF z] by (auto simp: tallyLines_snoc tallyLine_def Let_def successes_snoc gaps_snoc)
  qed
qed (simp add: tallyLines_def noTally_def successes_def)

lemma worst_gap_ends:
  assumes "zeroTime \<notin> set (successes ls)" "ty_worstGap (tallyLines ls) > 0"
  shows "ty_gapEnd (tallyLines ls) - ty_gapStart (tallyLines ls) = ty_worstGap (tallyLines ls) \<and>
    (\<exists>before after. successes ls = before @ [ty_gapStart (tallyLines ls), ty_gapEnd (tallyLines ls)] @ after)"
  using assms
proof (induction ls rule: rev_induct)
  case (snoc l ls)
  let ?t = "tallyLines ls"
  have z: "zeroTime \<notin> set (successes ls)" using snoc.prems(1) by (simp add: successes_snoc)
  show ?case
  proof (cases "ll_Text l = ''ok'' \<and> ty_lastOK ?t \<noteq> zeroTime \<and> ll_Time l - ty_lastOK ?t > ty_worstGap ?t")
    case True
    then have "successes ls = butlast (successes ls) @ [ty_lastOK ?t]" using tally_ends(2) [OF z] by (auto split: if_splits)
    then have "successes (ls @ [l]) = butlast (successes ls) @ [ty_lastOK ?t, ll_Time l] @ []"
      using True by (subst successes_snoc) simp
    moreover have "ty_gapStart (tallyLines (ls @ [l])) = ty_lastOK ?t \<and> ty_gapEnd (tallyLines (ls @ [l])) = ll_Time l \<and>
      ty_worstGap (tallyLines (ls @ [l])) = ll_Time l - ty_lastOK ?t"
      using True by (simp add: tallyLines_snoc tallyLine_def Let_def)
    ultimately show ?thesis by metis
  next
    case False
    then have same: "ty_gapStart (tallyLines (ls @ [l])) = ty_gapStart ?t" "ty_gapEnd (tallyLines (ls @ [l])) = ty_gapEnd ?t"
      "ty_worstGap (tallyLines (ls @ [l])) = ty_worstGap ?t"
      by (auto simp: tallyLines_snoc tallyLine_def Let_def)
    then obtain before after where "ty_gapEnd ?t - ty_gapStart ?t = ty_worstGap ?t" "successes ls = before @ [ty_gapStart ?t, ty_gapEnd ?t] @ after"
      using snoc.IH [OF z] snoc.prems(2) by auto
    then show ?thesis
      unfolding same by (intro conjI exI [of _ before] exI [of _ "after @ (if ll_Text l = ''ok'' then [ll_Time l] else [])"]) (auto simp: successes_snoc)
  qed
qed (simp add: tallyLines_def noTally_def)

text \<open>An outage that lasts to the end of the log lies between no two successes: however long it is, the gap reported stays what it was.\<close>

lemma open_outage_is_not_a_gap:
  assumes "\<forall>l \<in> set outage. ll_Text l = ''fail''"
  shows "ty_worstGap (tallyLines (ls @ outage)) = ty_worstGap (tallyLines ls)"
  using assms by (induction outage rule: rev_induct) (simp_all add: tallyLines_snoc tallyLine_def flip: append_assoc)

text \<open>A sample that fails counts nothing, so a run that never saw an instance reports that there was no duplicate.\<close>

lemma failed_sample_counts_nothing:
  assumes "run (ListContainers (hn_docker h) [''dariya.tag.cluster='' @ hn_cluster h, ''dariya.tag.cluster-account='' @ hn_account h]) s = (Inl e, s')"
  shows "run (sampleNodes h) (s, ms) = ((), (s', ms))"
  using assms by (simp add: sampleNodes_def)

lemma claim_without_a_sample:
  "ms_maxNodes ms = 0 \<Longrightarrow>
     last (e5Report which cluster system ms ls) = Out ''\<newline>most instances tagged for the cluster at once: %d  %s\<newline>'' [ANum 0, AStr ''(claim holds)'']"
  by (simp add: e5Report_def Let_def)

text \<open>The maximum only grows, and is what some sample counted.\<close>

lemma sampleNodes_max:
  "snd (run (sampleNodes h) (s, ms)) = (s', ms') \<Longrightarrow>
     ms_maxNodes ms \<le> ms_maxNodes ms' \<and> ms_stateLog ms' = ms_stateLog ms \<and> ms_lastState ms' = ms_lastState ms"
  by (auto simp: sampleNodes_def split: sum.splits prod.splits if_splits)

text \<open>A state is logged when it changes: no two neighbours of the log are the same, and the last one is the current one.\<close>

definition logged :: "measured \<Rightarrow> bool" where
  "logged ms \<longleftrightarrow> distinct_adj (map snd (ms_stateLog ms)) \<and>
     (if ms_stateLog ms = [] then ms_lastState ms = [] else ms_lastState ms = snd (last (ms_stateLog ms)))"

lemma observe_logged: "logged ms \<Longrightarrow> logged (observe now st ms) \<and> ms_lastState (observe now st ms) = st"
  by (auto simp: logged_def observe_def distinct_adj_append_iff last_map)

text \<open>Every request of the harness is one that the front door's signature check accepts, whatever the cluster is called.\<close>

lemma e5_requests_verify:
  assumes "wf_civil now" "plainField (cr_AccessKeyID (hn_cred h))" "\<bar>serverNow - unixNano (now\<lparr>cv_nsec := 0\<rparr>)\<bar> \<le> MaxSkew"
  shows "\<exists>sig date hash q. e5Request h now method body = q \<and> ParseAuthorization (getOr [] (or_Header q) ''Authorization'') = Inr sig \<and>
    lookup (or_Header q) DateHeader = Some date \<and> lookup (or_Header q) ContentSHA256Header = Some hash \<and>
    sg_Verify \<lparr>vi_Request = \<lparr>sr_Method = or_Method q, sr_Path = or_Path q, sr_Query = or_Query q, sr_Body = or_Body q\<rparr>,
      vi_Signature = sig, vi_DateHeaderValue = date, vi_ContentSHA256Header = hash, vi_Secret = cr_Secret (hn_cred h),
      vi_Region = e5Region, vi_Service = ''nache'', vi_Now = serverNow\<rparr> = Some None"
proof -
  let ?r = "\<lparr>sr_Method = method, sr_Path = ''/nache/2026-09-30/clusters/'' @ hn_cluster h, sr_Query = [], sr_Body = body\<rparr>"
  obtain auth headers where s: "sg_Sign ?r (hn_cred h) e5Region ''nache'' now = (auth, headers)" by fastforce
  have "plainField e5Region" "plainField ''nache''" by (simp_all add: e5Region_def plainField_def char_class_defs)
  then obtain sig date hash where v: "ParseAuthorization auth = Inr sig" "lookup headers DateHeader = Some date"
    "lookup headers ContentSHA256Header = Some hash"
    "sg_Verify \<lparr>vi_Request = ?r, vi_Signature = sig, vi_DateHeaderValue = date, vi_ContentSHA256Header = hash,
      vi_Secret = cr_Secret (hn_cred h), vi_Region = e5Region, vi_Service = ''nache'', vi_Now = serverNow\<rparr> = Some None"
    using signed_request_verifies [OF assms(1,2) _ _ _ assms(3) refl refl refl refl s] by auto
  have q: "or_Header (e5Request h now method body) = (''Authorization'', auth) # headers"
    "\<lparr>sr_Method = or_Method (e5Request h now method body), sr_Path = or_Path (e5Request h now method body),
      sr_Query = or_Query (e5Request h now method body), sr_Body = or_Body (e5Request h now method body)\<rparr> = ?r"
    unfolding e5Request_def Let_def s by simp_all
  show ?thesis
    by (rule exI [of _ sig], rule exI [of _ date], rule exI [of _ hash], rule exI [of _ "e5Request h now method body"])
      (simp only: q v, simp add: getOr_def DateHeader_def ContentSHA256Header_def v [unfolded DateHeader_def ContentSHA256Header_def])
qed

end
